(* ===== verification/Kernel_Prelude.thy ===== *)
theory Kernel_Prelude
  imports Main "HOL-Library.Word" "HOL-Library.Monad_Syntax"
begin

text \<open>
  What the components share: the machine integer types of the C sources, the collections of
  simplification rules, the facts on words that the allocators use (clearing and setting the low
  bit, unsigned addition and subtraction without wrap-around), and the theory of doubly linked
  structures on an address-indexed store.  Addresses are 64-bit words and 0 is the null pointer.
\<close>

unbundle bit_operations_syntax

section \<open>Types and collections\<close>

type_synonym u8 = "8 word"
type_synonym u16 = "16 word"
type_synonym u32 = "32 word"
type_synonym u64 = "64 word"

text \<open>A C \<open>int\<close> is a 32-bit word read through \<^const>\<open>sint\<close>; an address is a \<open>uint64_t\<close>.\<close>

type_synonym cint = "32 word"
type_synonym ptr = "64 word"

abbreviation NUL :: char where
  "NUL \<equiv> CHR 0x00"

abbreviation (input) NULL :: ptr where
  "NULL \<equiv> 0"

definition char_of_byte :: "u8 \<Rightarrow> char" where "char_of_byte b = char_of (unat b)"
definition byte_of_char :: "char \<Rightarrow> u8" where "byte_of_char c = of_nat (of_char c)"

text \<open>The bytes of a number as the processor stores them.\<close>

definition le_bytes :: "nat \<Rightarrow> u64 \<Rightarrow> u8 list" where
  "le_bytes n w = map (\<lambda>i. ucast (drop_bit (8 * i) w)) [0..<n]"

named_theorems store_simps \<open>reading a field after writing a field of an address-indexed store\<close>
named_theorems inv_defs \<open>definitions of the invariants\<close>

section \<open>Words\<close>

lemma unat_add_lt:
  fixes a b :: "'a::len word"
  assumes "unat a + unat b < 2 ^ LENGTH('a)"
  shows "unat (a + b) = unat a + unat b"
  using assms by (simp add: unat_add_lem [symmetric])

lemma unat_sub_le:
  fixes a b :: "'a::len word"
  assumes "b \<le> a"
  shows "unat (a - b) = unat a - unat b"
  using assms by (simp add: unat_sub)

lemma unat_of_nat_64: "n < 2 ^ 64 \<Longrightarrow> unat (of_nat n :: u64) = n"
  by (simp add: unsigned_of_nat take_bit_nat_eq_self)

lemma unat_64_lt: "unat (w :: u64) < 18446744073709551616"
  using unsigned_less [of w, where ?'a = nat] by simp

lemma even_unat_word: "even (unat (w :: 'a::len word)) \<longleftrightarrow> even w"
proof -
  have "bit (unat w) 0 \<longleftrightarrow> bit w 0"
    by (simp add: bit_unsigned_iff)
  then show ?thesis by (simp add: bit_0)
qed

text \<open>The low bit of a word is a flag when the rest of the word is an even size; the simplifier writes
  the mask \<open>NOT 1\<close> as \<open>- 2\<close>.\<close>

lemma clear_low_even [simp]: "even (w :: u64) \<Longrightarrow> w AND - 2 = w"
proof -
  assume "even w"
  then have "w AND NOT 1 = w" by (intro bit_eqI) (auto simp: bit_simps bit_0)
  then show ?thesis by simp
qed

lemma clear_low_or_one [simp]: "even (w :: u64) \<Longrightarrow> (w OR 1) AND - 2 = w"
proof -
  assume "even w"
  then have "(w OR 1) AND NOT 1 = w" by (intro bit_eqI) (auto simp: bit_simps bit_0)
  then show ?thesis by simp
qed

lemma clear_low_is_even [simp]: "even ((w :: u64) AND - 2)"
  by (simp add: even_and_iff)

lemma low_bit_even [simp]: "(w :: u64) AND 1 = 0 \<longleftrightarrow> even w"
  by (simp add: and_one_eq even_iff_mod_2_eq_zero)

lemma even_or_one [simp]: "even ((w :: u64) OR 1) = False"
  by (simp add: even_or_iff)

lemma word_and_not_mask: "(w::'a::len word) AND NOT (mask n) = push_bit n (drop_bit n w)"
  by (rule bit_eqI) (auto simp: bit_simps simp del: mask_Suc_exp)

lemma unat_and_not_15: "unat ((w::u64) AND - 16) = unat w div 16 * 16"
proof -
  have m: "NOT (mask 4) = (- 16 :: u64)" by (simp add: mask_eq_exp_minus_1)
  have "unat w div 16 * 16 \<le> unat w" by simp
  then have "unat w div 16 * 16 < 2 ^ 64" using unat_64_lt [of w] by simp
  then show ?thesis using word_and_not_mask [of w 4, unfolded m] unat_64_lt [of w]
    by (simp add: push_bit_eq_mult drop_bit_eq_div unat_word_ariths unat_div_distrib)
qed

section \<open>Lists\<close>

lemma in_set_tlD: "x \<in> set (tl xs) \<Longrightarrow> x \<in> set xs"
  by (cases xs) auto

lemma snoc_eq_Cons_set: "xs @ [s] = q # ys \<Longrightarrow> insert q (set ys) = insert s (set xs)"
  by (drule arg_cong [of _ _ set]) simp

lemma Cons_eq_snoc_set: "s # xs = ys @ [p] \<Longrightarrow> insert p (set ys) = insert s (set xs)"
  by (drule arg_cong [of _ _ set]) simp

section \<open>Doubly linked structures\<close>

text \<open>
  \<open>links nx pv ns\<close> states that consecutive nodes of \<open>ns\<close> are linked both ways, where the null
  address carries no field.  A null-terminated list of nodes \<open>xs\<close> is \<open>links nx pv (0 # xs @ [0])\<close>;
  a circular list through a sentinel \<open>s\<close> is \<open>links nx pv (s # xs @ [s])\<close>.
\<close>

fun links :: "(ptr \<Rightarrow> ptr) \<Rightarrow> (ptr \<Rightarrow> ptr) \<Rightarrow> ptr list \<Rightarrow> bool" where
  "links nx pv (a # b # ns) \<longleftrightarrow>
     (a \<noteq> 0 \<longrightarrow> nx a = b) \<and> (b \<noteq> 0 \<longrightarrow> pv b = a) \<and> links nx pv (b # ns)"
| "links nx pv _ \<longleftrightarrow> True"

lemma links_append:
  "links nx pv (xs @ m # ys) \<longleftrightarrow> links nx pv (xs @ [m]) \<and> links nx pv (m # ys)"
proof (induction xs)
  case Nil
  then show ?case by simp
next
  case (Cons x xs)
  then show ?case by (cases xs) auto
qed

lemma links_snoc2:
  "links nx pv (xs @ [a, b]) \<longleftrightarrow>
     links nx pv (xs @ [a]) \<and> (a \<noteq> 0 \<longrightarrow> nx a = b) \<and> (b \<noteq> 0 \<longrightarrow> pv b = a)"
  using links_append [of nx pv xs a "[b]"] by simp

text \<open>Only the forward links of all nodes but the last and the backward links of all but the first
  matter.\<close>

lemma links_cong:
  assumes "\<And>a. a \<in> set (butlast ns) \<Longrightarrow> a \<noteq> 0 \<Longrightarrow> nx' a = nx a"
    and "\<And>b. b \<in> set (tl ns) \<Longrightarrow> b \<noteq> 0 \<Longrightarrow> pv' b = pv b"
  shows "links nx' pv' ns = links nx pv ns"
  using assms by (induction nx pv ns rule: links.induct) auto

lemma links_frame:
  assumes "links nx pv ns"
    and "\<And>a. a \<in> set ns \<Longrightarrow> a \<noteq> 0 \<Longrightarrow> nx' a = nx a \<and> pv' a = pv a"
  shows "links nx' pv' ns"
proof -
  have "links nx' pv' ns = links nx pv ns"
    using assms(2) by (intro links_cong) (auto dest: in_set_butlastD in_set_tlD)
  with assms(1) show ?thesis by simp
qed

text \<open>
  Inserting a fresh node \<open>b\<close> between two neighbours and unlinking a node: the new link functions
  agree with the old ones except at the neighbours and at \<open>b\<close>.
\<close>

lemma links_left:
  assumes "links nx pv (xs @ [p])"
    and "\<And>a. a \<in> set xs \<Longrightarrow> a \<noteq> 0 \<Longrightarrow> nx' a = nx a"
    and "\<And>a. a \<in> set (tl (xs @ [p])) \<Longrightarrow> a \<noteq> 0 \<Longrightarrow> pv' a = pv a"
  shows "links nx' pv' (xs @ [p])"
  using assms links_cong [of "xs @ [p]" nx' nx pv' pv] by simp

lemma links_right:
  assumes "links nx pv (q # ys)"
    and "\<And>a. a \<in> set (butlast (q # ys)) \<Longrightarrow> a \<noteq> 0 \<Longrightarrow> nx' a = nx a"
    and "\<And>a. a \<in> set ys \<Longrightarrow> a \<noteq> 0 \<Longrightarrow> pv' a = pv a"
  shows "links nx' pv' (q # ys)"
  using assms links_cong [of "q # ys" nx' nx pv' pv] by simp

lemma links_insert:
  assumes old: "links nx pv (xs @ p # q # ys)"
    and fresh: "b \<noteq> 0" "b \<notin> set (xs @ p # q # ys)"
    and p_once: "p \<noteq> 0 \<Longrightarrow> p \<notin> set xs \<and> p \<notin> set (butlast (q # ys))"
    and q_once: "q \<noteq> 0 \<Longrightarrow> q \<notin> set ys \<and> q \<notin> set (tl (xs @ [p]))"
    and nx: "p \<noteq> 0 \<Longrightarrow> nx' p = b" "nx' b = q" "\<And>a. a \<noteq> 0 \<Longrightarrow> a \<noteq> p \<Longrightarrow> a \<noteq> b \<Longrightarrow> nx' a = nx a"
    and pv: "pv' b = p" "q \<noteq> 0 \<Longrightarrow> pv' q = b" "\<And>a. a \<noteq> 0 \<Longrightarrow> a \<noteq> q \<Longrightarrow> a \<noteq> b \<Longrightarrow> pv' a = pv a"
  shows "links nx' pv' (xs @ p # b # q # ys)"
proof -
  from old have l: "links nx pv (xs @ [p])" and r: "links nx pv (q # ys)"
    using links_append [of nx pv xs p "q # ys"] by simp_all
  have "links nx' pv' (xs @ [p])"
  proof (rule links_left [OF l])
    fix a assume "a \<in> set xs" "a \<noteq> 0"
    with p_once fresh show "nx' a = nx a" by (intro nx(3)) auto
  next
    fix a assume a: "a \<in> set (tl (xs @ [p]))" "a \<noteq> 0"
    from in_set_tlD [OF a(1)] fresh have "a \<noteq> b" by auto
    with a q_once show "pv' a = pv a" by (intro pv(3)) auto
  qed
  moreover have "links nx' pv' (q # ys)"
  proof (rule links_right [OF r])
    fix a assume a: "a \<in> set (butlast (q # ys))" "a \<noteq> 0"
    from in_set_butlastD [OF a(1)] fresh have "a \<noteq> b" by auto
    with a p_once show "nx' a = nx a" by (intro nx(3)) auto
  next
    fix a assume "a \<in> set ys" "a \<noteq> 0"
    with q_once fresh show "pv' a = pv a" by (intro pv(3)) auto
  qed
  ultimately show ?thesis
    using nx pv fresh by (subst links_append) simp
qed

lemma links_delete:
  assumes old: "links nx pv (xs @ p # b # q # ys)"
    and b: "b \<noteq> 0" "b \<notin> set (xs @ p # q # ys)"
    and p_once: "p \<noteq> 0 \<Longrightarrow> p \<notin> set xs \<and> p \<notin> set (butlast (q # ys))"
    and q_once: "q \<noteq> 0 \<Longrightarrow> q \<notin> set ys \<and> q \<notin> set (tl (xs @ [p]))"
    and nx: "p \<noteq> 0 \<Longrightarrow> nx' p = q" "\<And>a. a \<noteq> 0 \<Longrightarrow> a \<noteq> p \<Longrightarrow> a \<noteq> b \<Longrightarrow> nx' a = nx a"
    and pv: "q \<noteq> 0 \<Longrightarrow> pv' q = p" "\<And>a. a \<noteq> 0 \<Longrightarrow> a \<noteq> q \<Longrightarrow> a \<noteq> b \<Longrightarrow> pv' a = pv a"
  shows "links nx' pv' (xs @ p # q # ys)"
proof -
  from old have l: "links nx pv (xs @ [p])" and r: "links nx pv (q # ys)"
    using links_append [of nx pv xs p "b # q # ys"] by simp_all
  have "links nx' pv' (xs @ [p])"
  proof (rule links_left [OF l])
    fix a assume "a \<in> set xs" "a \<noteq> 0"
    with p_once b show "nx' a = nx a" by (intro nx(2)) auto
  next
    fix a assume a: "a \<in> set (tl (xs @ [p]))" "a \<noteq> 0"
    from in_set_tlD [OF a(1)] b have "a \<noteq> b" by auto
    with a q_once show "pv' a = pv a" by (intro pv(2)) auto
  qed
  moreover have "links nx' pv' (q # ys)"
  proof (rule links_right [OF r])
    fix a assume a: "a \<in> set (butlast (q # ys))" "a \<noteq> 0"
    from in_set_butlastD [OF a(1)] b have "a \<noteq> b" by auto
    with a p_once show "nx' a = nx a" by (intro nx(2)) auto
  next
    fix a assume "a \<in> set ys" "a \<noteq> 0"
    with q_once b show "pv' a = pv a" by (intro pv(2)) auto
  qed
  ultimately show ?thesis
    using nx pv by (subst links_append) simp
qed

end
