(* ===== verification/MM_Simple.thy ===== *)
theory MM_Simple
  imports Kernel_Prelude
begin

text \<open>
  The first-fit memory manager of \<open>Kernel/mm/mm_simple.c\<close>.  The heap is an address-indexed store of
  block headers; the headers form a null-terminated doubly linked list in address order
  (\<open>prev_phys\<close>, \<open>next_phys\<close>) and the free ones a circular doubly linked list through the static
  sentinel (\<open>prev_free\<close>, \<open>next_free\<close>).  The addresses of \<open>free_list_sentinel\<close> and of the linker
  symbol \<open>endOfKernel\<close> are fields of the state that no operation writes.  A loop that follows
  pointers may not end on a damaged list, so it is a partial function into \<open>option\<close>.
\<close>

section \<open>State\<close>

record block_header =
  size_and_flags :: u64
  prev_phys :: ptr
  next_phys :: ptr
  prev_free :: ptr
  next_free :: ptr

type_synonym bheap = "ptr \<Rightarrow> block_header"

record mm_simple =
  mem_s :: bheap
  free_list_sentinel :: ptr
  endOfKernel_s :: ptr
  mm_initialized_flag_s :: u8
  heap_capacity_bytes_s :: u64
  heap_used_bytes_s :: u64
  heap_allocation_count_s :: u64
  heap_free_count_s :: u64
  heap_failed_allocations_s :: u64

record mm_stats =
  total_bytes :: u64
  used_bytes :: u64
  free_bytes :: u64
  largest_free_block :: u64
  allocations :: u64
  frees :: u64
  failed_allocations :: u64

text \<open>\<open>sizeof(block_header_t)\<close> is five 8-byte words.\<close>

definition MM_DEFAULT_HEAP_LIMIT :: u64 where "MM_DEFAULT_HEAP_LIMIT = 0x20000000"
definition MM_PAGE_SIZE :: u64 where "MM_PAGE_SIZE = 0x1000"
definition MM_KERNEL_STACK_PAGES :: u64 where "MM_KERNEL_STACK_PAGES = 8"
definition MM_ALIGNMENT :: u64 where "MM_ALIGNMENT = 16"
definition BLOCK_ALLOCATED_FLAG :: u64 where "BLOCK_ALLOCATED_FLAG = 1"
definition sizeof_block_header :: u64 where "sizeof_block_header = 40"

lemmas mm_simple_consts = MM_DEFAULT_HEAP_LIMIT_def MM_PAGE_SIZE_def MM_KERNEL_STACK_PAGES_def
  MM_ALIGNMENT_def BLOCK_ALLOCATED_FLAG_def sizeof_block_header_def

text \<open>Writing one field of one header (\<open>block->field = v\<close>).\<close>

definition set_size_and_flags :: "ptr \<Rightarrow> u64 \<Rightarrow> bheap \<Rightarrow> bheap" where
  "set_size_and_flags a v h = h(a := (h a)\<lparr>size_and_flags := v\<rparr>)"
definition set_prev_phys :: "ptr \<Rightarrow> ptr \<Rightarrow> bheap \<Rightarrow> bheap" where
  "set_prev_phys a v h = h(a := (h a)\<lparr>prev_phys := v\<rparr>)"
definition set_next_phys :: "ptr \<Rightarrow> ptr \<Rightarrow> bheap \<Rightarrow> bheap" where
  "set_next_phys a v h = h(a := (h a)\<lparr>next_phys := v\<rparr>)"
definition set_prev_free :: "ptr \<Rightarrow> ptr \<Rightarrow> bheap \<Rightarrow> bheap" where
  "set_prev_free a v h = h(a := (h a)\<lparr>prev_free := v\<rparr>)"
definition set_next_free :: "ptr \<Rightarrow> ptr \<Rightarrow> bheap \<Rightarrow> bheap" where
  "set_next_free a v h = h(a := (h a)\<lparr>next_free := v\<rparr>)"

lemmas set_field_defs = set_size_and_flags_def set_prev_phys_def set_next_phys_def
  set_prev_free_def set_next_free_def

lemma set_size_and_flags_sel [store_simps]:
  "size_and_flags (set_size_and_flags a v h x) = (if x = a then v else size_and_flags (h x))"
  "prev_phys (set_size_and_flags a v h x) = prev_phys (h x)"
  "next_phys (set_size_and_flags a v h x) = next_phys (h x)"
  "prev_free (set_size_and_flags a v h x) = prev_free (h x)"
  "next_free (set_size_and_flags a v h x) = next_free (h x)"
  by (simp_all add: set_size_and_flags_def)

lemma set_prev_phys_sel [store_simps]:
  "size_and_flags (set_prev_phys a v h x) = size_and_flags (h x)"
  "prev_phys (set_prev_phys a v h x) = (if x = a then v else prev_phys (h x))"
  "next_phys (set_prev_phys a v h x) = next_phys (h x)"
  "prev_free (set_prev_phys a v h x) = prev_free (h x)"
  "next_free (set_prev_phys a v h x) = next_free (h x)"
  by (simp_all add: set_prev_phys_def)

lemma set_next_phys_sel [store_simps]:
  "size_and_flags (set_next_phys a v h x) = size_and_flags (h x)"
  "prev_phys (set_next_phys a v h x) = prev_phys (h x)"
  "next_phys (set_next_phys a v h x) = (if x = a then v else next_phys (h x))"
  "prev_free (set_next_phys a v h x) = prev_free (h x)"
  "next_free (set_next_phys a v h x) = next_free (h x)"
  by (simp_all add: set_next_phys_def)

lemma set_prev_free_sel [store_simps]:
  "size_and_flags (set_prev_free a v h x) = size_and_flags (h x)"
  "prev_phys (set_prev_free a v h x) = prev_phys (h x)"
  "next_phys (set_prev_free a v h x) = next_phys (h x)"
  "prev_free (set_prev_free a v h x) = (if x = a then v else prev_free (h x))"
  "next_free (set_prev_free a v h x) = next_free (h x)"
  by (simp_all add: set_prev_free_def)

lemma set_next_free_sel [store_simps]:
  "size_and_flags (set_next_free a v h x) = size_and_flags (h x)"
  "prev_phys (set_next_free a v h x) = prev_phys (h x)"
  "next_phys (set_next_free a v h x) = next_phys (h x)"
  "prev_free (set_next_free a v h x) = prev_free (h x)"
  "next_free (set_next_free a v h x) = (if x = a then v else next_free (h x))"
  by (simp_all add: set_next_free_def)

section \<open>Operations\<close>

definition align_up :: "u64 \<Rightarrow> u64 \<Rightarrow> u64" where
  "align_up value alignment = (value + alignment - 1) AND NOT (alignment - 1)"

definition block_size :: "block_header \<Rightarrow> u64" where
  "block_size block = size_and_flags block AND NOT BLOCK_ALLOCATED_FLAG"

definition block_is_allocated :: "block_header \<Rightarrow> bool" where
  "block_is_allocated block \<longleftrightarrow> size_and_flags block AND BLOCK_ALLOCATED_FLAG \<noteq> 0"

definition block_mark_allocated :: "ptr \<Rightarrow> bheap \<Rightarrow> bheap" where
  "block_mark_allocated block h =
     set_size_and_flags block (size_and_flags (h block) OR BLOCK_ALLOCATED_FLAG) h"

definition block_mark_free :: "ptr \<Rightarrow> bheap \<Rightarrow> bheap" where
  "block_mark_free block h =
     set_size_and_flags block (size_and_flags (h block) AND NOT BLOCK_ALLOCATED_FLAG) h"

definition free_list_init :: "ptr \<Rightarrow> bheap \<Rightarrow> bheap" where
  "free_list_init sentinel h = set_next_free sentinel sentinel (set_prev_free sentinel sentinel h)"

definition free_list_insert :: "ptr \<Rightarrow> ptr \<Rightarrow> bheap \<Rightarrow> bheap" where
  "free_list_insert sentinel block h =
     (let h1 = set_prev_free block sentinel h;
          h2 = set_next_free block (next_free (h1 sentinel)) h1;
          h3 = set_prev_free (next_free (h2 sentinel)) block h2
      in set_next_free sentinel block h3)"

definition free_list_remove :: "ptr \<Rightarrow> bheap \<Rightarrow> bheap" where
  "free_list_remove block h =
     (let h1 = set_next_free (prev_free (h block)) (next_free (h block)) h;
          h2 = set_prev_free (next_free (h1 block)) (prev_free (h1 block)) h1;
          h3 = set_prev_free block NULL h2
      in set_next_free block NULL h3)"

text \<open>The loop of \<open>find_first_fit\<close> from \<open>current\<close> on; \<open>Some 0\<close> is the null result and \<open>None\<close> a loop
  that never reaches the sentinel.\<close>

partial_function (option) find_first_fit_from :: "bheap \<Rightarrow> ptr \<Rightarrow> u64 \<Rightarrow> ptr \<Rightarrow> ptr option" where
  "find_first_fit_from h sentinel required_size current =
     (if current = sentinel then Some NULL
      else if required_size \<le> block_size (h current) then Some current
      else find_first_fit_from h sentinel required_size (next_free (h current)))"

definition find_first_fit :: "bheap \<Rightarrow> ptr \<Rightarrow> u64 \<Rightarrow> ptr option" where
  "find_first_fit h sentinel required_size =
     find_first_fit_from h sentinel required_size (next_free (h sentinel))"

definition split_block_if_possible :: "ptr \<Rightarrow> ptr \<Rightarrow> u64 \<Rightarrow> bheap \<Rightarrow> bheap" where
  "split_block_if_possible sentinel block required_size h =
     (let total_size = block_size (h block);
          min_block_size = sizeof_block_header + MM_ALIGNMENT
      in if total_size < required_size + min_block_size then h
         else
           let remaining_size = total_size - required_size;
               new_block = block + required_size;
               h1 = set_size_and_flags new_block remaining_size h;
               h2 = set_prev_phys new_block block h1;
               h3 = set_next_phys new_block (next_phys (h2 block)) h2;
               h4 = (if next_phys (h3 new_block) \<noteq> NULL
                     then set_prev_phys (next_phys (h3 new_block)) new_block h3 else h3);
               h5 = set_next_phys block new_block h4;
               h6 = set_size_and_flags block
                      (required_size OR (size_and_flags (h5 block) AND BLOCK_ALLOCATED_FLAG)) h5;
               h7 = block_mark_free new_block h6;
               h8 = set_next_free new_block NULL (set_prev_free new_block NULL h7)
           in free_list_insert sentinel new_block h8)"

text \<open>
  Both merges of \<open>coalesce_with_neighbors\<close> run the same statements after the unlinking: the kept block
  \<open>dst\<close> takes over the size and the physical successor of the block \<open>src\<close> behind it.  The first merge
  keeps the physical predecessor, the second absorbs the successor that was read before the first.
\<close>

definition absorb_block :: "ptr \<Rightarrow> ptr \<Rightarrow> bheap \<Rightarrow> bheap" where
  "absorb_block dst src h =
     (let h1 = set_size_and_flags dst (block_size (h dst) + block_size (h src)) h;
          h2 = set_next_phys dst (next_phys (h1 src)) h1
      in if next_phys (h2 src) \<noteq> NULL then set_prev_phys (next_phys (h2 src)) dst h2 else h2)"

definition coalesce_with_neighbors :: "ptr \<Rightarrow> bheap \<Rightarrow> ptr \<times> bheap" where
  "coalesce_with_neighbors block h =
     (let prev = prev_phys (h block);
          next = next_phys (h block);
          (block1, h1) =
            (if prev \<noteq> NULL \<and> \<not> block_is_allocated (h prev)
             then (prev, absorb_block prev block (free_list_remove prev h))
             else (block, h));
          h2 = (if next \<noteq> NULL \<and> \<not> block_is_allocated (h1 next)
                then absorb_block block1 next (free_list_remove next h1) else h1)
      in (block1, h2))"

definition mm_init_simple :: "ptr \<Rightarrow> u64 \<Rightarrow> mm_simple \<Rightarrow> mm_simple" where
  "mm_init_simple heap_start heap_size m =
     (let min_block_size = sizeof_block_header + MM_ALIGNMENT;
          zeroed = m\<lparr>mm_initialized_flag_s := 0, heap_capacity_bytes_s := 0, heap_used_bytes_s := 0,
            heap_allocation_count_s := 0, heap_free_count_s := 0, heap_failed_allocations_s := 0\<rparr>;
          aligned_start = align_up heap_start MM_ALIGNMENT;
          alignment_loss = aligned_start - heap_start;
          usable_bytes = (heap_size - alignment_loss) AND NOT (MM_ALIGNMENT - 1)
      in if heap_size < min_block_size then zeroed
         else if aligned_start < heap_start then m\<lparr>mm_initialized_flag_s := 0\<rparr>
         else if alignment_loss \<ge> heap_size then m\<lparr>mm_initialized_flag_s := 0\<rparr>
         else if usable_bytes < min_block_size then zeroed
         else
           let h0 = free_list_init (free_list_sentinel m) (mem_s m);
               h1 = set_size_and_flags aligned_start usable_bytes h0;
               h2 = set_prev_phys aligned_start NULL h1;
               h3 = set_next_phys aligned_start NULL h2;
               h4 = block_mark_free aligned_start h3;
               h5 = free_list_insert (free_list_sentinel m) aligned_start h4
           in m\<lparr>mem_s := h5, heap_capacity_bytes_s := usable_bytes - sizeof_block_header,
                heap_used_bytes_s := 0, heap_allocation_count_s := 0, heap_free_count_s := 0,
                heap_failed_allocations_s := 0, mm_initialized_flag_s := 1\<rparr>)"

text \<open>The region between the end of the kernel's stack and the heap limit; a null start and a size of
  0 when there is none.\<close>

definition mm_default_region_simple :: "ptr \<Rightarrow> ptr \<times> u64" where
  "mm_default_region_simple endOfKernel =
     (let raw_start = endOfKernel + MM_PAGE_SIZE * MM_KERNEL_STACK_PAGES;
          aligned_start = align_up raw_start MM_ALIGNMENT;
          heap_limit = MM_DEFAULT_HEAP_LIMIT
      in if aligned_start \<ge> heap_limit then (NULL, 0)
         else (aligned_start, heap_limit - aligned_start))"

definition mm_init_default_simple :: "mm_simple \<Rightarrow> mm_simple" where
  "mm_init_default_simple m =
     (let (start, sz) = mm_default_region_simple (endOfKernel_s m)
      in if start \<noteq> NULL \<and> sz > 0 then mm_init_simple start sz m else m)"

text \<open>The part of \<open>mm_alloc\<close> after the initialisation check and the zero-size check.\<close>

definition required_size_simple :: "u64 \<Rightarrow> u64" where
  "required_size_simple sz =
     (let min_block_size = sizeof_block_header + MM_ALIGNMENT;
          required_size = align_up sz MM_ALIGNMENT + sizeof_block_header
      in if required_size < min_block_size then min_block_size else required_size)"

definition take_block :: "ptr \<Rightarrow> u64 \<Rightarrow> mm_simple \<Rightarrow> mm_simple" where
  "take_block block required_size m =
     (let h1 = free_list_remove block (mem_s m);
          h2 = split_block_if_possible (free_list_sentinel m) block required_size h1;
          h3 = block_mark_allocated block h2;
          payload_size = block_size (h3 block) - sizeof_block_header;
          used = heap_used_bytes_s m + payload_size
      in m\<lparr>mem_s := h3,
           heap_used_bytes_s := (if used > heap_capacity_bytes_s m then heap_capacity_bytes_s m else used),
           heap_allocation_count_s := heap_allocation_count_s m + 1\<rparr>)"

definition mm_alloc_simple :: "u64 \<Rightarrow> mm_simple \<Rightarrow> (ptr \<times> mm_simple) option" where
  "mm_alloc_simple sz m0 =
     (let m = (if mm_initialized_flag_s m0 = 0 then mm_init_default_simple m0 else m0)
      in if mm_initialized_flag_s m = 0
         then Some (NULL, m\<lparr>heap_failed_allocations_s := heap_failed_allocations_s m + 1\<rparr>)
         else if sz = 0 then Some (NULL, m)
         else
           let required_size = required_size_simple sz
           in do {
             block \<leftarrow> find_first_fit (mem_s m) (free_list_sentinel m) required_size;
             if block = NULL
             then Some (NULL, m\<lparr>heap_failed_allocations_s := heap_failed_allocations_s m + 1\<rparr>)
             else Some (block + sizeof_block_header, take_block block required_size m)
           })"

definition mm_free_simple :: "ptr \<Rightarrow> mm_simple \<Rightarrow> mm_simple" where
  "mm_free_simple ptr m =
     (if ptr = NULL \<or> mm_initialized_flag_s m = 0 then m
      else
        let block = ptr - sizeof_block_header
        in if \<not> block_is_allocated (mem_s m block) then m
           else
             let h1 = block_mark_free block (mem_s m);
                 payload_size = block_size (h1 block) - sizeof_block_header;
                 used = heap_used_bytes_s m;
                 h2 = set_next_free block NULL (set_prev_free block NULL h1);
                 (block', h3) = coalesce_with_neighbors block h2;
                 h4 = free_list_insert (free_list_sentinel m) block' h3
             in m\<lparr>mem_s := h4,
                  heap_free_count_s := heap_free_count_s m + 1,
                  heap_used_bytes_s := (if used \<ge> payload_size then used - payload_size else 0)\<rparr>)"

text \<open>The scan of \<open>mm_get_stats\<close> for the largest free block, then the statistics record.\<close>

partial_function (option) largest_free_from :: "bheap \<Rightarrow> ptr \<Rightarrow> u64 \<Rightarrow> ptr \<Rightarrow> u64 option" where
  "largest_free_from h sentinel largest current =
     (if current = sentinel then Some largest
      else
        largest_free_from h sentinel
          (if block_size (h current) > largest then block_size (h current) else largest)
          (next_free (h current)))"

definition mm_get_stats_simple :: "mm_simple \<Rightarrow> mm_stats option" where
  "mm_get_stats_simple m =
     do {
       largest \<leftarrow> largest_free_from (mem_s m) (free_list_sentinel m) 0
                    (next_free (mem_s m (free_list_sentinel m)));
       let largest_block = (if largest \<ge> sizeof_block_header then largest - sizeof_block_header else 0);
       Some \<lparr>total_bytes = heap_capacity_bytes_s m,
             used_bytes = heap_used_bytes_s m,
             free_bytes = (if heap_capacity_bytes_s m > heap_used_bytes_s m
                           then heap_capacity_bytes_s m - heap_used_bytes_s m else 0),
             largest_free_block = largest_block,
             allocations = heap_allocation_count_s m,
             frees = heap_free_count_s m,
             failed_allocations = heap_failed_allocations_s m\<rparr>
     }"

declare find_first_fit_from.simps [code] largest_free_from.simps [code]

definition mm_is_initialized_simple :: "mm_simple \<Rightarrow> u8" where
  "mm_is_initialized_simple m = mm_initialized_flag_s m"

definition mm_get_manager_name_simple :: string where
  "mm_get_manager_name_simple = ''simple''"

end
