(* ===== verification/MM_Simple_Inv.thy ===== *)
theory MM_Simple_Inv
  imports MM_Simple
begin

text \<open>
  The representation invariant of the first-fit memory manager and its preservation.  A heap holds a
  list \<open>bs\<close> of blocks in address order that tile the managed region without gap or overlap, and a
  list \<open>fs\<close> of the free ones in the order of the free list.
\<close>

section \<open>Reading the flag word\<close>

lemma block_size_even [simp]: "even (block_size b)"
  by (simp add: block_size_def mm_simple_consts)

lemma block_size_flags:
  assumes "size_and_flags b = w" and "even w"
  shows "block_size b = w" and "\<not> block_is_allocated b"
  using assms by (simp_all add: block_size_def block_is_allocated_def mm_simple_consts)

lemma block_size_flags_or:
  assumes "size_and_flags b = w OR 1" and "even w"
  shows "block_size b = w" and "block_is_allocated b"
  using assms by (simp_all add: block_size_def block_is_allocated_def mm_simple_consts clear_low_or_one)

lemma block_flags_cong:
  assumes "size_and_flags a = size_and_flags b"
  shows "block_size a = block_size b" and "block_is_allocated a = block_is_allocated b"
  using assms by (simp_all add: block_size_def block_is_allocated_def)

section \<open>The free list\<close>

definition free_rep :: "bheap \<Rightarrow> ptr \<Rightarrow> ptr list \<Rightarrow> bool" where
  "free_rep h s fs \<longleftrightarrow> s \<noteq> 0 \<and> 0 \<notin> set fs \<and> s \<notin> set fs \<and> distinct fs \<and>
     links (\<lambda>a. next_free (h a)) (\<lambda>a. prev_free (h a)) (s # fs @ [s])"

lemma free_rep_next:
  assumes "free_rep h s fs"
  shows "next_free (h s) = hd (fs @ [s])"
  using assms by (cases fs) (auto simp: free_rep_def)

lemma free_rep_cong:
  assumes "free_rep h s fs"
    and "\<And>a. a \<in> insert s (set fs) \<Longrightarrow> next_free (h' a) = next_free (h a) \<and> prev_free (h' a) = prev_free (h a)"
  shows "free_rep h' s fs"
  using assms by (auto simp: free_rep_def elim!: links_frame)

lemma free_list_insert_phys [store_simps]:
  "size_and_flags (free_list_insert s b h a) = size_and_flags (h a)"
  "prev_phys (free_list_insert s b h a) = prev_phys (h a)"
  "next_phys (free_list_insert s b h a) = next_phys (h a)"
  by (simp_all add: free_list_insert_def Let_def store_simps)

lemma free_list_remove_phys [store_simps]:
  "size_and_flags (free_list_remove b h a) = size_and_flags (h a)"
  "prev_phys (free_list_remove b h a) = prev_phys (h a)"
  "next_phys (free_list_remove b h a) = next_phys (h a)"
  by (simp_all add: free_list_remove_def Let_def store_simps)

lemma free_list_insert_rep:
  assumes fr: "free_rep h s fs" and b: "b \<noteq> 0" "b \<noteq> s" "b \<notin> set fs"
  shows "free_rep (free_list_insert s b h) s (b # fs)"
proof -
  obtain q ys where q: "fs @ [s] = q # ys" by (cases "fs @ [s]") auto
  from fr q have nx: "next_free (h s) = q" by (simp add: free_rep_next)
  from fr q have old: "links (\<lambda>a. next_free (h a)) (\<lambda>a. prev_free (h a)) ([] @ s # q # ys)"
    by (simp add: free_rep_def)
  have set_q: "insert q (set ys) = insert s (set fs)"
    by (rule snoc_eq_Cons_set [OF q])
  from q have but: "butlast (q # ys) = fs" by (metis butlast_snoc)
  have q_ys: "q \<notin> set ys"
    using fr q by (cases fs) (auto simp: free_rep_def)
  have "links (\<lambda>a. next_free (free_list_insert s b h a)) (\<lambda>a. prev_free (free_list_insert s b h a))
          ([] @ s # b # q # ys)"
  proof (rule links_insert [OF old])
    show "b \<notin> set ([] @ s # q # ys)" using b set_q by auto
    show "s \<notin> set [] \<and> s \<notin> set (butlast (q # ys))"
      using fr but by (simp add: free_rep_def)
  qed (use fr b q_ys set_q nx in \<open>auto simp: free_list_insert_def Let_def store_simps free_rep_def\<close>)
  with fr b q show ?thesis by (simp add: free_rep_def)
qed

lemma free_list_remove_rep:
  assumes fr: "free_rep h s (xs @ b # ys)"
  shows "free_rep (free_list_remove b h) s (xs @ ys)"
proof -
  obtain xs0 p where p: "s # xs = xs0 @ [p]" by (metis append_butlast_last_id list.distinct(1))
  obtain q ys0 where q: "ys @ [s] = q # ys0" by (cases "ys @ [s]") auto
  have nodes: "s # (xs @ b # ys) @ [s] = xs0 @ p # b # q # ys0"
    and nodes': "s # (xs @ ys) @ [s] = xs0 @ p # q # ys0"
    using p q by (metis append.assoc append_Cons append_Nil)+
  from fr have old: "links (\<lambda>a. next_free (h a)) (\<lambda>a. prev_free (h a)) (xs0 @ p # b # q # ys0)"
    by (simp add: free_rep_def nodes [symmetric])
  from q have but: "butlast (q # ys0) = ys" by (metis butlast_snoc)
  from p have tl: "tl (xs0 @ [p]) = xs" by (metis list.sel(3))
  have set_p: "insert p (set xs0) = insert s (set xs)"
    by (rule Cons_eq_snoc_set [OF p])
  have set_q: "insert q (set ys0) = insert s (set ys)"
    by (rule snoc_eq_Cons_set [OF q])
  have p_xs0: "p \<notin> set xs0"
    using fr p by (cases xs0 rule: rev_cases; cases xs rule: rev_cases) (auto simp: free_rep_def Cons_eq_append_conv)
  have q_ys0: "q \<notin> set ys0"
    using fr q by (cases ys) (auto simp: free_rep_def)
  have p_q: "p \<in> insert s (set xs)" "q \<in> insert s (set ys)" using set_p set_q by auto
  have bp: "prev_free (h b) = p" "next_free (h b) = q"
    using old links_append [of _ _ xs0 p "b # q # ys0"] fr p_q by (auto simp: free_rep_def)
  have b: "b \<noteq> p" "b \<noteq> q" "b \<noteq> 0" "b \<noteq> s"
    using fr p_q by (auto simp: free_rep_def)
  have "links (\<lambda>a. next_free (free_list_remove b h a)) (\<lambda>a. prev_free (free_list_remove b h a))
          (xs0 @ p # q # ys0)"
  proof (rule links_delete [OF old])
    show "b \<notin> set (xs0 @ p # q # ys0)"
      using fr b set_p set_q by (auto simp: free_rep_def)
    show "p \<notin> set xs0 \<and> p \<notin> set (butlast (q # ys0))"
      using fr p_xs0 p_q but by (auto simp: free_rep_def)
    show "q \<notin> set ys0 \<and> q \<notin> set (tl (xs0 @ [p]))"
      using fr q_ys0 p_q tl by (auto simp: free_rep_def)
  qed (use b bp in \<open>simp_all add: free_list_remove_def Let_def store_simps\<close>)
  with fr show ?thesis by (simp add: free_rep_def nodes'[symmetric])
qed

lemma free_list_init_rep: "s \<noteq> 0 \<Longrightarrow> free_rep (free_list_init s h) s []"
  by (simp add: free_rep_def free_list_init_def store_simps)

section \<open>Blocks in address order\<close>

abbreviation bsz :: "bheap \<Rightarrow> ptr \<Rightarrow> nat" where
  "bsz h b \<equiv> unat (block_size (h b))"

fun tiles :: "bheap \<Rightarrow> nat \<Rightarrow> ptr list \<Rightarrow> nat \<Rightarrow> bool" where
  "tiles h a [] e \<longleftrightarrow> a = e"
| "tiles h a (b # bs) e \<longleftrightarrow>
     unat b = a \<and> 56 \<le> bsz h b \<and> 8 dvd bsz h b \<and> tiles h (a + bsz h b) bs e"

lemma tiles_append: "tiles h a (xs @ ys) e \<longleftrightarrow> (\<exists>m. tiles h a xs m \<and> tiles h m ys e)"
  by (induction xs arbitrary: a) auto

lemma tiles_le: "tiles h a bs e \<Longrightarrow> a \<le> e"
proof (induction bs arbitrary: a)
  case (Cons b bs)
  then have "a + bsz h b \<le> e" by auto
  then show ?case by simp
qed simp

lemma tiles_mem:
  assumes "tiles h a bs e" and "b \<in> set bs"
  shows "a \<le> unat b" and "unat b + bsz h b \<le> e" and "56 \<le> bsz h b" and "8 dvd bsz h b"
  using assms
proof (induction bs arbitrary: a)
  case (Cons c bs)
  { case 1 then show ?case using Cons.IH(1) [of "a + bsz h c"] by auto }
  { case 2 then show ?case using Cons.IH(2) [of "a + bsz h c"] tiles_le [of h _ bs e] by auto }
  { case 3 then show ?case using Cons.IH(3) [of "a + bsz h c"] by auto }
  { case 4 then show ?case using Cons.IH(4) [of "a + bsz h c"] by auto }
qed simp_all

lemma tiles_cong:
  "(\<And>b. b \<in> set bs \<Longrightarrow> block_size (h' b) = block_size (h b)) \<Longrightarrow> tiles h' a bs e = tiles h a bs e"
  by (induction bs arbitrary: a) auto

lemma tiles_apart:
  assumes "tiles h a (xs @ b # ys) e"
  shows "x \<in> set xs \<Longrightarrow> unat x + bsz h x \<le> unat b"
    and "y \<in> set ys \<Longrightarrow> unat b + bsz h b \<le> unat y"
  using assms by (auto simp: tiles_append dest: tiles_mem)

lemma tiles_distinct: "tiles h a bs e \<Longrightarrow> distinct bs"
proof (induction bs arbitrary: a)
  case (Cons b bs)
  then have "y \<in> set bs \<Longrightarrow> unat b + bsz h b \<le> unat y" for y
    using tiles_apart(2) [of h a "[]" b bs e] by simp
  with Cons show ?case by fastforce
qed simp

definition phys_rep :: "bheap \<Rightarrow> nat \<Rightarrow> nat \<Rightarrow> ptr list \<Rightarrow> bool" where
  "phys_rep h lo hi bs \<longleftrightarrow> 0 < lo \<and> hi + 56 < 2 ^ 64 \<and> tiles h lo bs hi \<and>
     links (\<lambda>a. next_phys (h a)) (\<lambda>a. prev_phys (h a)) (0 # bs @ [0])"

lemma phys_rep_mem:
  assumes "phys_rep h lo hi bs" and "b \<in> set bs"
  shows "b \<noteq> 0" and "lo \<le> unat b" and "unat b + bsz h b \<le> hi" and "56 \<le> bsz h b"
    and "8 dvd bsz h b"
  using assms tiles_mem [of h lo bs hi b] by (auto simp: phys_rep_def)

lemma phys_rep_distinct: "phys_rep h lo hi bs \<Longrightarrow> distinct bs"
  by (auto simp: phys_rep_def tiles_distinct)

lemma phys_rep_cong:
  assumes "phys_rep h lo hi bs"
    and "\<And>b. b \<in> set bs \<Longrightarrow> block_size (h' b) = block_size (h b) \<and>
      next_phys (h' b) = next_phys (h b) \<and> prev_phys (h' b) = prev_phys (h b)"
  shows "phys_rep h' lo hi bs"
  using assms tiles_cong [of bs h' h] by (auto simp: phys_rep_def elim!: links_frame)

lemma phys_rep_links:
  assumes "phys_rep h lo hi (xs @ b # ys)"
  shows "next_phys (h b) = hd (ys @ [0])" and "prev_phys (h b) = last (0 # xs)"
proof -
  from assms have "b \<noteq> 0" by (auto dest: phys_rep_mem)
  obtain xs0 p where p: "0 # xs = xs0 @ [p]" by (metis append_butlast_last_id list.distinct(1))
  obtain q ys0 where q: "ys @ [0] = q # ys0" by (cases "ys @ [0]") auto
  have "0 # (xs @ b # ys) @ [0] = xs0 @ p # b # q # ys0"
    using p q by (metis append.assoc append_Cons append_Nil)
  with assms have "links (\<lambda>a. next_phys (h a)) (\<lambda>a. prev_phys (h a)) (xs0 @ p # b # q # ys0)"
    by (simp add: phys_rep_def)
  with \<open>b \<noteq> 0\<close> have "next_phys (h b) = q \<and> prev_phys (h b) = p"
    using links_append [of _ _ xs0 p "b # q # ys0"] by auto
  with p q show "next_phys (h b) = hd (ys @ [0])" "prev_phys (h b) = last (0 # xs)"
    by auto
qed

section \<open>Splitting\<close>

lemma flag_or:
  "even (r :: u64) \<Longrightarrow> (r OR (w AND 1)) AND - 2 = r"
  "even (r :: u64) \<Longrightarrow> even (r OR (w AND 1)) = even w"
proof -
  have "w AND 1 = (if odd w then 1 else 0)"
    by (simp add: and_one_eq mod_2_eq_odd)
  then show "even r \<Longrightarrow> (r OR (w AND 1)) AND - 2 = r" "even r \<Longrightarrow> even (r OR (w AND 1)) = even w"
    by auto
qed

lemma dvd8_even: "8 dvd unat (w :: u64) \<Longrightarrow> even w"
  by (metis dvd_trans even_numeral even_unat_word numeral_Bit0_eq_double dvd_triv_left)

lemma split_possible_sel:
  assumes "b \<noteq> b + req" and "\<not> block_size (h b) < req + 56"
    and "next_phys (h b) \<noteq> b + req"
  shows "size_and_flags (split_block_if_possible s b req h a) =
      (if a = b then req OR (size_and_flags (h b) AND 1)
       else if a = b + req then (block_size (h b) - req) AND - 2 else size_and_flags (h a))"
    and "next_phys (split_block_if_possible s b req h a) =
      (if a = b then b + req else if a = b + req then next_phys (h b) else next_phys (h a))"
    and "prev_phys (split_block_if_possible s b req h a) =
      (if a = next_phys (h b) \<and> a \<noteq> 0 then b + req
       else if a = b + req then b else prev_phys (h a))"
  using assms
  by (simp_all add: split_block_if_possible_def Let_def mm_simple_consts store_simps block_mark_free_def)

lemma split_possible_free:
  assumes "\<not> block_size (h b) < req + 56" and "free_rep h s fs"
    and "b + req \<noteq> 0" "b + req \<noteq> s" "b + req \<notin> set fs"
  shows "free_rep (split_block_if_possible s b req h) s ((b + req) # fs)"
  using assms
  by (auto simp: split_block_if_possible_def Let_def mm_simple_consts block_mark_free_def
      intro!: free_list_insert_rep elim!: free_rep_cong simp: store_simps)


lemma split_fits:
  assumes ph: "phys_rep h lo hi (xs @ b # ys)"
    and req: "56 \<le> unat req" "8 dvd unat req" "unat req + 56 \<le> bsz h b"
  shows "unat (b + req) = unat b + unat req"
    and "unat (block_size (h b) - req) = bsz h b - unat req"
    and "\<not> block_size (h b) < req + 56"
proof -
  have b: "unat b + bsz h b < 2 ^ 64"
    using ph phys_rep_mem(3) [OF ph, of b] by (auto simp: phys_rep_def)
  with req show "unat (b + req) = unat b + unat req"
    by (intro unat_add_lt) simp
  from req have "req \<le> block_size (h b)" by (simp add: word_le_nat_alt)
  then show "unat (block_size (h b) - req) = bsz h b - unat req"
    by (rule unat_sub_le)
  have "unat (req + 56) = unat req + 56"
    using b req unat_add_lt [of req 56] by simp
  with req show "\<not> block_size (h b) < req + 56"
    by (simp add: word_less_nat_alt)
qed


lemma split_fresh:
  assumes ph: "phys_rep h lo hi (xs @ b # ys)"
    and req: "56 \<le> unat req" "8 dvd unat req" "unat req + 56 \<le> bsz h b"
  shows "b + req \<noteq> 0" and "b + req \<notin> set (xs @ b # ys)" and "next_phys (h b) \<noteq> b + req"
proof -
  note fits = split_fits [OF ph req]
  from ph have t: "tiles h lo (xs @ b # ys) hi" by (simp add: phys_rep_def)
  note apart = tiles_apart [OF t]
  from fits(1) req show n0: "b + req \<noteq> 0" by (metis add_is_0 not_numeral_le_zero unat_0)
  from fits(1) req have "b + req \<noteq> b" by (metis add_cancel_right_right not_numeral_le_zero)
  moreover have "b + req \<notin> set xs" using apart(1) [of "b + req"] fits(1) req by fastforce
  moreover have "b + req \<notin> set ys" using apart(2) [of "b + req"] fits(1) req by fastforce
  ultimately show new: "b + req \<notin> set (xs @ b # ys)" by simp
  show "next_phys (h b) \<noteq> b + req"
    using phys_rep_links(1) [OF ph] n0 new by (cases ys) auto
qed

lemma split_block_sizes:
  fixes s b req h
  assumes ph: "phys_rep h lo hi (xs @ b # ys)"
    and req: "56 \<le> unat req" "8 dvd unat req" "unat req + 56 \<le> bsz h b"
  defines "h' \<equiv> split_block_if_possible s b req h"
  shows "block_size (h' b) = req"
    and "block_is_allocated (h' b) = block_is_allocated (h b)"
    and "block_size (h' (b + req)) = block_size (h b) - req"
    and "\<not> block_is_allocated (h' (b + req))"
    and "\<And>a. a \<noteq> b \<Longrightarrow> a \<noteq> b + req \<Longrightarrow> size_and_flags (h' a) = size_and_flags (h a)"
proof -
  note fresh = split_fresh [OF ph req]
  then have "b \<noteq> b + req" by auto
  note sel = split_possible_sel [where h = h and s = s, OF this split_fits(3) [OF ph req] fresh(3), folded h'_def]
  have ev: "even req" "even (block_size (h b) - req)"
    using req dvd8_even by (auto simp: even_diff)
  show "block_size (h' b) = req" and "block_is_allocated (h' b) = block_is_allocated (h b)"
    using ev by (simp_all add: block_size_def block_is_allocated_def mm_simple_consts sel flag_or)
  show "block_size (h' (b + req)) = block_size (h b) - req"
    and "\<not> block_is_allocated (h' (b + req))"
    using ev fresh sel(1) [of "b + req"]
    by (simp_all add: block_size_def block_is_allocated_def mm_simple_consts)
  show "\<And>a. a \<noteq> b \<Longrightarrow> a \<noteq> b + req \<Longrightarrow> size_and_flags (h' a) = size_and_flags (h a)"
    by (simp add: sel)
qed

lemma split_block_links:
  assumes ph: "phys_rep h lo hi (xs @ b # ys)"
    and req: "56 \<le> unat req" "8 dvd unat req" "unat req + 56 \<le> bsz h b"
  shows "links (\<lambda>a. next_phys (split_block_if_possible s b req h a))
           (\<lambda>a. prev_phys (split_block_if_possible s b req h a)) (0 # (xs @ b # (b + req) # ys) @ [0])"
proof -
  let ?n = "b + req"
  note fresh = split_fresh [OF ph req]
  then have bn: "b \<noteq> ?n" by auto
  note sel = split_possible_sel [where h = h and s = s, OF bn split_fits(3) [OF ph req] fresh(3)]
  obtain q ys0 where q: "ys @ [0] = q # ys0" by (cases "ys @ [0]") auto
  note set_q = snoc_eq_Cons_set [OF q]
  from phys_rep_links(1) [OF ph] q have nx_b: "next_phys (h b) = q" by simp
  have b0: "b \<noteq> 0" using phys_rep_mem(1) [OF ph] by simp
  have dist: "distinct (xs @ b # ys)" by (rule phys_rep_distinct [OF ph])
  have "links (\<lambda>a. next_phys (split_block_if_possible s b req h a))
           (\<lambda>a. prev_phys (split_block_if_possible s b req h a)) ((0 # xs) @ b # ?n # q # ys0)"
  proof (rule links_insert [where nx = "\<lambda>a. next_phys (h a)" and pv = "\<lambda>a. prev_phys (h a)"])
    show "links (\<lambda>a. next_phys (h a)) (\<lambda>a. prev_phys (h a)) ((0 # xs) @ b # q # ys0)"
      using ph q by (simp add: phys_rep_def)
    show "?n \<notin> set ((0 # xs) @ b # q # ys0)" using fresh set_q by auto
    have "butlast (q # ys0) = ys" using q by (metis butlast_snoc)
    with dist b0 show "b \<notin> set (0 # xs) \<and> b \<notin> set (butlast (q # ys0))" by auto
    show "q \<notin> set ys0 \<and> q \<notin> set (tl ((0 # xs) @ [b]))" if "q \<noteq> 0"
      using that dist q by (cases ys) auto
  qed (use fresh bn nx_b sel in auto)
  with q show ?thesis by simp
qed

lemma split_block_phys:
  assumes ph: "phys_rep h lo hi (xs @ b # ys)"
    and req: "56 \<le> unat req" "8 dvd unat req" "unat req + 56 \<le> bsz h b"
  shows "phys_rep (split_block_if_possible s b req h) lo hi (xs @ b # (b + req) # ys)"
proof -
  let ?h = "split_block_if_possible s b req h"
  note sizes = split_block_sizes [where s = s, OF ph req]
  from ph have t: "tiles h lo (xs @ b # ys) hi" by (simp add: phys_rep_def)
  then obtain m where m: "tiles h lo xs m" "unat b = m" "tiles h (m + bsz h b) ys hi"
    by (auto simp: tiles_append)
  have "x \<noteq> b \<and> x \<noteq> b + req" if "x \<in> set xs \<union> set ys" for x
    using that split_fresh(2) [OF ph req] phys_rep_distinct [OF ph] by auto
  with sizes(5) have "x \<in> set xs \<union> set ys \<Longrightarrow> block_size (?h x) = block_size (h x)" for x
    by (simp add: block_size_def)
  moreover have "8 dvd bsz h b" using t tiles_mem(4) by fastforce
  ultimately have "tiles ?h lo (xs @ b # (b + req) # ys) hi"
    using m req split_fits [OF ph req] sizes tiles_cong [of xs ?h h] tiles_cong [of ys ?h h]
    by (auto simp: tiles_append)
  with split_block_links [OF ph req] ph show ?thesis by (simp add: phys_rep_def)
qed


section \<open>Merging\<close>

lemma absorb_block_sel:
  assumes "dst \<noteq> src" and "next_phys (h src) \<noteq> dst"
  shows "size_and_flags (absorb_block dst src h a) =
      (if a = dst then block_size (h dst) + block_size (h src) else size_and_flags (h a))"
    and "next_phys (absorb_block dst src h a) = (if a = dst then next_phys (h src) else next_phys (h a))"
    and "prev_phys (absorb_block dst src h a) =
      (if a = next_phys (h src) \<and> a \<noteq> 0 then dst else prev_phys (h a))"
    and "next_free (absorb_block dst src h a) = next_free (h a)"
    and "prev_free (absorb_block dst src h a) = prev_free (h a)"
  using assms by (simp_all add: absorb_block_def Let_def store_simps)

lemma absorb_block_links:
  assumes ph: "phys_rep h lo hi (xs @ d # c # ys)"
  shows "links (\<lambda>a. next_phys (absorb_block d c h a)) (\<lambda>a. prev_phys (absorb_block d c h a))
           (0 # (xs @ d # ys) @ [0])"
proof -
  obtain q ys0 where q: "ys @ [0] = q # ys0" by (cases "ys @ [0]") auto
  note set_q = snoc_eq_Cons_set [OF q]
  have dist: "distinct (xs @ d # c # ys)" by (rule phys_rep_distinct [OF ph])
  have nz: "d \<noteq> 0" "c \<noteq> 0" "0 \<notin> set xs" using phys_rep_mem(1) [OF ph] by auto
  from phys_rep_links(1) [of h lo hi "xs @ [d]" c ys] ph q have nx_c: "next_phys (h c) = q" by simp
  have dq: "q \<noteq> d" "q \<noteq> c" using dist nz set_q by auto
  then have "next_phys (h c) \<noteq> d" using nx_c by simp
  note sel = absorb_block_sel [where h = h, OF _ this]
  have "links (\<lambda>a. next_phys (absorb_block d c h a)) (\<lambda>a. prev_phys (absorb_block d c h a))
           ((0 # xs) @ d # q # ys0)"
  proof (rule links_delete [where nx = "\<lambda>a. next_phys (h a)" and pv = "\<lambda>a. prev_phys (h a)" and b = c])
    show "links (\<lambda>a. next_phys (h a)) (\<lambda>a. prev_phys (h a)) ((0 # xs) @ d # c # q # ys0)"
      using ph q by (simp add: phys_rep_def)
    show "c \<notin> set ((0 # xs) @ d # q # ys0)" using dist nz set_q by auto
    have "butlast (q # ys0) = ys" using q by (metis butlast_snoc)
    with dist nz show "d \<notin> set (0 # xs) \<and> d \<notin> set (butlast (q # ys0))" by auto
    show "q \<notin> set ys0 \<and> q \<notin> set (tl ((0 # xs) @ [d]))" if "q \<noteq> 0"
      using that dist q by (cases ys) auto
  qed (use nz nx_c sel dq dist in auto)
  with q show ?thesis by simp
qed

lemma absorb_block_phys:
  assumes ph: "phys_rep h lo hi (xs @ d # c # ys)"
  shows "phys_rep (absorb_block d c h) lo hi (xs @ d # ys)"
    and "block_size (absorb_block d c h d) = block_size (h d) + block_size (h c)"
    and "bsz (absorb_block d c h) d = bsz h d + bsz h c"
    and "\<not> block_is_allocated (absorb_block d c h d)"
    and "\<And>a. a \<noteq> d \<Longrightarrow> size_and_flags (absorb_block d c h a) = size_and_flags (h a)"
proof -
  let ?h = "absorb_block d c h"
  from ph have t: "tiles h lo (xs @ d # c # ys) hi" by (simp add: phys_rep_def)
  then obtain m where m: "tiles h lo xs m" "unat d = m" "unat c = m + bsz h d"
      "tiles h (m + bsz h d + bsz h c) ys hi" "8 dvd bsz h d" "8 dvd bsz h c" "56 \<le> bsz h d"
    by (auto simp: tiles_append)
  have dist: "distinct (xs @ d # c # ys)" by (rule phys_rep_distinct [OF ph])
  have "m + bsz h d + bsz h c \<le> hi" using m tiles_le by blast
  then have sum: "unat (block_size (h d) + block_size (h c)) = bsz h d + bsz h c"
    using ph by (intro unat_add_lt) (simp add: phys_rep_def)
  have sf: "size_and_flags (?h a) =
      (if a = d then block_size (h d) + block_size (h c) else size_and_flags (h a))" for a
    by (simp add: absorb_block_def Let_def store_simps)
  have ev: "even (block_size (h d) + block_size (h c))" by simp
  show sz: "block_size (?h d) = block_size (h d) + block_size (h c)"
    and "\<not> block_is_allocated (?h d)"
    using block_size_flags [OF _ ev, of "?h d"] sf by simp_all
  with sum show sz': "bsz ?h d = bsz h d + bsz h c" by simp
  show other: "\<And>a. a \<noteq> d \<Longrightarrow> size_and_flags (?h a) = size_and_flags (h a)" by (simp add: sf)
  have "x \<noteq> d" if "x \<in> set xs \<union> set ys" for x using that dist by auto
  with other have "x \<in> set xs \<union> set ys \<Longrightarrow> block_size (?h x) = block_size (h x)" for x
    by (intro block_flags_cong) blast
  then have "tiles ?h lo (xs @ d # ys) hi"
    using m sz' tiles_cong [of xs ?h h] tiles_cong [of ys ?h h]
    by (auto simp: tiles_append add.assoc)
  with absorb_block_links [OF ph] ph show "phys_rep ?h lo hi (xs @ d # ys)"
    by (simp add: phys_rep_def)
qed

lemma block_mark_sel [store_simps]:
  "prev_phys (block_mark_free b h a) = prev_phys (h a)"
  "next_phys (block_mark_free b h a) = next_phys (h a)"
  "prev_free (block_mark_free b h a) = prev_free (h a)"
  "next_free (block_mark_free b h a) = next_free (h a)"
  "prev_phys (block_mark_allocated b h a) = prev_phys (h a)"
  "next_phys (block_mark_allocated b h a) = next_phys (h a)"
  "prev_free (block_mark_allocated b h a) = prev_free (h a)"
  "next_free (block_mark_allocated b h a) = next_free (h a)"
  by (simp_all add: block_mark_free_def block_mark_allocated_def store_simps)

section \<open>The representation invariant\<close>

abbreviation no_adjacent_free :: "bheap \<Rightarrow> ptr list \<Rightarrow> bool" where
  "no_adjacent_free h \<equiv> successively (\<lambda>a b. block_is_allocated (h a) \<or> block_is_allocated (h b))"

definition heap_rep :: "bheap \<Rightarrow> ptr \<Rightarrow> nat \<Rightarrow> nat \<Rightarrow> ptr list \<Rightarrow> ptr list \<Rightarrow> bool" where
  "heap_rep h s lo hi bs fs \<longleftrightarrow> phys_rep h lo hi bs \<and> free_rep h s fs \<and>
     (unat s < lo \<or> hi \<le> unat s) \<and>
     set fs = {b \<in> set bs. \<not> block_is_allocated (h b)} \<and> no_adjacent_free h bs"

text \<open>A free block \<open>b\<close> that is not (or no longer) on the free list.\<close>

definition loose_rep ::
    "bheap \<Rightarrow> ptr \<Rightarrow> nat \<Rightarrow> nat \<Rightarrow> ptr list \<Rightarrow> ptr \<Rightarrow> ptr list \<Rightarrow> ptr list \<Rightarrow> bool" where
  "loose_rep h s lo hi xs b ys fs \<longleftrightarrow> phys_rep h lo hi (xs @ b # ys) \<and> free_rep h s fs \<and>
     (unat s < lo \<or> hi \<le> unat s) \<and> \<not> block_is_allocated (h b) \<and>
     set fs = {c \<in> set xs \<union> set ys. \<not> block_is_allocated (h c)} \<and>
     no_adjacent_free h xs \<and> no_adjacent_free h ys"

text \<open>What a step keeps of the blocks outside a set \<open>X\<close>: their flag words.\<close>

abbreviation same_flags :: "bheap \<Rightarrow> bheap \<Rightarrow> ptr set \<Rightarrow> bool" where
  "same_flags h' h X \<equiv> \<forall>a. a \<notin> X \<longrightarrow> size_and_flags (h' a) = size_and_flags (h a)"

lemma same_flagsD:
  assumes "same_flags h' h X" and "a \<notin> X"
  shows "block_size (h' a) = block_size (h a)" and "block_is_allocated (h' a) = block_is_allocated (h a)"
  using assms by (simp_all add: block_size_def block_is_allocated_def)

lemma no_adjacent_free_keep:
  assumes "no_adjacent_free h xs" and "same_flags h' h X" and "X \<inter> set xs = {}"
  shows "no_adjacent_free h' xs"
  using assms(1) by (rule successively_mono) (use assms(2,3) same_flagsD(2) in blast)

lemma sentinel_outside:
  assumes "phys_rep h lo hi bs" and "unat s < lo \<or> hi \<le> unat s"
  shows "s \<notin> set bs"
  using assms phys_rep_mem [OF assms(1), of s] by auto

lemma loose_finish:
  assumes l: "loose_rep h s lo hi xs b ys fs"
    and "xs = [] \<or> block_is_allocated (h (last xs))" and "ys = [] \<or> block_is_allocated (h (hd ys))"
  shows "heap_rep (free_list_insert s b h) s lo hi (xs @ b # ys) (b # fs)"
proof -
  let ?h = "free_list_insert s b h"
  from l have ph: "phys_rep h lo hi (xs @ b # ys)" by (simp add: loose_rep_def)
  have al: "block_is_allocated (?h a) = block_is_allocated (h a)" for a
    by (rule block_flags_cong(2)) (simp add: store_simps)
  have "phys_rep ?h lo hi (xs @ b # ys)"
    using ph by (rule phys_rep_cong) (auto simp: store_simps intro: block_flags_cong)
  moreover have "free_rep ?h s (b # fs)"
    using l phys_rep_mem(1) [OF ph] sentinel_outside [OF ph] phys_rep_distinct [OF ph]
    by (intro free_list_insert_rep) (auto simp: loose_rep_def)
  moreover have "no_adjacent_free ?h (xs @ b # ys)"
    using l assms(2,3) by (cases ys) (auto simp: loose_rep_def successively_append_iff al)
  ultimately show ?thesis
    using l by (auto simp: loose_rep_def heap_rep_def al)
qed


lemma loose_start:
  assumes hr: "heap_rep h s lo hi (xs @ b # ys) fs" and b: "block_is_allocated (h b)"
  shows "loose_rep (set_next_free b NULL (set_prev_free b NULL (block_mark_free b h))) s lo hi xs b ys fs"
proof -
  let ?h = "set_next_free b NULL (set_prev_free b NULL (block_mark_free b h))"
  from hr have ph: "phys_rep h lo hi (xs @ b # ys)" and fr: "free_rep h s fs"
    by (simp_all add: heap_rep_def)
  have dist: "distinct (xs @ b # ys)" using ph by (rule phys_rep_distinct)
  have sf: "size_and_flags (?h a) = (if a = b then block_size (h b) else size_and_flags (h a))" for a
    by (simp add: store_simps block_mark_free_def block_size_def)
  have sz: "block_size (?h a) = block_size (h a)" for a
    using block_size_flags [of "?h b" "block_size (h b)"] block_flags_cong [of "?h a" "h a"]
    by (cases "a = b") (simp_all add: sf)
  have al: "block_is_allocated (?h a) = (a \<noteq> b \<and> block_is_allocated (h a))" for a
    using block_size_flags [of "?h b" "block_size (h b)"] block_flags_cong [of "?h a" "h a"]
    by (cases "a = b") (simp_all add: sf)
  have "phys_rep ?h lo hi (xs @ b # ys)"
    using ph by (rule phys_rep_cong) (simp add: sz store_simps)
  moreover have "b \<noteq> s" using sentinel_outside [OF ph] hr by (auto simp: heap_rep_def)
  then have "free_rep ?h s fs"
    using fr hr b by (elim free_rep_cong) (auto simp: store_simps block_mark_free_def heap_rep_def)
  moreover have "no_adjacent_free ?h xs" "no_adjacent_free ?h ys"
    using hr dist sf by (auto simp: heap_rep_def successively_append_iff successively_Cons
      intro!: no_adjacent_free_keep [where h = h and h' = ?h and X = "{b}"])
  ultimately show ?thesis
    using hr b dist by (auto simp: loose_rep_def heap_rep_def al)
qed

lemma free_list_remove_keeps:
  assumes "phys_rep h lo hi bs"
  shows "phys_rep (free_list_remove b h) lo hi bs"
  using assms by (rule phys_rep_cong) (auto simp: store_simps intro: block_flags_cong)

lemma free_list_remove_flags [simp]:
  "block_size (free_list_remove b h a) = block_size (h a)"
  "block_is_allocated (free_list_remove b h a) = block_is_allocated (h a)"
  by (rule block_flags_cong, simp add: store_simps)+

lemma absorb_block_free:
  assumes "free_rep h s fs"
  shows "free_rep (absorb_block d c h) s fs"
  using assms by (rule free_rep_cong) (simp add: absorb_block_def Let_def store_simps)

lemma free_list_take:
  assumes "free_rep h s fs" and "f \<in> set fs"
  shows "free_rep (free_list_remove f h) s (remove1 f fs)" and "set (remove1 f fs) = set fs - {f}"
proof -
  from assms(2) obtain xs ys where fs: "fs = xs @ f # ys" "f \<notin> set xs"
    by (meson split_list_first)
  with free_list_remove_rep [of h s xs f ys] assms(1)
  show "free_rep (free_list_remove f h) s (remove1 f fs)"
    by (simp add: remove1_append)
  from assms(1) show "set (remove1 f fs) = set fs - {f}" by (simp add: free_rep_def)
qed

lemma absorb_step:
  assumes ph: "phys_rep h lo hi (xs @ d # c # ys)" and fr: "free_rep h s fs"
    and out: "unat s < lo \<or> hi \<le> unat s" and f: "f \<in> set fs" "{f, g} = {d, c}" "f \<noteq> g"
    and fs: "set fs = {a \<in> set (xs @ d # c # ys) - {g}. \<not> block_is_allocated (h a)}"
    and adj: "no_adjacent_free h xs" "no_adjacent_free h ys"
  defines "h' \<equiv> absorb_block d c (free_list_remove f h)"
  shows "loose_rep h' s lo hi xs d ys (remove1 f fs)"
    and "same_flags h' h {d}" and "bsz h' d = bsz h d + bsz h c"
proof -
  let ?g = "free_list_remove f h"
  have phg: "phys_rep ?g lo hi (xs @ d # c # ys)" by (rule free_list_remove_keeps [OF ph])
  note ab = absorb_block_phys [OF phg]
  have dist: "distinct (xs @ d # c # ys)" by (rule phys_rep_distinct [OF ph])
  have sf: "size_and_flags (h' a) = size_and_flags (h a)" if "a \<noteq> d" for a
    using that ab(5) by (simp add: h'_def store_simps)
  then show keep: "same_flags h' h {d}" by simp
  show "bsz h' d = bsz h d + bsz h c" using ab(3) by (simp add: h'_def)
  have "no_adjacent_free h' xs" "no_adjacent_free h' ys"
    using dist no_adjacent_free_keep [OF adj(1) keep] no_adjacent_free_keep [OF adj(2) keep] by simp_all
  moreover have "free_rep h' s (remove1 f fs)"
    using free_list_take(1) [OF fr f(1)] by (simp add: h'_def absorb_block_free)
  moreover have "set (remove1 f fs) = {a \<in> set xs \<union> set ys. \<not> block_is_allocated (h' a)}"
  proof -
    have "set (xs @ d # c # ys) - {g} - {f} = set xs \<union> set ys"
      using f(2) dist by (auto simp: doubleton_eq_iff)
    moreover have "block_is_allocated (h' a) = block_is_allocated (h a)" if "a \<in> set xs \<union> set ys" for a
      using that dist by (intro same_flagsD(2) [OF keep]) auto
    ultimately show ?thesis using free_list_take(2) [OF fr f(1)] fs by blast
  qed
  ultimately show "loose_rep h' s lo hi xs d ys (remove1 f fs)"
    using ab(1,4) out by (simp add: loose_rep_def h'_def)
qed


section \<open>Live regions\<close>

text \<open>The payload regions handed out and not yet freed: address and length in bytes.\<close>

definition live :: "bheap \<Rightarrow> ptr list \<Rightarrow> (nat \<times> nat) set" where
  "live h bs = (\<lambda>b. (unat b + 40, bsz h b - 40)) ` {b \<in> set bs. block_is_allocated (h b)}"

lemma live_cong:
  assumes "{b \<in> set bs'. block_is_allocated (h' b)} = {b \<in> set bs. block_is_allocated (h b)}"
    and "\<And>b. b \<in> set bs \<Longrightarrow> block_is_allocated (h b) \<Longrightarrow> block_size (h' b) = block_size (h b)"
  shows "live h' bs' = live h bs"
  unfolding live_def assms(1) by (rule image_cong) (use assms(2) in auto)

lemma live_keep:
  assumes keep: "same_flags h' h {d}" and d: "\<not> block_is_allocated (h' d)" "\<not> block_is_allocated (h d)"
    and c: "\<not> block_is_allocated (h c)" and "set bs = insert c (set bs')"
  shows "live h' bs' = live h bs"
proof (rule live_cong)
  have "block_is_allocated (h' a) = block_is_allocated (h a)" for a
    using same_flagsD(2) [OF keep, of a] d by (cases "a = d") auto
  then show "{b \<in> set bs'. block_is_allocated (h' b)} = {b \<in> set bs. block_is_allocated (h b)}"
    using assms(5) c by auto
  show "block_size (h' b) = block_size (h b)" if "block_is_allocated (h b)" for b
    using that d(2) by (intro same_flagsD(1) [OF keep]) auto
qed

lemma merge_prev_step:
  assumes l: "loose_rep h s lo hi (xs @ [p]) b ys fs" and p: "\<not> block_is_allocated (h p)"
  defines "h' \<equiv> absorb_block p b (free_list_remove p h)"
  shows "loose_rep h' s lo hi xs p ys (remove1 p fs)"
    and "same_flags h' h {p}"
    and "xs = [] \<or> block_is_allocated (h' (last xs))"
    and "live h' (xs @ p # ys) = live h ((xs @ [p]) @ b # ys)"
proof -
  from l have ph: "phys_rep h lo hi (xs @ p # b # ys)" and fr: "free_rep h s fs"
    and nb: "\<not> block_is_allocated (h b)"
    and fs: "set fs = {c \<in> set (xs @ [p]) \<union> set ys. \<not> block_is_allocated (h c)}"
    and adj: "no_adjacent_free h xs" "xs = [] \<or> block_is_allocated (h (last xs))" "no_adjacent_free h ys"
    and out: "unat s < lo \<or> hi \<le> unat s"
    using p by (auto simp: loose_rep_def successively_append_iff)
  have dist: "distinct (xs @ p # b # ys)" by (rule phys_rep_distinct [OF ph])
  have "p \<in> set fs" "set fs = {a \<in> set (xs @ p # b # ys) - {b}. \<not> block_is_allocated (h a)}"
    using fs p dist by auto
  then show "loose_rep h' s lo hi xs p ys (remove1 p fs)" and keep: "same_flags h' h {p}"
    using absorb_step [OF ph fr out _ _ _ _ adj(1,3), of p b] dist by (auto simp: h'_def)
  have al: "block_is_allocated (h' a) = block_is_allocated (h a)" if "a \<noteq> p" for a
    using that same_flagsD(2) [OF keep] by simp
  show "xs = [] \<or> block_is_allocated (h' (last xs))"
    using adj(2) dist al by (cases xs rule: rev_cases) auto
  have np: "\<not> block_is_allocated (h' p)"
    using \<open>loose_rep h' s lo hi xs p ys (remove1 p fs)\<close> by (simp add: loose_rep_def)
  show "live h' (xs @ p # ys) = live h ((xs @ [p]) @ b # ys)"
    by (rule live_keep [OF keep np p nb]) auto
qed

lemma merge_next_step:
  assumes l: "loose_rep h s lo hi xs b (n # ys) fs" and n: "\<not> block_is_allocated (h n)"
  defines "h' \<equiv> absorb_block b n (free_list_remove n h)"
  shows "loose_rep h' s lo hi xs b ys (remove1 n fs)"
    and "same_flags h' h {b}"
    and "ys = [] \<or> block_is_allocated (h' (hd ys))"
    and "live h' (xs @ b # ys) = live h (xs @ b # n # ys)"
proof -
  from l have ph: "phys_rep h lo hi (xs @ b # n # ys)" and fr: "free_rep h s fs"
    and nb: "\<not> block_is_allocated (h b)"
    and fs: "set fs = {c \<in> set xs \<union> set (n # ys). \<not> block_is_allocated (h c)}"
    and adj: "no_adjacent_free h xs" "ys = [] \<or> block_is_allocated (h (hd ys))" "no_adjacent_free h ys"
    and out: "unat s < lo \<or> hi \<le> unat s"
    using n by (auto simp: loose_rep_def successively_Cons)
  have dist: "distinct (xs @ b # n # ys)" by (rule phys_rep_distinct [OF ph])
  have "n \<in> set fs" "set fs = {a \<in> set (xs @ b # n # ys) - {b}. \<not> block_is_allocated (h a)}"
    using fs n dist by auto
  then show "loose_rep h' s lo hi xs b ys (remove1 n fs)" and keep: "same_flags h' h {b}"
    using absorb_step [OF ph fr out _ _ _ _ adj(1,3), of n b] dist by (auto simp: h'_def)
  have al: "block_is_allocated (h' a) = block_is_allocated (h a)" if "a \<noteq> b" for a
    using that same_flagsD(2) [OF keep] by simp
  show "ys = [] \<or> block_is_allocated (h' (hd ys))"
    using adj(2) dist al by (cases ys) auto
  have nb': "\<not> block_is_allocated (h' b)"
    using \<open>loose_rep h' s lo hi xs b ys (remove1 n fs)\<close> by (simp add: loose_rep_def)
  show "live h' (xs @ b # ys) = live h (xs @ b # n # ys)"
    by (rule live_keep [OF keep nb' nb n]) auto
qed


lemma coalesce_prev:
  assumes l: "loose_rep h s lo hi xs b ys fs"
  obtains xs1 b1 fs1 h1 where
    "(if prev_phys (h b) \<noteq> NULL \<and> \<not> block_is_allocated (h (prev_phys (h b)))
      then (prev_phys (h b), absorb_block (prev_phys (h b)) b (free_list_remove (prev_phys (h b)) h))
      else (b, h)) = (b1, h1)"
    and "loose_rep h1 s lo hi xs1 b1 ys fs1" and "same_flags h1 h {b1}"
    and "xs1 = [] \<or> block_is_allocated (h1 (last xs1))"
    and "live h1 (xs1 @ b1 # ys) = live h (xs @ b # ys)"
proof -
  from l have ph: "phys_rep h lo hi (xs @ b # ys)" by (simp add: loose_rep_def)
  note lk = phys_rep_links(2) [OF ph]
  show thesis
  proof (cases "xs = [] \<or> block_is_allocated (h (last xs))")
    case True
    then show thesis using lk l by (intro that [of b h xs fs]) auto
  next
    case False
    then obtain xs' p where xs: "xs = xs' @ [p]" by (cases xs rule: rev_cases) auto
    with False lk phys_rep_mem(1) [OF ph, of p] have "prev_phys (h b) = p" "p \<noteq> 0"
      "\<not> block_is_allocated (h p)" by auto
    with xs l show thesis
      using merge_prev_step [of h s lo hi xs' p b ys fs] by (intro that) auto
  qed
qed

lemma coalesce_next:
  assumes l: "loose_rep h s lo hi xs b ys fs"
  obtains ys1 fs1 h1 where
    "(if hd (ys @ [0]) \<noteq> NULL \<and> \<not> block_is_allocated (h (hd (ys @ [0])))
      then absorb_block b (hd (ys @ [0])) (free_list_remove (hd (ys @ [0])) h) else h) = h1"
    and "loose_rep h1 s lo hi xs b ys1 fs1" and "same_flags h1 h {b}"
    and "ys1 = [] \<or> block_is_allocated (h1 (hd ys1))"
    and "live h1 (xs @ b # ys1) = live h (xs @ b # ys)"
proof -
  from l have ph: "phys_rep h lo hi (xs @ b # ys)" by (simp add: loose_rep_def)
  show thesis
  proof (cases "ys = [] \<or> block_is_allocated (h (hd ys))")
    case True
    then show thesis using l by (cases ys) (auto intro: that [of h ys fs])
  next
    case False
    then obtain n ys' where ys: "ys = n # ys'" "\<not> block_is_allocated (h n)" by (cases ys) auto
    with phys_rep_mem(1) [OF ph, of n] l show thesis
      using merge_next_step [of h s lo hi xs b n ys' fs]
      by (intro that [of "absorb_block b n (free_list_remove n h)" ys' "remove1 n fs"]) auto
  qed
qed

lemma coalesce_rep:
  assumes l: "loose_rep h s lo hi xs b ys fs"
  obtains xs' b' ys' fs' h' where "coalesce_with_neighbors b h = (b', h')"
    and "loose_rep h' s lo hi xs' b' ys' fs'"
    and "xs' = [] \<or> block_is_allocated (h' (last xs'))"
    and "ys' = [] \<or> block_is_allocated (h' (hd ys'))"
    and "live h' (xs' @ b' # ys') = live h (xs @ b # ys)"
proof -
  from l have nx: "next_phys (h b) = hd (ys @ [0])"
    by (auto simp: loose_rep_def phys_rep_links)
  from coalesce_prev [OF l] obtain xs1 b1 fs1 h1 where one:
    "(if prev_phys (h b) \<noteq> NULL \<and> \<not> block_is_allocated (h (prev_phys (h b)))
      then (prev_phys (h b), absorb_block (prev_phys (h b)) b (free_list_remove (prev_phys (h b)) h))
      else (b, h)) = (b1, h1)"
    "loose_rep h1 s lo hi xs1 b1 ys fs1"
    "xs1 = [] \<or> block_is_allocated (h1 (last xs1))" "live h1 (xs1 @ b1 # ys) = live h (xs @ b # ys)" .
  from coalesce_next [OF one(2)] obtain ys2 fs2 h2 where two:
    "(if hd (ys @ [0]) \<noteq> NULL \<and> \<not> block_is_allocated (h1 (hd (ys @ [0])))
      then absorb_block b1 (hd (ys @ [0])) (free_list_remove (hd (ys @ [0])) h1) else h1) = h2"
    "loose_rep h2 s lo hi xs1 b1 ys2 fs2" "same_flags h2 h1 {b1}"
    "ys2 = [] \<or> block_is_allocated (h2 (hd ys2))" "live h2 (xs1 @ b1 # ys2) = live h1 (xs1 @ b1 # ys)" .
  have "coalesce_with_neighbors b h = (b1, h2)"
    unfolding coalesce_with_neighbors_def Let_def nx one(1) prod.case two(1) ..
  moreover have "distinct (xs1 @ b1 # ys2)"
    using two(2) phys_rep_distinct [of h2 lo hi "xs1 @ b1 # ys2"] by (simp add: loose_rep_def)
  then have "xs1 = [] \<or> block_is_allocated (h2 (last xs1))"
    using one(3) same_flagsD(2) [OF two(3), of "last xs1"] by (cases xs1 rule: rev_cases) auto
  ultimately show thesis using two one(4) by (intro that [of b1 h2 xs1 ys2 fs2]) auto
qed

lemma free_heap_rep:
  assumes hr: "heap_rep h s lo hi bs fs" and b: "b \<in> set bs" "block_is_allocated (h b)"
  obtains b' h' bs' fs' where
    "coalesce_with_neighbors b (set_next_free b NULL (set_prev_free b NULL (block_mark_free b h))) = (b', h')"
    and "heap_rep (free_list_insert s b' h') s lo hi bs' fs'"
    and "live (free_list_insert s b' h') bs' = live h bs - {(unat b + 40, bsz h b - 40)}"
proof -
  let ?h = "set_next_free b NULL (set_prev_free b NULL (block_mark_free b h))"
  from b(1) obtain xs ys where bs: "bs = xs @ b # ys" by (meson split_list)
  have l: "loose_rep ?h s lo hi xs b ys fs" using loose_start hr b bs by simp
  from coalesce_rep [OF l] obtain xs' b' ys' fs' h' where c:
    "coalesce_with_neighbors b ?h = (b', h')" "loose_rep h' s lo hi xs' b' ys' fs'"
    "xs' = [] \<or> block_is_allocated (h' (last xs'))" "ys' = [] \<or> block_is_allocated (h' (hd ys'))"
    "live h' (xs' @ b' # ys') = live ?h (xs @ b # ys)" .
  have sf: "size_and_flags (?h a) = (if a = b then block_size (h b) else size_and_flags (h a))" for a
    by (simp add: store_simps block_mark_free_def block_size_def)
  have nb: "\<not> block_is_allocated (?h b)"
    using block_size_flags(2) [of "?h b" "block_size (h b)"] by (simp add: sf)
  have keep: "same_flags ?h h {b}" by (simp add: sf)
  have "distinct bs" using hr by (auto simp: heap_rep_def dest: phys_rep_distinct)
  have "live ?h bs = live h (xs @ ys)"
  proof (rule live_cong)
    show "{a \<in> set bs. block_is_allocated (?h a)} = {a \<in> set (xs @ ys). block_is_allocated (h a)}"
      using bs nb same_flagsD(2) [OF keep] \<open>distinct bs\<close> by auto metis+
    show "block_size (?h a) = block_size (h a)" if "a \<in> set (xs @ ys)" for a
      using that bs \<open>distinct bs\<close> by (intro same_flagsD(1) [OF keep]) auto
  qed
  also have "\<dots> = live h bs - {(unat b + 40, bsz h b - 40)}"
    using bs \<open>distinct bs\<close> b(2) by (auto simp: live_def) (metis word_unat_eq_iff)+
  finally have lv: "live ?h bs = live h bs - {(unat b + 40, bsz h b - 40)}" .
  have "live (free_list_insert s b' h') (xs' @ b' # ys') = live h' (xs' @ b' # ys')"
    by (rule live_cong) (auto simp: store_simps block_size_def block_is_allocated_def)
  with c lv bs show thesis
    using loose_finish [OF c(2,3,4)] by (intro that [of b' h' "xs' @ b' # ys'" "b' # fs'"]) simp_all
qed

section \<open>Finding and taking a block\<close>

lemma find_first_fit_from_rep:
  assumes "links (\<lambda>a. next_free (h a)) (\<lambda>a. prev_free (h a)) (fs @ [s])" "0 \<notin> set fs" "s \<notin> set fs"
  shows "find_first_fit_from h s req (hd (fs @ [s])) =
     Some (case find (\<lambda>b. req \<le> block_size (h b)) fs of None \<Rightarrow> 0 | Some b \<Rightarrow> b)"
  using assms
proof (induction fs)
  case Nil
  then show ?case by (simp add: find_first_fit_from.simps)
next
  case (Cons f fs)
  then have "next_free (h f) = hd (fs @ [s])" by (cases fs) auto
  moreover have "links (\<lambda>a. next_free (h a)) (\<lambda>a. prev_free (h a)) (fs @ [s])"
    using Cons.prems(1) links_append [of _ _ "[f]" "hd (fs @ [s])" "tl (fs @ [s])"] by (cases fs) auto
  ultimately show ?case
    using Cons by (subst find_first_fit_from.simps) auto
qed

lemma free_rep_tail:
  assumes fr: "free_rep h s fs"
  shows "links (\<lambda>a. next_free (h a)) (\<lambda>a. prev_free (h a)) (fs @ [s])" and "0 \<notin> set fs" and "s \<notin> set fs"
  using fr links_append [of _ _ "[s]" "hd (fs @ [s])" "tl (fs @ [s])"]
  by (cases fs, auto simp: free_rep_def)

lemma find_first_fit_rep:
  assumes fr: "free_rep h s fs"
  shows "find_first_fit h s req =
     Some (case find (\<lambda>b. req \<le> block_size (h b)) fs of None \<Rightarrow> 0 | Some b \<Rightarrow> b)"
  by (simp add: find_first_fit_def free_rep_next [OF fr] find_first_fit_from_rep [OF free_rep_tail [OF fr]])

lemma largest_free_from_rep:
  assumes "links (\<lambda>a. next_free (h a)) (\<lambda>a. prev_free (h a)) (fs @ [s])" "0 \<notin> set fs" "s \<notin> set fs"
  shows "largest_free_from h s m (hd (fs @ [s])) = Some (fold max (map (\<lambda>b. block_size (h b)) fs) m)"
  using assms
proof (induction fs arbitrary: m)
  case Nil
  then show ?case by (simp add: largest_free_from.simps)
next
  case (Cons f fs)
  then have "next_free (h f) = hd (fs @ [s])" by (cases fs) auto
  moreover have "links (\<lambda>a. next_free (h a)) (\<lambda>a. prev_free (h a)) (fs @ [s])"
    using Cons.prems(1) links_append [of _ _ "[f]" "hd (fs @ [s])" "tl (fs @ [s])"] by (cases fs) auto
  moreover have "(if block_size (h f) > m then block_size (h f) else m) = max (block_size (h f)) m"
    by (auto simp: max_def)
  ultimately show ?case
    using Cons by (subst largest_free_from.simps) auto
qed

text \<open>The heap of \<open>take_block\<close>: unlink, split, mark.\<close>

definition taken :: "ptr \<Rightarrow> ptr \<Rightarrow> u64 \<Rightarrow> bheap \<Rightarrow> bheap" where
  "taken s b req h = block_mark_allocated b (split_block_if_possible s b req (free_list_remove b h))"

lemma mark_allocated_rep:
  assumes l: "loose_rep h s lo hi xs b ys fs"
  shows "heap_rep (block_mark_allocated b h) s lo hi (xs @ b # ys) fs"
    and "live (block_mark_allocated b h) (xs @ b # ys) =
         insert (unat b + 40, bsz h b - 40) (live h (xs @ b # ys))"
    and "block_size (block_mark_allocated b h b) = block_size (h b)"
proof -
  let ?h = "block_mark_allocated b h"
  from l have ph: "phys_rep h lo hi (xs @ b # ys)" and nb: "\<not> block_is_allocated (h b)"
    by (simp_all add: loose_rep_def)
  have dist: "distinct (xs @ b # ys)" using ph by (rule phys_rep_distinct)
  have ev: "even (size_and_flags (h b))" using nb by (simp add: block_is_allocated_def mm_simple_consts)
  have sf: "size_and_flags (?h a) = (if a = b then size_and_flags (h b) OR 1 else size_and_flags (h a))" for a
    by (simp add: store_simps block_mark_allocated_def mm_simple_consts)
  then have keep: "same_flags ?h h {b}" by simp
  have sz: "block_size (?h a) = block_size (h a)" for a
    using block_size_flags_or(1) [OF _ ev, of "?h b"] block_size_flags(1) [OF refl ev]
      block_flags_cong [of "?h a" "h a"] by (cases "a = b") (simp_all add: sf)
  then show "block_size (?h b) = block_size (h b)" by simp
  have al: "block_is_allocated (?h a) = (a = b \<or> block_is_allocated (h a))" for a
    using block_size_flags_or(2) [OF _ ev, of "?h b"] same_flagsD(2) [OF keep, of a]
    by (cases "a = b") (simp_all add: sf)
  have "phys_rep ?h lo hi (xs @ b # ys)"
    using ph by (rule phys_rep_cong) (simp add: sz store_simps)
  moreover have "free_rep ?h s fs"
    using l by (auto simp: loose_rep_def store_simps elim!: free_rep_cong)
  moreover have "no_adjacent_free ?h (xs @ b # ys)"
    using l by (auto simp: loose_rep_def successively_append_iff successively_Cons al
        intro: successively_mono)
  ultimately show "heap_rep ?h s lo hi (xs @ b # ys) fs"
    using l dist by (auto simp: heap_rep_def loose_rep_def al)
  show "live ?h (xs @ b # ys) = insert (unat b + 40, bsz h b - 40) (live h (xs @ b # ys))"
    by (auto simp: live_def al sz)
qed


lemma loose_remove:
  assumes hr: "heap_rep h s lo hi (xs @ b # ys) fs" and b: "b \<in> set fs"
  shows "loose_rep (free_list_remove b h) s lo hi xs b ys (remove1 b fs)"
    and "ys = [] \<or> block_is_allocated (h (hd ys))"
proof -
  from hr have ph: "phys_rep h lo hi (xs @ b # ys)" and fr: "free_rep h s fs"
    and nb: "\<not> block_is_allocated (h b)" using b by (auto simp: heap_rep_def)
  have dist: "distinct (xs @ b # ys)" using ph by (rule phys_rep_distinct)
  show "ys = [] \<or> block_is_allocated (h (hd ys))"
    using hr nb by (auto simp: heap_rep_def successively_append_iff successively_Cons)
  show "loose_rep (free_list_remove b h) s lo hi xs b ys (remove1 b fs)"
    using hr nb dist free_list_remove_keeps [OF ph] free_list_take [OF fr b]
    by (auto simp: heap_rep_def loose_rep_def successively_append_iff successively_Cons)
qed

lemma split_loose:
  assumes l: "loose_rep h s lo hi xs b ys fs" and nxt: "ys = [] \<or> block_is_allocated (h (hd ys))"
    and req: "56 \<le> unat req" "8 dvd unat req" "unat req + 56 \<le> bsz h b"
  defines "h' \<equiv> split_block_if_possible s b req h"
  shows "loose_rep h' s lo hi xs b ((b + req) # ys) ((b + req) # fs)"
    and "block_size (h' b) = req"
    and "live h' (xs @ b # (b + req) # ys) = live h (xs @ b # ys)"
proof -
  let ?n = "b + req"
  from l have ph: "phys_rep h lo hi (xs @ b # ys)" and nb: "\<not> block_is_allocated (h b)"
    by (simp_all add: loose_rep_def)
  note sizes = split_block_sizes [where s = s, OF ph req, folded h'_def]
    and fresh = split_fresh [OF ph req]
  have ph': "phys_rep h' lo hi (xs @ b # ?n # ys)"
    using split_block_phys [OF ph req] by (simp add: h'_def)
  have dist: "distinct (xs @ b # ?n # ys)" using ph' by (rule phys_rep_distinct)
  have keep: "same_flags h' h {b, ?n}" using sizes(5) by simp
  have keep_al: "block_is_allocated (h' a) = block_is_allocated (h a)" if "a \<in> set xs \<union> set ys" for a
    using that dist by (intro same_flagsD(2) [OF keep]) auto
  have s_out: "?n \<noteq> s" using sentinel_outside [OF ph'] l by (auto simp: loose_rep_def)
  have n_fs: "?n \<notin> set fs" using fresh(2) l by (auto simp: loose_rep_def)
  have "free_rep h' s (?n # fs)"
    unfolding h'_def using l fresh(1) s_out n_fs
    by (intro split_possible_free split_fits(3) [OF ph req]) (auto simp: loose_rep_def)
  moreover have "no_adjacent_free h' xs"
    by (rule no_adjacent_free_keep [OF _ keep]) (use l dist in \<open>auto simp: loose_rep_def\<close>)
  moreover have "no_adjacent_free h' ys"
    by (rule no_adjacent_free_keep [OF _ keep]) (use l dist in \<open>auto simp: loose_rep_def\<close>)
  ultimately show "loose_rep h' s lo hi xs b (?n # ys) (?n # fs)"
    using l ph' sizes(2,4) nb keep_al nxt
    by (auto simp: loose_rep_def successively_Cons)
  show "block_size (h' b) = req" by (rule sizes(1))
  show "live h' (xs @ b # ?n # ys) = live h (xs @ b # ys)"
  proof (rule live_cong)
    show "{a \<in> set (xs @ b # ?n # ys). block_is_allocated (h' a)} =
        {a \<in> set (xs @ b # ys). block_is_allocated (h a)}"
      using sizes(2,4) nb keep_al by auto
    show "block_size (h' a) = block_size (h a)"
      if "a \<in> set (xs @ b # ys)" "block_is_allocated (h a)" for a
      using that nb dist by (intro same_flagsD(1) [OF keep]) auto
  qed
qed


lemma alloc_heap_rep:
  assumes hr: "heap_rep h s lo hi bs fs" and b: "b \<in> set fs"
    and req: "56 \<le> unat req" "8 dvd unat req" "req \<le> block_size (h b)"
  obtains bs' fs' where "heap_rep (taken s b req h) s lo hi bs' fs'"
    and "live (taken s b req h) bs' = insert (unat b + 40, bsz (taken s b req h) b - 40) (live h bs)"
    and "b \<in> set bs" and "\<not> block_is_allocated (h b)"
    and "unat req \<le> bsz (taken s b req h) b" and "bsz (taken s b req h) b < unat req + 56"
proof -
  let ?r = "free_list_remove b h"
  from hr b have bm: "b \<in> set bs" "\<not> block_is_allocated (h b)" by (auto simp: heap_rep_def)
  then obtain xs ys where bs: "bs = xs @ b # ys" by (meson split_list)
  have l: "loose_rep ?r s lo hi xs b ys (remove1 b fs)" and nxt: "ys = [] \<or> block_is_allocated (?r (hd ys))"
    using loose_remove hr b bs by auto
  have lr: "live ?r bs = live h bs" by (rule live_cong) auto
  have b_hi: "unat req \<le> bsz h b" using req(3) by (simp add: word_le_nat_alt)
  from hr have ph: "phys_rep h lo hi bs" by (simp add: heap_rep_def)
  have "bsz h b + 56 < 2 ^ 64"
    using phys_rep_mem(3) [OF ph bm(1)] ph by (simp add: phys_rep_def)
  with b_hi have no_wrap: "unat (req + 56) = unat req + 56"
    using unat_add_lt [of req 56] by simp
  show thesis
  proof (cases "unat req + 56 \<le> bsz ?r b")
    case True
    note sp = split_loose [OF l nxt req(1,2) True]
    note mk = mark_allocated_rep [OF sp(1)]
    from sp mk bm lr bs show thesis
      by (intro that) (simp_all add: taken_def)
  next
    case False
    then have "block_size (h b) < req + 56" using no_wrap by (simp add: word_less_nat_alt)
    then have "split_block_if_possible s b req ?r = ?r"
      by (simp add: split_block_if_possible_def Let_def mm_simple_consts)
    with mark_allocated_rep [OF l] bm lr bs b_hi False show thesis
      by (intro that) (simp_all add: taken_def)
  qed
qed

end
