(* ===== verification/MM_Spec.thy ===== *)
theory MM_Spec
  imports Kernel_Prelude
begin

text \<open>
  What \<open>Kernel/include/mm.h\<close> promises of \<open>mm_alloc\<close> and \<open>mm_free\<close>, whichever of the two managers
  is compiled in.  A manager's state represents a set of live regions (address and length of the
  payload).  The locale states the contract; the client below it issues any sequence of allocations
  and releases of pointers it holds, and the lemmas say what such a client can rely on.
\<close>

section \<open>Regions\<close>

type_synonym region = "nat \<times> nat"

definition apart :: "region \<Rightarrow> region \<Rightarrow> bool" where
  "apart r q \<longleftrightarrow> fst r + snd r \<le> fst q \<or> fst q + snd q \<le> fst r"

lemma apart_sym: "apart r q = apart q r"
  by (auto simp: apart_def)

lemma apart_sub:
  assumes "apart (a, m) (b, n)" and "m' \<le> m" and "n' \<le> n"
  shows "apart (a, m') (b, n')"
  using assms by (auto simp: apart_def)

section \<open>A client\<close>

text \<open>A request asks for \<open>n\<close> bytes or releases the \<open>i\<close>-th pointer the client holds; the client keeps
  what it asked for beside each pointer.\<close>

datatype mm_req = Req_alloc u64 | Req_free nat

type_synonym held = "(ptr \<times> u64) list"

definition drop_nth :: "nat \<Rightarrow> 'a list \<Rightarrow> 'a list" where
  "drop_nth i xs = take i xs @ drop (Suc i) xs"

fun mm_client ::
  "(u64 \<Rightarrow> 's \<Rightarrow> (ptr \<times> 's) option) \<Rightarrow> (ptr \<Rightarrow> 's \<Rightarrow> 's option) \<Rightarrow> mm_req list \<Rightarrow> held \<Rightarrow> 's \<Rightarrow> (held \<times> 's) option" where
  "mm_client alloc free [] held s = Some (held, s)"
| "mm_client alloc free (Req_alloc n # rs) held s =
     (case alloc n s of
        None \<Rightarrow> None
      | Some (p, s') \<Rightarrow> mm_client alloc free rs (if p = 0 then held else (p, n) # held) s')"
| "mm_client alloc free (Req_free i # rs) held s =
     (if i < length held
      then case free (fst (held ! i)) s of None \<Rightarrow> None | Some s' \<Rightarrow> mm_client alloc free rs (drop_nth i held) s'
      else mm_client alloc free rs held s)"

definition within_limit :: "nat \<Rightarrow> mm_req \<Rightarrow> bool" where
  "within_limit lim r = (case r of Req_alloc n \<Rightarrow> unat n \<le> lim | Req_free _ \<Rightarrow> True)"

text \<open>The client's pointers are the starts of distinct live regions, each as long as was asked.\<close>

definition backed :: "held \<Rightarrow> region set \<Rightarrow> bool" where
  "backed held L \<longleftrightarrow> distinct (map fst held) \<and>
     (\<exists>len. L = (\<lambda>(p, n). (unat p, len p)) ` set held \<and> (\<forall>(p, n) \<in> set held. unat n \<le> len p))"

lemma drop_nth_split: "i < length xs \<Longrightarrow> \<exists>ys zs. xs = ys @ xs ! i # zs \<and> drop_nth i xs = ys @ zs"
  unfolding drop_nth_def by (metis id_take_nth_drop)

lemma backed_alloc:
  assumes b: "backed held L" and fresh: "unat p \<notin> fst ` L" and n: "unat n \<le> k"
  shows "backed ((p, n) # held) (insert (unat p, k) L)"
proof -
  from b obtain len where L: "L = (\<lambda>(p, n). (unat p, len p)) ` set held"
    and le: "\<forall>(p, n) \<in> set held. unat n \<le> len p" and d: "distinct (map fst held)"
    by (auto simp: backed_def)
  have p: "p \<notin> fst ` set held"
  proof
    assume "p \<in> fst ` set held"
    then obtain m where "(p, m) \<in> set held" by auto
    then have "(unat p, len p) \<in> L" unfolding L by force
    with fresh show False by force
  qed
  have "insert (unat p, k) L = (\<lambda>(q, n). (unat q, (len(p := k)) q)) ` set ((p, n) # held)"
    unfolding L using p by (force simp: image_iff)
  moreover have "\<forall>(q, m) \<in> set ((p, n) # held). unat m \<le> (len(p := k)) q"
    using le n p by (force simp: image_iff)
  ultimately show ?thesis using d p unfolding backed_def
    by (intro conjI exI [of _ "len(p := k)"]) auto
qed

lemma backed_free:
  assumes b: "backed (ys @ (p, n) # zs) L"
  obtains k where "(unat p, k) \<in> L" and "backed (ys @ zs) (L - {(unat p, k)})"
proof -
  from b obtain len where L: "L = (\<lambda>(p, n). (unat p, len p)) ` set (ys @ (p, n) # zs)"
    and le: "\<forall>(p, n) \<in> set (ys @ (p, n) # zs). unat n \<le> len p" and d: "distinct (map fst (ys @ (p, n) # zs))"
    by (auto simp: backed_def)
  have "(unat p, len p) \<notin> (\<lambda>(p, n). (unat p, len p)) ` set (ys @ zs)"
    using d by (force dest: word_unat_eq_iff [THEN iffD2])
  then have "L - {(unat p, len p)} = (\<lambda>(p, n). (unat p, len p)) ` set (ys @ zs)"
    unfolding L by auto
  then have "backed (ys @ zs) (L - {(unat p, len p)})"
    using le d unfolding backed_def by (intro conjI exI [of _ len]) auto
  moreover have "(unat p, len p) \<in> L" unfolding L by simp
  ultimately show thesis using that by blast
qed

section \<open>The contract\<close>

locale mm_contract =
  fixes rep :: "'s \<Rightarrow> region set \<Rightarrow> bool"
    and alloc :: "u64 \<Rightarrow> 's \<Rightarrow> (ptr \<times> 's) option"
    and free :: "ptr \<Rightarrow> 's \<Rightarrow> 's option"
    and limit :: nat
  assumes rep_apart: "rep s L \<Longrightarrow> r \<in> L \<Longrightarrow> q \<in> L \<Longrightarrow> r \<noteq> q \<Longrightarrow> apart r q"
    and rep_nonempty: "rep s L \<Longrightarrow> r \<in> L \<Longrightarrow> 0 < snd r"
    and alloc_returns: "rep s L \<Longrightarrow> \<exists>p s'. alloc n s = Some (p, s')"
    and alloc_fails: "rep s L \<Longrightarrow> alloc n s = Some (0, s') \<Longrightarrow> rep s' L"
    and alloc_gives: "rep s L \<Longrightarrow> alloc n s = Some (p, s') \<Longrightarrow> p \<noteq> 0 \<Longrightarrow> unat n \<le> limit \<Longrightarrow>
      \<exists>k. unat n \<le> k \<and> (unat p, k) \<notin> L \<and> rep s' (insert (unat p, k) L)"
    and free_takes: "rep s L \<Longrightarrow> (unat p, k) \<in> L \<Longrightarrow> \<exists>s'. free p s = Some s' \<and> rep s' (L - {(unat p, k)})"
begin

lemma alloc_fresh:
  assumes r: "rep s L" and a: "alloc n s = Some (p, s')" "p \<noteq> 0" "unat n \<le> limit"
  obtains k where "unat n \<le> k" "rep s' (insert (unat p, k) L)" "unat p \<notin> fst ` L"
    "\<And>q. q \<in> L \<Longrightarrow> apart (unat p, k) q"
proof -
  from alloc_gives [OF r a] obtain k
    where k: "unat n \<le> k" "(unat p, k) \<notin> L" "rep s' (insert (unat p, k) L)" by blast
  have ap: "apart (unat p, k) q" if "q \<in> L" for q
    using rep_apart [OF k(3), of "(unat p, k)" q] that k(2) by auto
  have "unat p \<notin> fst ` L"
  proof
    assume "unat p \<in> fst ` L"
    then obtain m where "(unat p, m) \<in> L" by auto
    with ap [of "(unat p, m)"] rep_nonempty [OF k(3), of "(unat p, k)"]
      rep_nonempty [OF r, of "(unat p, m)"] show False by (auto simp: apart_def)
  qed
  with k ap show thesis using that by blast
qed

lemma alloc_then_free:
  assumes r: "rep s L" and a: "alloc n s = Some (p, s')" "p \<noteq> 0" "unat n \<le> limit"
  shows "\<exists>s''. free p s' = Some s'' \<and> rep s'' L"
proof -
  from alloc_fresh [OF r a] obtain k where k: "rep s' (insert (unat p, k) L)" "unat p \<notin> fst ` L" .
  from k(2) have "(unat p, k) \<notin> L" by force
  with free_takes [OF k(1), of p k] show ?thesis by (simp add: insert_Diff_if)
qed

lemma client_safe:
  assumes "rep s L" and "backed held L" and "list_all (within_limit limit) rs"
  shows "\<exists>held' s' L'. mm_client alloc free rs held s = Some (held', s') \<and> rep s' L' \<and> backed held' L'"
  using assms
proof (induction rs arbitrary: held s L)
  case (Cons r rs)
  from Cons.prems(3) have rs: "list_all (within_limit limit) rs" by simp
  show ?case
  proof (cases r)
    case (Req_alloc n)
    with Cons.prems(3) have n: "unat n \<le> limit" by (simp add: within_limit_def)
    from alloc_returns [OF Cons.prems(1)] obtain p s' where a: "alloc n s = Some (p, s')" by blast
    show ?thesis
    proof (cases "p = 0")
      case True
      with alloc_fails [OF Cons.prems(1)] a have "rep s' L" by simp
      from Cons.IH [OF this Cons.prems(2) rs] show ?thesis using Req_alloc a True by simp
    next
      case False
      from alloc_fresh [OF Cons.prems(1) a False n] obtain k
        where k: "unat n \<le> k" "rep s' (insert (unat p, k) L)" "unat p \<notin> fst ` L" .
      from Cons.IH [OF k(2) backed_alloc [OF Cons.prems(2) k(3,1)] rs]
      show ?thesis using Req_alloc a False by simp
    qed
  next
    case (Req_free i)
    show ?thesis
    proof (cases "i < length held")
      case True
      obtain p n where hi: "held ! i = (p, n)" by fastforce
      from drop_nth_split [OF True] obtain ys zs
        where sp: "held = ys @ (p, n) # zs" "drop_nth i held = ys @ zs" using hi by auto
      from backed_free [of ys p n zs L] Cons.prems(2) sp(1) obtain k
        where k: "(unat p, k) \<in> L" "backed (ys @ zs) (L - {(unat p, k)})" by blast
      from free_takes [OF Cons.prems(1) k(1)] obtain s' where s': "free p s = Some s'" "rep s' (L - {(unat p, k)})" by blast
      from Cons.IH [OF s'(2) k(2) rs] show ?thesis using Req_free True hi sp(2) s'(1) by simp
    next
      case False
      from Cons.IH [OF Cons.prems(1,2) rs] show ?thesis using Req_free False by simp
    qed
  qed
qed auto

lemma client_apart:
  assumes "rep s {}" and "list_all (within_limit limit) rs"
  obtains held s' where "mm_client alloc free rs [] s = Some (held, s')"
    and "\<And>i j. i < j \<Longrightarrow> j < length held \<Longrightarrow>
      apart (unat (fst (held ! i)), unat (snd (held ! i))) (unat (fst (held ! j)), unat (snd (held ! j)))"
proof -
  have "backed [] {}" by (simp add: backed_def)
  from client_safe [OF assms(1) this assms(2)] obtain held s' L
    where c: "mm_client alloc free rs [] s = Some (held, s')" "rep s' L" "backed held L" by blast
  from c(3) obtain len where L: "L = (\<lambda>(p, n). (unat p, len p)) ` set held"
    and le: "\<forall>(p, n) \<in> set held. unat n \<le> len p" and d: "distinct (map fst held)"
    by (auto simp: backed_def)
  show thesis
  proof (rule that [OF c(1)])
    fix i j assume ij: "i < j" "j < length held"
    obtain p m q n where pq: "held ! i = (p, m)" "held ! j = (q, n)" by fastforce
    have mem: "(p, m) \<in> set held" "(q, n) \<in> set held" using nth_mem [of i held] nth_mem [of j held] ij pq by auto
    have "p \<noteq> q" using nth_eq_iff_index_eq [OF d, of i j] ij pq by auto
    moreover have "(unat p, len p) \<in> L" "(unat q, len q) \<in> L" using mem unfolding L by force+
    ultimately have "apart (unat p, len p) (unat q, len q)" 
      using rep_apart [OF c(2)] by (auto simp: word_unat_eq_iff)
    then show "apart (unat (fst (held ! i)), unat (snd (held ! i))) (unat (fst (held ! j)), unat (snd (held ! j)))"
      using apart_sub le mem pq by fastforce
  qed
qed

end

end
