(* ===== verification/MM_Simple_Correct.thy ===== *)
theory MM_Simple_Correct
  imports MM_Simple_Inv MM_Spec
begin

text \<open>
  The first-fit manager against its contract.  \<open>simple_rep\<close> relates a state of \<open>mm_simple.c\<close> to the
  set of live regions; \<open>mm_init\<close> establishes it, \<open>mm_alloc\<close> adds a region and \<open>mm_free\<close> takes one
  away, which interprets \<open>mm_contract\<close> on the manager's own operations.
\<close>

section \<open>Sizes\<close>

lemma align_up_16:
  assumes "unat w + 15 < 2 ^ 64"
  shows "unat (align_up w 16) = (unat w + 15) div 16 * 16"
proof -
  have "unat (15 + w) = unat w + 15" using assms by (subst unat_add_lt) simp_all
  then show ?thesis by (simp add: align_up_def unat_and_not_15)
qed

lemma align_up_16_dvd: "16 dvd unat (align_up w 16)"
  by (simp add: align_up_def unat_and_not_15)

lemma required_size_bounds:
  "56 \<le> unat (required_size_simple sz)" "8 dvd unat (required_size_simple sz)"
proof -
  let ?r = "align_up sz 16 + 40"
  have d: "8 dvd unat (align_up sz 16)" using align_up_16_dvd [of sz] by (auto elim!: dvdE)
  have "unat ?r = (unat (align_up sz 16) + 40) mod 2 ^ 64" by (simp add: unat_word_ariths)
  moreover have "8 dvd (unat (align_up sz 16) + 40) mod 2 ^ 64" using d by (simp add: dvd_mod)
  ultimately have "8 dvd unat ?r" by simp
  then show "8 dvd unat (required_size_simple sz)"
    by (simp add: required_size_simple_def mm_simple_consts Let_def)
  show "56 \<le> unat (required_size_simple sz)"
    by (simp add: required_size_simple_def mm_simple_consts word_less_nat_alt Let_def)
qed

lemma required_size_exact:
  assumes "0 < sz" "unat sz + 56 \<le> 2 ^ 64"
  shows "unat (required_size_simple sz) = (unat sz + 15) div 16 * 16 + 40"
proof -
  have a: "unat (align_up sz 16) = (unat sz + 15) div 16 * 16" using assms by (intro align_up_16) simp
  have p: "0 < unat sz" using assms by (simp add: unat_gt_0)
  have "unat (align_up sz 16) \<le> unat sz + 15" unfolding a by simp
  moreover have "unat (align_up sz 16) + 40 < 2^64" unfolding a using assms p by presburger
  ultimately have e: "unat (align_up sz 16 + 40) = unat (align_up sz 16) + 40"
    by (subst unat_add_lt) simp_all
  have "16 \<le> (unat sz + 15) div 16 * 16" using p by presburger
  then show ?thesis unfolding required_size_simple_def mm_simple_consts Let_def using a e
    by (simp add: word_less_nat_alt)
qed

lemma required_size_covers:
  assumes "0 < sz" "unat sz + 56 \<le> 2 ^ 64"
  shows "unat sz + 40 \<le> unat (required_size_simple sz)" and "unat (required_size_simple sz) < unat sz + 56"
  unfolding required_size_exact [OF assms] by presburger+

section \<open>The state of the manager\<close>

text \<open>\<open>simple_rep lo hi m L\<close>: the heap occupies the addresses from \<open>lo\<close> up to \<open>hi\<close>, its live
  payloads are the regions \<open>L\<close>, and the two byte counters are exact.\<close>

definition simple_rep :: "nat \<Rightarrow> nat \<Rightarrow> mm_simple \<Rightarrow> region set \<Rightarrow> bool" where
  "simple_rep lo hi m L \<longleftrightarrow> mm_initialized_flag_s m \<noteq> 0 \<and> lo < hi \<and>
     unat (heap_capacity_bytes_s m) = hi - lo - 40 \<and> unat (heap_used_bytes_s m) = sum snd L \<and>
     (\<exists>bs fs. heap_rep (mem_s m) (free_list_sentinel m) lo hi bs fs \<and> L = live (mem_s m) bs)"

lemma live_apart:
  assumes "phys_rep h lo hi bs" and "r \<in> live h bs" and "q \<in> live h bs" and "r \<noteq> q"
  shows "apart r q"
proof -
  from assms(2,3) obtain b c where bc: "b \<in> set bs" "c \<in> set bs" and r: "r = (unat b + 40, bsz h b - 40)"
    and q: "q = (unat c + 40, bsz h c - 40)" by (auto simp: live_def)
  with assms(4) have "b \<noteq> c" by auto
  from bc(1) obtain xs ys where bs: "bs = xs @ b # ys" by (meson split_list)
  note ap = tiles_apart [of h lo xs b ys hi c]
  have "56 \<le> bsz h b" "56 \<le> bsz h c" using phys_rep_mem(4) [OF assms(1)] bc by auto
  moreover have "unat c + bsz h c \<le> unat b \<or> unat b + bsz h b \<le> unat c"
    using ap assms(1) bc(2) \<open>b \<noteq> c\<close> unfolding bs phys_rep_def by auto
  ultimately show ?thesis unfolding r q apart_def by auto
qed

lemma tiles_sum: "tiles h a bs e \<Longrightarrow> a + sum_list (map (bsz h) bs) = e"
  by (induction bs arbitrary: a) (auto simp: add.assoc [symmetric])

lemma live_bounds:
  assumes "phys_rep h lo hi bs" and "(a, n) \<in> live h bs"
  shows "lo + 40 \<le> a" and "a + n \<le> hi" and "16 \<le> n" and "8 dvd n"
proof -
  from assms(2) obtain b where b: "b \<in> set bs" and an: "a = unat b + 40" "n = bsz h b - 40"
    by (auto simp: live_def)
  note m = phys_rep_mem [OF assms(1) b]
  show "lo + 40 \<le> a" "a + n \<le> hi" "16 \<le> n" using m an by auto
  show "8 dvd n" unfolding an(2) using m(5) by (intro dvd_diff_nat) auto
qed

lemma live_sum:
  assumes ph: "phys_rep h lo hi bs" and "lo < hi"
  shows "sum snd (live h bs) + 40 \<le> hi - lo"
proof -
  have d: "distinct bs" and t: "tiles h lo bs hi" using ph by (auto simp: phys_rep_distinct phys_rep_def)
  have inj: "inj_on (\<lambda>b. (unat b + 40, bsz h b - 40)) S" for S
    by (auto simp: inj_on_def word_unat_eq_iff)
  have "sum snd (live h bs) = (\<Sum>b\<in>{b \<in> set bs. block_is_allocated (h b)}. bsz h b - 40)"
    unfolding live_def by (subst sum.reindex [OF inj]) simp
  also have "\<dots> \<le> (\<Sum>b\<in>set bs. bsz h b - 40)" by (rule sum_mono2) auto
  finally have le: "sum snd (live h bs) \<le> (\<Sum>b\<in>set bs. bsz h b - 40)" .
  have "bs \<noteq> []" using t assms(2) by auto
  then obtain c where c: "c \<in> set bs" by (meson list.set_sel(1))
  have "(\<Sum>b\<in>set bs. bsz h b - 40) + 40 = (\<Sum>b\<in>set bs. bsz h b - 40) + (\<Sum>b\<in>{c}. 40)" by simp
  also have "\<dots> \<le> (\<Sum>b\<in>set bs. bsz h b - 40) + (\<Sum>b\<in>set bs. 40)"
    using c by (intro add_left_mono sum_mono2) auto
  also have "\<dots> = (\<Sum>b\<in>set bs. bsz h b - 40 + 40)" by (simp add: sum.distrib)
  also have "\<dots> = (\<Sum>b\<in>set bs. bsz h b)"
    using phys_rep_mem(4) [OF ph] by (intro sum.cong) fastforce+
  also have "\<dots> = hi - lo" using tiles_sum [OF t] d by (simp add: sum_list_distinct_conv_sum_set)
  finally show ?thesis using le by simp
qed

lemma simple_repI:
  assumes "heap_rep (mem_s m) (free_list_sentinel m) lo hi bs fs" and "L = live (mem_s m) bs"
    and "mm_initialized_flag_s m \<noteq> 0" and "lo < hi"
    and "unat (heap_capacity_bytes_s m) = hi - lo - 40" and "unat (heap_used_bytes_s m) = sum snd L"
  shows "simple_rep lo hi m L"
  using assms by (auto simp: simple_rep_def)

lemma finite_live [simp]: "finite (live h bs)"
  by (simp add: live_def)

lemma live_fresh:
  assumes "phys_rep h lo hi bs" and "b \<in> set bs" and "\<not> block_is_allocated (h b)"
  shows "(unat b + 40, k) \<notin> live h bs"
  using assms by (auto simp: live_def word_unat_eq_iff [symmetric])

lemma take_block_rep:
  assumes r: "simple_rep lo hi m L" and hr: "heap_rep (mem_s m) (free_list_sentinel m) lo hi bs fs"
    and L: "L = live (mem_s m) bs" and b: "b \<in> set fs"
    and req: "56 \<le> unat req" "8 dvd unat req" "req \<le> block_size (mem_s m b)"
  obtains k where "simple_rep lo hi (take_block b req m) (insert (unat (b + 40), k) L)"
    and "(unat (b + 40), k) \<notin> L" and "unat req \<le> k + 40" and "k < unat req + 16"
    and "b + 40 \<noteq> 0"
proof -
  let ?h = "taken (free_list_sentinel m) b req (mem_s m)"
  from alloc_heap_rep [OF hr b req] obtain bs' fs' where a:
    "heap_rep ?h (free_list_sentinel m) lo hi bs' fs'"
    "live ?h bs' = insert (unat b + 40, bsz ?h b - 40) (live (mem_s m) bs)"
    "b \<in> set bs" "\<not> block_is_allocated (mem_s m b)" "unat req \<le> bsz ?h b" "bsz ?h b < unat req + 56" .
  let ?k = "bsz ?h b - 40" and ?m = "take_block b req m"
  have ph: "phys_rep (mem_s m) lo hi bs" "phys_rep ?h lo hi bs'" using hr a(1) by (simp_all add: heap_rep_def)
  have "unat b + 56 \<le> hi" using phys_rep_mem(3,4) [OF ph(1) a(3)] by linarith
  moreover have "hi + 56 < 2 ^ 64" using ph by (simp add: phys_rep_def)
  ultimately have p: "unat (b + 40) = unat b + 40" by (subst unat_add_lt) simp_all
  have fresh: "(unat b + 40, ?k) \<notin> L" unfolding L by (rule live_fresh [OF ph(1) a(3,4)])
  have "unat (block_size (?h b) - 40) = ?k"
    using a(5) req(1) by (subst unat_sub_le) (simp_all add: word_le_nat_alt)
  moreover have lo: "lo < hi" and "unat (heap_capacity_bytes_s m) = hi - lo - 40"
    and u: "unat (heap_used_bytes_s m) = sum snd L" using r by (auto simp: simple_rep_def)
  moreover have sm: "sum snd (live ?h bs') = ?k + sum snd L"
    unfolding a(2) using fresh L by simp
  moreover have cap: "sum snd (live ?h bs') + 40 \<le> hi - lo" by (rule live_sum [OF ph(2) lo])
  moreover have "unat (heap_used_bytes_s m + (block_size (?h b) - 40)) = sum snd L + ?k"
    using calculation \<open>hi + 56 < 2 ^ 64\<close> by (subst unat_add_lt) simp_all
  ultimately have used: "unat (heap_used_bytes_s ?m) = sum snd (live ?h bs')"
    by (simp add: take_block_def Let_def taken_def mm_simple_consts word_less_nat_alt)
  have "simple_rep lo hi ?m (live ?h bs')"
    using r by (intro simple_repI [of _ lo hi bs' fs'])
      (use used a(1) in \<open>simp_all add: simple_rep_def take_block_def Let_def taken_def\<close>)
  with a(2,5,6) fresh p show thesis
    by (intro that [of ?k]) (auto simp: L unat_eq_zero)
qed

lemma alloc_simple_unfold:
  assumes r: "simple_rep lo hi m L" and hr: "heap_rep (mem_s m) (free_list_sentinel m) lo hi bs fs" and "sz \<noteq> 0"
  shows "mm_alloc_simple sz m =
    Some (case find (\<lambda>b. required_size_simple sz \<le> block_size (mem_s m b)) fs of
            None \<Rightarrow> (0, m\<lparr>heap_failed_allocations_s := heap_failed_allocations_s m + 1\<rparr>)
          | Some b \<Rightarrow> (b + 40, take_block b (required_size_simple sz) m))"
proof -
  have fr: "free_rep (mem_s m) (free_list_sentinel m) fs" using hr by (simp add: heap_rep_def)
  have init: "mm_initialized_flag_s m \<noteq> 0" using r by (simp add: simple_rep_def)
  have nz: "b \<noteq> 0" if "find P fs = Some b" for b P
    using that fr nth_mem by (fastforce simp: free_rep_def find_Some_iff)
  show ?thesis using init assms(3) nz
    by (auto simp: mm_alloc_simple_def find_first_fit_rep [OF fr] Let_def mm_simple_consts split: option.splits)
qed

lemma simple_rep_cong_failed [simp]:
  "simple_rep lo hi (m\<lparr>heap_failed_allocations_s := x\<rparr>) L = simple_rep lo hi m L"
  by (simp add: simple_rep_def)

lemma alloc_simple_zero: "simple_rep lo hi m L \<Longrightarrow> mm_alloc_simple 0 m = Some (0, m)"
  by (simp add: simple_rep_def mm_alloc_simple_def)

lemma tiles_cover:
  assumes "tiles h lo bs hi" and "lo \<le> a" and "a < hi"
  obtains xs b ys where "bs = xs @ b # ys" and "unat b \<le> a" and "a < unat b + bsz h b"
proof -
  have "\<exists>xs b ys. bs = xs @ b # ys \<and> unat b \<le> a \<and> a < unat b + bsz h b"
    using assms
  proof (induction bs arbitrary: lo)
    case (Cons b bs)
    show ?case
    proof (cases "a < unat b + bsz h b")
      case True
      with Cons.prems have "b # bs = [] @ b # bs \<and> unat b \<le> a" by simp
      with True show ?thesis by blast
    next
      case False
      with Cons.prems Cons.IH [of "lo + bsz h b"] obtain xs c ys
        where "bs = xs @ c # ys" "unat c \<le> a" "a < unat c + bsz h c" by auto
      then show ?thesis by (metis append_Cons)
    qed
  qed simp
  then show thesis using that by blast
qed

lemma no_gap:
  assumes hr: "heap_rep h s lo hi bs fs" and small: "\<And>b. b \<in> set fs \<Longrightarrow> bsz h b < n"
    and a: "lo \<le> a" "a + n \<le> hi" "0 < n"
  obtains p k where "(p, k) \<in> live h bs" and "\<not> apart (a, n) (p - 40, k + 40)"
proof -
  from hr have ph: "phys_rep h lo hi bs" and na: "no_adjacent_free h bs"
    and fs: "set fs = {b \<in> set bs. \<not> block_is_allocated (h b)}" by (auto simp: heap_rep_def)
  note overlap = that
  have hit: thesis if "c \<in> set bs" "block_is_allocated (h c)" "\<not> apart (a, n) (unat c, bsz h c)" for c
    using that phys_rep_mem(4) [OF ph that(1)] by (intro overlap [of "unat c + 40" "bsz h c - 40"]) (auto simp: live_def)
  from ph have t: "tiles h lo bs hi" by (simp add: phys_rep_def)
  from tiles_cover [OF t, of a] a obtain xs b ys
    where bs: "bs = xs @ b # ys" and b: "unat b \<le> a" "a < unat b + bsz h b" by auto
  show thesis
  proof (cases "block_is_allocated (h b)")
    case True
    with b bs a show thesis by (intro hit [of b]) (auto simp: apart_def)
  next
    case False
    then have "bsz h b < n" using bs fs by (intro small) simp
    then have e: "unat b + bsz h b < a + n" using b by linarith
    from t bs have ty: "tiles h (unat b + bsz h b) ys hi" by (auto simp: tiles_append)
    with e a obtain c ys' where ys: "ys = c # ys'" by (cases ys) auto
    with ty have "unat c = unat b + bsz h b" "56 \<le> bsz h c" by auto
    moreover have "block_is_allocated (h c)" using na False bs ys by (auto simp: successively_append_iff)
    ultimately show thesis using e b bs ys by (intro hit [of c]) (auto simp: apart_def)
  qed
qed

lemma alloc_simple_cases:
  assumes r: "simple_rep lo hi m L"
  obtains (null) "sz = 0" "mm_alloc_simple sz m = Some (0, m)"
  | (full) "sz \<noteq> 0"
      "mm_alloc_simple sz m = Some (0, m\<lparr>heap_failed_allocations_s := heap_failed_allocations_s m + 1\<rparr>)"
      "\<And>a. lo \<le> a \<Longrightarrow> a + unat (required_size_simple sz) \<le> hi \<Longrightarrow>
         \<exists>(p, k) \<in> L. \<not> apart (a, unat (required_size_simple sz)) (p - 40, k + 40)"
  | (found) p m' k where "sz \<noteq> 0" "mm_alloc_simple sz m = Some (p, m')" "p \<noteq> 0"
      "simple_rep lo hi m' (insert (unat p, k) L)" "(unat p, k) \<notin> L"
      "unat (required_size_simple sz) \<le> k + 40" "k < unat (required_size_simple sz) + 16"
proof (cases "sz = 0")
  case True
  with alloc_simple_zero [OF r] show thesis by (intro null) simp_all
next
  case False
  from r obtain bs fs where hr: "heap_rep (mem_s m) (free_list_sentinel m) lo hi bs fs"
    and L: "L = live (mem_s m) bs" by (auto simp: simple_rep_def)
  note u = alloc_simple_unfold [OF r _ False]
  show thesis
  proof (cases "find (\<lambda>b. required_size_simple sz \<le> block_size (mem_s m b)) fs")
    case None
    show thesis
    proof (rule full [OF False])
      fix a assume a: "lo \<le> a" "a + unat (required_size_simple sz) \<le> hi"
      have "bsz (mem_s m) b < unat (required_size_simple sz)" if "b \<in> set fs" for b
        using that None by (auto simp: find_None_iff word_le_nat_alt not_le)
      from no_gap [OF hr this a] required_size_bounds(1) [of sz] obtain p k
        where "(p, k) \<in> L" "\<not> apart (a, unat (required_size_simple sz)) (p - 40, k + 40)"
        unfolding L by (metis less_le_trans zero_less_numeral)
      then show "\<exists>(p, k) \<in> L. \<not> apart (a, unat (required_size_simple sz)) (p - 40, k + 40)" by blast
    qed (simp add: u [OF hr] None)
  next
    case (Some b)
    then have b: "b \<in> set fs" "required_size_simple sz \<le> block_size (mem_s m b)"
      by (auto simp: find_Some_iff)
    from take_block_rep [OF r hr L b(1) required_size_bounds b(2)] obtain k where
      "simple_rep lo hi (take_block b (required_size_simple sz) m) (insert (unat (b + 40), k) L)"
      "(unat (b + 40), k) \<notin> L" "unat (required_size_simple sz) \<le> k + 40"
      "k < unat (required_size_simple sz) + 16" "b + 40 \<noteq> 0" .
    then show thesis using u [OF hr] Some False by (intro found) auto
  qed
qed

lemma free_simple_rep:
  assumes r: "simple_rep lo hi m L" and p: "(unat p, k) \<in> L"
  shows "simple_rep lo hi (mm_free_simple p m) (L - {(unat p, k)})"
proof -
  from r obtain bs fs where hr: "heap_rep (mem_s m) (free_list_sentinel m) lo hi bs fs"
    and L: "L = live (mem_s m) bs" by (auto simp: simple_rep_def)
  from p L obtain b where b: "b \<in> set bs" "block_is_allocated (mem_s m b)"
    and pb: "unat p = unat b + 40" and k: "k = bsz (mem_s m) b - 40" by (auto simp: live_def)
  from hr have ph: "phys_rep (mem_s m) lo hi bs" by (simp add: heap_rep_def)
  note bm = phys_rep_mem [OF ph b(1)]
  have "unat b + 40 < 2 ^ 64" using unat_64_lt [of p] pb by simp
  then have "p = b + 40" using pb by (simp add: word_unat_eq_iff unat_add_lt)
  then have blk: "p - 40 = b" and nz: "p \<noteq> 0" using pb by (auto simp: unat_eq_zero)
  let ?h = "set_next_free b NULL (set_prev_free b NULL (block_mark_free b (mem_s m)))"
  from free_heap_rep [OF hr b] obtain b' h' bs' fs' where f:
    "coalesce_with_neighbors b ?h = (b', h')"
    "heap_rep (free_list_insert (free_list_sentinel m) b' h') (free_list_sentinel m) lo hi bs' fs'"
    "live (free_list_insert (free_list_sentinel m) b' h') bs' = L - {(unat p, k)}"
    unfolding L k pb by blast
  have sz: "block_size (block_mark_free b (mem_s m) b) = block_size (mem_s m b)"
    by (simp add: block_size_def block_mark_free_def store_simps mm_simple_consts)
  have kk: "unat (block_size (mem_s m b) - 40) = k"
    unfolding k using bm(4) by (subst unat_sub_le) (simp_all add: word_le_nat_alt)
  have fin: "finite L" by (simp add: L)
  have sm: "sum snd L = k + sum snd (L - {(unat p, k)})" using sum.remove [OF fin p, of snd] by simp
  have u: "unat (heap_used_bytes_s m) = sum snd L" using r by (simp add: simple_rep_def)
  have m': "mem_s (mm_free_simple p m) = free_list_insert (free_list_sentinel m) b' h'"
    "free_list_sentinel (mm_free_simple p m) = free_list_sentinel m"
    "mm_initialized_flag_s (mm_free_simple p m) = mm_initialized_flag_s m"
    "heap_capacity_bytes_s (mm_free_simple p m) = heap_capacity_bytes_s m"
    "heap_used_bytes_s (mm_free_simple p m) = heap_used_bytes_s m - (block_size (mem_s m b) - 40)"
    using r nz b(2) f(1) sz kk u sm
    by (simp_all add: mm_free_simple_def simple_rep_def Let_def blk mm_simple_consts word_le_nat_alt)
  have "unat (heap_used_bytes_s (mm_free_simple p m)) = sum snd (L - {(unat p, k)})"
    unfolding m' using kk u sm by (subst unat_sub_le) (simp_all add: word_le_nat_alt)
  then show ?thesis using r f
    by (intro simple_repI [of _ lo hi bs' fs']) (simp_all add: m' simple_rep_def)
qed

lemma init_simple_rep:
  fixes heap_start :: ptr and heap_size :: u64
  defines "lo \<equiv> (unat heap_start + 15) div 16 * 16"
  defines "hi \<equiv> lo + (unat heap_size - (lo - unat heap_start)) div 16 * 16"
  assumes start: "0 < heap_start" and fit: "lo + 56 \<le> hi" and top: "hi + 56 < 2 ^ 64"
    and sen: "free_list_sentinel m \<noteq> 0" "unat (free_list_sentinel m) < lo \<or> hi \<le> unat (free_list_sentinel m)"
  shows "simple_rep lo hi (mm_init_simple heap_start heap_size m) {}"
proof -
  have lo: "unat heap_start \<le> lo" "lo < unat heap_start + 16" "0 < lo"
    unfolding lo_def using start by (presburger, presburger, auto simp: word_less_nat_alt) 
  let ?a = "align_up heap_start 16"
  have a: "unat ?a = lo" unfolding lo_def using top fit lo by (intro align_up_16) simp
  have loss: "unat (?a - heap_start) = lo - unat heap_start"
    using lo a by (subst unat_sub_le) (simp_all add: word_le_nat_alt)
  have "56 \<le> (unat heap_size - (lo - unat heap_start)) div 16 * 16" using fit unfolding hi_def by simp
  then have sz: "56 + (lo - unat heap_start) \<le> unat heap_size"
    using div_times_less_eq_dividend [of "unat heap_size - (lo - unat heap_start)" 16] by linarith
  let ?u = "(heap_size - (?a - heap_start)) AND - 16"
  have d: "unat (heap_size - (?a - heap_start)) = unat heap_size - (lo - unat heap_start)"
    using sz loss by (subst unat_sub_le) (simp_all add: word_le_nat_alt)
  have u: "unat ?u = hi - lo" unfolding unat_and_not_15 d hi_def by simp
  have ev: "even ?u" using u unfolding even_unat_word [symmetric] hi_def by simp
  let ?s = "free_list_sentinel m"
  let ?h4 = "block_mark_free ?a (set_next_phys ?a NULL (set_prev_phys ?a NULL
     (set_size_and_flags ?a ?u (free_list_init ?s (mem_s m)))))"
  have as: "?a \<noteq> 0" "?a \<noteq> ?s" using lo a sen fit by auto
  have bz: "block_size (?h4 ?a) = ?u" "\<not> block_is_allocated (?h4 ?a)"
    using ev by (simp_all add: block_size_def block_is_allocated_def block_mark_free_def store_simps mm_simple_consts)
  have "loose_rep ?h4 ?s lo hi [] ?a [] []"
    unfolding loose_rep_def
  proof (intro conjI)
    have "8 dvd unat ?u" unfolding u hi_def by (simp add: dvd_mult)
    then show "phys_rep ?h4 lo hi ([] @ ?a # [])" using lo top fit a u bz
      by (simp add: phys_rep_def) (simp add: block_mark_free_def store_simps)
    show "free_rep ?h4 ?s []" using sen as
      by (simp add: free_rep_def block_mark_free_def free_list_init_def store_simps)
  qed (use sen bz in auto)
  from loose_finish [OF this] have hr: "heap_rep (free_list_insert ?s ?a ?h4) ?s lo hi [?a] [?a]" by simp
  then have lv: "live (free_list_insert ?s ?a ?h4) [?a] = {}"
    by (auto simp: live_def heap_rep_def)
  have min: "\<not> heap_size < 56" "\<not> ?a < heap_start" "\<not> heap_size \<le> ?a - heap_start" "\<not> ?u < 56"
    using sz a lo loss u fit by (auto simp: word_less_nat_alt word_le_nat_alt)
  have "unat (?u - 40) = hi - lo - 40" using u fit by (subst unat_sub_le) (simp_all add: word_le_nat_alt)
  with hr lv min fit show ?thesis
    by (intro simple_repI [of _ lo hi "[?a]" "[?a]"])
      (simp_all add: mm_init_simple_def Let_def mm_simple_consts)
qed


lemma absorb_block_alloc:
  assumes "\<not> block_is_allocated (h c)"
  shows "\<not> block_is_allocated (absorb_block d b h c)"
  using assms by (simp add: absorb_block_def Let_def block_is_allocated_def block_size_def store_simps mm_simple_consts)

lemma free_list_flags:
  "block_is_allocated (free_list_remove b h c) = block_is_allocated (h c)"
  "block_is_allocated (free_list_insert s b h c) = block_is_allocated (h c)"
  by (simp_all add: free_list_remove_def free_list_insert_def Let_def block_is_allocated_def store_simps)

lemma coalesce_alloc:
  assumes "\<not> block_is_allocated (h c)"
  shows "\<not> block_is_allocated (snd (coalesce_with_neighbors b h) c)"
  using assms by (auto simp: coalesce_with_neighbors_def Let_def absorb_block_alloc free_list_flags)

lemma free_simple_idem: "mm_free_simple p (mm_free_simple p m) = mm_free_simple p m"
proof (cases "p = 0 \<or> mm_initialized_flag_s m = 0 \<or> \<not> block_is_allocated (mem_s m (p - 40))")
  case True
  then show ?thesis by (auto simp: mm_free_simple_def Let_def mm_simple_consts)
next
  case False
  let ?h = "set_next_free (p - 40) NULL (set_prev_free (p - 40) NULL (block_mark_free (p - 40) (mem_s m)))"
  have "\<not> block_is_allocated (?h (p - 40))"
    by (simp add: block_is_allocated_def block_mark_free_def store_simps mm_simple_consts)
  from coalesce_alloc [of ?h "p - 40" "p - 40", OF this] have "\<not> block_is_allocated (mem_s (mm_free_simple p m) (p - 40))"
    using False by (simp add: mm_free_simple_def Let_def mm_simple_consts free_list_flags split_beta)
  then show ?thesis by (subst mm_free_simple_def) (simp add: Let_def mm_simple_consts)
qed

lemma fold_max_ge: "(x::'a::linorder) \<le> fold max xs m \<longleftrightarrow> x \<le> m \<or> (\<exists>y \<in> set xs. x \<le> y)"
  by (induction xs arbitrary: m) (auto simp: le_max_iff_disj)

lemma payload_nonzero:
  assumes "heap_rep h s lo hi bs fs" and "b \<in> set fs"
  shows "b + 40 \<noteq> 0"
proof -
  have ph: "phys_rep h lo hi bs" and "b \<in> set bs" using assms by (auto simp: heap_rep_def)
  then have "unat b + 40 < 2 ^ 64" using phys_rep_mem(3,4) [of h lo hi bs b] by (simp add: phys_rep_def)
  then have "unat (b + 40) = unat b + 40" by (subst unat_add_lt) simp_all
  then show ?thesis by auto
qed

lemma stats_simple:
  assumes r: "simple_rep lo hi m L"
  obtains st where "mm_get_stats_simple m = Some st"
    and "unat (total_bytes st) = hi - lo - 40" and "unat (used_bytes st) = sum snd L"
    and "unat (free_bytes st) = hi - lo - 40 - sum snd L"
    and "\<And>sz. sz \<noteq> 0 \<Longrightarrow> fst (the (mm_alloc_simple sz m)) \<noteq> 0 \<longleftrightarrow>
           unat (required_size_simple sz) \<le> unat (largest_free_block st) + 40"
proof -
  from r obtain bs fs where hr: "heap_rep (mem_s m) (free_list_sentinel m) lo hi bs fs"
    and L: "L = live (mem_s m) bs" by (auto simp: simple_rep_def)
  then have fr: "free_rep (mem_s m) (free_list_sentinel m) fs" and ph: "phys_rep (mem_s m) lo hi bs"
    and fs: "set fs \<subseteq> set bs" by (auto simp: heap_rep_def)
  let ?M = "fold max (map (\<lambda>b. block_size (mem_s m b)) fs) 0"
  let ?l = "if 40 \<le> ?M then ?M - 40 else 0"
  have M: "x \<le> ?M \<longleftrightarrow> (\<exists>b \<in> set fs. x \<le> block_size (mem_s m b))" if "x \<noteq> 0" for x
    using that by (simp add: fold_max_ge)
  have l: "unat ?l + 40 = (if 40 \<le> ?M then unat ?M else 40)"
    by (simp add: unat_sub_le word_le_nat_alt)
  let ?st = "\<lparr>total_bytes = heap_capacity_bytes_s m, used_bytes = heap_used_bytes_s m,
    free_bytes = (if heap_capacity_bytes_s m > heap_used_bytes_s m
      then heap_capacity_bytes_s m - heap_used_bytes_s m else 0),
    largest_free_block = ?l, allocations = heap_allocation_count_s m, frees = heap_free_count_s m,
    failed_allocations = heap_failed_allocations_s m\<rparr>"
  have st: "mm_get_stats_simple m = Some ?st"
    by (simp add: mm_get_stats_simple_def free_rep_next [OF fr]
      largest_free_from_rep [OF free_rep_tail [OF fr]] mm_simple_consts)
  have alloc: "fst (the (mm_alloc_simple sz m)) \<noteq> 0 \<longleftrightarrow> unat (required_size_simple sz) \<le> unat ?l + 40"
    if "sz \<noteq> 0" for sz
  proof -
    let ?q = "required_size_simple sz"
    have q: "56 \<le> unat ?q" by (rule required_size_bounds)
    then have q0: "?q \<noteq> 0" and q40: "40 \<le> ?q" by (auto simp: word_le_nat_alt)
    have "?q \<le> ?M \<longleftrightarrow> unat ?q \<le> unat ?l + 40"
      unfolding l using q q40 by (auto simp: word_le_nat_alt)
    moreover have "fst (the (mm_alloc_simple sz m)) \<noteq> 0 \<longleftrightarrow> (\<exists>b \<in> set fs. ?q \<le> block_size (mem_s m b))"
      unfolding alloc_simple_unfold [OF r hr that]
      using payload_nonzero [OF hr] by (auto simp: find_None_iff find_Some_iff split: option.split)
    ultimately show ?thesis using M [OF q0] by simp
  qed
  have "lo < hi" and cap: "unat (heap_capacity_bytes_s m) = hi - lo - 40"
    and used: "unat (heap_used_bytes_s m) = sum snd L" using r by (auto simp: simple_rep_def)
  have "sum snd L + 40 \<le> hi - lo" unfolding L by (rule live_sum [OF ph \<open>lo < hi\<close>])
  then have fb: "unat (free_bytes ?st) = hi - lo - 40 - sum snd L"
    using cap used by (auto simp: word_less_nat_alt unat_sub_le word_le_nat_alt)
  show thesis by (rule that [OF st]) (use cap used fb alloc in simp_all)
qed

lemma tiles_8:
  assumes "tiles h lo bs hi" and "b \<in> set bs" and "8 dvd lo"
  shows "8 dvd unat b"
  using assms by (induction bs arbitrary: lo) (auto simp: dvd_add)

section \<open>The contract\<close>

lemma simple_rep_phys:
  assumes "simple_rep lo hi m L"
  obtains bs where "phys_rep (mem_s m) lo hi bs" and "L = live (mem_s m) bs"
  using assms by (auto simp: simple_rep_def heap_rep_def)

interpretation simple: mm_contract "simple_rep lo hi" mm_alloc_simple "\<lambda>p m. Some (mm_free_simple p m)" "2 ^ 64 - 56"
proof unfold_locales
  fix s L r q assume "simple_rep lo hi s L"
  then obtain bs where bs: "phys_rep (mem_s s) lo hi bs" "L = live (mem_s s) bs" by (rule simple_rep_phys)
  show "apart r q" if "r \<in> L" "q \<in> L" "r \<noteq> q" using that live_apart [OF bs(1)] bs(2) by blast
  show "0 < snd r" if "r \<in> L" using that live_bounds(3) [OF bs(1), of "fst r" "snd r"] bs(2) by simp
next
  fix s L n assume r: "simple_rep lo hi s L"
  then show "\<exists>p s'. mm_alloc_simple n s = Some (p, s')" by (cases rule: alloc_simple_cases [where sz = n]) auto
  show "simple_rep lo hi s' L" if "mm_alloc_simple n s = Some (0, s')" for s'
    using that by (cases rule: alloc_simple_cases [OF r, where sz = n]) (auto simp: r)
  show "\<exists>k. unat n \<le> k \<and> (unat p, k) \<notin> L \<and> simple_rep lo hi s' (insert (unat p, k) L)"
    if "mm_alloc_simple n s = Some (p, s')" "p \<noteq> 0" "unat n \<le> 2 ^ 64 - 56" for p s'
    using r
  proof (cases rule: alloc_simple_cases [where sz = n])
    case (found p' m' k)
    then have "unat n + 40 \<le> unat (required_size_simple n)"
      using that(3) by (intro required_size_covers) (auto simp: word_gt_0)
    with found that show ?thesis by (intro exI [of _ k]) auto
  qed (use that in auto)
qed (simp add: free_simple_rep)

section \<open>A sample heap\<close>

text \<open>A 4 KiB region at address 4096, freshly initialised, and the same heap after one allocation; the
  heap every witness below uses.\<close>

definition sample_raw :: mm_simple where
  "sample_raw = \<lparr>mem_s = (\<lambda>_. \<lparr>size_and_flags = 0, prev_phys = 0, next_phys = 0, prev_free = 0, next_free = 0\<rparr>),
     free_list_sentinel = 64, endOfKernel_s = 0x100000, mm_initialized_flag_s = 0,
     heap_capacity_bytes_s = 0, heap_used_bytes_s = 0, heap_allocation_count_s = 0,
     heap_free_count_s = 0, heap_failed_allocations_s = 0\<rparr>"

definition sample_mm :: mm_simple where
  "sample_mm = mm_init_simple 4096 4096 sample_raw"

definition sample_mm1 :: mm_simple where
  "sample_mm1 = snd (the (mm_alloc_simple 100 sample_mm))"

lemma sample_rep: "simple_rep 4096 8192 sample_mm {}"
  using init_simple_rep [of 4096 4096 sample_raw] by (simp add: sample_mm_def sample_raw_def)

lemma sample_required: "unat (required_size_simple 100) = 152"
  by (simp add: required_size_exact)

lemma sample_alloc: "mm_alloc_simple 100 sample_mm = Some (4136, sample_mm1)"
  "unat (heap_used_bytes_s sample_mm1) = 112"
proof -
  have "mm_alloc_simple 100 sample_mm \<noteq> None" by code_simp
  moreover have "fst (the (mm_alloc_simple 100 sample_mm)) = 4136" by code_simp
  ultimately show "mm_alloc_simple 100 sample_mm = Some (4136, sample_mm1)"
    by (auto simp: sample_mm1_def)
  show "unat (heap_used_bytes_s sample_mm1) = 112" by code_simp
qed

lemma sample_rep1: "simple_rep 4096 8192 sample_mm1 {(4136, 112)}"
proof -
  have "\<exists>k. simple_rep 4096 8192 sample_mm1 {(4136, k)}"
    using sample_alloc(1) by (cases rule: alloc_simple_cases [OF sample_rep, where sz = 100]) auto
  then obtain k where k: "simple_rep 4096 8192 sample_mm1 {(4136, k)}" ..
  then have "unat (heap_used_bytes_s sample_mm1) = k" by (simp add: simple_rep_def)
  with k sample_alloc(2) show ?thesis by simp
qed
section \<open>Properties of the manager\<close>

text \<open>C1: on a well-formed heap \<open>mm_alloc\<close> returns, for every size that does not wrap.  It returns null
  only when no range of the required size (payload rounded up to 16, plus the header) is free, and
  then the live regions are unchanged.  Otherwise the payload lies inside the heap, holds the request
  with less than 72 bytes to spare, and is apart from every live region; it joins them.\<close>

theorem simple_alloc_correct:
  assumes r: "simple_rep lo hi m L" and sz: "0 < sz" "unat sz + 56 \<le> 2 ^ 64"
  shows "\<exists>p m'. mm_alloc_simple sz m = Some (p, m') \<and>
    (if p = 0 then simple_rep lo hi m' L \<and>
       (\<forall>a. lo \<le> a \<and> a + unat (required_size_simple sz) \<le> hi \<longrightarrow>
          (\<exists>(q, k) \<in> L. \<not> apart (a, unat (required_size_simple sz)) (q - 40, k + 40)))
     else \<exists>k. simple_rep lo hi m' (insert (unat p, k) L) \<and> unat sz \<le> k \<and> k < unat sz + 72 \<and>
       lo + 40 \<le> unat p \<and> unat p + k \<le> hi \<and> (\<forall>q \<in> L. apart (unat p, k) q))"
  using r
proof (cases rule: alloc_simple_cases [where sz = sz])
  case (found p m' k)
  from found(4) obtain bs where bs: "phys_rep (mem_s m') lo hi bs" "insert (unat p, k) L = live (mem_s m') bs"
    by (rule simple_rep_phys)
  note b = live_bounds [OF bs(1), of "unat p" k]
  from simple.alloc_fresh [OF r found(2,3)] sz have "\<forall>q \<in> L. apart (unat p, k) q"
    using live_apart [OF bs(1)] bs(2) found(5) by blast
  with found b bs(2) required_size_covers [OF sz] show ?thesis
    by (intro exI [of _ p] exI [of _ m']) (auto intro!: exI [of _ k])
qed (use r sz in auto)

theorem simple_alloc_correct_witness:
  "\<exists>p m'. mm_alloc_simple 100 sample_mm1 = Some (p, m') \<and>
    (if p = 0 then simple_rep 4096 8192 m' {(4136, 112)} \<and>
       (\<forall>a. 4096 \<le> a \<and> a + 152 \<le> 8192 \<longrightarrow> (\<exists>(q, k) \<in> {(4136, 112)}. \<not> apart (a, 152) (q - 40, k + 40)))
     else \<exists>k. simple_rep 4096 8192 m' (insert (unat p, k) {(4136, 112)}) \<and> unat (100 :: u64) \<le> k \<and> k < unat (100 :: u64) + 72 \<and>
       4096 + 40 \<le> unat p \<and> unat p + k \<le> 8192 \<and> (\<forall>q \<in> {(4136, 112)}. apart (unat p, k) q))"
  by (rule simple_alloc_correct [OF sample_rep1, of 100, unfolded sample_required]) simp_all

text \<open>C2: \<open>mm_free\<close> of a live payload removes exactly that region, keeps the heap well formed and so
  makes every other region survive; freeing the same pointer again changes nothing.\<close>

theorem simple_free_correct:
  assumes "simple_rep lo hi m L" and "(unat p, k) \<in> L"
  shows "simple_rep lo hi (mm_free_simple p m) (L - {(unat p, k)}) \<and>
    mm_free_simple p (mm_free_simple p m) = mm_free_simple p m"
  using free_simple_rep [OF assms] free_simple_idem by blast

theorem simple_free_correct_witness:
  "(unat (4136 :: ptr), 112) \<in> {(4136, 112)} \<and> simple_rep 4096 8192 (mm_free_simple 4136 sample_mm1) {}"
  using simple_free_correct [OF sample_rep1, of 4136 112] by simp

text \<open>C3: \<open>mm_init\<close> on a region that is not at the top of the address space, does not contain the
  sentinel and has room for one block, makes a well-formed heap with no live region.\<close>

theorem simple_init_correct:
  fixes heap_start :: ptr and heap_size :: u64
  defines "lo \<equiv> (unat heap_start + 15) div 16 * 16"
  defines "hi \<equiv> lo + (unat heap_size - (lo - unat heap_start)) div 16 * 16"
  assumes "0 < heap_start" and "lo + 56 \<le> hi" and "hi + 56 < 2 ^ 64"
    and "free_list_sentinel m \<noteq> 0" and "unat (free_list_sentinel m) < lo \<or> hi \<le> unat (free_list_sentinel m)"
  shows "simple_rep lo hi (mm_init_simple heap_start heap_size m) {}"
  using init_simple_rep [of heap_start heap_size m] assms by simp

theorem simple_init_correct_witness:
  "simple_rep 4112 8208 (mm_init_simple 4100 4110 sample_raw) {}"
  using simple_init_correct [of 4100 4110 sample_raw] by (simp add: sample_raw_def)

text \<open>Whatever sequence of requests a client issues, freeing only what it holds, every request
  returns and the regions it holds at the end, each as long as it asked for, are pairwise apart.\<close>

theorem simple_client_apart:
  assumes "simple_rep lo hi m {}" and "list_all (within_limit (2 ^ 64 - 56)) rs"
  shows "\<exists>held m'. mm_client mm_alloc_simple (\<lambda>p m. Some (mm_free_simple p m)) rs [] m = Some (held, m') \<and>
    (\<forall>i j. i < j \<and> j < length held \<longrightarrow>
      apart (unat (fst (held ! i)), unat (snd (held ! i))) (unat (fst (held ! j)), unat (snd (held ! j))))"
  using simple.client_apart [OF assms] by metis

text \<open>C10: \<open>mm_get_stats\<close> returns; its byte counts are those of the live regions, and its largest free
  block decides exactly which requests the manager can serve.\<close>

theorem simple_stats_correct:
  assumes "simple_rep lo hi m L"
  shows "\<exists>st. mm_get_stats_simple m = Some st \<and> unat (total_bytes st) = hi - lo - 40 \<and>
    unat (used_bytes st) = sum snd L \<and> unat (free_bytes st) = hi - lo - 40 - sum snd L \<and>
    (\<forall>sz. sz \<noteq> 0 \<longrightarrow> (fst (the (mm_alloc_simple sz m)) \<noteq> 0 \<longleftrightarrow>
       unat (required_size_simple sz) \<le> unat (largest_free_block st) + 40))"
  using stats_simple [OF assms] by metis

theorem simple_stats_correct_witness:
  "\<exists>st. mm_get_stats_simple sample_mm1 = Some st \<and> unat (total_bytes st) = 4056 \<and>
    unat (used_bytes st) = 112 \<and> unat (free_bytes st) = 3944"
  using simple_stats_correct [OF sample_rep1] by auto

text \<open>When nothing is live, the heap is one block again, so a request as large as the whole
  capacity is served: coalescing leaves no fragments behind.\<close>

theorem simple_no_fragmentation:
  assumes r: "simple_rep lo hi m {}" and "sz \<noteq> 0" and fit: "lo + unat (required_size_simple sz) \<le> hi"
  shows "\<exists>p m' k. mm_alloc_simple sz m = Some (p, m') \<and> p \<noteq> 0 \<and> simple_rep lo hi m' {(unat p, k)}"
  using r
proof (cases rule: alloc_simple_cases [where sz = sz])
  case full
  from full(3) [of lo] fit show ?thesis by simp
qed (use assms in auto)

text \<open>C11: a request of \<open>UINT64_MAX\<close> bytes wraps in \<open>align_up\<close> and is served from an empty heap with
  a payload of fewer than 72 bytes instead of being refused.\<close>

theorem simple_alloc_wraps:
  assumes r: "simple_rep lo hi m {}" and fit: "lo + 56 \<le> hi"
  shows "\<exists>p m' k. mm_alloc_simple (2 ^ 64 - 1) m = Some (p, m') \<and> p \<noteq> 0 \<and> k < 72 \<and>
    simple_rep lo hi m' {(unat p, k)}"
proof -
  have q: "unat (required_size_simple (2 ^ 64 - 1)) = 56"
    by (simp add: required_size_simple_def align_up_def mm_simple_consts)
  show ?thesis using r
  proof (cases rule: alloc_simple_cases [where sz = "2 ^ 64 - 1"])
    case full
    from full(3) [of lo] fit q show ?thesis by simp
  next
    case (found p m' k)
    with q show ?thesis by (intro exI [of _ p] exI [of _ m'] exI [of _ k]) auto
  qed simp
qed

theorem simple_alloc_wraps_witness:
  "\<exists>p m' k. mm_alloc_simple (2 ^ 64 - 1) sample_mm = Some (p, m') \<and> p \<noteq> 0 \<and> k < 72 \<and>
    simple_rep 4096 8192 m' {(unat p, k)}"
  using simple_alloc_wraps [OF sample_rep] by simp

text \<open>With the heap at a 16-aligned address every payload is 8-aligned.\<close>

theorem simple_payload_aligned:
  assumes "simple_rep lo hi m L" and "8 dvd lo" and "(a, k) \<in> L"
  shows "8 dvd a \<and> 8 dvd k"
proof -
  from assms(1) obtain bs where bs: "phys_rep (mem_s m) lo hi bs" "L = live (mem_s m) bs" by (rule simple_rep_phys)
  with assms(3) obtain b where b: "b \<in> set bs" "a = unat b + 40" by (auto simp: live_def)
  from bs(1) have "tiles (mem_s m) lo bs hi" by (simp add: phys_rep_def)
  from tiles_8 [OF this b(1) assms(2)] have "8 dvd a" using b(2) by (simp add: dvd_add)
  moreover have "8 dvd k" using live_bounds(4) [OF bs(1)] bs(2) assms(3) by blast
  ultimately show ?thesis ..
qed

end
