(* ===== verification/Process_Queue.thy ===== *)
theory Process_Queue
  imports Kernel_Prelude
begin

text \<open>
  Process control blocks (\<open>Kernel/include/process.h\<close>) and the intrusive queues of
  \<open>Kernel/proc/process.c\<close>.  The control blocks live in a store indexed by address; a queue is the
  record of its head, tail and size and links the blocks through \<open>queue_next\<close> and \<open>queue_prev\<close>.
  \<open>queue_rep\<close> relates a queue to the list of the processes in it, and every queue operation is the
  corresponding list operation.  A pointer to an element of a static table (a pipe) is the index of
  the element; a C \<open>int\<close> that is only counted or compared is an integer.
\<close>

section \<open>Data\<close>

definition PROCESS_NAME_MAX_LEN :: nat where "PROCESS_NAME_MAX_LEN = 32"
definition PROCESS_KERNEL_STACK_SIZE :: u64 where "PROCESS_KERNEL_STACK_SIZE = 4 * 4096"
definition PROCESS_PRIORITY_MIN :: int where "PROCESS_PRIORITY_MIN = 0"
definition PROCESS_PRIORITY_MAX :: int where "PROCESS_PRIORITY_MAX = 2"
definition PROCESS_PRIORITY_DEFAULT :: int where "PROCESS_PRIORITY_DEFAULT = 1"
definition MAX_FDS :: nat where "MAX_FDS = 16"

lemmas process_consts = PROCESS_NAME_MAX_LEN_def PROCESS_KERNEL_STACK_SIZE_def PROCESS_PRIORITY_MIN_def
  PROCESS_PRIORITY_MAX_def PROCESS_PRIORITY_DEFAULT_def MAX_FDS_def

datatype fd_type = FD_TYPE_TERMINAL | FD_TYPE_PIPE_READ | FD_TYPE_PIPE_WRITE

record fd_entry =
  fd_type :: fd_type
  fd_pipe :: "nat option"

datatype process_state =
    PROCESS_STATE_NEW
  | PROCESS_STATE_READY
  | PROCESS_STATE_RUNNING
  | PROCESS_STATE_BLOCKED
  | PROCESS_STATE_FINISHED

record process_control_block =
  p_pid :: u64
  p_name :: string
  p_state :: process_state
  p_priority :: int
  p_base_priority :: int
  p_wait_ticks :: u64
  p_rsp :: u64
  p_rbp :: u64
  p_kernel_stack_base :: ptr
  p_kernel_stack_top :: ptr
  p_user_stack_base :: ptr
  p_user_stack_top :: ptr
  p_entry_point :: ptr
  p_entry_arg :: ptr
  p_waiting_on_pid :: u64
  p_is_foreground :: int
  p_parent :: ptr
  p_first_child :: ptr
  p_next_sibling :: ptr
  p_prev_sibling :: ptr
  p_queue_next :: ptr
  p_queue_prev :: ptr
  p_waiters_head :: ptr
  p_waiter_next :: ptr
  p_waiting_on_sem :: u64
  p_sem_waiter_next :: ptr
  p_fds :: "fd_entry list"

type_synonym pheap = "ptr \<Rightarrow> process_control_block"

record process_queue =
  q_head :: ptr
  q_tail :: ptr
  q_size :: u64

text \<open>Writing fields of the block at \<open>a\<close>.\<close>

definition upd_at :: "'a \<Rightarrow> ('b \<Rightarrow> 'b) \<Rightarrow> ('a \<Rightarrow> 'b) \<Rightarrow> 'a \<Rightarrow> 'b" where
  "upd_at a f h = h(a := f (h a))"

lemma upd_at_apply [simp]: "upd_at a f h x = (if x = a then f (h a) else h x)"
  by (simp add: upd_at_def)

lemma upd_at_sel: "g (upd_at a f h x) = (if x = a then g (f (h a)) else g (h x))"
  by simp

section \<open>Queue operations\<close>

definition process_queue_init :: process_queue where
  "process_queue_init = \<lparr>q_head = NULL, q_tail = NULL, q_size = 0\<rparr>"

text \<open>The search loop of \<open>detach_from_queue\<close>; \<open>None\<close> is a loop that never ends.\<close>

partial_function (option) queue_has_from :: "pheap \<Rightarrow> ptr \<Rightarrow> ptr \<Rightarrow> bool option" where
  "queue_has_from h p it =
     (if it = NULL then Some False
      else if it = p then Some True
      else queue_has_from h p (p_queue_next (h it)))"

declare queue_has_from.simps [code]

definition unlink_from_queue :: "process_queue \<Rightarrow> ptr \<Rightarrow> pheap \<Rightarrow> process_queue \<times> pheap" where
  "unlink_from_queue q p h =
     (let (q1, h1) =
            (if p_queue_prev (h p) \<noteq> NULL
             then (q, upd_at (p_queue_prev (h p)) (p_queue_next_update (\<lambda>_. p_queue_next (h p))) h)
             else (q\<lparr>q_head := p_queue_next (h p)\<rparr>, h));
          (q2, h2) =
            (if p_queue_next (h1 p) \<noteq> NULL
             then (q1, upd_at (p_queue_next (h1 p)) (p_queue_prev_update (\<lambda>_. p_queue_prev (h1 p))) h1)
             else (q1\<lparr>q_tail := p_queue_prev (h1 p)\<rparr>, h1));
          q3 = (if q_size q2 \<noteq> 0 then q2\<lparr>q_size := q_size q2 - 1\<rparr> else q2)
      in (q3, upd_at p (\<lambda>b. b\<lparr>p_queue_next := NULL, p_queue_prev := NULL\<rparr>) h2))"

definition detach_from_queue :: "process_queue \<Rightarrow> ptr \<Rightarrow> pheap \<Rightarrow> (process_queue \<times> pheap) option" where
  "detach_from_queue q p h =
     (if p = NULL then Some (q, h)
      else do {
        found \<leftarrow> queue_has_from h p (q_head q);
        if \<not> found then Some (q, h) else Some (unlink_from_queue q p h)
      })"

definition process_queue_remove :: "process_queue \<Rightarrow> ptr \<Rightarrow> pheap \<Rightarrow> (process_queue \<times> pheap) option" where
  "process_queue_remove q p h = detach_from_queue q p h"

text \<open>Appending a detached block.\<close>

definition append_to_queue :: "process_queue \<Rightarrow> ptr \<Rightarrow> pheap \<Rightarrow> process_queue \<times> pheap" where
  "append_to_queue q p h =
     (if q_head q = NULL
      then (\<lparr>q_head = p, q_tail = p, q_size = 1\<rparr>,
            upd_at p (\<lambda>b. b\<lparr>p_queue_next := NULL, p_queue_prev := NULL\<rparr>) h)
      else
        let h1 = upd_at p (\<lambda>b. b\<lparr>p_queue_prev := q_tail q, p_queue_next := NULL\<rparr>) h;
            h2 = upd_at (q_tail q) (p_queue_next_update (\<lambda>_. p)) h1
        in (q\<lparr>q_tail := p, q_size := q_size q + 1\<rparr>, h2))"

definition process_queue_push :: "process_queue \<Rightarrow> ptr \<Rightarrow> pheap \<Rightarrow> (process_queue \<times> pheap) option" where
  "process_queue_push q p h =
     (if p = NULL then Some (q, h)
      else do {
        (q1, h1) \<leftarrow>
          (if p_queue_next (h p) \<noteq> NULL \<or> p_queue_prev (h p) \<noteq> NULL \<or> q_head q = p
           then detach_from_queue q p h else Some (q, h));
        Some (append_to_queue q1 p h1)
      })"

definition process_queue_pop :: "process_queue \<Rightarrow> pheap \<Rightarrow> (ptr \<times> process_queue \<times> pheap) option" where
  "process_queue_pop q h =
     (if q_head q = NULL then Some (NULL, q, h)
      else do {
        (q1, h1) \<leftarrow> detach_from_queue q (q_head q) h;
        Some (q_head q, q1, h1)
      })"

definition process_queue_is_empty :: "process_queue \<Rightarrow> bool" where
  "process_queue_is_empty q \<longleftrightarrow> q_head q = NULL"

section \<open>The queue as a list\<close>

definition plinks :: "pheap \<Rightarrow> ptr list \<Rightarrow> bool" where
  "plinks h ns = links (\<lambda>a. p_queue_next (h a)) (\<lambda>a. p_queue_prev (h a)) ns"

definition queue_rep :: "pheap \<Rightarrow> process_queue \<Rightarrow> ptr list \<Rightarrow> bool" where
  "queue_rep h q xs \<longleftrightarrow> 0 \<notin> set xs \<and> distinct xs \<and> plinks h (0 # xs @ [0]) \<and>
     q_head q = hd (xs @ [0]) \<and> q_tail q = last (0 # xs) \<and> unat (q_size q) = length xs"

lemma queue_rep_cong:
  assumes "queue_rep h q xs"
    and "\<And>a. a \<in> set xs \<Longrightarrow> p_queue_next (h' a) = p_queue_next (h a) \<and> p_queue_prev (h' a) = p_queue_prev (h a)"
  shows "queue_rep h' q xs"
  using assms by (auto simp: queue_rep_def plinks_def elim!: links_frame)

lemma queue_rep_init [simp]: "queue_rep h process_queue_init []"
  by (simp add: queue_rep_def process_queue_init_def plinks_def)

lemma queue_rep_empty: "queue_rep h q xs \<Longrightarrow> process_queue_is_empty q = (xs = [])"
  by (cases xs) (auto simp: queue_rep_def process_queue_is_empty_def)

lemma queue_rep_nodes:
  assumes "queue_rep h q (xs @ p # ys)"
  shows "p_queue_next (h p) = hd (ys @ [0])" and "p_queue_prev (h p) = last (0 # xs)"
proof -
  from assms have l: "links (\<lambda>a. p_queue_next (h a)) (\<lambda>a. p_queue_prev (h a)) ((0 # xs) @ p # ys @ [0])"
    and p: "p \<noteq> 0" by (auto simp: queue_rep_def plinks_def)
  have "links (\<lambda>a. p_queue_next (h a)) (\<lambda>a. p_queue_prev (h a)) (p # ys @ [0])"
    using l by (subst (asm) links_append) simp
  with p show "p_queue_next (h p) = hd (ys @ [0])" by (cases ys) auto
  obtain xs0 r where r: "0 # xs = xs0 @ [r]" by (metis append_butlast_last_id list.distinct(1))
  have "links (\<lambda>a. p_queue_next (h a)) (\<lambda>a. p_queue_prev (h a)) ((xs0 @ [r]) @ p # ys @ [0])"
    using l unfolding r .
  then have "links (\<lambda>a. p_queue_next (h a)) (\<lambda>a. p_queue_prev (h a)) ((xs0 @ [r]) @ [p])"
    by (subst (asm) links_append) simp
  with p show "p_queue_prev (h p) = last (0 # xs)" unfolding r by (simp add: links_snoc2)
qed

lemma queue_has_from_rep:
  assumes "plinks h (xs @ [0])" and "0 \<notin> set xs"
  shows "queue_has_from h p (hd (xs @ [0])) = Some (p \<in> set xs)"
  using assms
proof (induction xs)
  case Nil
  then show ?case by (simp add: queue_has_from.simps)
next
  case (Cons x xs)
  from Cons.prems have "p_queue_next (h x) = hd (xs @ [0])" and "plinks h (xs @ [0])"
    by (cases xs; auto simp: plinks_def)+
  with Cons show ?case by (auto simp: queue_has_from.simps [of h p x])
qed

lemma queue_has_rep:
  assumes "queue_rep h q xs"
  shows "queue_has_from h p (q_head q) = Some (p \<in> set xs)"
proof -
  from assms have "plinks h (xs @ [0])" by (cases xs) (auto simp: queue_rep_def plinks_def)
  from queue_has_from_rep [OF this] assms show ?thesis by (simp add: queue_rep_def)
qed

text \<open>Queue operations write no field but the two links.\<close>

definition pcb_core :: "process_control_block \<Rightarrow> process_control_block" where
  "pcb_core b = b\<lparr>p_queue_next := 0, p_queue_prev := 0\<rparr>"

lemma pcb_core_links [simp]:
  "pcb_core (p_queue_next_update f b) = pcb_core b" "pcb_core (p_queue_prev_update f b) = pcb_core b"
  by (simp_all add: pcb_core_def)

lemma pcb_core_update [simp]:
  "pcb_core (p_state_update f1 b) = p_state_update f1 (pcb_core b)"
  "pcb_core (p_priority_update f2 b) = p_priority_update f2 (pcb_core b)"
  "pcb_core (p_base_priority_update f3 b) = p_base_priority_update f3 (pcb_core b)"
  "pcb_core (p_wait_ticks_update f4 b) = p_wait_ticks_update f4 (pcb_core b)"
  "pcb_core (p_rsp_update f5 b) = p_rsp_update f5 (pcb_core b)"
  "pcb_core (p_rbp_update f6 b) = p_rbp_update f6 (pcb_core b)"
  "pcb_core (p_is_foreground_update f7 b) = p_is_foreground_update f7 (pcb_core b)"
  "pcb_core (p_parent_update f8 b) = p_parent_update f8 (pcb_core b)"
  "pcb_core (p_first_child_update f9 b) = p_first_child_update f9 (pcb_core b)"
  "pcb_core (p_next_sibling_update f10 b) = p_next_sibling_update f10 (pcb_core b)"
  "pcb_core (p_prev_sibling_update f11 b) = p_prev_sibling_update f11 (pcb_core b)"
  "pcb_core (p_waiters_head_update f12 b) = p_waiters_head_update f12 (pcb_core b)"
  "pcb_core (p_waiter_next_update f13 b) = p_waiter_next_update f13 (pcb_core b)"
  "pcb_core (p_waiting_on_pid_update f14 b) = p_waiting_on_pid_update f14 (pcb_core b)"
  "pcb_core (p_waiting_on_sem_update f15 b) = p_waiting_on_sem_update f15 (pcb_core b)"
  "pcb_core (p_sem_waiter_next_update f16 b) = p_sem_waiter_next_update f16 (pcb_core b)"
  "pcb_core (p_fds_update f17 b) = p_fds_update f17 (pcb_core b)"
  by (simp_all add: pcb_core_def)

lemma pcb_core_eqD:
  assumes "pcb_core x = pcb_core y"
  shows "p_pid x = p_pid y" "p_name x = p_name y" "p_state x = p_state y" "p_priority x = p_priority y"
    "p_base_priority x = p_base_priority y" "p_wait_ticks x = p_wait_ticks y" "p_rsp x = p_rsp y"
    "p_rbp x = p_rbp y" "p_is_foreground x = p_is_foreground y" "p_parent x = p_parent y"
    "p_waiters_head x = p_waiters_head y" "p_waiter_next x = p_waiter_next y"
    "p_waiting_on_sem x = p_waiting_on_sem y" "p_sem_waiter_next x = p_sem_waiter_next y"
    "p_waiting_on_pid x = p_waiting_on_pid y" "p_fds x = p_fds y"
  using assms by (cases x, cases y, simp add: pcb_core_def)+

definition same_core :: "pheap \<Rightarrow> pheap \<Rightarrow> bool" where
  "same_core h' h \<longleftrightarrow> (\<forall>a. pcb_core (h' a) = pcb_core (h a))"

definition unlinked :: "pheap \<Rightarrow> ptr \<Rightarrow> bool" where
  "unlinked h p \<longleftrightarrow> p \<noteq> 0 \<and> p_queue_next (h p) = 0 \<and> p_queue_prev (h p) = 0"

lemma unlink_from_queue_heap:
  assumes "unlink_from_queue q p h = (q', h')"
  shows "same_core h' h" and "p \<noteq> 0 \<Longrightarrow> unlinked h' p"
    and "a \<noteq> p \<Longrightarrow> a \<noteq> p_queue_prev (h p) \<Longrightarrow> a \<noteq> p_queue_next (h p) \<Longrightarrow> h' a = h a"
  using assms by (auto simp: unlink_from_queue_def same_core_def unlinked_def Let_def split: if_splits)

lemma ends_nonzero:
  assumes "0 \<notin> set (xs :: ptr list)" and "xs \<noteq> []"
  shows "hd xs \<noteq> 0" and "last xs \<noteq> 0"
  using assms hd_in_set [of xs] last_in_set [of xs] by metis+

lemma list_ends:
  assumes "0 \<notin> set xs" "0 \<notin> set ys" "distinct (xs @ p # ys)"
  obtains us r q vs where "0 # xs = us @ [r]" "ys @ [0] = q # vs" "r = last (0 # xs)" "q = hd (ys @ [0])"
    "r \<noteq> 0 \<longrightarrow> r \<in> set xs \<and> r \<notin> set us \<and> r \<notin> set (butlast (q # vs))"
    "q \<noteq> 0 \<longrightarrow> q \<in> set ys \<and> q \<notin> set vs \<and> q \<notin> set (tl (us @ [r]))"
proof -
  obtain us r where u: "0 # xs = us @ [r]" by (metis append_butlast_last_id list.distinct(1))
  obtain q vs where v: "ys @ [0] = q # vs" by (cases ys) auto
  have lu: "r = last (0 # xs)" unfolding u by simp
  have hv: "q = hd (ys @ [0])" unfolding v by simp
  have r: "r \<noteq> 0 \<Longrightarrow> r \<in> set xs" using lu by (cases xs) auto
  have q: "q \<noteq> 0 \<Longrightarrow> q \<in> set ys" using hv by (cases ys) auto
  have bl: "butlast (q # vs) = ys" unfolding v [symmetric] by simp
  have tl: "tl (us @ [r]) = xs" unfolding u [symmetric] by simp
  have "distinct (0 # xs)" "distinct (ys @ [0])" using assms by auto
  then have d: "distinct (us @ [r])" "distinct (q # vs)" unfolding u v by simp_all
  show thesis
    by (rule that [OF u v lu hv]) (use r q d bl tl assms(3) in auto)
qed

lemma unlink_rep:
  assumes rep: "queue_rep h q (xs @ p # ys)"
  obtains q' h' where "unlink_from_queue q p h = (q', h')" and "queue_rep h' q' (xs @ ys)"
proof -
  obtain q' h' where u: "unlink_from_queue q p h = (q', h')" by fastforce
  from rep have z: "0 \<notin> set xs" "0 \<notin> set ys" and p: "p \<noteq> 0" and d: "distinct (xs @ p # ys)"
    by (auto simp: queue_rep_def)
  from list_ends [OF z d] obtain us r s vs where e: "0 # xs = us @ [r]" "ys @ [0] = s # vs"
    "r = last (0 # xs)" "s = hd (ys @ [0])"
    "r \<noteq> 0 \<longrightarrow> r \<in> set xs \<and> r \<notin> set us \<and> r \<notin> set (butlast (s # vs))"
    "s \<noteq> 0 \<longrightarrow> s \<in> set ys \<and> s \<notin> set vs \<and> s \<notin> set (tl (us @ [r]))" .
  have nx: "p_queue_next (h p) = s" and pv: "p_queue_prev (h p) = r"
    using queue_rep_nodes [OF rep] e(3,4) by simp_all
  have pr: "p \<noteq> r" "p \<noteq> s" using e(5,6) d p by auto
  have rs: "r \<noteq> 0 \<Longrightarrow> r \<noteq> s" using e(5,6) d by auto
  have ns: "us @ r # zs = 0 # xs @ zs" for zs using e(1) by (metis append_Cons append_assoc append_Nil)
  have "links (\<lambda>a. p_queue_next (h a)) (\<lambda>a. p_queue_prev (h a)) (us @ r # p # s # vs)"
    unfolding ns using rep e(2) by (simp add: queue_rep_def plinks_def)
  then have "links (\<lambda>a. p_queue_next (h' a)) (\<lambda>a. p_queue_prev (h' a)) (us @ r # s # vs)"
  proof (rule links_delete [where b = p])
    show "p \<notin> set (us @ r # s # vs)"
      using d p Cons_eq_snoc_set [OF e(1)] snoc_eq_Cons_set [OF e(2)] by auto
  qed (use e(5,6) p u nx pv pr rs in \<open>auto simp: unlink_from_queue_def Let_def split: if_splits\<close>)
  then have l: "plinks h' (0 # (xs @ ys) @ [0])" 
    unfolding ns using e(2) by (simp add: plinks_def)
  have hq: "q_head q = hd ((xs @ p # ys) @ [0])" "q_tail q = last (0 # xs @ p # ys)"
    "unat (q_size q) = Suc (length xs + length ys)" using rep by (auto simp: queue_rep_def)
  then have "q_size q \<noteq> 0" by auto
  then have "unat (q_size q - 1) = length xs + length ys" using hq(3) by (simp add: unat_minus_one)
  moreover have r0: "r = 0 \<longleftrightarrow> xs = []" and s0: "s = 0 \<longleftrightarrow> ys = []"
    using e(3,4) z ends_nonzero [of xs] ends_nonzero [of ys] by (auto simp: hd_append)
  have "q_head q' = (if r = 0 then s else q_head q)" "q_tail q' = (if s = 0 then r else q_tail q)"
    using u nx pv pr by (auto simp: unlink_from_queue_def Let_def split: if_splits)
  then have "q_head q' = hd ((xs @ ys) @ [0])" "q_tail q' = last (0 # xs @ ys)"
    using r0 s0 hq(1,2) e(3,4) by (auto simp: hd_append)
  moreover have "q_size q' = q_size q - 1"
    using u \<open>q_size q \<noteq> 0\<close> by (auto simp: unlink_from_queue_def Let_def split: if_splits)
  ultimately have "queue_rep h' q' (xs @ ys)" using l z d by (simp add: queue_rep_def)
  with u show thesis using that by blast
qed


text \<open>Detaching a member, and detaching a process that is not in the queue.\<close>

lemma detach_rep:
  assumes rep: "queue_rep h q xs" and p: "p \<in> set xs"
  obtains q' h' where "detach_from_queue q p h = Some (q', h')" and "queue_rep h' q' (remove1 p xs)"
    and "same_core h' h" and "unlinked h' p" and "\<And>a. a \<notin> set xs \<Longrightarrow> h' a = h a"
proof -
  from p obtain us vs where xs: "xs = us @ p # vs" and "p \<notin> set us" by (meson split_list_first)
  from rep have pz: "p \<noteq> 0" using p by (auto simp: queue_rep_def)
  from unlink_rep [OF rep [unfolded xs]] obtain q' h' where u: "unlink_from_queue q p h = (q', h')"
    "queue_rep h' q' (us @ vs)" .
  have "detach_from_queue q p h = Some (q', h')"
    using queue_has_rep [OF rep, of p] p pz u(1) by (simp add: detach_from_queue_def)
  moreover have "h' a = h a" if a: "a \<notin> set xs" for a
  proof (cases "a = 0")
    case False
    have "p_queue_prev (h p) \<in> insert 0 (set us)" "p_queue_next (h p) \<in> insert 0 (set vs)"
      using queue_rep_nodes [OF rep [unfolded xs]] last_in_set [of us] list.set_sel(1) [of vs]
      by (auto simp: hd_append)
    with a False show ?thesis using xs by (intro unlink_from_queue_heap(3) [OF u(1)]) auto
  next
    case True
    with u(1) pz show ?thesis by (auto simp: unlink_from_queue_def Let_def split: if_splits)
  qed
  ultimately show thesis
    using u \<open>p \<notin> set us\<close> unlink_from_queue_heap(1,2) [OF u(1)] pz xs
    by (intro that [of q' h']) (auto simp: remove1_append)
qed

lemma detach_absent:
  "queue_rep h q xs \<Longrightarrow> p \<notin> set xs \<Longrightarrow> detach_from_queue q p h = Some (q, h)"
  by (simp add: detach_from_queue_def queue_has_rep)

lemma ptr_list_length:
  assumes "distinct (xs :: ptr list)" and "0 \<notin> set xs"
  shows "length xs < 2 ^ 64"
proof -
  have "length xs = card (set xs)" using assms(1) by (simp add: distinct_card)
  also have "\<dots> < card (UNIV :: ptr set)" using assms(2) by (intro psubset_card_mono) auto
  finally show ?thesis by (simp add: card_word)
qed

lemma append_rep:
  assumes rep: "queue_rep h q xs" and p: "p \<noteq> 0" "p \<notin> set xs"
  obtains q' h' where "append_to_queue q p h = (q', h')" and "queue_rep h' q' (xs @ [p])"
    and "same_core h' h" and "\<And>a. a \<notin> set xs \<Longrightarrow> a \<noteq> p \<Longrightarrow> h' a = h a"
proof -
  obtain q' h' where a: "append_to_queue q p h = (q', h')" by fastforce
  from rep have z: "0 \<notin> set xs" and d: "distinct xs" and l: "plinks h (0 # xs @ [0])"
    and q: "q_head q = hd (xs @ [0])" "q_tail q = last (0 # xs)" "unat (q_size q) = length xs"
    by (auto simp: queue_rep_def)
  have hd0: "hd (xs @ [0]) = 0 \<longleftrightarrow> xs = []" using z ends_nonzero [of xs] by (auto simp: hd_append)
  have core: "same_core h' h" using a by (auto simp: append_to_queue_def same_core_def Let_def split: if_splits)
  have frame: "h' b = h b" if "b \<notin> set xs" "b \<noteq> p" for b
  proof (cases "xs = []")
    case True
    with that a q show ?thesis by (auto simp: append_to_queue_def)
  next
    case False
    then have "last xs \<noteq> b" using that last_in_set [of xs] by auto
    with False that a q hd0 show ?thesis by (auto simp: append_to_queue_def Let_def)
  qed
  have "queue_rep h' q' (xs @ [p])"
  proof (cases "xs = []")
    case True
    with a p q show ?thesis by (auto simp: append_to_queue_def queue_rep_def plinks_def)
  next
    case False
    obtain ws t where t: "xs = ws @ [t]" using False by (metis append_butlast_last_id)
    have tz: "t \<noteq> 0" "t \<noteq> p" "t \<notin> set ws" using t z p d by auto
    have hh: "p_queue_next (h' b) = (if b = t then p else if b = p then 0 else p_queue_next (h b))"
      "p_queue_prev (h' b) = (if b = p then t else p_queue_prev (h b))" for b
      using a q hd0 False t tz by (auto simp: append_to_queue_def Let_def split: if_splits)
    have "links (\<lambda>a. p_queue_next (h a)) (\<lambda>a. p_queue_prev (h a)) ((0 # ws) @ t # 0 # [])"
      using l t by (simp add: plinks_def)
    then have "links (\<lambda>a. p_queue_next (h' a)) (\<lambda>a. p_queue_prev (h' a)) ((0 # ws) @ t # p # 0 # [])"
      by (rule links_insert) (use tz p t in \<open>auto simp: hh\<close>)
    then have "plinks h' (0 # (xs @ [p]) @ [0])" using t by (simp add: plinks_def)
    moreover have "length (xs @ [p]) < 2 ^ 64" using z p d by (intro ptr_list_length) auto
    then have "unat (q_size q + 1) = length xs + 1" using q(3) by (subst unat_add_lt) simp_all
    moreover have "q_head q' = hd xs" "q_tail q' = p" "q_size q' = q_size q + 1"
      using a q hd0 False by (auto simp: append_to_queue_def Let_def hd_append split: if_splits)
    ultimately show ?thesis using z p d False by (simp add: queue_rep_def hd_append)
  qed
  with a core frame show thesis using that by blast
qed

lemma same_core_trans: "same_core h2 h1 \<Longrightarrow> same_core h1 h \<Longrightarrow> same_core h2 h"
  by (simp add: same_core_def)

lemma push_rep:
  assumes rep: "queue_rep h q xs" and p: "p \<in> set xs \<or> unlinked h p"
  obtains q' h' where "process_queue_push q p h = Some (q', h')" and "queue_rep h' q' (remove1 p xs @ [p])"
    and "same_core h' h" and "\<And>a. a \<notin> set xs \<Longrightarrow> a \<noteq> p \<Longrightarrow> h' a = h a"
proof -
  have pz: "p \<noteq> 0" using p rep by (auto simp: queue_rep_def unlinked_def)
  have "\<exists>q1 h1. (if p_queue_next (h p) \<noteq> NULL \<or> p_queue_prev (h p) \<noteq> NULL \<or> q_head q = p
      then detach_from_queue q p h else Some (q, h)) = Some (q1, h1) \<and> queue_rep h1 q1 (remove1 p xs) \<and>
      same_core h1 h \<and> (\<forall>a. a \<notin> set xs \<longrightarrow> h1 a = h a)"
  proof (cases "p \<in> set xs")
    case True
    then obtain us vs where xs: "xs = us @ p # vs" by (meson split_list)
    have "us = [] \<or> last us \<noteq> 0" using rep xs ends_nonzero [of us] by (auto simp: queue_rep_def)
    then have "p_queue_prev (h p) \<noteq> 0 \<or> q_head q = p"
      using queue_rep_nodes(2) [OF rep [unfolded xs]] rep xs by (auto simp: queue_rep_def)
    moreover from detach_rep [OF rep True] obtain q1 h1 where "detach_from_queue q p h = Some (q1, h1)"
      "queue_rep h1 q1 (remove1 p xs)" "same_core h1 h" "\<And>a. a \<notin> set xs \<Longrightarrow> h1 a = h a" by metis
    ultimately show ?thesis by auto
  next
    case False
    with p rep pz have "unlinked h p" "q_head q \<noteq> p"
      using list.set_sel(1) [of xs] by (auto simp: queue_rep_def hd_append)
    with False rep show ?thesis by (auto simp: unlinked_def same_core_def remove1_idem)
  qed
  then obtain q1 h1 where 1: "(if p_queue_next (h p) \<noteq> NULL \<or> p_queue_prev (h p) \<noteq> NULL \<or> q_head q = p
      then detach_from_queue q p h else Some (q, h)) = Some (q1, h1)" "queue_rep h1 q1 (remove1 p xs)"
      "same_core h1 h" "\<And>a. a \<notin> set xs \<Longrightarrow> h1 a = h a" by blast
  have d: "distinct xs" using rep by (simp add: queue_rep_def)
  then have "p \<notin> set (remove1 p xs)" by simp
  from append_rep [OF 1(2) pz this] obtain q' h' where 2: "append_to_queue q1 p h1 = (q', h')"
    "queue_rep h' q' (remove1 p xs @ [p])" "same_core h' h1"
    "\<And>a. a \<notin> set (remove1 p xs) \<Longrightarrow> a \<noteq> p \<Longrightarrow> h' a = h1 a" by blast
  have "process_queue_push q p h = Some (q', h')" using pz 1(1) 2(1) by (simp add: process_queue_push_def)
  moreover have "h' a = h a" if "a \<notin> set xs" "a \<noteq> p" for a
    using that 1(4) 2(4) d by (auto simp: set_remove1_eq)
  ultimately show thesis using that 2(2) same_core_trans [OF 2(3) 1(3)] by blast
qed

lemma pop_rep:
  assumes rep: "queue_rep h q (x # xs)"
  obtains q' h' where "process_queue_pop q h = Some (x, q', h')" and "queue_rep h' q' xs"
    and "same_core h' h" and "unlinked h' x" and "\<And>a. a \<notin> set (x # xs) \<Longrightarrow> h' a = h a"
proof -
  have "x \<in> set (x # xs)" by simp
  from detach_rep [OF rep this] obtain q' h' where "detach_from_queue q x h = Some (q', h')"
    "queue_rep h' q' xs" "same_core h' h" "unlinked h' x" "\<And>a. a \<notin> set (x # xs) \<Longrightarrow> h' a = h a"
    by auto
  moreover have "q_head q = x" "x \<noteq> 0" using rep by (auto simp: queue_rep_def)
  ultimately show thesis by (intro that [of q' h']) (auto simp: process_queue_pop_def)
qed

lemma pop_empty: "queue_rep h q [] \<Longrightarrow> process_queue_pop q h = Some (0, q, h)"
  by (simp add: process_queue_pop_def queue_rep_def)


section \<open>The interface the scheduler uses\<close>

text \<open>
  Several queues share one store of blocks.  \<open>keeps h' h S\<close>: going from \<open>h\<close> to \<open>h'\<close> wrote links of
  blocks in \<open>S\<close> only.  The laws say what an operation does to the list of its own queue and that it
  stays within that queue and the process it is given.
\<close>

locale shared_queues =
  fixes rep :: "'h \<Rightarrow> 'q \<Rightarrow> 'p list \<Rightarrow> bool"
    and loose :: "'h \<Rightarrow> 'p \<Rightarrow> bool"
    and keeps :: "'h \<Rightarrow> 'h \<Rightarrow> 'p set \<Rightarrow> bool"
    and push :: "'q \<Rightarrow> 'p \<Rightarrow> 'h \<Rightarrow> ('q \<times> 'h) option"
    and remove :: "'q \<Rightarrow> 'p \<Rightarrow> 'h \<Rightarrow> ('q \<times> 'h) option"
    and pop :: "'q \<Rightarrow> 'h \<Rightarrow> ('p \<times> 'q \<times> 'h) option"
  assumes rep_distinct: "rep h q xs \<Longrightarrow> distinct xs"
    and rep_frame: "rep h q xs \<Longrightarrow> keeps h' h S \<Longrightarrow> set xs \<inter> S = {} \<Longrightarrow> rep h' q xs"
    and loose_frame: "loose h p \<Longrightarrow> keeps h' h S \<Longrightarrow> p \<notin> S \<Longrightarrow> loose h' p"
    and keeps_trans: "keeps h2 h1 T \<Longrightarrow> keeps h1 h S \<Longrightarrow> keeps h2 h (S \<union> T)"
    and keeps_mono: "keeps h' h S \<Longrightarrow> S \<subseteq> T \<Longrightarrow> keeps h' h T"
    and push_law: "rep h q xs \<Longrightarrow> p \<in> set xs \<or> loose h p \<Longrightarrow>
      \<exists>q' h'. push q p h = Some (q', h') \<and> rep h' q' (remove1 p xs @ [p]) \<and> keeps h' h (insert p (set xs))"
    and remove_law: "rep h q xs \<Longrightarrow> p \<in> set xs \<Longrightarrow>
      \<exists>q' h'. remove q p h = Some (q', h') \<and> rep h' q' (remove1 p xs) \<and> loose h' p \<and> keeps h' h (set xs)"
    and remove_absent: "rep h q xs \<Longrightarrow> p \<notin> set xs \<Longrightarrow> remove q p h = Some (q, h)"
    and pop_law: "rep h q (x # xs) \<Longrightarrow>
      \<exists>q' h'. pop q h = Some (x, q', h') \<and> rep h' q' xs \<and> loose h' x \<and> keeps h' h (set (x # xs))"
begin

lemma move_law:
  assumes q: "rep h q xs" and r: "rep h r ys" and d: "set xs \<inter> set ys = {}" and p: "p \<in> set xs"
  shows "\<exists>q' h1 r' h2. remove q p h = Some (q', h1) \<and> push r p h1 = Some (r', h2) \<and>
    rep h2 q' (remove1 p xs) \<and> rep h2 r' (ys @ [p]) \<and> keeps h2 h (set xs \<union> set ys)"
proof -
  from remove_law [OF q p] obtain q' h1 where 1: "remove q p h = Some (q', h1)" "rep h1 q' (remove1 p xs)"
    "loose h1 p" "keeps h1 h (set xs)" by blast
  have pys: "p \<notin> set ys" using d p by blast
  have r1: "rep h1 r ys" using rep_frame [OF r 1(4)] d by blast
  from push_law [OF r1] 1(3) obtain r' h2 where 2: "push r p h1 = Some (r', h2)"
    "rep h2 r' (remove1 p ys @ [p])" "keeps h2 h1 (insert p (set ys))" by blast
  have "p \<notin> set (remove1 p xs)" using rep_distinct [OF q] by simp
  then have "set (remove1 p xs) \<inter> insert p (set ys) = {}" using d set_remove1_subset [of p xs] by blast
  from rep_frame [OF 1(2) 2(3) this] have "rep h2 q' (remove1 p xs)" .
  moreover have "keeps h2 h (set xs \<union> set ys)"
    using keeps_mono [OF keeps_trans [OF 2(3) 1(4)]] p by blast
  ultimately show ?thesis using 1(1) 2(1,2) pys by (auto simp: remove1_idem)
qed

lemma rotate_law:
  assumes q: "rep h q (x # xs)"
  shows "\<exists>q1 h1 q2 h2. pop q h = Some (x, q1, h1) \<and> push q1 x h1 = Some (q2, h2) \<and> rep h2 q2 (xs @ [x])"
proof -
  from pop_law [OF q] obtain q1 h1 where 1: "pop q h = Some (x, q1, h1)" "rep h1 q1 xs" "loose h1 x" by blast
  have "x \<notin> set xs" using rep_distinct [OF q] by simp
  with push_law [OF 1(2), of x] 1 show ?thesis by (auto simp: remove1_idem)
qed

end

definition links_only :: "pheap \<Rightarrow> pheap \<Rightarrow> ptr set \<Rightarrow> bool" where
  "links_only h' h S \<longleftrightarrow> same_core h' h \<and> (\<forall>a. a \<notin> S \<longrightarrow> h' a = h a)"

interpretation pq: shared_queues queue_rep unlinked links_only process_queue_push process_queue_remove
  process_queue_pop
proof unfold_locales
  fix h q xs assume rep: "queue_rep h q xs"
  then show "distinct xs" by (simp add: queue_rep_def)
  show "queue_rep h' q xs" if "links_only h' h S" "set xs \<inter> S = {}" for h' S
    by (rule queue_rep_cong [OF rep]) (use that in \<open>force simp: links_only_def\<close>)
  fix p :: ptr
  show "\<exists>q' h'. process_queue_push q p h = Some (q', h') \<and> queue_rep h' q' (remove1 p xs @ [p]) \<and>
      links_only h' h (insert p (set xs))" if "p \<in> set xs \<or> unlinked h p"
  proof -
    from push_rep [OF rep that] obtain q' h' where "process_queue_push q p h = Some (q', h')"
      "queue_rep h' q' (remove1 p xs @ [p])" "same_core h' h" "\<And>a. a \<notin> set xs \<Longrightarrow> a \<noteq> p \<Longrightarrow> h' a = h a" by blast
    then show ?thesis by (auto simp: links_only_def)
  qed
  show "\<exists>q' h'. process_queue_remove q p h = Some (q', h') \<and> queue_rep h' q' (remove1 p xs) \<and>
      unlinked h' p \<and> links_only h' h (set xs)" if "p \<in> set xs"
  proof -
    from detach_rep [OF rep that] obtain q' h' where "detach_from_queue q p h = Some (q', h')"
      "queue_rep h' q' (remove1 p xs)" "same_core h' h" "unlinked h' p" "\<And>a. a \<notin> set xs \<Longrightarrow> h' a = h a" by blast
    then show ?thesis by (auto simp: links_only_def process_queue_remove_def)
  qed
  show "process_queue_remove q p h = Some (q, h)" if "p \<notin> set xs"
    unfolding process_queue_remove_def by (rule detach_absent [OF rep that])
next
  fix h q x xs assume "queue_rep h q (x # xs)"
  from pop_rep [OF this] obtain q' h' where "process_queue_pop q h = Some (x, q', h')"
    "queue_rep h' q' xs" "same_core h' h" "unlinked h' x" "\<And>a. a \<notin> set (x # xs) \<Longrightarrow> h' a = h a" by blast
  then show "\<exists>q' h'. process_queue_pop q h = Some (x, q', h') \<and> queue_rep h' q' xs \<and> unlinked h' x \<and>
      links_only h' h (set (x # xs))"
    by (auto simp: links_only_def)
qed (auto simp: unlinked_def links_only_def same_core_def)

end
