(* ===== verification/Sched_Core.thy ===== *)
theory Sched_Core
  imports Process_Queue
begin

text \<open>
  The part of \<open>Kernel/proc/scheduler.c\<close> below the semaphores: the queues, priorities, aging,
  blocking and unblocking, the searches by pid and the process listing.  The rest of the file, which
  closes file descriptors and destroys processes, is in \<open>Kernel_Sched\<close>, above the pipes.  A pointer to
  one of the static queues is a \<open>qid\<close>.  Every operation is a function into \<open>option\<close>: \<open>None\<close> stands for a
  loop over a damaged queue that never ends.
\<close>

section \<open>State\<close>

datatype qid = Ready nat | Blocked_q | Finished_q

record sched =
  procs :: pheap
  stack_mem :: "u64 \<Rightarrow> u64"
  next_pid :: u64
  need_resched :: bool
  ready_queues :: "process_queue list"
  blocked_q :: process_queue
  finished_q :: process_queue
  current :: ptr
  idle_p :: ptr
  last_switch_tick :: u64
  ticks :: u64

definition QUANTUM_TICKS :: u64 where "QUANTUM_TICKS = 8"
definition MAX_FINISHED_COLLECT :: nat where "MAX_FINISHED_COLLECT = 4"
definition AGING_THRESHOLD :: u64 where "AGING_THRESHOLD = 200"
definition AGING_BOOST :: int where "AGING_BOOST = 1"

lemmas sched_consts = QUANTUM_TICKS_def MAX_FINISHED_COLLECT_def AGING_THRESHOLD_def AGING_BOOST_def

definition queue_of :: "'a sched_scheme \<Rightarrow> qid \<Rightarrow> process_queue" where
  "queue_of s i = (case i of Ready n \<Rightarrow> ready_queues s ! n | Blocked_q \<Rightarrow> blocked_q s | Finished_q \<Rightarrow> finished_q s)"

definition set_queue :: "qid \<Rightarrow> process_queue \<Rightarrow> 'a sched_scheme \<Rightarrow> 'a sched_scheme" where
  "set_queue i q s =
     (case i of
        Ready n \<Rightarrow> s\<lparr>ready_queues := (ready_queues s)[n := q]\<rparr>
      | Blocked_q \<Rightarrow> s\<lparr>blocked_q := q\<rparr>
      | Finished_q \<Rightarrow> s\<lparr>finished_q := q\<rparr>)"

definition queue_push :: "qid \<Rightarrow> ptr \<Rightarrow> 'a sched_scheme \<Rightarrow> 'a sched_scheme option" where
  "queue_push i p s =
     do { (q, h) \<leftarrow> process_queue_push (queue_of s i) p (procs s); Some (set_queue i q (s\<lparr>procs := h\<rparr>)) }"

definition queue_remove :: "qid \<Rightarrow> ptr \<Rightarrow> 'a sched_scheme \<Rightarrow> 'a sched_scheme option" where
  "queue_remove i p s =
     do { (q, h) \<leftarrow> process_queue_remove (queue_of s i) p (procs s); Some (set_queue i q (s\<lparr>procs := h\<rparr>)) }"

definition queue_pop :: "qid \<Rightarrow> 'a sched_scheme \<Rightarrow> (ptr \<times> 'a sched_scheme) option" where
  "queue_pop i s =
     do { (p, q, h) \<leftarrow> process_queue_pop (queue_of s i) (procs s); Some (p, set_queue i q (s\<lparr>procs := h\<rparr>)) }"

text \<open>\<open>p->field = v\<close>, and the value of \<open>*p\<close>.\<close>

definition upd_proc :: "ptr \<Rightarrow> (process_control_block \<Rightarrow> process_control_block) \<Rightarrow> 'a sched_scheme \<Rightarrow> 'a sched_scheme" where
  "upd_proc p f s = s\<lparr>procs := upd_at p f (procs s)\<rparr>"

abbreviation proc :: "'a sched_scheme \<Rightarrow> ptr \<Rightarrow> process_control_block" where
  "proc s p \<equiv> procs s p"

section \<open>Time\<close>

definition timer_handler :: "'a sched_scheme \<Rightarrow> 'a sched_scheme" where
  "timer_handler s = s\<lparr>ticks := ticks s + 1\<rparr>"

text \<open>\<open>int\<close> results: the tick count is truncated to 32 bits.  A caller that stores the result in a
  \<open>uint64_t\<close> extends its sign.\<close>

definition ticks_elapsed :: "'a sched_scheme \<Rightarrow> cint" where
  "ticks_elapsed s = ucast (ticks s)"

definition seconds_elapsed :: "'a sched_scheme \<Rightarrow> cint" where
  "seconds_elapsed s = ucast (ticks s div 18)"

section \<open>Ready queues\<close>

definition clamp_priority :: "u8 \<Rightarrow> u8" where
  "clamp_priority pr = (if pr > word_of_int PROCESS_PRIORITY_MAX then word_of_int PROCESS_PRIORITY_MAX else pr)"

definition ready_queue_push :: "ptr \<Rightarrow> 'a sched_scheme \<Rightarrow> 'a sched_scheme option" where
  "ready_queue_push p s =
     (if p = NULL then Some s
      else
        let pr = uint (clamp_priority (word_of_int (p_priority (proc s p))));
            s1 = upd_proc p (p_priority_update (\<lambda>_. pr)) s
        in queue_push (Ready (nat pr)) p s1)"

fun pop_highest_from :: "nat list \<Rightarrow> 'a sched_scheme \<Rightarrow> (ptr \<times> 'a sched_scheme) option" where
  "pop_highest_from [] s = Some (NULL, s)"
| "pop_highest_from (pr # prs) s =
     do {
       (p, s1) \<leftarrow> queue_pop (Ready pr) s;
       if p \<noteq> NULL then Some (p, s1) else pop_highest_from prs s1
     }"

text \<open>The loop indices from \<open>PROCESS_PRIORITY_MAX\<close> down to \<open>PROCESS_PRIORITY_MIN\<close>, and back.\<close>

definition priorities_down :: "nat list" where "priorities_down = [2, 1, 0]"
definition priorities_up :: "nat list" where "priorities_up = [0, 1, 2]"

definition ready_queue_pop_highest :: "'a sched_scheme \<Rightarrow> (ptr \<times> 'a sched_scheme) option" where
  "ready_queue_pop_highest s = pop_highest_from priorities_down s"

section \<open>Aging\<close>

text \<open>One visit of \<open>apply_aging\<close> to the process \<open>p\<close> of the queue of priority \<open>pr\<close>, with the process
  visited next, then the \<open>while\<close> loop and the \<open>for\<close> loop.\<close>

definition aging_visit :: "nat \<Rightarrow> ptr \<Rightarrow> 'a sched_scheme \<Rightarrow> (ptr \<times> 'a sched_scheme) option" where
  "aging_visit pr p s =
     (let s1 = upd_proc p (\<lambda>b. b\<lparr>p_wait_ticks := p_wait_ticks b + 1\<rparr>) s
      in if p_wait_ticks (proc s1 p) \<ge> AGING_THRESHOLD \<and> p_priority (proc s1 p) < PROCESS_PRIORITY_MAX
         then do {
           s2 \<leftarrow> queue_remove (Ready pr) p s1;
           let pr' = uint (clamp_priority (word_of_int (p_priority (proc s2 p) + AGING_BOOST)));
           let s3 = upd_proc p (p_priority_update (\<lambda>_. pr')) s2;
           s4 \<leftarrow> queue_push (Ready (nat pr')) p s3;
           let s5 = upd_proc p (p_wait_ticks_update (\<lambda>_. 0)) s4;
           Some (q_head (queue_of s5 (Ready pr)), s5)
         }
         else Some (p_queue_next (proc s1 p), s1))"

partial_function (option) aging_from :: "nat \<Rightarrow> ptr \<Rightarrow> 'a sched_scheme \<Rightarrow> 'a sched_scheme option" where
  "aging_from pr p s =
     (if p = NULL then Some s
      else do { (p', s') \<leftarrow> aging_visit pr p s; aging_from pr p' s' })"

declare aging_from.simps [code]

fun aging_queues :: "nat list \<Rightarrow> 'a sched_scheme \<Rightarrow> 'a sched_scheme option" where
  "aging_queues [] s = Some s"
| "aging_queues (pr # prs) s =
     do { s1 \<leftarrow> aging_from pr (q_head (queue_of s (Ready pr))) s; aging_queues prs s1 }"

definition apply_aging :: "'a sched_scheme \<Rightarrow> 'a sched_scheme option" where
  "apply_aging s = aging_queues priorities_up s"

section \<open>Blocking and unblocking\<close>

definition scheduler_current_process :: "'a sched_scheme \<Rightarrow> ptr" where
  "scheduler_current_process s = current s"

definition scheduler_add_process :: "ptr \<Rightarrow> 'a sched_scheme \<Rightarrow> 'a sched_scheme option" where
  "scheduler_add_process p s =
     (if p = NULL \<or> p = idle_p s then Some s
      else ready_queue_push p (upd_proc p (p_state_update (\<lambda>_. PROCESS_STATE_READY)) s))"

definition scheduler_block_current :: "'a sched_scheme \<Rightarrow> 'a sched_scheme" where
  "scheduler_block_current s =
     (if current s = NULL \<or> current s = idle_p s then s
      else (upd_proc (current s) (p_state_update (\<lambda>_. PROCESS_STATE_BLOCKED)) s)\<lparr>need_resched := True\<rparr>)"

text \<open>Up to \<open>callTimerTick\<close>: whether it is reached, and the state there.  The timer interrupt then
  runs as a step of its own.\<close>

definition scheduler_yield_current :: "'a sched_scheme \<Rightarrow> bool \<times> 'a sched_scheme" where
  "scheduler_yield_current s =
     (if current s = NULL \<or> current s = idle_p s then (False, s)
      else (True, s\<lparr>last_switch_tick := scast (ticks_elapsed s) - QUANTUM_TICKS\<rparr>))"

definition scheduler_unblock_process :: "ptr \<Rightarrow> 'a sched_scheme \<Rightarrow> 'a sched_scheme option" where
  "scheduler_unblock_process p s =
     (if p = NULL then Some s
      else do {
        s1 \<leftarrow> (if p_state (proc s p) = PROCESS_STATE_BLOCKED then queue_remove Blocked_q p s else Some s);
        s2 \<leftarrow> ready_queue_push p (upd_proc p (p_state_update (\<lambda>_. PROCESS_STATE_READY)) s1);
        Some (if current s2 \<noteq> NULL \<and> p_priority (proc s2 p) > p_priority (proc s2 (current s2))
              then s2\<lparr>need_resched := True\<rparr> else s2)
      })"

definition scheduler_collect_finished :: "'a sched_scheme \<Rightarrow> (ptr \<times> 'a sched_scheme) option" where
  "scheduler_collect_finished s = queue_pop Finished_q s"

section \<open>Searching\<close>

partial_function (option) find_in_queue_from :: "pheap \<Rightarrow> u64 \<Rightarrow> ptr \<Rightarrow> ptr option" where
  "find_in_queue_from h pid it =
     (if it = NULL then Some NULL
      else if p_pid (h it) = pid then Some it
      else find_in_queue_from h pid (p_queue_next (h it)))"

declare find_in_queue_from.simps [code]

definition find_in_queue :: "qid \<Rightarrow> u64 \<Rightarrow> 'a sched_scheme \<Rightarrow> ptr option" where
  "find_in_queue i pid s = find_in_queue_from (procs s) pid (q_head (queue_of s i))"

fun find_in_queues :: "qid list \<Rightarrow> u64 \<Rightarrow> 'a sched_scheme \<Rightarrow> ptr option" where
  "find_in_queues [] pid s =
     Some (if current s \<noteq> NULL \<and> p_pid (proc s (current s)) = pid then current s else NULL)"
| "find_in_queues (i # is) pid s =
     do {
       p \<leftarrow> find_in_queue i pid s;
       if p \<noteq> NULL then Some p else find_in_queues is pid s
     }"

definition all_queues :: "qid list" where
  "all_queues = map Ready priorities_up @ [Blocked_q, Finished_q]"

definition scheduler_find_by_pid :: "u64 \<Rightarrow> 'a sched_scheme \<Rightarrow> ptr option" where
  "scheduler_find_by_pid pid s = find_in_queues all_queues pid s"

definition scheduler_unblock_by_pid :: "u64 \<Rightarrow> 'a sched_scheme \<Rightarrow> (int \<times> 'a sched_scheme) option" where
  "scheduler_unblock_by_pid pid s =
     do {
       p \<leftarrow> scheduler_find_by_pid pid s;
       if p = NULL then Some (0, s)
       else do { s1 \<leftarrow> scheduler_unblock_process p s; Some (1, s1) }
     }"

definition scheduler_set_priority :: "u64 \<Rightarrow> u8 \<Rightarrow> 'a sched_scheme \<Rightarrow> (int \<times> 'a sched_scheme) option" where
  "scheduler_set_priority pid new_priority s =
     do {
       p \<leftarrow> scheduler_find_by_pid pid s;
       if p = NULL \<or> p = idle_p s then Some (0, s)
       else
         let clamped = uint (clamp_priority new_priority);
             oldp = p_priority (proc s p)
         in if oldp = clamped then Some (1, s)
            else do {
              s1 \<leftarrow> (if p_state (proc s p) = PROCESS_STATE_READY then queue_remove (Ready (nat oldp)) p s else Some s);
              let s2 = upd_proc p (\<lambda>b. b\<lparr>p_priority := clamped, p_base_priority := clamped, p_wait_ticks := 0\<rparr>) s1;
              s3 \<leftarrow> (if p_state (proc s2 p) = PROCESS_STATE_READY then ready_queue_push p s2 else Some s2);
              Some (1, if current s3 \<noteq> NULL \<and> p_priority (proc s3 p) > p_priority (proc s3 (current s3))
                       then s3\<lparr>need_resched := True\<rparr> else s3)
            }
     }"

definition scheduler_block_by_pid :: "u64 \<Rightarrow> 'a sched_scheme \<Rightarrow> (int \<times> 'a sched_scheme) option" where
  "scheduler_block_by_pid pid s =
     do {
       p \<leftarrow> scheduler_find_by_pid pid s;
       if p = NULL \<or> p = idle_p s then Some (0, s)
       else if p = current s
       then Some (1, (upd_proc p (p_state_update (\<lambda>_. PROCESS_STATE_BLOCKED)) s)\<lparr>need_resched := True\<rparr>)
       else if p_state (proc s p) = PROCESS_STATE_READY
       then do {
         s1 \<leftarrow> queue_remove (Ready (nat (p_priority (proc s p)))) p s;
         s2 \<leftarrow> queue_push Blocked_q p (upd_proc p (p_state_update (\<lambda>_. PROCESS_STATE_BLOCKED)) s1);
         Some (1, s2\<lparr>need_resched := True\<rparr>)
       }
       else Some (1, s)
     }"

section \<open>Listing\<close>

record process_info =
  i_pid :: u64
  i_name :: string
  i_state :: process_state
  i_priority :: int
  i_rsp :: u64
  i_rbp :: u64
  i_foreground :: int

text \<open>The buffer is the list of the entries written so far; \<open>*count\<close> is its length.\<close>

definition info_of :: "process_control_block \<Rightarrow> process_info" where
  "info_of b = \<lparr>i_pid = p_pid b, i_name = take PROCESS_NAME_MAX_LEN (p_name b), i_state = p_state b,
     i_priority = p_priority b, i_rsp = p_rsp b, i_rbp = p_rbp b, i_foreground = p_is_foreground b\<rparr>"

definition add_process_to_list :: "ptr \<Rightarrow> nat \<Rightarrow> 'a sched_scheme \<Rightarrow> process_info list \<Rightarrow> process_info list" where
  "add_process_to_list p max_count s buffer =
     (if p = NULL \<or> length buffer \<ge> max_count \<or> p = idle_p s then buffer
      else buffer @ [info_of (proc s p)])"

partial_function (option) list_queue_from ::
    "'a sched_scheme \<Rightarrow> nat \<Rightarrow> ptr \<Rightarrow> process_info list \<Rightarrow> process_info list option" where
  "list_queue_from s max_count p buffer =
     (if p = NULL \<or> length buffer \<ge> max_count then Some buffer
      else list_queue_from s max_count (p_queue_next (proc s p)) (add_process_to_list p max_count s buffer))"

declare list_queue_from.simps [code]

fun list_queues :: "qid list \<Rightarrow> 'a sched_scheme \<Rightarrow> nat \<Rightarrow> process_info list \<Rightarrow> process_info list option" where
  "list_queues [] s max_count buffer = Some buffer"
| "list_queues (i # is) s max_count buffer =
     do {
       buffer' \<leftarrow> list_queue_from s max_count (q_head (queue_of s i)) buffer;
       list_queues is s max_count buffer'
     }"

text \<open>The first entry with the pid of the running process is refreshed; without one it is added.\<close>

fun refresh_entry :: "process_control_block \<Rightarrow> process_info list \<Rightarrow> process_info list option" where
  "refresh_entry b [] = None"
| "refresh_entry b (e # es) =
     (if i_pid e = p_pid b
      then Some (e\<lparr>i_state := p_state b, i_rsp := p_rsp b, i_rbp := p_rbp b, i_foreground := p_is_foreground b\<rparr> # es)
      else map_option (Cons e) (refresh_entry b es))"

definition scheduler_list_all_processes :: "nat \<Rightarrow> 'a sched_scheme \<Rightarrow> process_info list option" where
  "scheduler_list_all_processes max_count s =
     do {
       buffer \<leftarrow> list_queues all_queues s max_count [];
       if current s \<noteq> NULL \<and> length buffer < max_count
       then Some (case refresh_entry (proc s (current s)) buffer of
              Some buffer' \<Rightarrow> buffer'
            | None \<Rightarrow> add_process_to_list (current s) max_count s buffer)
       else Some buffer
     }"

partial_function (option) foreground_from :: "pheap \<Rightarrow> ptr \<Rightarrow> ptr option" where
  "foreground_from h p =
     (if p = NULL then Some NULL
      else if p_is_foreground (h p) \<noteq> 0 then Some p
      else foreground_from h (p_queue_next (h p)))"

declare foreground_from.simps [code]

fun foreground_in :: "qid list \<Rightarrow> 'a sched_scheme \<Rightarrow> u64 option" where
  "foreground_in [] s = Some 0"
| "foreground_in (i # is) s =
     do {
       p \<leftarrow> foreground_from (procs s) (q_head (queue_of s i));
       if p \<noteq> NULL then Some (p_pid (proc s p)) else foreground_in is s
     }"

definition scheduler_get_foreground_pid :: "'a sched_scheme \<Rightarrow> u64 option" where
  "scheduler_get_foreground_pid s =
     (if current s \<noteq> NULL \<and> current s \<noteq> idle_p s \<and> p_is_foreground (proc s (current s)) \<noteq> 0
      then Some (p_pid (proc s (current s)))
      else foreground_in (map Ready priorities_up @ [Blocked_q]) s)"

end
