(* ===== verification/Sched_Inv.thy ===== *)
theory Sched_Inv
  imports Sched_Core
begin

text \<open>
  The queues of the scheduler as lists.  \<open>sched_rep s X\<close>: every static queue represents the list that
  \<open>X\<close> gives it, and no process is in two queues.  \<open>sched_wf\<close> adds what the state of a process says about
  the queue it is in.  The operations of the scheduler are the corresponding list operations and
  keep the invariant.
\<close>

section \<open>Representation\<close>

definition valid :: "qid \<Rightarrow> bool" where
  "valid i \<longleftrightarrow> i \<in> set all_queues"

lemma valid_simps [simp]: "valid (Ready n) \<longleftrightarrow> n < 3" "valid Blocked_q" "valid Finished_q"
  by (auto simp: valid_def all_queues_def priorities_up_def)

definition sched_rep :: "'a sched_scheme \<Rightarrow> (qid \<Rightarrow> ptr list) \<Rightarrow> bool" where
  "sched_rep s X \<longleftrightarrow> length (ready_queues s) = 3 \<and>
     (\<forall>i. valid i \<longrightarrow> queue_rep (procs s) (queue_of s i) (X i)) \<and>
     (\<forall>i j. valid i \<longrightarrow> valid j \<longrightarrow> i \<noteq> j \<longrightarrow> set (X i) \<inter> set (X j) = {})"

definition nowhere :: "ptr \<Rightarrow> (qid \<Rightarrow> ptr list) \<Rightarrow> bool" where
  "nowhere p X \<longleftrightarrow> (\<forall>i. valid i \<longrightarrow> p \<notin> set (X i))"

lemma queue_of_set_queue:
  assumes "length (ready_queues s) = 3" and "valid i" "valid j"
  shows "queue_of (set_queue i q s) j = (if j = i then q else queue_of s j)"
  using assms by (auto simp: queue_of_def set_queue_def split: qid.splits)

lemma queue_of_procs [simp]: "queue_of (s\<lparr>procs := h\<rparr>) j = queue_of s j"
  by (simp add: queue_of_def split: qid.split)

lemma set_queue_sel [simp]:
  "procs (set_queue i q s) = procs s" "current (set_queue i q s) = current s"
  "idle_p (set_queue i q s) = idle_p s" "need_resched (set_queue i q s) = need_resched s"
  "last_switch_tick (set_queue i q s) = last_switch_tick s" "ticks (set_queue i q s) = ticks s"
  "length (ready_queues (set_queue i q s)) = length (ready_queues s)"
  "next_pid (set_queue i q s) = next_pid s" "stack_mem (set_queue i q s) = stack_mem s"
  "sched.more (set_queue i q s) = sched.more s"
  by (simp_all add: set_queue_def split: qid.split)

text \<open>What a queue operation keeps: everything but the queues and the links of the processes in \<open>S\<close>.\<close>

definition queues_only :: "'a sched_scheme \<Rightarrow> 'a sched_scheme \<Rightarrow> ptr set \<Rightarrow> bool" where
  "queues_only s' s S \<longleftrightarrow> links_only (procs s') (procs s) S \<and>
     s' = s\<lparr>procs := procs s', ready_queues := ready_queues s', blocked_q := blocked_q s', finished_q := finished_q s'\<rparr>"

lemma queues_onlyD:
  assumes "queues_only s' s S"
  shows "current s' = current s" "idle_p s' = idle_p s" "need_resched s' = need_resched s"
    "last_switch_tick s' = last_switch_tick s" "ticks s' = ticks s" "next_pid s' = next_pid s"
    "stack_mem s' = stack_mem s" "sched.more s' = sched.more s"
    "pcb_core (proc s' p) = pcb_core (proc s p)" "p \<notin> S \<Longrightarrow> proc s' p = proc s p"
proof -
  have e: "s' = s\<lparr>procs := procs s', ready_queues := ready_queues s', blocked_q := blocked_q s', finished_q := finished_q s'\<rparr>"
    and l: "links_only (procs s') (procs s) S" using assms by (auto simp: queues_only_def)
  show "current s' = current s" "idle_p s' = idle_p s" "need_resched s' = need_resched s"
    "last_switch_tick s' = last_switch_tick s" "ticks s' = ticks s" "next_pid s' = next_pid s"
    "stack_mem s' = stack_mem s" "sched.more s' = sched.more s"
    by (subst e, simp)+
  show "pcb_core (proc s' p) = pcb_core (proc s p)" "p \<notin> S \<Longrightarrow> proc s' p = proc s p"
    using l by (auto simp: links_only_def same_core_def)
qed

lemmas queues_only_core = queues_onlyD(9) [THEN pcb_core_eqD(1)] queues_onlyD(9) [THEN pcb_core_eqD(2)]
  queues_onlyD(9) [THEN pcb_core_eqD(3)] queues_onlyD(9) [THEN pcb_core_eqD(4)] queues_onlyD(9) [THEN pcb_core_eqD(5)]
  queues_onlyD(9) [THEN pcb_core_eqD(6)] queues_onlyD(9) [THEN pcb_core_eqD(7)]

lemma queues_only_set:
  assumes "links_only h (procs s) S"
  shows "queues_only (set_queue i q (s\<lparr>procs := h\<rparr>)) s S"
  using assms by (auto simp: queues_only_def set_queue_def split: qid.split)

text \<open>Replacing one queue and its links.\<close>

lemma sched_rep_replace:
  assumes rep: "sched_rep s X" and i: "valid i" and q: "queue_rep h q ys"
    and keep: "links_only h (procs s) (insert p (set (X i)))"
    and ys: "set ys \<subseteq> insert p (set (X i))"
    and p: "p \<in> set (X i) \<or> nowhere p X"
  shows "sched_rep (set_queue i q (s\<lparr>procs := h\<rparr>)) (X(i := ys))"
proof -
  from rep have len: "length (ready_queues s) = 3" by (simp add: sched_rep_def)
  have other: "set (X j) \<inter> insert p (set (X i)) = {}" if "valid j" "j \<noteq> i" for j
    using that rep i p unfolding sched_rep_def nowhere_def by blast
  have "queue_rep h (queue_of (set_queue i q (s\<lparr>procs := h\<rparr>)) j) ((X(i := ys)) j)" if j: "valid j" for j
  proof (cases "j = i")
    case True
    then show ?thesis using q len i j by (simp add: queue_of_set_queue)
  next
    case False
    have "queue_rep (procs s) (queue_of s j) (X j)" using rep j by (simp add: sched_rep_def)
    from pq.rep_frame [OF this keep other [OF j False]] show ?thesis
      using False len i j by (simp add: queue_of_set_queue)
  qed
  moreover have "set ((X(i := ys)) j) \<inter> set ((X(i := ys)) k) = {}"
    if jk: "valid j" "valid k" "j \<noteq> k" for j k
  proof -
    have d: "set (X j) \<inter> set (X k) = {}" using rep jk unfolding sched_rep_def by blast
    consider "j = i" "k \<noteq> i" | "k = i" "j \<noteq> i" | "j \<noteq> i" "k \<noteq> i" using jk(3) by blast
    then show ?thesis
    proof cases
      case 1
      then show ?thesis using other [OF jk(2) 1(2)] ys by auto
    next
      case 2
      then show ?thesis using other [OF jk(1) 2(2)] ys by auto
    qed (use d in auto)
  qed
  ultimately show ?thesis using len by (simp add: sched_rep_def)
qed

lemma queue_push_rep:
  assumes rep: "sched_rep s X" and i: "valid i"
    and p: "p \<in> set (X i) \<or> (nowhere p X \<and> unlinked (procs s) p)"
  obtains s' where "queue_push i p s = Some s'" and "sched_rep s' (X(i := remove1 p (X i) @ [p]))"
    and "queues_only s' s (insert p (set (X i)))"
proof -
  have r: "queue_rep (procs s) (queue_of s i) (X i)" using rep i by (simp add: sched_rep_def)
  from pq.push_law [OF r, of p] p obtain q h where 1: "process_queue_push (queue_of s i) p (procs s) = Some (q, h)"
    "queue_rep h q (remove1 p (X i) @ [p])" "links_only h (procs s) (insert p (set (X i)))" by blast
  have "set (remove1 p (X i) @ [p]) \<subseteq> insert p (set (X i))" using set_remove1_subset by fastforce
  from sched_rep_replace [OF rep i 1(2,3) this] p show thesis
    by (intro that [of "set_queue i q (s\<lparr>procs := h\<rparr>)"]) (auto simp: queue_push_def 1(1) intro: queues_only_set 1(3))
qed

lemma queue_remove_rep:
  assumes rep: "sched_rep s X" and i: "valid i" and p: "p \<in> set (X i)"
  obtains s' where "queue_remove i p s = Some s'" and "sched_rep s' (X(i := remove1 p (X i)))"
    and "queues_only s' s (set (X i))" and "unlinked (procs s') p" and "nowhere p (X(i := remove1 p (X i)))"
proof -
  have r: "queue_rep (procs s) (queue_of s i) (X i)" using rep i by (simp add: sched_rep_def)
  from pq.remove_law [OF r p] obtain q h where 1: "process_queue_remove (queue_of s i) p (procs s) = Some (q, h)"
    "queue_rep h q (remove1 p (X i))" "unlinked h p" "links_only h (procs s) (set (X i))" by blast
  have ins: "insert p (set (X i)) = set (X i)" using p by blast
  have "sched_rep (set_queue i q (s\<lparr>procs := h\<rparr>)) (X(i := remove1 p (X i)))"
    using sched_rep_replace [OF rep i 1(2), of p] p 1(4) set_remove1_subset [of p "X i"] by (simp add: ins)
  moreover have "nowhere p (X(i := remove1 p (X i)))"
    using rep i p pq.rep_distinct [OF r] unfolding nowhere_def sched_rep_def by (auto)
  ultimately show thesis using 1
    by (intro that [of "set_queue i q (s\<lparr>procs := h\<rparr>)"]) (auto simp: queue_remove_def intro: queues_only_set)
qed

lemma queue_pop_rep:
  assumes rep: "sched_rep s X" and i: "valid i" and x: "X i = x # xs"
  obtains s' where "queue_pop i s = Some (x, s')" and "sched_rep s' (X(i := xs))"
    and "queues_only s' s (set (X i))" and "unlinked (procs s') x" and "nowhere x (X(i := xs))"
proof -
  have r: "queue_rep (procs s) (queue_of s i) (x # xs)"
    using rep i x by (auto simp: sched_rep_def)
  from pq.pop_law [OF r] obtain q h where 1: "process_queue_pop (queue_of s i) (procs s) = Some (x, q, h)"
    "queue_rep h q xs" "unlinked h x" "links_only h (procs s) (set (x # xs))" by blast
  have "sched_rep (set_queue i q (s\<lparr>procs := h\<rparr>)) (X(i := xs))"
    by (rule sched_rep_replace [OF rep i 1(2), of x]) (use 1(4) x in auto)
  moreover have "nowhere x (X(i := xs))"
    using rep i x pq.rep_distinct [OF r] unfolding nowhere_def sched_rep_def
    by (metis IntI distinct.simps(2) empty_iff fun_upd_apply list.set_intros(1))
  ultimately show thesis using 1 x
    by (intro that [of "set_queue i q (s\<lparr>procs := h\<rparr>)"]) (auto simp: queue_pop_def intro: queues_only_set)
qed

lemma queue_pop_empty:
  assumes "sched_rep s X" and "valid i" and "X i = []"
  shows "queue_pop i s = Some (0, set_queue i (queue_of s i) s)"
proof -
  have "queue_rep (procs s) (queue_of s i) []" using assms by (auto simp: sched_rep_def)
  from pop_empty [OF this] show ?thesis by (simp add: queue_pop_def)
qed

lemma set_queue_same:
  assumes "valid i" and "length (ready_queues s) = 3"
  shows "set_queue i (queue_of s i) s = s"
  using assms by (auto simp: set_queue_def queue_of_def split: qid.split)

lemma queue_pop_none:
  assumes "sched_rep s X" and "valid i" and "X i = []"
  shows "queue_pop i s = Some (0, s)"
  using queue_pop_empty [OF assms] set_queue_same [OF assms(2), of s] assms(1) by (simp add: sched_rep_def)

lemma queue_remove_none:
  assumes "sched_rep s X" and "valid i" and "p \<notin> set (X i)"
  shows "queue_remove i p s = Some s"
proof -
  have "queue_rep (procs s) (queue_of s i) (X i)" using assms by (simp add: sched_rep_def)
  from pq.remove_absent [OF this assms(3)] show ?thesis
    using set_queue_same [OF assms(2), of s] assms(1) by (simp add: queue_remove_def sched_rep_def)
qed

section \<open>States and queues\<close>

definition queues_wf :: "'a sched_scheme \<Rightarrow> (qid \<Rightarrow> ptr list) \<Rightarrow> bool" where
  "queues_wf s X \<longleftrightarrow> sched_rep s X \<and>
     (\<forall>n < 3. \<forall>p \<in> set (X (Ready n)). p_state (proc s p) = PROCESS_STATE_READY \<and> p_priority (proc s p) = int n) \<and>
     (\<forall>p \<in> set (X Blocked_q). p_state (proc s p) = PROCESS_STATE_BLOCKED) \<and>
     (\<forall>p \<in> set (X Finished_q). p_state (proc s p) = PROCESS_STATE_FINISHED) \<and>
     idle_p s \<noteq> 0 \<and> nowhere (idle_p s) X"

definition sched_wf :: "'a sched_scheme \<Rightarrow> (qid \<Rightarrow> ptr list) \<Rightarrow> bool" where
  "sched_wf s X \<longleftrightarrow> queues_wf s X \<and> current s \<noteq> 0 \<and>
     (current s \<in> set (X Finished_q) \<or> (nowhere (current s) X \<and> unlinked (procs s) (current s)))"

text \<open>Writing fields of blocks other than the links keeps the lists.\<close>

definition links_same :: "pheap \<Rightarrow> pheap \<Rightarrow> bool" where
  "links_same h' h \<longleftrightarrow> (\<forall>a. p_queue_next (h' a) = p_queue_next (h a) \<and> p_queue_prev (h' a) = p_queue_prev (h a))"

lemma links_same_upd:
  assumes "\<And>b. p_queue_next (f b) = p_queue_next b" and "\<And>b. p_queue_prev (f b) = p_queue_prev b"
  shows "links_same (upd_at p f h) h"
  using assms by (simp add: links_same_def)

lemma unlinked_same: "links_same h' h \<Longrightarrow> unlinked h' p = unlinked h p"
  by (simp add: links_same_def unlinked_def)

lemma sched_rep_procs:
  assumes "sched_rep s X" and "links_same h (procs s)"
  shows "sched_rep (s\<lparr>procs := h\<rparr>) X"
proof -
  have "queue_rep h (queue_of s i) (X i)" if "valid i" for i
  proof (rule queue_rep_cong)
    show "queue_rep (procs s) (queue_of s i) (X i)" using assms(1) that by (simp add: sched_rep_def)
  qed (use assms(2) in \<open>simp add: links_same_def\<close>)
  with assms(1) show ?thesis by (simp add: sched_rep_def)
qed

lemma upd_proc_sel [simp]:
  "procs (upd_proc p f s) = upd_at p f (procs s)" "current (upd_proc p f s) = current s"
  "idle_p (upd_proc p f s) = idle_p s" "need_resched (upd_proc p f s) = need_resched s"
  "last_switch_tick (upd_proc p f s) = last_switch_tick s" "ticks (upd_proc p f s) = ticks s"
  "queue_of (upd_proc p f s) i = queue_of s i" "ready_queues (upd_proc p f s) = ready_queues s"
  "blocked_q (upd_proc p f s) = blocked_q s" "finished_q (upd_proc p f s) = finished_q s"
  "next_pid (upd_proc p f s) = next_pid s" "stack_mem (upd_proc p f s) = stack_mem s"
  "sched.more (upd_proc p f s) = sched.more s"
  by (simp_all add: upd_proc_def)

lemma sched_rep_upd:
  assumes "sched_rep s X" and "\<And>b. p_queue_next (f b) = p_queue_next b" and "\<And>b. p_queue_prev (f b) = p_queue_prev b"
  shows "sched_rep (upd_proc p f s) X"
  unfolding upd_proc_def by (rule sched_rep_procs [OF assms(1) links_same_upd [OF assms(2,3)]])

section \<open>Priorities\<close>

lemma clamp_priority_unat: "unat (clamp_priority pr) = min (unat pr) 2"
  by (auto simp: clamp_priority_def process_consts word_less_nat_alt min_def)

lemma clamp_priority_lt3: "nat (uint (clamp_priority pr)) < 3"
  using clamp_priority_unat [of pr] by (simp add: nat_uint_eq)

lemma clamp_priority_id:
  assumes "0 \<le> k" "k < 3"
  shows "uint (clamp_priority (word_of_int k)) = k"
proof -
  have "k = 0 \<or> k = 1 \<or> k = 2" using assms by arith
  then show ?thesis by (auto simp: clamp_priority_def process_consts)
qed

definition prio_of :: "'a sched_scheme \<Rightarrow> ptr \<Rightarrow> nat" where
  "prio_of s p = nat (uint (clamp_priority (word_of_int (p_priority (proc s p)))))"

lemma prio_of_lt3: "prio_of s p < 3"
  unfolding prio_of_def by (rule clamp_priority_lt3)

lemma prio_of_id: "0 \<le> p_priority (proc s p) \<Longrightarrow> p_priority (proc s p) < 3 \<Longrightarrow> prio_of s p = nat (p_priority (proc s p))"
  by (simp add: prio_of_def clamp_priority_id)

text \<open>The blocks after a step: the links may have changed, the rest is as \<open>h\<close> gives it; outside \<open>S\<close>
  nothing changed at all.  The other fields of the state are kept.\<close>

definition core_step :: "'a sched_scheme \<Rightarrow> 'a sched_scheme \<Rightarrow> pheap \<Rightarrow> ptr set \<Rightarrow> bool" where
  "core_step s' s h S \<longleftrightarrow> same_core (procs s') h \<and> (\<forall>a. a \<notin> S \<longrightarrow> procs s' a = procs s a) \<and>
     s' = s\<lparr>procs := procs s', ready_queues := ready_queues s', blocked_q := blocked_q s', finished_q := finished_q s'\<rparr>"

lemma core_stepD:
  assumes "core_step s' s h S"
  shows "current s' = current s" "idle_p s' = idle_p s" "need_resched s' = need_resched s"
    "last_switch_tick s' = last_switch_tick s" "ticks s' = ticks s" "next_pid s' = next_pid s"
    "stack_mem s' = stack_mem s" "sched.more s' = sched.more s"
    "pcb_core (proc s' p) = pcb_core (h p)" "p \<notin> S \<Longrightarrow> proc s' p = proc s p"
proof -
  have e: "s' = s\<lparr>procs := procs s', ready_queues := ready_queues s', blocked_q := blocked_q s', finished_q := finished_q s'\<rparr>"
    using assms by (simp add: core_step_def)
  show "current s' = current s" "idle_p s' = idle_p s" "need_resched s' = need_resched s"
    "last_switch_tick s' = last_switch_tick s" "ticks s' = ticks s" "next_pid s' = next_pid s"
    "stack_mem s' = stack_mem s" "sched.more s' = sched.more s"
    by (subst e, simp)+
  show "pcb_core (proc s' p) = pcb_core (h p)" "p \<notin> S \<Longrightarrow> proc s' p = proc s p"
    using assms by (auto simp: core_step_def same_core_def)
qed

lemma core_step_fields:
  assumes "core_step s' s h S"
  shows "p_state (proc s' p) = p_state (h p)" "p_priority (proc s' p) = p_priority (h p)"
    "p_base_priority (proc s' p) = p_base_priority (h p)" "p_wait_ticks (proc s' p) = p_wait_ticks (h p)"
    "p_pid (proc s' p) = p_pid (h p)" "p_rsp (proc s' p) = p_rsp (h p)" "p_parent (proc s' p) = p_parent (h p)"
    "p_is_foreground (proc s' p) = p_is_foreground (h p)" "p_waiters_head (proc s' p) = p_waiters_head (h p)"
    "p_sem_waiter_next (proc s' p) = p_sem_waiter_next (h p)" "p_waiting_on_sem (proc s' p) = p_waiting_on_sem (h p)"
    "p_fds (proc s' p) = p_fds (h p)"
  using core_stepD(9) [OF assms, of p] by (auto dest: pcb_core_eqD)

lemma core_step_upd:
  assumes "queues_only s' (upd_proc p f s) S" and "p \<in> S"
  shows "core_step s' s (upd_at p f (procs s)) S"
  using assms by (auto simp: queues_only_def core_step_def links_only_def upd_proc_def)

section \<open>Operations on the ready queues\<close>

lemma ready_queue_push_rep:
  assumes rep: "sched_rep s X" and p: "nowhere p X" "unlinked (procs s) p"
  obtains s' where "ready_queue_push p s = Some s'"
    and "sched_rep s' (X(Ready (prio_of s p) := X (Ready (prio_of s p)) @ [p]))"
    and "core_step s' s (upd_at p (p_priority_update (\<lambda>_. int (prio_of s p))) (procs s))
           (insert p (set (X (Ready (prio_of s p)))))"
proof -
  let ?n = "prio_of s p" and ?s = "upd_proc p (p_priority_update (\<lambda>_. int (prio_of s p))) s"
  have pz: "p \<noteq> 0" using p(2) by (simp add: unlinked_def)
  have r: "sched_rep ?s X" by (rule sched_rep_upd [OF rep]) simp_all
  have u: "unlinked (procs ?s) p" using p(2) by (simp add: unlinked_def)
  have v: "valid (Ready ?n)" by (simp add: prio_of_lt3)
  have "p \<notin> set (X (Ready ?n))" using p(1) v by (simp add: nowhere_def)
  from queue_push_rep [OF r v, of p] p(1) u obtain s' where s': "queue_push (Ready ?n) p ?s = Some s'"
    "sched_rep s' (X(Ready ?n := remove1 p (X (Ready ?n)) @ [p]))"
    "queues_only s' ?s (insert p (set (X (Ready ?n))))" by blast
  have "int ?n = uint (clamp_priority (word_of_int (p_priority (proc s p))))" by (simp add: prio_of_def)
  then have "ready_queue_push p s = Some s'"
    using s'(1) pz by (simp add: ready_queue_push_def Let_def prio_of_def)
  with s'(2) \<open>p \<notin> set (X (Ready ?n))\<close> core_step_upd [OF s'(3)] show thesis
    by (intro that [of s']) (simp_all add: remove1_idem)
qed

lemma queues_wf_core:
  assumes wf: "queues_wf s X" and rep: "sched_rep s' Y" and idle: "idle_p s' = idle_p s" "nowhere (idle_p s) Y"
    and r: "\<And>n p. n < 3 \<Longrightarrow> p \<in> set (Y (Ready n)) \<Longrightarrow> p_state (proc s' p) = PROCESS_STATE_READY \<and> p_priority (proc s' p) = int n"
    and b: "\<And>p. p \<in> set (Y Blocked_q) \<Longrightarrow> p_state (proc s' p) = PROCESS_STATE_BLOCKED"
    and f: "\<And>p. p \<in> set (Y Finished_q) \<Longrightarrow> p_state (proc s' p) = PROCESS_STATE_FINISHED"
  shows "queues_wf s' Y"
  using assms by (auto simp: queues_wf_def)

lemma queues_wfD:
  assumes "queues_wf s X"
  shows "sched_rep s X" "n < 3 \<Longrightarrow> p \<in> set (X (Ready n)) \<Longrightarrow> p_state (proc s p) = PROCESS_STATE_READY"
    "n < 3 \<Longrightarrow> p \<in> set (X (Ready n)) \<Longrightarrow> p_priority (proc s p) = int n"
    "p \<in> set (X Blocked_q) \<Longrightarrow> p_state (proc s p) = PROCESS_STATE_BLOCKED"
    "p \<in> set (X Finished_q) \<Longrightarrow> p_state (proc s p) = PROCESS_STATE_FINISHED"
    "nowhere (idle_p s) X" "idle_p s \<noteq> 0"
  using assms by (auto simp: queues_wf_def)

lemma sched_rep_disjoint:
  assumes "sched_rep s X" and "valid i" "valid j" and "p \<in> set (X i)" "p \<in> set (X j)"
  shows "i = j"
  using assms unfolding sched_rep_def by blast

lemma ready_push_wf:
  assumes wf: "queues_wf s X" and p: "nowhere p X" "unlinked (procs s) p" "p \<noteq> idle_p s"
    and st: "p_state (proc s p) = PROCESS_STATE_READY"
  obtains s' where "ready_queue_push p s = Some s'"
    and "queues_wf s' (X(Ready (prio_of s p) := X (Ready (prio_of s p)) @ [p]))"
    and "core_step s' s (upd_at p (p_priority_update (\<lambda>_. int (prio_of s p))) (procs s))
           (insert p (set (X (Ready (prio_of s p)))))"
proof -
  let ?n = "prio_of s p"
  note w = queues_wfD [OF wf]
  from ready_queue_push_rep [OF w(1) p(1,2)] obtain s' where s': "ready_queue_push p s = Some s'"
    "sched_rep s' (X(Ready ?n := X (Ready ?n) @ [p]))"
    "core_step s' s (upd_at p (p_priority_update (\<lambda>_. int ?n)) (procs s)) (insert p (set (X (Ready ?n))))" .
  note c = core_stepD [OF s'(3)] core_step_fields [OF s'(3)]
  have other: "p_state (proc s' a) = p_state (proc s a)" "a \<noteq> p \<Longrightarrow> p_priority (proc s' a) = p_priority (proc s a)"
    "p_priority (proc s' p) = int ?n" for a
    by (simp_all add: c)
  have np: "a \<noteq> p" if "valid i" "a \<in> set (X i)" for a i
    using that p(1) unfolding nowhere_def by blast
  have "queues_wf s' (X(Ready ?n := X (Ready ?n) @ [p]))"
  proof (rule queues_wf_core [OF wf s'(2)])
    show "nowhere (idle_p s) (X(Ready ?n := X (Ready ?n) @ [p]))"
      using w(6) p(3) by (auto simp: nowhere_def)
    fix n a assume n: "n < 3" "a \<in> set ((X(Ready ?n := X (Ready ?n) @ [p])) (Ready n))"
    show "p_state (proc s' a) = PROCESS_STATE_READY \<and> p_priority (proc s' a) = int n"
    proof (cases "a = p")
      case True
      with n p(1) have "n = ?n" by (auto simp: nowhere_def split: if_splits)
      then show ?thesis using True other st by simp
    next
      case False
      with n have "a \<in> set (X (Ready n))" by (auto split: if_splits)
      with w(2,3) n(1) False other show ?thesis by simp
    qed
  qed (use w other in \<open>auto simp: c\<close>)
  with s' show thesis using that by blast
qed

lemma queue_of_globals [simp]:
  "queue_of (s\<lparr>need_resched := b\<rparr>) i = queue_of s i" "queue_of (s\<lparr>current := c\<rparr>) i = queue_of s i"
  "queue_of (s\<lparr>last_switch_tick := t\<rparr>) i = queue_of s i" "queue_of (s\<lparr>ticks := t\<rparr>) i = queue_of s i"
  "queue_of (s\<lparr>next_pid := k\<rparr>) i = queue_of s i" "queue_of (s\<lparr>stack_mem := m\<rparr>) i = queue_of s i"
  by (simp_all add: queue_of_def split: qid.split)

lemma sched_rep_globals [simp]:
  "sched_rep (s\<lparr>need_resched := b\<rparr>) X = sched_rep s X" "sched_rep (s\<lparr>current := c\<rparr>) X = sched_rep s X"
  "sched_rep (s\<lparr>last_switch_tick := t\<rparr>) X = sched_rep s X" "sched_rep (s\<lparr>ticks := t\<rparr>) X = sched_rep s X"
  "sched_rep (s\<lparr>next_pid := k\<rparr>) X = sched_rep s X" "sched_rep (s\<lparr>stack_mem := m\<rparr>) X = sched_rep s X"
  by (simp_all add: sched_rep_def)

lemma queues_wf_globals [simp]:
  "queues_wf (s\<lparr>need_resched := b\<rparr>) X = queues_wf s X" "queues_wf (s\<lparr>current := c\<rparr>) X = queues_wf s X"
  "queues_wf (s\<lparr>last_switch_tick := t\<rparr>) X = queues_wf s X" "queues_wf (s\<lparr>ticks := t\<rparr>) X = queues_wf s X"
  "queues_wf (s\<lparr>next_pid := k\<rparr>) X = queues_wf s X" "queues_wf (s\<lparr>stack_mem := m\<rparr>) X = queues_wf s X"
  by (simp_all add: queues_wf_def)

lemma queues_wf_sub:
  assumes wf: "queues_wf s X" and rep: "sched_rep s' Y" and q: "queues_only s' s S"
    and sub: "\<And>i. valid i \<Longrightarrow> set (Y i) \<subseteq> set (X i)"
  shows "queues_wf s' Y"
proof (rule queues_wf_core [OF wf rep])
  note w = queues_wfD [OF wf] and c = queues_only_core [OF q] queues_onlyD [OF q]
  show "nowhere (idle_p s) Y" using w(6) sub by (auto simp: nowhere_def)
  fix n p assume "n < 3" "p \<in> set (Y (Ready n))"
  with w(2,3) sub [of "Ready n"] show "p_state (proc s' p) = PROCESS_STATE_READY \<and> p_priority (proc s' p) = int n"
    by (auto simp: c)
qed (use queues_wfD(4,5) [OF wf] sub [of Blocked_q] sub [of Finished_q] queues_only_core [OF q] queues_onlyD [OF q] in auto)

lemma pop_highest_none:
  assumes "queues_wf s X" and "\<And>n. n < 3 \<Longrightarrow> X (Ready n) = []"
  shows "ready_queue_pop_highest s = Some (0, s)"
  using assms queue_pop_none [OF queues_wfD(1) [OF assms(1)]]
  by (simp add: ready_queue_pop_highest_def priorities_down_def)

lemma pop_highest_some:
  assumes wf: "queues_wf s X" and n: "n < 3" and x: "X (Ready n) = p # ps"
    and up: "\<And>m. n < m \<Longrightarrow> m < 3 \<Longrightarrow> X (Ready m) = []"
  obtains s' where "ready_queue_pop_highest s = Some (p, s')" and "queues_wf s' (X(Ready n := ps))"
    and "queues_only s' s (set (X (Ready n)))" and "unlinked (procs s') p" and "nowhere p (X(Ready n := ps))"
proof -
  note r = queues_wfD(1) [OF wf]
  have v: "valid (Ready n)" using n by simp
  from queue_pop_rep [OF r v x] obtain s' where s': "queue_pop (Ready n) s = Some (p, s')"
    "sched_rep s' (X(Ready n := ps))" "queues_only s' s (set (X (Ready n)))" "unlinked (procs s') p"
    "nowhere p (X(Ready n := ps))" .
  have none: "queue_pop (Ready m) s = Some (0, s)" if "n < m" "m < 3" for m
    using that by (intro queue_pop_none [OF r]) (simp_all add: up)
  have "p \<noteq> 0" using s'(4) by (simp add: unlinked_def)
  moreover have "n = 0 \<or> n = 1 \<or> n = 2" using n by arith
  ultimately have "ready_queue_pop_highest s = Some (p, s')"
    using s'(1) none [of 1] none [of 2] by (auto simp: ready_queue_pop_highest_def priorities_down_def)
  moreover have "queues_wf s' (X(Ready n := ps))"
    by (rule queues_wf_sub [OF wf s'(2,3)]) (use x in auto)
  ultimately show thesis using that s' by blast
qed

lemma queues_wf_upd:
  assumes wf: "queues_wf s X" and p: "nowhere p X"
    and "\<And>b. p_queue_next (f b) = p_queue_next b" and "\<And>b. p_queue_prev (f b) = p_queue_prev b"
  shows "queues_wf (upd_proc p f s) X"
proof (rule queues_wf_core [OF wf sched_rep_upd [OF queues_wfD(1) [OF wf] assms(3,4)]])
  have np: "a \<noteq> p" if "valid i" "a \<in> set (X i)" for a i using that p by (auto simp: nowhere_def)
  note w = queues_wfD [OF wf]
  show "nowhere (idle_p s) X" by (rule w(6))
  fix n a assume "n < 3" "a \<in> set (X (Ready n))"
  with w(2,3) np [of "Ready n" a] show
    "p_state (proc (upd_proc p f s) a) = PROCESS_STATE_READY \<and> p_priority (proc (upd_proc p f s) a) = int n" by simp
qed (use queues_wfD(4,5) [OF wf] p in \<open>auto simp: nowhere_def\<close>)

text \<open>Moving a process to the ready queue of its priority.\<close>

definition to_ready :: "nat \<Rightarrow> ptr \<Rightarrow> (qid \<Rightarrow> ptr list) \<Rightarrow> qid \<Rightarrow> ptr list" where
  "to_ready n p X = X(Ready n := X (Ready n) @ [p])"

lemma unblock_wf:
  assumes wf: "queues_wf s X" and p: "p \<in> set (X Blocked_q)"
  obtains s' where "scheduler_unblock_process p s = Some s'"
    and "queues_wf s' (to_ready (prio_of s p) p (X(Blocked_q := remove1 p (X Blocked_q))))"
    and "current s' = current s" and "idle_p s' = idle_p s" and "sched.more s' = sched.more s"
    and "\<And>a. pcb_core (proc s' a) = pcb_core (upd_at p (\<lambda>b. b\<lparr>p_state := PROCESS_STATE_READY,
           p_priority := int (prio_of s p)\<rparr>) (procs s) a)"
    and "\<And>a. a \<notin> set (X Blocked_q) \<Longrightarrow> a \<notin> set (X (Ready (prio_of s p))) \<Longrightarrow> proc s' a = proc s a"
proof -
  note w = queues_wfD [OF wf]
  have st: "p_state (proc s p) = PROCESS_STATE_BLOCKED" by (rule w(4) [OF p])
  have pz: "p \<noteq> 0" using w(1) p by (auto simp: sched_rep_def queue_rep_def dest: spec [of _ Blocked_q])
  let ?X = "X(Blocked_q := remove1 p (X Blocked_q))"
  from queue_remove_rep [OF w(1) valid_simps(2) p] obtain s1 where s1: "queue_remove Blocked_q p s = Some s1"
    "sched_rep s1 ?X" "queues_only s1 s (set (X Blocked_q))" "unlinked (procs s1) p" "nowhere p ?X" .
  note c1 = queues_only_core [OF s1(3)] queues_onlyD [OF s1(3)]
  have wf1: "queues_wf s1 ?X" by (rule queues_wf_sub [OF wf s1(2,3)]) (use set_remove1_subset [of p "X Blocked_q"] in auto)
  let ?s2 = "upd_proc p (p_state_update (\<lambda>_. PROCESS_STATE_READY)) s1"
  have wf2: "queues_wf ?s2 ?X" by (rule queues_wf_upd [OF wf1 s1(5)]) simp_all
  have pr: "prio_of ?s2 p = prio_of s p" by (simp add: prio_of_def c1)
  have idle: "p \<noteq> idle_p ?s2" using w(6) p by (auto simp: c1 nowhere_def)
  have u2: "unlinked (procs ?s2) p" using s1(4) by (simp add: unlinked_def)
  from ready_push_wf [OF wf2 s1(5) u2 idle] obtain s3 where s3: "ready_queue_push p ?s2 = Some s3"
    "queues_wf s3 (?X(Ready (prio_of s p) := ?X (Ready (prio_of s p)) @ [p]))"
    "core_step s3 ?s2 (upd_at p (p_priority_update (\<lambda>_. int (prio_of s p))) (procs ?s2))
           (insert p (set (?X (Ready (prio_of s p)))))" unfolding pr by auto
  note c3 = core_stepD [OF s3(3)]
  let ?s4 = "if current s3 \<noteq> NULL \<and> p_priority (proc s3 p) > p_priority (proc s3 (current s3))
              then s3\<lparr>need_resched := True\<rparr> else s3"
  have "scheduler_unblock_process p s = Some ?s4"
    using pz st s1(1) s3(1) by (simp add: scheduler_unblock_process_def)
  moreover have "queues_wf ?s4 (to_ready (prio_of s p) p ?X)"
    using s3(2) by (auto simp: to_ready_def)
  moreover have "pcb_core (proc ?s4 a) = pcb_core (upd_at p (\<lambda>b. b\<lparr>p_state := PROCESS_STATE_READY,
           p_priority := int (prio_of s p)\<rparr>) (procs s) a)" for a
    using c1(16) [of a] by (auto simp: c3)
  moreover have "proc ?s4 a = proc s a" if "a \<notin> set (X Blocked_q)" "a \<notin> set (X (Ready (prio_of s p)))" for a
    using that p c3(10) [of a] c1(17) [of a] by auto
  ultimately show thesis by (intro that [of ?s4]) (auto simp: c3 c1)
qed

section \<open>Small facts\<close>

lemma upd_proc_same:
  assumes "f (proc s p) = proc s p"
  shows "upd_proc p f s = s"
  using assms by (simp add: upd_proc_def upd_at_def)

lemma ready_queue_push_eq:
  assumes "p \<noteq> 0" and "0 \<le> p_priority (proc s p)" and "p_priority (proc s p) < 3"
  shows "queue_push (Ready (nat (p_priority (proc s p)))) p s = ready_queue_push p s"
proof -
  have e: "uint (clamp_priority (word_of_int (p_priority (proc s p)))) = p_priority (proc s p)"
    by (rule clamp_priority_id [OF assms(2,3)])
  have "upd_proc p (p_priority_update (\<lambda>_. p_priority (proc s p))) s = s" by (rule upd_proc_same) simp
  with assms(1) show ?thesis by (simp add: ready_queue_push_def Let_def e)
qed

lemma sched_rep_nonzero: "sched_rep s X \<Longrightarrow> valid i \<Longrightarrow> p \<in> set (X i) \<Longrightarrow> p \<noteq> 0"
  by (auto simp: sched_rep_def queue_rep_def)

lemma sched_rep_queue: "sched_rep s X \<Longrightarrow> valid i \<Longrightarrow> queue_rep (procs s) (queue_of s i) (X i)"
  by (simp add: sched_rep_def)

lemma queues_wf_keep:
  assumes wf: "queues_wf s X"
    and "\<And>b. p_queue_next (f b) = p_queue_next b" and "\<And>b. p_queue_prev (f b) = p_queue_prev b"
    and "\<And>b. p_state (f b) = p_state b" and "\<And>b. p_priority (f b) = p_priority b"
  shows "queues_wf (upd_proc p f s) X"
  by (rule queues_wf_core [OF wf sched_rep_upd [OF queues_wfD(1) [OF wf] assms(2,3)]])
    (use queues_wfD [OF wf] assms(4,5) in auto)

section \<open>Searching and listing\<close>

lemma queue_rep_walk:
  assumes "queue_rep h q xs"
  shows "plinks h (xs @ [0])" and "0 \<notin> set xs" and "q_head q = hd (xs @ [0])"
  using assms by (cases xs; auto simp: queue_rep_def plinks_def)+

lemma plinks_Cons:
  assumes "plinks h ((x # xs) @ [0])" and "0 \<notin> set (x # xs)"
  shows "p_queue_next (h x) = hd (xs @ [0])" and "plinks h (xs @ [0])"
  using assms by (cases xs; auto simp: plinks_def)+

definition first_or_null :: "(ptr \<Rightarrow> bool) \<Rightarrow> ptr list \<Rightarrow> ptr" where
  "first_or_null P xs = (case find P xs of None \<Rightarrow> 0 | Some p \<Rightarrow> p)"

lemma first_or_null_simps [simp]:
  "first_or_null P [] = 0" "first_or_null P (x # xs) = (if P x then x else first_or_null P xs)"
  by (simp_all add: first_or_null_def)

lemma first_or_null_append:
  "0 \<notin> set xs \<Longrightarrow> first_or_null P (xs @ ys) = (if first_or_null P xs \<noteq> 0 then first_or_null P xs else first_or_null P ys)"
  by (induction xs) auto

lemma first_or_null_some:
  assumes "first_or_null P xs = p" and "p \<noteq> 0"
  shows "p \<in> set xs" and "P p"
  using assms by (induction xs) (auto split: if_splits)

lemma first_or_null_none: "0 \<notin> set xs \<Longrightarrow> first_or_null P xs = 0 \<longleftrightarrow> (\<forall>x \<in> set xs. \<not> P x)"
  by (induction xs) auto

lemma find_in_queue_from_rep:
  assumes "plinks h (xs @ [0])" and "0 \<notin> set xs"
  shows "find_in_queue_from h pid (hd (xs @ [0])) = Some (first_or_null (\<lambda>p. p_pid (h p) = pid) xs)"
  using assms
proof (induction xs)
  case Nil
  then show ?case by (simp add: find_in_queue_from.simps)
next
  case (Cons x xs)
  from plinks_Cons [OF Cons.prems] Cons show ?case by (simp add: find_in_queue_from.simps [of h pid x])
qed

lemma foreground_from_rep:
  assumes "plinks h (xs @ [0])" and "0 \<notin> set xs"
  shows "foreground_from h (hd (xs @ [0])) = Some (first_or_null (\<lambda>p. p_is_foreground (h p) \<noteq> 0) xs)"
  using assms
proof (induction xs)
  case Nil
  then show ?case by (simp add: foreground_from.simps)
next
  case (Cons x xs)
  from plinks_Cons [OF Cons.prems] Cons show ?case by (simp add: foreground_from.simps [of h x])
qed

text \<open>The processes in the order in which the searches visit them.\<close>

definition in_order :: "(qid \<Rightarrow> ptr list) \<Rightarrow> ptr list" where
  "in_order X = concat (map X all_queues)"

definition known :: "'a sched_scheme \<Rightarrow> (qid \<Rightarrow> ptr list) \<Rightarrow> ptr list" where
  "known s X = in_order X @ (if current s = 0 then [] else [current s])"

lemma in_order_set: "set (in_order X) = (\<Union>i \<in> {i. valid i}. set (X i))"
  by (auto simp: in_order_def valid_def)

lemma find_in_queues_rep:
  assumes rep: "sched_rep s X" and "\<And>i. i \<in> set is \<Longrightarrow> valid i"
  shows "find_in_queues is pid s = Some (first_or_null (\<lambda>p. p_pid (proc s p) = pid)
    (concat (map X is) @ (if current s = 0 then [] else [current s])))"
  using assms(2)
proof (induction "is")
  case (Cons i "is")
  have q: "queue_rep (procs s) (queue_of s i) (X i)" using Cons.prems by (intro sched_rep_queue [OF rep]) simp
  note w = queue_rep_walk [OF q]
  show ?case using Cons find_in_queue_from_rep [OF w(1,2)] w(2)
    by (simp add: find_in_queue_def w(3) first_or_null_append)
qed simp

lemma find_by_pid_rep:
  assumes "sched_rep s X"
  shows "scheduler_find_by_pid pid s = Some (first_or_null (\<lambda>p. p_pid (proc s p) = pid) (known s X))"
  unfolding scheduler_find_by_pid_def known_def in_order_def
  by (rule find_in_queues_rep [OF assms]) (simp add: valid_def)

lemma list_queue_from_rep:
  assumes "plinks (procs s) (xs @ [0])" and "0 \<notin> set xs" and "idle_p s \<notin> set xs" and "length buf \<le> k"
  shows "list_queue_from s k (hd (xs @ [0])) buf = Some (take k (buf @ map (\<lambda>p. info_of (proc s p)) xs))"
  using assms
proof (induction xs arbitrary: buf)
  case Nil
  then show ?case by (simp add: list_queue_from.simps)
next
  case (Cons x xs)
  note p = plinks_Cons [OF Cons.prems(1,2)]
  show ?case
  proof (cases "length buf = k")
    case True
    then show ?thesis by (simp add: list_queue_from.simps)
  next
    case False
    with Cons.prems Cons.IH [OF p(2), of "buf @ [info_of (proc s x)]"] p(1) show ?thesis
      by (auto simp: list_queue_from.simps [of s k x] add_process_to_list_def)
  qed
qed

lemma take_take_append: "take k (take k xs @ ys) = take k (xs @ ys)"
  by (cases "length xs \<le> k") auto

lemma list_queues_rep:
  assumes rep: "sched_rep s X" and idle: "nowhere (idle_p s) X"
    and "\<And>i. i \<in> set is \<Longrightarrow> valid i" and "length buf \<le> k"
  shows "list_queues is s k buf = Some (take k (buf @ map (\<lambda>p. info_of (proc s p)) (concat (map X is))))"
  using assms(3,4)
proof (induction "is" arbitrary: buf)
  case (Cons i "is")
  have q: "queue_rep (procs s) (queue_of s i) (X i)" using Cons.prems by (intro sched_rep_queue [OF rep]) simp
  note w = queue_rep_walk [OF q]
  have "idle_p s \<notin> set (X i)" using idle Cons.prems by (simp add: nowhere_def)
  from list_queue_from_rep [OF w(1,2) this Cons.prems(2)]
  have e: "list_queue_from s k (q_head (queue_of s i)) buf = Some (take k (buf @ map (\<lambda>p. info_of (proc s p)) (X i)))"
    by (simp add: w(3))
  have "take k (take k (buf @ map (\<lambda>p. info_of (proc s p)) (X i)) @ map (\<lambda>p. info_of (proc s p)) (concat (map X is)))
      = take k (buf @ map (\<lambda>p. info_of (proc s p)) (X i) @ map (\<lambda>p. info_of (proc s p)) (concat (map X is)))"
    using take_take_append [of k "buf @ map (\<lambda>p. info_of (proc s p)) (X i)"] by simp
  with Cons.IH [of "take k (buf @ map (\<lambda>p. info_of (proc s p)) (X i))"] Cons.prems e show ?case by simp
qed simp


section \<open>Blocking and priorities by pid\<close>

lemma ready_not_idle: "queues_wf s X \<Longrightarrow> valid i \<Longrightarrow> p \<in> set (X i) \<Longrightarrow> p \<noteq> idle_p s"
  by (auto simp: queues_wf_def nowhere_def)

lemma blocked_push_wf:
  assumes wf: "queues_wf s X" and p: "nowhere p X" "unlinked (procs s) p" "p \<noteq> idle_p s"
    and st: "p_state (proc s p) = PROCESS_STATE_BLOCKED"
  obtains s' where "queue_push Blocked_q p s = Some s'" and "queues_wf s' (X(Blocked_q := X Blocked_q @ [p]))"
    and "queues_only s' s (insert p (set (X Blocked_q)))"
proof -
  note w = queues_wfD [OF wf]
  have np: "p \<notin> set (X Blocked_q)" using p(1) by (simp add: nowhere_def)
  from queue_push_rep [OF w(1) valid_simps(2), of p] p(1,2) np obtain s' where
    s': "queue_push Blocked_q p s = Some s'" "sched_rep s' (X(Blocked_q := X Blocked_q @ [p]))"
      "queues_only s' s (insert p (set (X Blocked_q)))" by (auto simp: remove1_idem)
  note c = queues_only_core [OF s'(3)] queues_onlyD [OF s'(3)]
  have "queues_wf s' (X(Blocked_q := X Blocked_q @ [p]))"
  proof (rule queues_wf_core [OF wf s'(2)])
    show "nowhere (idle_p s) (X(Blocked_q := X Blocked_q @ [p]))" using w(6) p(3) by (auto simp: nowhere_def)
  qed (use w st in \<open>auto simp: c\<close>)
  with s' show thesis using that by blast
qed

lemma block_ready_wf:
  assumes wf: "queues_wf s X" and n: "n < 3" and p: "p \<in> set (X (Ready n))"
    and f: "scheduler_find_by_pid pid s = Some p" and nc: "p \<noteq> current s"
  obtains s' where "scheduler_block_by_pid pid s = Some (1, s')"
    and "queues_wf s' (X(Ready n := remove1 p (X (Ready n)), Blocked_q := X Blocked_q @ [p]))"
    and "p_state (proc s' p) = PROCESS_STATE_BLOCKED" and "p_priority (proc s' p) = int n"
    and "\<And>a. a \<noteq> p \<Longrightarrow> pcb_core (proc s' a) = pcb_core (proc s a)"
proof -
  note w = queues_wfD [OF wf]
  have v: "valid (Ready n)" using n by simp
  have pz: "p \<noteq> 0" by (rule sched_rep_nonzero [OF w(1) v p])
  have idle: "p \<noteq> idle_p s" by (rule ready_not_idle [OF wf v p])
  let ?X = "X(Ready n := remove1 p (X (Ready n)))"
  from queue_remove_rep [OF w(1) v p] obtain s1 where s1: "queue_remove (Ready n) p s = Some s1" "sched_rep s1 ?X"
    "queues_only s1 s (set (X (Ready n)))" "unlinked (procs s1) p" "nowhere p ?X" .
  note c1 = queues_only_core [OF s1(3)] queues_onlyD [OF s1(3)]
  have wf1: "queues_wf s1 ?X"
    by (rule queues_wf_sub [OF wf s1(2,3)]) (use set_remove1_subset [of p "X (Ready n)"] in auto)
  let ?s2 = "upd_proc p (p_state_update (\<lambda>_. PROCESS_STATE_BLOCKED)) s1"
  have wf2: "queues_wf ?s2 ?X" by (rule queues_wf_upd [OF wf1 s1(5)]) simp_all
  have u2: "unlinked (procs ?s2) p" using s1(4) by (simp add: unlinked_def)
  from blocked_push_wf [OF wf2 s1(5) u2] idle obtain s3 where s3: "queue_push Blocked_q p ?s2 = Some s3"
    "queues_wf s3 (?X(Blocked_q := X Blocked_q @ [p]))" "queues_only s3 ?s2 (insert p (set (?X Blocked_q)))"
    by (auto simp: c1)
  note c3 = queues_only_core [OF s3(3)] queues_onlyD [OF s3(3)]
  have "scheduler_block_by_pid pid s = Some (1, s3\<lparr>need_resched := True\<rparr>)"
    using f pz idle nc w(2,3) [OF n p] s1(1) s3(1) by (simp add: scheduler_block_by_pid_def)
  with s3(2) w(3) [OF n p] show thesis by (intro that [of "s3\<lparr>need_resched := True\<rparr>"]) (simp_all add: c3 c1)
qed

lemma set_priority_ready_wf:
  assumes wf: "queues_wf s X" and n: "n < 3" and p: "p \<in> set (X (Ready n))"
    and f: "scheduler_find_by_pid pid s = Some p" and m: "m = nat (uint (clamp_priority pr))" "m \<noteq> n"
  obtains s' where "scheduler_set_priority pid pr s = Some (1, s')"
    and "queues_wf s' (to_ready m p (X(Ready n := remove1 p (X (Ready n)))))"
    and "p_base_priority (proc s' p) = int m" and "p_wait_ticks (proc s' p) = 0"
    and "\<And>a. a \<noteq> p \<Longrightarrow> pcb_core (proc s' a) = pcb_core (proc s a)"
proof -
  note w = queues_wfD [OF wf]
  have v: "valid (Ready n)" using n by simp
  have m3: "m < 3" using m(1) clamp_priority_lt3 by simp
  have um: "uint (clamp_priority pr) = int m" using m(1) by simp
  have pz: "p \<noteq> 0" by (rule sched_rep_nonzero [OF w(1) v p])
  have idle: "p \<noteq> idle_p s" by (rule ready_not_idle [OF wf v p])
  let ?X = "X(Ready n := remove1 p (X (Ready n)))"
  from queue_remove_rep [OF w(1) v p] obtain s1 where s1: "queue_remove (Ready n) p s = Some s1" "sched_rep s1 ?X"
    "queues_only s1 s (set (X (Ready n)))" "unlinked (procs s1) p" "nowhere p ?X" .
  note c1 = queues_only_core [OF s1(3)] queues_onlyD [OF s1(3)]
  have wf1: "queues_wf s1 ?X"
    by (rule queues_wf_sub [OF wf s1(2,3)]) (use set_remove1_subset [of p "X (Ready n)"] in auto)
  let ?s2 = "upd_proc p (\<lambda>b. b\<lparr>p_priority := int m, p_base_priority := int m, p_wait_ticks := 0\<rparr>) s1"
  have wf2: "queues_wf ?s2 ?X" by (rule queues_wf_upd [OF wf1 s1(5)]) simp_all
  have u2: "unlinked (procs ?s2) p" using s1(4) by (simp add: unlinked_def)
  have st2: "p_state (proc ?s2 p) = PROCESS_STATE_READY" using w(2) [OF n p] by (simp add: c1)
  have pr2: "prio_of ?s2 p = m" using m3 by (subst prio_of_id) simp_all
  from ready_push_wf [OF wf2 s1(5) u2 _ st2] idle obtain s3 where s3: "ready_queue_push p ?s2 = Some s3"
    "queues_wf s3 (to_ready m p ?X)"
    "core_step s3 ?s2 (upd_at p (p_priority_update (\<lambda>_. int m)) (procs ?s2)) (insert p (set (?X (Ready m))))"
    unfolding pr2 to_ready_def by (auto simp: c1)
  note c3 = core_stepD [OF s3(3)] core_step_fields [OF s3(3)]
  let ?s4 = "if current s3 \<noteq> NULL \<and> p_priority (proc s3 p) > p_priority (proc s3 (current s3))
                       then s3\<lparr>need_resched := True\<rparr> else s3"
  have "scheduler_set_priority pid pr s = Some (1, ?s4)"
    using f pz idle m(2) w(2,3) [OF n p] s1(1) s3(1) st2
    by (simp add: scheduler_set_priority_def Let_def um)
  with s3(2) show thesis by (intro that [of ?s4]) (auto simp: c3 c1)
qed

end
