(* ===== verification/Sched_Aging.thy ===== *)
theory Sched_Aging
  imports Sched_Inv
begin

text \<open>
  Aging (\<open>apply_aging\<close>).  The loop over a queue starts again from its head after each promotion; it
  ends because every promotion shortens the queue.  It keeps the invariant, and every process that
  waits below the highest priority either moves up or gets closer to the threshold.
\<close>

section \<open>One visit\<close>

definition wants_boost :: "'a sched_scheme \<Rightarrow> ptr \<Rightarrow> bool" where
  "wants_boost s p \<longleftrightarrow> p_wait_ticks (proc s p) + 1 \<ge> AGING_THRESHOLD \<and> p_priority (proc s p) < PROCESS_PRIORITY_MAX"

lemma aging_visit_stay:
  assumes "\<not> wants_boost s p"
  shows "aging_visit n p s = Some (p_queue_next (proc s p), upd_proc p (\<lambda>b. b\<lparr>p_wait_ticks := p_wait_ticks b + 1\<rparr>) s)"
  using assms by (auto simp: aging_visit_def wants_boost_def Let_def)

lemma aging_visit_promote:
  assumes wf: "queues_wf s X" and n: "n < 2" and p: "p \<in> set (X (Ready n))" and w: "wants_boost s p"
  obtains s' where "aging_visit n p s = Some (hd (remove1 p (X (Ready n)) @ [0]), s')"
    and "queues_wf s' (to_ready (Suc n) p (X(Ready n := remove1 p (X (Ready n)))))"
    and "core_step s' s (upd_at p (\<lambda>b. b\<lparr>p_wait_ticks := 0, p_priority := int (Suc n)\<rparr>) (procs s))
           (set (X (Ready n)) \<union> set (X (Ready (Suc n))))"
proof -
  have v: "valid (Ready n)" "valid (Ready (Suc n))" using n by auto
  have pr: "p_priority (proc s p) = int n" using queues_wfD(3) [OF wf, of n p] n p by simp
  have st: "p_state (proc s p) = PROCESS_STATE_READY" using queues_wfD(2) [OF wf, of n p] n p by simp
  let ?X = "X(Ready n := remove1 p (X (Ready n)))"
  let ?s1 = "upd_proc p (\<lambda>b. b\<lparr>p_wait_ticks := p_wait_ticks b + 1\<rparr>) s"
  have wf1: "queues_wf ?s1 X" by (rule queues_wf_keep [OF wf]) simp_all
  from queue_remove_rep [OF queues_wfD(1) [OF wf1] v(1) p] obtain s2 where
    s2: "queue_remove (Ready n) p ?s1 = Some s2" "sched_rep s2 ?X" "queues_only s2 ?s1 (set (X (Ready n)))"
      "unlinked (procs s2) p" "nowhere p ?X" .
  note c2 = queues_only_core [OF s2(3)] queues_onlyD [OF s2(3)]
  have pz: "p \<noteq> 0" using s2(4) by (simp add: unlinked_def)
  have wf2: "queues_wf s2 ?X"
    by (rule queues_wf_sub [OF wf1 s2(2,3)]) (use set_remove1_subset [of p "X (Ready n)"] in auto)
  let ?s3 = "upd_proc p (p_priority_update (\<lambda>_. int (Suc n))) s2"
  have wf3: "queues_wf ?s3 ?X" by (rule queues_wf_upd [OF wf2 s2(5)]) simp_all
  have u3: "unlinked (procs ?s3) p" using s2(4) by (simp add: unlinked_def)
  have i3: "p \<noteq> idle_p ?s3" using queues_wfD(6) [OF wf] p v(1) by (auto simp: c2 nowhere_def)
  have st3: "p_state (proc ?s3 p) = PROCESS_STATE_READY" using st by (simp add: c2)
  have pr3: "prio_of ?s3 p = Suc n" using n by (subst prio_of_id) simp_all
  from ready_push_wf [OF wf3 s2(5) u3 i3 st3] obtain s4 where s4: "ready_queue_push p ?s3 = Some s4"
    "queues_wf s4 (to_ready (Suc n) p ?X)"
    "core_step s4 ?s3 (upd_at p (p_priority_update (\<lambda>_. int (Suc n))) (procs ?s3)) (insert p (set (X (Ready (Suc n)))))"
    unfolding pr3 to_ready_def by auto
  note c4 = core_stepD [OF s4(3)]
  let ?s5 = "upd_proc p (p_wait_ticks_update (\<lambda>_. 0)) s4"
  have push: "queue_push (Ready (Suc n)) p ?s3 = Some s4"
    using ready_queue_push_eq [of p ?s3] pz n s4(1) by (simp add: nat_add_distrib)
  have clamp: "uint (clamp_priority (word_of_nat n + 1)) = 1 + int n"
    using clamp_priority_id [of "int n + 1"] n by (simp add: add.commute)
  then have clamp': "unat (clamp_priority (word_of_nat n + 1)) = Suc n"
    by (simp add: unat_eq_nat_uint nat_add_distrib)
  have wf5: "queues_wf ?s5 (to_ready (Suc n) p ?X)" by (rule queues_wf_keep [OF s4(2)]) simp_all
  have hd: "q_head (queue_of ?s5 (Ready n)) = hd (remove1 p (X (Ready n)) @ [0])"
    using sched_rep_queue [OF queues_wfD(1) [OF wf5] v(1)] by (simp add: queue_rep_def to_ready_def)
  have "aging_visit n p s = Some (hd (remove1 p (X (Ready n)) @ [0]), ?s5)"
    using w s2(1) push hd
    by (simp add: aging_visit_def wants_boost_def Let_def c2 pr sched_consts clamp clamp')
  moreover have "core_step ?s5 s (upd_at p (\<lambda>b. b\<lparr>p_wait_ticks := 0, p_priority := int (Suc n)\<rparr>) (procs s))
           (set (X (Ready n)) \<union> set (X (Ready (Suc n))))"
    unfolding core_step_def
  proof (intro conjI)
    show "same_core (procs ?s5) (upd_at p (\<lambda>b. b\<lparr>p_wait_ticks := 0, p_priority := int (Suc n)\<rparr>) (procs s))"
      by (auto simp: same_core_def c4 c2)
    show "\<forall>a. a \<notin> set (X (Ready n)) \<union> set (X (Ready (Suc n))) \<longrightarrow> procs ?s5 a = procs s a"
      using p by (auto simp: c4 c2)
    show "?s5 = s\<lparr>procs := procs ?s5, ready_queues := ready_queues ?s5, blocked_q := blocked_q ?s5, finished_q := finished_q ?s5\<rparr>"
      by (rule sched.equality) (simp_all add: c4 c2)
  qed
  ultimately show thesis using wf5 by (intro that [of ?s5])
qed

section \<open>The loops\<close>

text \<open>What aging leaves alone: everything but links, waiting times and priorities.\<close>

definition aged_core :: "process_control_block \<Rightarrow> process_control_block" where
  "aged_core b = (pcb_core b)\<lparr>p_wait_ticks := 0, p_priority := 0\<rparr>"

definition aged :: "'a sched_scheme \<Rightarrow> 'a sched_scheme \<Rightarrow> ptr set \<Rightarrow> bool" where
  "aged s' s S \<longleftrightarrow> (\<forall>a. aged_core (proc s' a) = aged_core (proc s a)) \<and> (\<forall>a. a \<notin> S \<longrightarrow> proc s' a = proc s a) \<and>
     s' = s\<lparr>procs := procs s', ready_queues := ready_queues s', blocked_q := blocked_q s', finished_q := finished_q s'\<rparr>"

lemma aged_refl: "aged s s S"
  by (simp add: aged_def)

lemma agedD:
  assumes "aged s' s S"
  shows "current s' = current s" "idle_p s' = idle_p s" "need_resched s' = need_resched s"
    "last_switch_tick s' = last_switch_tick s" "ticks s' = ticks s" "next_pid s' = next_pid s"
    "stack_mem s' = stack_mem s" "sched.more s' = sched.more s"
    "aged_core (proc s' a) = aged_core (proc s a)" "a \<notin> S \<Longrightarrow> proc s' a = proc s a"
proof -
  have e: "s' = s\<lparr>procs := procs s', ready_queues := ready_queues s', blocked_q := blocked_q s', finished_q := finished_q s'\<rparr>"
    using assms by (simp add: aged_def)
  show "current s' = current s" "idle_p s' = idle_p s" "need_resched s' = need_resched s"
    "last_switch_tick s' = last_switch_tick s" "ticks s' = ticks s" "next_pid s' = next_pid s"
    "stack_mem s' = stack_mem s" "sched.more s' = sched.more s"
    by (subst e, simp)+
  show "aged_core (proc s' a) = aged_core (proc s a)" "a \<notin> S \<Longrightarrow> proc s' a = proc s a"
    using assms by (auto simp: aged_def)
qed

lemma aged_trans:
  assumes "aged s2 s1 T" and "aged s1 s S" and "S \<subseteq> R" "T \<subseteq> R"
  shows "aged s2 s R"
  unfolding aged_def
proof (intro conjI)
  note d1 = agedD [OF assms(2)] and d2 = agedD [OF assms(1)]
  show "\<forall>a. aged_core (proc s2 a) = aged_core (proc s a)" by (simp add: d1 d2)
  show "\<forall>a. a \<notin> R \<longrightarrow> proc s2 a = proc s a" using assms(3,4) d1(10) d2(10) by (metis subsetD)
  show "s2 = s\<lparr>procs := procs s2, ready_queues := ready_queues s2, blocked_q := blocked_q s2, finished_q := finished_q s2\<rparr>"
    by (rule sched.equality) (simp_all add: d1(1-8) d2(1-8))
qed

lemma aged_tick: "p \<in> S \<Longrightarrow> aged (upd_proc p (\<lambda>b. b\<lparr>p_wait_ticks := p_wait_ticks b + 1\<rparr>) s) s S"
  by (auto simp: aged_def aged_core_def upd_proc_def)

lemma aged_core_step:
  assumes "core_step s' s (upd_at p (\<lambda>b. b\<lparr>p_wait_ticks := t, p_priority := k\<rparr>) (procs s)) S"
  shows "aged s' s S"
  using assms by (auto simp: core_step_def aged_def aged_core_def same_core_def)

definition young :: "'a sched_scheme \<Rightarrow> ptr list \<Rightarrow> bool" where
  "young s xs \<longleftrightarrow> (\<forall>p \<in> set xs. p_wait_ticks (proc s p) < AGING_THRESHOLD)"

text \<open>The effect of the loop over the queue of priority \<open>n\<close>, from \<open>s\<close> with lists \<open>X\<close> to \<open>s'\<close> with lists
  \<open>X'\<close>, where the processes in \<open>V\<close> were still to be visited.\<close>

definition aging_effect :: "nat \<Rightarrow> ptr set \<Rightarrow> 'a sched_scheme \<Rightarrow> (qid \<Rightarrow> ptr list) \<Rightarrow> 'a sched_scheme \<Rightarrow> (qid \<Rightarrow> ptr list) \<Rightarrow> bool" where
  "aging_effect n V s X s' X' \<longleftrightarrow> queues_wf s' X' \<and> young s' (X' (Ready n)) \<and>
     aged s' s (set (X (Ready n)) \<union> set (X (Ready (Suc n)))) \<and>
     (\<forall>i. i \<noteq> Ready n \<longrightarrow> i \<noteq> Ready (Suc n) \<longrightarrow> X' i = X i) \<and>
     (\<exists>zs. X' (Ready (Suc n)) = X (Ready (Suc n)) @ zs \<and> young s' zs \<and> set zs \<subseteq> set (X (Ready n))) \<and>
     set (X' (Ready n)) \<subseteq> set (X (Ready n)) \<and>
     (\<forall>a. a \<notin> set (X (Ready n)) \<longrightarrow> pcb_core (proc s' a) = pcb_core (proc s a)) \<and>
     (\<forall>a \<in> set (X (Ready n)). a \<in> set (X' (Ready (Suc n))) \<or>
        (a \<in> set (X' (Ready n)) \<and>
         unat (p_wait_ticks (proc s a)) + (if a \<in> V then 1 else 0) \<le> unat (p_wait_ticks (proc s' a))))"

lemma wait_core: "pcb_core x = pcb_core y \<Longrightarrow> p_wait_ticks x = p_wait_ticks y"
  by (rule pcb_core_eqD(6))

lemma boost_iff:
  assumes "queues_wf s X" and "n < 2" and "p \<in> set (X (Ready n))" and "p_wait_ticks (proc s p) < AGING_THRESHOLD"
  shows "wants_boost s p \<longleftrightarrow> unat (p_wait_ticks (proc s p)) = 199"
    and "unat (p_wait_ticks (proc s p) + 1) = unat (p_wait_ticks (proc s p)) + 1"
proof -
  have w: "unat (p_wait_ticks (proc s p)) < 200" using assms(4) by (simp add: sched_consts word_less_nat_alt)
  then show e: "unat (p_wait_ticks (proc s p) + 1) = unat (p_wait_ticks (proc s p)) + 1"
    by (subst unat_add_lt) simp_all
  have "p_priority (proc s p) = int n" using queues_wfD(3) [OF assms(1), of n p] assms(2,3) by simp
  then show "wants_boost s p \<longleftrightarrow> unat (p_wait_ticks (proc s p)) = 199"
    using e w assms(2) by (auto simp: wants_boost_def sched_consts process_consts word_le_nat_alt)
qed

lemma aging_from_zero: "aging_from n 0 s = Some s"
  by (simp add: aging_from.simps)

lemma aging_from_step:
  "p \<noteq> 0 \<Longrightarrow> aging_visit n p s = Some (p', s') \<Longrightarrow> aging_from n p s = aging_from n p' s'"
  by (simp add: aging_from.simps [of n p s])

lemma aging_effect_stay:
  assumes ih: "aging_effect n V (upd_proc y (\<lambda>b. b\<lparr>p_wait_ticks := p_wait_ticks b + 1\<rparr>) s) X s' X'"
    and y: "y \<in> set (X (Ready n))" "y \<notin> V"
    and w: "unat (p_wait_ticks (proc s y) + 1) = unat (p_wait_ticks (proc s y)) + 1"
  shows "aging_effect n (insert y V) s X s' X'"
  unfolding aging_effect_def
proof (intro conjI)
  let ?s = "upd_proc y (\<lambda>b. b\<lparr>p_wait_ticks := p_wait_ticks b + 1\<rparr>) s"
  show "aged s' s (set (X (Ready n)) \<union> set (X (Ready (Suc n))))"
  proof (rule aged_trans [OF _ aged_tick [OF y(1)]])
    show "aged s' ?s (set (X (Ready n)) \<union> set (X (Ready (Suc n))))" using ih by (simp add: aging_effect_def)
  qed auto
  show "\<forall>a. a \<notin> set (X (Ready n)) \<longrightarrow> pcb_core (proc s' a) = pcb_core (proc s a)"
    using ih y(1) by (auto simp: aging_effect_def)
  show "\<forall>a \<in> set (X (Ready n)). a \<in> set (X' (Ready (Suc n))) \<or> (a \<in> set (X' (Ready n)) \<and>
         unat (p_wait_ticks (proc s a)) + (if a \<in> insert y V then 1 else 0) \<le> unat (p_wait_ticks (proc s' a)))"
  proof
    fix a assume a: "a \<in> set (X (Ready n))"
    with ih have "a \<in> set (X' (Ready (Suc n))) \<or> (a \<in> set (X' (Ready n)) \<and>
        unat (p_wait_ticks (proc ?s a)) + (if a \<in> V then 1 else 0) \<le> unat (p_wait_ticks (proc s' a)))"
      unfolding aging_effect_def by blast
    then show "a \<in> set (X' (Ready (Suc n))) \<or> (a \<in> set (X' (Ready n)) \<and>
         unat (p_wait_ticks (proc s a)) + (if a \<in> insert y V then 1 else 0) \<le> unat (p_wait_ticks (proc s' a)))"
      using y(2) w by (cases "a = y") auto
  qed
qed (use ih in \<open>auto simp: aging_effect_def\<close>)

lemma aging_effect_promote:
  assumes ih: "aging_effect n V s1 (to_ready (Suc n) y (X(Ready n := zs))) s' X'"
    and X: "set (X (Ready n)) = insert y (set zs)" "y \<notin> set zs" "set zs \<subseteq> V"
    and s1: "core_step s1 s (upd_at y (\<lambda>b. b\<lparr>p_wait_ticks := 0, p_priority := k\<rparr>) (procs s))
        (set (X (Ready n)) \<union> set (X (Ready (Suc n))))"
  shows "aging_effect n W s X s' X'"
  unfolding aging_effect_def
proof (intro conjI)
  let ?X = "to_ready (Suc n) y (X(Ready n := zs))"
  note c = core_stepD [OF s1] core_step_fields [OF s1]
  have X1: "?X (Ready n) = zs" "?X (Ready (Suc n)) = X (Ready (Suc n)) @ [y]" by (simp_all add: to_ready_def)
  have core: "a \<notin> set zs \<Longrightarrow> pcb_core (proc s' a) = pcb_core (proc s1 a)" for a
    using ih X1 by (simp add: aging_effect_def)
  show "aged s' s (set (X (Ready n)) \<union> set (X (Ready (Suc n))))"
  proof (rule aged_trans [OF _ aged_core_step [OF s1]])
    show "aged s' s1 (set (?X (Ready n)) \<union> set (?X (Ready (Suc n))))" using ih by (simp add: aging_effect_def)
  qed (use X in \<open>auto simp: X1\<close>)
  show "\<forall>i. i \<noteq> Ready n \<longrightarrow> i \<noteq> Ready (Suc n) \<longrightarrow> X' i = X i"
    using ih by (simp add: aging_effect_def to_ready_def)
  show "set (X' (Ready n)) \<subseteq> set (X (Ready n))" using ih X by (auto simp: aging_effect_def X1)
  show "\<exists>us. X' (Ready (Suc n)) = X (Ready (Suc n)) @ us \<and> young s' us \<and> set us \<subseteq> set (X (Ready n))"
  proof -
    from ih obtain us where us: "X' (Ready (Suc n)) = (X (Ready (Suc n)) @ [y]) @ us" "young s' us" "set us \<subseteq> set zs"
      unfolding aging_effect_def X1 by blast
    have "p_wait_ticks (proc s' y) = 0" using wait_core [OF core [OF X(2)]] by (simp add: c)
    with us show ?thesis by (intro exI [of _ "y # us"]) (auto simp: young_def sched_consts X)
  qed
  show "\<forall>a. a \<notin> set (X (Ready n)) \<longrightarrow> pcb_core (proc s' a) = pcb_core (proc s a)"
    using X core by (auto simp: c)
  show "\<forall>a \<in> set (X (Ready n)). a \<in> set (X' (Ready (Suc n))) \<or> (a \<in> set (X' (Ready n)) \<and>
         unat (p_wait_ticks (proc s a)) + (if a \<in> W then 1 else 0) \<le> unat (p_wait_ticks (proc s' a)))"
  proof
    fix a assume a: "a \<in> set (X (Ready n))"
    show "a \<in> set (X' (Ready (Suc n))) \<or> (a \<in> set (X' (Ready n)) \<and>
         unat (p_wait_ticks (proc s a)) + (if a \<in> W then 1 else 0) \<le> unat (p_wait_ticks (proc s' a)))"
    proof (cases "a = y")
      case True
      from ih have "\<exists>us. X' (Ready (Suc n)) = (X (Ready (Suc n)) @ [y]) @ us" unfolding aging_effect_def X1 by blast
      with True show ?thesis by auto
    next
      case False
      with a X have "a \<in> set zs" "a \<in> V" by auto
      with ih have "a \<in> set (X' (Ready (Suc n))) \<or> (a \<in> set (X' (Ready n)) \<and>
          unat (p_wait_ticks (proc s1 a)) + 1 \<le> unat (p_wait_ticks (proc s' a)))"
        unfolding aging_effect_def X1 by (auto split: if_splits)
      with False show ?thesis by (auto simp: c)
    qed
  qed
qed (use ih in \<open>auto simp: aging_effect_def\<close>)

lemma aging_from_low:
  assumes "queues_wf s X" and "n < 2" and "X (Ready n) = xs @ ys" and "young s (X (Ready n))"
  shows "\<exists>s' X'. aging_from n (hd (ys @ [0])) s = Some s' \<and> aging_effect n (set ys) s X s' X'"
  using assms
proof (induction "length (xs @ ys) * (length (xs @ ys) + 1) + length ys" arbitrary: xs ys s X rule: less_induct)
  case less
  note wf = less.prems(1) and n = less.prems(2) and X = less.prems(3) and yg = less.prems(4)
  have v: "valid (Ready n)" using n by simp
  note q = sched_rep_queue [OF queues_wfD(1) [OF wf] v]
  show ?case
  proof (cases ys)
    case Nil
    have "aging_effect n (set ys) s X s X" using wf yg Nil by (simp add: aging_effect_def aged_refl young_def)
    with Nil show ?thesis by (auto simp: aging_from_zero)
  next
    case (Cons y zs)
    have y: "y \<in> set (X (Ready n))" using X Cons by simp
    have d: "distinct (xs @ y # zs)" using pq.rep_distinct [OF q] X Cons by simp
    have yz: "y \<noteq> 0" by (rule sched_rep_nonzero [OF queues_wfD(1) [OF wf] v y])
    have wy: "p_wait_ticks (proc s y) < AGING_THRESHOLD" using yg y by (simp add: young_def)
    note b = boost_iff [OF wf n y wy]
    show ?thesis
    proof (cases "wants_boost s y")
      case False
      let ?s = "upd_proc y (\<lambda>b. b\<lparr>p_wait_ticks := p_wait_ticks b + 1\<rparr>) s"
      have nx: "p_queue_next (proc s y) = hd (zs @ [0])" using queue_rep_nodes(1) [of _ _ xs y zs] q X Cons by simp
      have wf1: "queues_wf ?s X" by (rule queues_wf_keep [OF wf]) simp_all
      have "p_wait_ticks (proc s y) + 1 < AGING_THRESHOLD"
        using b False wy by (simp add: word_less_nat_alt sched_consts)
      then have yg1: "young ?s (X (Ready n))" using yg by (simp add: young_def)
      have "\<exists>s' X'. aging_from n (hd (zs @ [0])) ?s = Some s' \<and> aging_effect n (set zs) ?s X s' X'"
        by (rule less.hyps [of "xs @ [y]" zs, OF _ wf1 n _ yg1]) (use X Cons in simp_all)
      then obtain s' X' where "aging_from n (hd (zs @ [0])) ?s = Some s'" "aging_effect n (set zs) ?s X s' X'" by blast
      moreover from aging_from_step [OF yz aging_visit_stay [OF False, of n]] nx
      have "aging_from n (hd (ys @ [0])) s = aging_from n (hd (zs @ [0])) ?s" using Cons by simp
      ultimately show ?thesis
        using aging_effect_stay [of n "set zs" y s X s' X'] y d b(2) Cons by auto
    next
      case True
      from aging_visit_promote [OF wf n y True] obtain s1 where
        s1: "aging_visit n y s = Some (hd (remove1 y (X (Ready n)) @ [0]), s1)"
          "queues_wf s1 (to_ready (Suc n) y (X(Ready n := remove1 y (X (Ready n)))))"
          "core_step s1 s (upd_at y (\<lambda>b. b\<lparr>p_wait_ticks := 0, p_priority := int (Suc n)\<rparr>) (procs s))
            (set (X (Ready n)) \<union> set (X (Ready (Suc n))))" .
      have rm: "remove1 y (X (Ready n)) = xs @ zs" using X Cons d by (simp add: remove1_append)
      let ?X = "to_ready (Suc n) y (X(Ready n := xs @ zs))"
      have X1: "?X (Ready n) = [] @ (xs @ zs)" by (simp add: to_ready_def)
      have yg1: "young s1 (?X (Ready n))"
        using yg X Cons d by (auto simp: young_def X1 core_step_fields [OF s1(3)])
      have "\<exists>s' X'. aging_from n (hd ((xs @ zs) @ [0])) s1 = Some s' \<and> aging_effect n (set (xs @ zs)) s1 ?X s' X'"
        by (rule less.hyps [of "[]" "xs @ zs" s1 ?X, OF _ _ n X1 yg1]) (use s1(2) Cons in \<open>simp_all add: rm\<close>)
      then obtain s' X' where e: "aging_from n (hd ((xs @ zs) @ [0])) s1 = Some s'"
        "aging_effect n (set (xs @ zs)) s1 ?X s' X'" by blast
      have "aging_effect n (set ys) s X s' X'"
        by (rule aging_effect_promote [OF e(2) _ _ _ s1(3)]) (use X Cons d in auto)
      moreover from aging_from_step [OF yz s1(1)] have "aging_from n (hd (ys @ [0])) s = Some s'"
        using Cons e(1) by (simp add: rm)
      ultimately show ?thesis by blast
    qed
  qed
qed


lemma aging_from_high:
  assumes "queues_wf s X" and "X (Ready 2) = xs @ ys"
  shows "\<exists>s'. aging_from 2 (hd (ys @ [0])) s = Some s' \<and> queues_wf s' X \<and> aged s' s (set (X (Ready 2)))"
  using assms
proof (induction ys arbitrary: xs s)
  case Nil
  then show ?case by (simp add: aging_from_zero aged_refl)
next
  case (Cons y ys)
  note wf = Cons.prems(1)
  let ?s = "upd_proc y (\<lambda>b. b\<lparr>p_wait_ticks := p_wait_ticks b + 1\<rparr>) s"
  have v: "valid (Ready 2)" by simp
  have y: "y \<in> set (X (Ready 2))" using Cons.prems(2) by simp
  have yz: "y \<noteq> 0" by (rule sched_rep_nonzero [OF queues_wfD(1) [OF wf] v y])
  have nb: "\<not> wants_boost s y" using queues_wfD(3) [OF wf _ y] by (simp add: wants_boost_def process_consts)
  have nx: "p_queue_next (proc s y) = hd (ys @ [0])"
    using queue_rep_nodes(1) [of _ _ xs y ys] sched_rep_queue [OF queues_wfD(1) [OF wf] v] Cons.prems(2) by simp
  have wf1: "queues_wf ?s X" by (rule queues_wf_keep [OF wf]) simp_all
  from Cons.IH [OF wf1, of "xs @ [y]"] Cons.prems(2) obtain s' where
    s': "aging_from 2 (hd (ys @ [0])) ?s = Some s'" "queues_wf s' X" "aged s' ?s (set (X (Ready 2)))" by auto
  from aging_from_step [OF yz aging_visit_stay [OF nb, of 2]] nx s'(1)
  have "aging_from 2 (hd ((y # ys) @ [0])) s = Some s'" by simp
  with s'(2) aged_trans [OF s'(3) aged_tick [OF y, of s]] show ?case by blast
qed

definition aging_ok :: "'a sched_scheme \<Rightarrow> (qid \<Rightarrow> ptr list) \<Rightarrow> bool" where
  "aging_ok s X \<longleftrightarrow> young s (X (Ready 0)) \<and> young s (X (Ready 1))"

text \<open>What a process gained: a higher queue, or a longer waiting time in the same one.\<close>

definition advanced :: "nat \<Rightarrow> ptr \<Rightarrow> 'a sched_scheme \<Rightarrow> 'a sched_scheme \<Rightarrow> (qid \<Rightarrow> ptr list) \<Rightarrow> bool" where
  "advanced n p s s' X' \<longleftrightarrow> (\<exists>m. n < m \<and> m < 3 \<and> p \<in> set (X' (Ready m))) \<or>
     (p \<in> set (X' (Ready n)) \<and> unat (p_wait_ticks (proc s p)) < unat (p_wait_ticks (proc s' p)))"

lemma aging_effectD:
  assumes "aging_effect n V s X s' X'"
  shows "queues_wf s' X'" "young s' (X' (Ready n))" "aged s' s (set (X (Ready n)) \<union> set (X (Ready (Suc n))))"
    "i \<noteq> Ready n \<Longrightarrow> i \<noteq> Ready (Suc n) \<Longrightarrow> X' i = X i"
    "\<exists>zs. X' (Ready (Suc n)) = X (Ready (Suc n)) @ zs \<and> young s' zs \<and> set zs \<subseteq> set (X (Ready n))"
    "set (X' (Ready n)) \<subseteq> set (X (Ready n))"
    "a \<notin> set (X (Ready n)) \<Longrightarrow> pcb_core (proc s' a) = pcb_core (proc s a)"
    "a \<in> set (X (Ready n)) \<Longrightarrow> a \<in> V \<Longrightarrow> a \<in> set (X' (Ready (Suc n))) \<or>
       (a \<in> set (X' (Ready n)) \<and> unat (p_wait_ticks (proc s a)) < unat (p_wait_ticks (proc s' a)))"
  using assms by (auto simp: aging_effect_def split: if_splits)

lemma apply_aging_wf:
  assumes wf: "queues_wf s X" and ok: "aging_ok s X"
  obtains s' X' where "apply_aging s = Some s'" and "queues_wf s' X'" and "aging_ok s' X'"
    and "aged s' s (set (X (Ready 0)) \<union> set (X (Ready 1)) \<union> set (X (Ready 2)))"
    and "X' Blocked_q = X Blocked_q" "X' Finished_q = X Finished_q"
    and "\<And>n p. n < 2 \<Longrightarrow> p \<in> set (X (Ready n)) \<Longrightarrow> advanced n p s s' X'"
    and "set (X' (Ready 0)) \<union> set (X' (Ready 1)) \<union> set (X' (Ready 2)) =
         set (X (Ready 0)) \<union> set (X (Ready 1)) \<union> set (X (Ready 2))"
proof -
  note dis = sched_rep_disjoint [of _ _ "Ready _" "Ready _"]
  have head: "q_head (queue_of t (Ready n)) = hd (Y (Ready n) @ [0])" if "queues_wf t Y" "n < 3" for t :: "'a sched_scheme" and Y n
    using sched_rep_queue [OF queues_wfD(1) [OF that(1)], of "Ready n"] that(2) by (simp add: queue_rep_def)
  have y0: "young s (X (Ready 0))" and y1: "young s (X (Ready 1))" using ok by (simp_all add: aging_ok_def)
  from aging_from_low [OF wf, of 0 "[]" "X (Ready 0)"] y0 obtain s1 X1 where
    a1: "aging_from 0 (hd (X (Ready 0) @ [0])) s = Some s1" and e1: "aging_effect 0 (set (X (Ready 0))) s X s1 X1" by auto
  note E1 = aging_effectD [OF e1]
  from E1(5) obtain z1 where z1: "X1 (Ready 1) = X (Ready 1) @ z1" "young s1 z1" "set z1 \<subseteq> set (X (Ready 0))" by auto
  have w1: "p_wait_ticks (proc s1 p) = p_wait_ticks (proc s p)" if "p \<in> set (X (Ready 1))" for p
  proof -
    have "p \<notin> set (X (Ready 0))" using dis [OF queues_wfD(1) [OF wf], of 1 0 p] that by auto
    from wait_core [OF E1(7) [OF this]] show ?thesis .
  qed
  have yg1: "young s1 (X1 (Ready 1))" using z1 y1 w1 by (auto simp: young_def)
  from aging_from_low [OF E1(1), of 1 "[]" "X1 (Ready 1)"] yg1 obtain s2 X2 where
    a2: "aging_from 1 (hd (X1 (Ready 1) @ [0])) s1 = Some s2" and e2: "aging_effect 1 (set (X1 (Ready 1))) s1 X1 s2 X2" by auto
  note E2 = aging_effectD [OF e2]
  from E2(5) obtain z2 where z2: "X2 (Ready 2) = X1 (Ready 2) @ z2" "set z2 \<subseteq> set (X1 (Ready 1))"
    by (auto simp: numeral_2_eq_2)
  from aging_from_high [OF E2(1), of "[]" "X2 (Ready 2)"] obtain s3 where
    a3: "aging_from 2 (hd (X2 (Ready 2) @ [0])) s2 = Some s3" "queues_wf s3 X2" "aged s3 s2 (set (X2 (Ready 2)))" by auto
  have X20: "X2 (Ready 0) = X1 (Ready 0)" and X12: "X1 (Ready 2) = X (Ready 2)" by (rule E2(4) E1(4); simp)+
  have w3: "p_wait_ticks (proc s3 p) = p_wait_ticks (proc s2 p)" if "p \<in> set (X2 (Ready n))" "n < 2" for n p
  proof -
    have "p \<notin> set (X2 (Ready 2))" using dis [OF queues_wfD(1) [OF E2(1)], of n 2 p] that by auto
    then show ?thesis using agedD(10) [OF a3(3), of p] by simp
  qed
  have w2: "p_wait_ticks (proc s2 p) = p_wait_ticks (proc s1 p)" if "p \<in> set (X1 (Ready 0))" for p
  proof -
    have "p \<notin> set (X1 (Ready 1))" using dis [OF queues_wfD(1) [OF E1(1)], of 0 1 p] that by auto
    from wait_core [OF E2(7) [OF this]] show ?thesis .
  qed
  have res: "apply_aging s = Some s3"
    using a1 a2 a3(1) head [OF wf, of 0] head [OF E1(1), of 1] head [OF E2(1), of 2]
    by (simp add: apply_aging_def priorities_up_def)
  have ok3: "aging_ok s3 X2"
    unfolding aging_ok_def using E1(2) E2(2) w3 [of _ 0] w3 [of _ 1] w2 by (simp add: young_def X20)
  let ?R = "set (X (Ready 0)) \<union> set (X (Ready 1)) \<union> set (X (Ready 2))"
  have sub: "set (X1 (Ready 1)) \<subseteq> ?R" "set (X2 (Ready 2)) \<subseteq> ?R" using z1 z2 X12 by auto
  have ag: "aged s3 s ?R"
  proof (rule aged_trans [OF a3(3)])
    show "aged s2 s ?R" by (rule aged_trans [OF E2(3) E1(3)]) (use sub X12 in \<open>auto simp: numeral_2_eq_2\<close>)
  qed (use sub in auto)
  have adv: "advanced n p s s3 X2" if n: "n < 2" and p: "p \<in> set (X (Ready n))" for n p
  proof -
    have up: "(\<exists>m. k < m \<and> m < 3 \<and> p \<in> set (X2 (Ready m))) \<or> p \<in> set (X2 (Ready 1)) \<and>
        unat (p_wait_ticks (proc s1 p)) < unat (p_wait_ticks (proc s3 p))" if "p \<in> set (X1 (Ready 1))" "k < 2" for k
      using E2(8) [OF that(1) that(1)] w3 [of p 1] that(2) by (auto simp: numeral_2_eq_2)
    consider "n = 0" | "n = 1" using n by arith
    then show ?thesis
    proof cases
      case 1
      from E1(8) [of p] p 1 have "p \<in> set (X1 (Ready 1)) \<or>
        p \<in> set (X1 (Ready 0)) \<and> unat (p_wait_ticks (proc s p)) < unat (p_wait_ticks (proc s1 p))" by simp
      then show ?thesis
      proof
        assume "p \<in> set (X1 (Ready 1))"
        from up [OF this, of 0] 1 show ?thesis by (auto simp: advanced_def)
      next
        assume "p \<in> set (X1 (Ready 0)) \<and> unat (p_wait_ticks (proc s p)) < unat (p_wait_ticks (proc s1 p))"
        with w2 [of p] w3 [of p 0] 1 show ?thesis by (simp add: advanced_def X20)
      qed
    next
      case 2
      with p z1 have "p \<in> set (X1 (Ready 1))" by simp
      from up [OF this, of 1] w1 [of p] p 2 show ?thesis by (auto simp: advanced_def)
    qed
  qed
  have "set (X2 (Ready 0)) \<union> set (X2 (Ready 1)) \<union> set (X2 (Ready 2)) = ?R"
  proof -
    have "?R \<subseteq> set (X2 (Ready 0)) \<union> set (X2 (Ready 1)) \<union> set (X2 (Ready 2))"
      using E1(8) E2(8) z1 z2 X20 X12 by (auto simp: numeral_2_eq_2)
    moreover have "set (X2 (Ready 0)) \<union> set (X2 (Ready 1)) \<union> set (X2 (Ready 2)) \<subseteq> ?R"
      using E1(6) E2(6) sub X20 by auto
    ultimately show ?thesis by blast
  qed
  moreover have "X2 Blocked_q = X Blocked_q" "X2 Finished_q = X Finished_q" using E2(4) E1(4) by auto
  ultimately show thesis using that [OF res a3(2) ok3 ag _ _ adv] by blast
qed

end
