(* ===== verification/Semaphore.thy ===== *)
theory Semaphore
  imports Sched_Core
begin

text \<open>
  The kernel semaphores of \<open>Kernel/ipc/semaphore.c\<close>.  A pointer to a semaphore is its index in the
  static table.  The waiting processes form a singly linked list through \<open>sem_waiter_next\<close>.

  System calls run with interrupts off, so another process runs only where the code executes
  \<open>callTimerTick\<close>.  A call that reaches that point gives \<open>KYield\<close> with the state there and
  what the rest of the call needs, which runs when the process is scheduled again.  \<open>acquire\<close> spins while the byte is set, and no one
  can clear it meanwhile: the result is \<open>None\<close>, as for every loop that does not end.
\<close>

section \<open>State\<close>

record semaphore =
  sem_id :: u64
  sem_value :: int
  sem_refcount :: int
  sem_lock :: u8
  wait_head :: ptr
  wait_tail :: ptr
  sem_used :: bool

record sems = sched +
  semaphores :: "semaphore list"
  next_sem_id :: u64

datatype ('a, 'k, 's) kres = KRet 'a 's | KYield 'k 's

definition MAX_SEMAPHORES :: nat where "MAX_SEMAPHORES = 64"

definition upd_sem :: "nat \<Rightarrow> (semaphore \<Rightarrow> semaphore) \<Rightarrow> 'a sems_scheme \<Rightarrow> 'a sems_scheme" where
  "upd_sem i f s = s\<lparr>semaphores := (semaphores s)[i := f (semaphores s ! i)]\<rparr>"

abbreviation sem :: "'a sems_scheme \<Rightarrow> nat \<Rightarrow> semaphore" where
  "sem s i \<equiv> semaphores s ! i"

section \<open>Spin lock\<close>

definition acquire :: "nat \<Rightarrow> 'a sems_scheme \<Rightarrow> 'a sems_scheme option" where
  "acquire i s = (if sem_lock (sem s i) = 0 then Some (upd_sem i (sem_lock_update (\<lambda>_. 1)) s) else None)"

definition release :: "nat \<Rightarrow> 'a sems_scheme \<Rightarrow> 'a sems_scheme" where
  "release i s = upd_sem i (sem_lock_update (\<lambda>_. 0)) s"

section \<open>Table\<close>

definition find_slot_by_id :: "u64 \<Rightarrow> 'a sems_scheme \<Rightarrow> nat option" where
  "find_slot_by_id sid s = find (\<lambda>i. sem_used (sem s i) \<and> sem_id (sem s i) = sid) [0..<MAX_SEMAPHORES]"

definition sem_get_by_id :: "u64 \<Rightarrow> 'a sems_scheme \<Rightarrow> nat option" where
  "sem_get_by_id sid s = (if sid = 0 then None else find_slot_by_id sid s)"

definition sem_alloc :: "int \<Rightarrow> 'a sems_scheme \<Rightarrow> u64 \<times> 'a sems_scheme" where
  "sem_alloc initial_value s =
     (case find (\<lambda>i. \<not> sem_used (sem s i)) [0..<MAX_SEMAPHORES] of
        None \<Rightarrow> (0, s)
      | Some i \<Rightarrow>
          (next_sem_id s,
           upd_sem i (\<lambda>_. \<lparr>sem_id = next_sem_id s, sem_value = initial_value, sem_refcount = 1, sem_lock = 0,
             wait_head = NULL, wait_tail = NULL, sem_used = True\<rparr>) (s\<lparr>next_sem_id := next_sem_id s + 1\<rparr>)))"

definition sem_open_by_id :: "u64 \<Rightarrow> 'a sems_scheme \<Rightarrow> (int \<times> 'a sems_scheme) option" where
  "sem_open_by_id sid s =
     (case sem_get_by_id sid s of
        None \<Rightarrow> Some (0, s)
      | Some i \<Rightarrow> do {
          s1 \<leftarrow> acquire i s;
          Some (1, release i (upd_sem i (\<lambda>m. m\<lparr>sem_refcount := sem_refcount m + 1\<rparr>) s1))
        })"

definition sem_close_by_id :: "u64 \<Rightarrow> 'a sems_scheme \<Rightarrow> (int \<times> 'a sems_scheme) option" where
  "sem_close_by_id sid s =
     (case sem_get_by_id sid s of
        None \<Rightarrow> Some (0, s)
      | Some i \<Rightarrow> do {
          s1 \<leftarrow> acquire i s;
          let s2 = upd_sem i (\<lambda>m. m\<lparr>sem_refcount := sem_refcount m - 1\<rparr>) s1;
          let ref = sem_refcount (sem s2 i);
          let s3 = release i s2;
          if ref \<le> 0
          then do {
            s4 \<leftarrow> acquire i s3;
            Some (1, release i (upd_sem i (\<lambda>m. m\<lparr>sem_used := False, wait_head := NULL, wait_tail := NULL\<rparr>) s4))
          }
          else Some (1, s3)
        })"

section \<open>Waiting list\<close>

definition enqueue_waiter :: "nat \<Rightarrow> ptr \<Rightarrow> 'a sems_scheme \<Rightarrow> 'a sems_scheme" where
  "enqueue_waiter i p s =
     (let s1 = upd_proc p (p_sem_waiter_next_update (\<lambda>_. NULL)) s
      in if wait_head (sem s1 i) = NULL
         then upd_sem i (\<lambda>m. m\<lparr>wait_head := p, wait_tail := p\<rparr>) s1
         else upd_sem i (wait_tail_update (\<lambda>_. p))
                (upd_proc (wait_tail (sem s1 i)) (p_sem_waiter_next_update (\<lambda>_. p)) s1))"

definition dequeue_waiter :: "nat \<Rightarrow> 'a sems_scheme \<Rightarrow> ptr \<times> 'a sems_scheme" where
  "dequeue_waiter i s =
     (let p = wait_head (sem s i)
      in if p = NULL then (NULL, s)
         else
           let s1 = upd_sem i (wait_head_update (\<lambda>_. p_sem_waiter_next (proc s p))) s;
               s2 = (if wait_head (sem s1 i) = NULL then upd_sem i (wait_tail_update (\<lambda>_. NULL)) s1 else s1)
           in (p, upd_proc p (p_sem_waiter_next_update (\<lambda>_. NULL)) s2))"

section \<open>Operations\<close>

definition sem_wait_by_id :: "u64 \<Rightarrow> 'a sems_scheme \<Rightarrow> (int, unit, 'a sems_scheme) kres option" where
  "sem_wait_by_id sid s =
     (case sem_get_by_id sid s of
        None \<Rightarrow> Some (KRet 0 s)
      | Some i \<Rightarrow>
          let me = scheduler_current_process s
          in if me = NULL then Some (KRet 0 s)
             else do {
               s1 \<leftarrow> acquire i s;
               if sem_value (sem s1 i) > 0
               then Some (KRet 1 (release i (upd_sem i (\<lambda>m. m\<lparr>sem_value := sem_value m - 1\<rparr>) s1)))
               else
                 let s2 = upd_proc me (p_waiting_on_sem_update (\<lambda>_. sem_id (sem s1 i))) s1;
                     s3 = release i (enqueue_waiter i me s2);
                     (ticked, s4) = scheduler_yield_current (scheduler_block_current s3)
                 in Some (if ticked then KYield () s4 else KRet 1 s4)
             })"

definition wake_waiter :: "ptr \<Rightarrow> 'a sems_scheme \<Rightarrow> 'a sems_scheme option" where
  "wake_waiter w s = scheduler_unblock_process w (upd_proc w (p_waiting_on_sem_update (\<lambda>_. 0)) s)"

definition sem_signal_by_id :: "u64 \<Rightarrow> 'a sems_scheme \<Rightarrow> (int \<times> 'a sems_scheme) option" where
  "sem_signal_by_id sid s =
     (case sem_get_by_id sid s of
        None \<Rightarrow> Some (0, s)
      | Some i \<Rightarrow> do {
          s1 \<leftarrow> acquire i s;
          let (w, s2) = dequeue_waiter i s1;
          s3 \<leftarrow> (if w \<noteq> NULL then wake_waiter w s2
                else Some (upd_sem i (\<lambda>m. m\<lparr>sem_value := sem_value m + 1\<rparr>) s2));
          Some (1, release i s3)
        })"

text \<open>The loop of \<open>sem_set_by_id\<close> with the number of processes it may still wake; it gives how many
  of those it did not.\<close>

fun sem_wake_upto :: "nat \<Rightarrow> nat \<Rightarrow> 'a sems_scheme \<Rightarrow> (nat \<times> 'a sems_scheme) option" where
  "sem_wake_upto i 0 s = Some (0, s)"
| "sem_wake_upto i (Suc n) s =
     (let (w, s1) = dequeue_waiter i s
      in if w = NULL then Some (Suc n, s1)
         else do { s2 \<leftarrow> wake_waiter w s1; sem_wake_upto i n s2 })"

definition sem_set_by_id :: "u64 \<Rightarrow> int \<Rightarrow> 'a sems_scheme \<Rightarrow> (int \<times> 'a sems_scheme) option" where
  "sem_set_by_id sid newval s =
     (case sem_get_by_id sid s of
        None \<Rightarrow> Some (0, s)
      | Some i \<Rightarrow>
          if newval < 0 then Some (0, s)
          else do {
            s1 \<leftarrow> acquire i s;
            (left, s2) \<leftarrow> sem_wake_upto i (nat newval) s1;
            Some (1, release i (upd_sem i (sem_value_update (\<lambda>_. int left)) s2))
          })"

definition sem_get_value_by_id :: "u64 \<Rightarrow> 'a sems_scheme \<Rightarrow> (int option \<times> 'a sems_scheme) option" where
  "sem_get_value_by_id sid s =
     (case sem_get_by_id sid s of
        None \<Rightarrow> Some (None, s)
      | Some i \<Rightarrow> do { s1 \<leftarrow> acquire i s; Some (Some (sem_value (sem s1 i)), release i s1) })"

end
