(* ===== verification/Keyboard.thy ===== *)
theory Keyboard
  imports Semaphore
begin

text \<open>
  The keyboard driver of \<open>Kernel/drivers/keyBoardDriver.c\<close> below the process killer: the modifier
  flags, the translation of scan codes, the ring buffer of characters and the semaphore that readers
  wait on.  The interrupt handler itself, which may kill the foreground process, is in
  \<open>Kernel_Sched\<close>.
\<close>

section \<open>State\<close>

record circle_buffer =
  cb_buffer :: "char list"
  cb_readIndex :: nat
  cb_writeIndex :: nat
  cb_size :: nat

record kbd = sems +
  activeShift :: u8
  activeCapsLock :: u8
  activeCtrl :: u8
  key_states :: "u8 list"
  kb_buffer :: circle_buffer
  kbd_sem_id :: u64

definition ESC :: u8 where "ESC = 0x1B"
definition SHIFT_L :: u8 where "SHIFT_L = 0x2A"
definition SHIFT_R :: u8 where "SHIFT_R = 0x36"
definition CTRL_L :: u8 where "CTRL_L = 0x1D"
definition CTRL_L_RELEASE :: u8 where "CTRL_L_RELEASE = 0x9D"
definition CAPSLOCK :: u8 where "CAPSLOCK = 0x3A"
definition RELEASE_OFFSET :: u8 where "RELEASE_OFFSET = 0x80"
definition KEY_COUNT :: u8 where "KEY_COUNT = 0x54"
definition BUFFER_SIZE :: nat where "BUFFER_SIZE = 256"
definition SC_DELETE :: u8 where "SC_DELETE = 0x53"
definition SC_UP :: u8 where "SC_UP = 0x48"
definition SC_DOWN :: u8 where "SC_DOWN = 0x50"
definition SC_LEFT :: u8 where "SC_LEFT = 0x4B"
definition SC_RIGHT :: u8 where "SC_RIGHT = 0x4D"

lemmas kbd_consts = ESC_def SHIFT_L_def SHIFT_R_def CTRL_L_def CTRL_L_RELEASE_def CAPSLOCK_def
  RELEASE_OFFSET_def KEY_COUNT_def BUFFER_SIZE_def SC_DELETE_def SC_UP_def SC_DOWN_def SC_LEFT_def SC_RIGHT_def

text \<open>The rows of the table that have an initialiser, in order; the rest of the \<open>KEY_COUNT\<close> rows are
  zero.\<close>

definition scancode_rows :: "(char \<times> char) list" where
  "scancode_rows =
     [(NUL, NUL), (CHR 0x1B, CHR 0x1B)]
     @ zip ''1234567890-='' ''!@#$%^&*()_+''
     @ [(CHR 0x08, CHR 0x08), (CHR 0x09, CHR 0x09)]
     @ zip ''qwertyuiop[]'' ''QWERTYUIOP{}''
     @ [(CHR 0x0A, CHR 0x0A), (NUL, NUL)]
     @ zip ''asdfghjkl;'' ''ASDFGHJKL:''
     @ [(CHR 0x27, CHR 0x22), (CHR ''|'', CHR ''|''), (NUL, NUL), (CHR 0x5C, CHR 0x5C)]
     @ zip ''zxcvbnm,./'' ''ZXCVBNM<>?''
     @ [(NUL, NUL), (NUL, NUL), (NUL, NUL), (CHR '' '', CHR '' '')]"

definition scancode_table :: "nat \<Rightarrow> char \<times> char" where
  "scancode_table i = (if i < length scancode_rows then scancode_rows ! i else (NUL, NUL))"

section \<open>Ring buffer\<close>

definition buffer_full :: "circle_buffer \<Rightarrow> bool" where
  "buffer_full b \<longleftrightarrow> cb_size b = BUFFER_SIZE"

definition buffer_empty :: "circle_buffer \<Rightarrow> bool" where
  "buffer_empty b \<longleftrightarrow> cb_size b = 0"

definition buffer_push :: "char \<Rightarrow> circle_buffer \<Rightarrow> bool \<times> circle_buffer" where
  "buffer_push c b =
     (if buffer_full b then (False, b)
      else (True, b\<lparr>cb_buffer := (cb_buffer b)[cb_writeIndex b := c],
                    cb_writeIndex := (cb_writeIndex b + 1) mod BUFFER_SIZE, cb_size := cb_size b + 1\<rparr>))"

definition buffer_pop :: "circle_buffer \<Rightarrow> char \<times> circle_buffer" where
  "buffer_pop b =
     (if buffer_empty b then (NUL, b)
      else (cb_buffer b ! cb_readIndex b,
            b\<lparr>cb_readIndex := (cb_readIndex b + 1) mod BUFFER_SIZE, cb_size := cb_size b - 1\<rparr>))"

definition buffer_clear :: "circle_buffer \<Rightarrow> circle_buffer" where
  "buffer_clear b = b\<lparr>cb_readIndex := 0, cb_writeIndex := 0, cb_size := 0\<rparr>"

section \<open>Scan codes\<close>

definition updateFlags :: "u8 \<Rightarrow> 'a kbd_scheme \<Rightarrow> 'a kbd_scheme" where
  "updateFlags scancode s =
     (if scancode = CTRL_L then s\<lparr>activeCtrl := 1\<rparr>
      else if scancode = CTRL_L_RELEASE then s\<lparr>activeCtrl := 0\<rparr>
      else if scancode = SHIFT_L \<or> scancode = SHIFT_R then s\<lparr>activeShift := 1\<rparr>
      else if scancode = SHIFT_L + RELEASE_OFFSET \<or> scancode = SHIFT_R + RELEASE_OFFSET then s\<lparr>activeShift := 0\<rparr>
      else if scancode = CAPSLOCK then s\<lparr>activeCapsLock := (if activeCapsLock s = 0 then 1 else 0)\<rparr>
      else s)"

definition scToAscii :: "u8 \<Rightarrow> 'a kbd_scheme \<Rightarrow> char" where
  "scToAscii scancode s =
     (if scancode \<in> {1, SC_UP, SC_DOWN, SC_LEFT, SC_RIGHT, ESC, SC_DELETE} then NUL
      else if scancode < KEY_COUNT
      then let row = scancode_table (unat scancode);
               c = (if activeShift s = 0 then fst row else snd row)
           in if activeCapsLock s \<noteq> 0 \<and> 97 \<le> (of_char c :: nat) \<and> of_char c \<le> (122 :: nat)
              then char_of (of_char c - 32 :: nat) else c
      else NUL)"

definition update_key_states :: "u8 \<Rightarrow> u8 list \<Rightarrow> u8 list" where
  "update_key_states scancode ks =
     (if scancode AND RELEASE_OFFSET \<noteq> 0 then ks[unat (scancode AND NOT RELEASE_OFFSET) := 0]
      else ks[unat scancode := 1])"

definition is_key_pressed :: "u8 \<Rightarrow> 'a kbd_scheme \<Rightarrow> u8" where
  "is_key_pressed scancode s = key_states s ! unat scancode"

section \<open>Readers\<close>

definition keyboard_read_getchar :: "'a kbd_scheme \<Rightarrow> char \<times> 'a kbd_scheme" where
  "keyboard_read_getchar s = (let (c, b) = buffer_pop (kb_buffer s) in (c, s\<lparr>kb_buffer := b\<rparr>))"

definition keyboard_init :: "'a kbd_scheme \<Rightarrow> 'a kbd_scheme" where
  "keyboard_init s =
     (if kbd_sem_id s = 0
      then let (sid, s1) = sem_alloc 0 s in s1\<lparr>kbd_sem_id := sid\<rparr>
      else s)"

text \<open>The loop of \<open>keyboard_wait_for_char\<close>.  A process that yielded in it continues with the same
  loop.\<close>

partial_function (option) keyboard_wait_for_char :: "'a kbd_scheme \<Rightarrow> (unit, unit, 'a kbd_scheme) kres option" where
  "keyboard_wait_for_char s =
     (if \<not> buffer_empty (kb_buffer s) then Some (KRet () s)
      else if kbd_sem_id s = 0 then keyboard_wait_for_char s
      else do {
        r \<leftarrow> sem_wait_by_id (kbd_sem_id s) s;
        case r of KRet _ s1 \<Rightarrow> keyboard_wait_for_char s1 | KYield _ s1 \<Rightarrow> Some (KYield () s1)
      })"

declare keyboard_wait_for_char.simps [code]

definition keyboard_clear_buffer :: "'a kbd_scheme \<Rightarrow> 'a kbd_scheme option" where
  "keyboard_clear_buffer s =
     (let s1 = s\<lparr>kb_buffer := buffer_clear (kb_buffer s)\<rparr>
      in if kbd_sem_id s1 \<noteq> 0 then map_option snd (sem_set_by_id (kbd_sem_id s1) 0 s1) else Some s1)"

text \<open>Storing a typed character and waking a reader, as both branches of the interrupt handler do.\<close>

definition keyboard_store :: "char \<Rightarrow> 'a kbd_scheme \<Rightarrow> 'a kbd_scheme option" where
  "keyboard_store c s =
     (let (stored, b) = buffer_push c (kb_buffer s);
          s1 = s\<lparr>kb_buffer := b\<rparr>
      in if stored \<and> kbd_sem_id s1 \<noteq> 0 then map_option snd (sem_signal_by_id (kbd_sem_id s1) s1) else Some s1)"

end
