(* ===== verification/Pipe.thy ===== *)
theory Pipe
  imports Keyboard
begin

text \<open>
  Pipes (\<open>Kernel/ipc/pipe.c\<close>): a table of ring buffers of 4096 bytes, each with a mutex and two
  semaphores on which readers of an empty pipe and writers of a full one wait.  A pointer to a pipe is
  its index in the table.

  \<open>pipe_read\<close> and \<open>pipe_write\<close> may yield in the wait for data or for room; they then give the bytes
  moved so far, and the same loop continues from there when the process is scheduled again.  A wait
  for a mutex that would yield gives \<open>None\<close>: no process yields while it holds the mutex of a pipe, so
  that the mutexes are free whenever an operation starts, which the invariant of \<open>Pipe_Inv\<close> states
  and its lemmas prove.
\<close>

section \<open>State\<close>

definition MAX_PIPES :: nat where "MAX_PIPES = 64"
definition PIPE_BUFFER_SIZE :: nat where "PIPE_BUFFER_SIZE = 4096"

record pipe =
  pipe_id :: u64
  pipe_buffer :: "char list"
  read_pos :: nat
  write_pos :: nat
  pipe_count :: nat
  readers :: int
  writers :: int
  sem_items :: u64
  sem_spaces :: u64
  pipe_mutex :: u64
  pipe_used :: bool

record pipes = kbd +
  pipes :: "pipe list"
  next_pipe_id :: u64

abbreviation pip :: "'a pipes_scheme \<Rightarrow> nat \<Rightarrow> pipe" where
  "pip s i \<equiv> pipes s ! i"

definition upd_pipe :: "nat \<Rightarrow> (pipe \<Rightarrow> pipe) \<Rightarrow> 'a pipes_scheme \<Rightarrow> 'a pipes_scheme" where
  "upd_pipe i f s = s\<lparr>pipes := (pipes s)[i := f (pipes s ! i)]\<rparr>"

section \<open>Table\<close>

definition pipe_system_init :: "'a pipes_scheme \<Rightarrow> 'a pipes_scheme" where
  "pipe_system_init s =
     s\<lparr>pipes := map (\<lambda>p. p\<lparr>pipe_used := False, pipe_id := 0, read_pos := 0, write_pos := 0, pipe_count := 0,
         readers := 0, writers := 0, sem_items := 0, sem_spaces := 0, pipe_mutex := 0\<rparr>) (pipes s),
       next_pipe_id := 1\<rparr>"

definition find_pipe_by_id :: "u64 \<Rightarrow> 'a pipes_scheme \<Rightarrow> nat option" where
  "find_pipe_by_id pid s = find (\<lambda>i. pipe_used (pip s i) \<and> pipe_id (pip s i) = pid) [0..<MAX_PIPES]"

definition pipe_get_by_id :: "u64 \<Rightarrow> 'a pipes_scheme \<Rightarrow> nat option" where
  "pipe_get_by_id pid s = (if pid = 0 then None else find_pipe_by_id pid s)"

definition pipe_get_id :: "nat option \<Rightarrow> 'a pipes_scheme \<Rightarrow> u64" where
  "pipe_get_id p s = (case p of None \<Rightarrow> 0 | Some i \<Rightarrow> pipe_id (pip s i))"

text \<open>\<open>memset (p, 0, sizeof (pipe_t))\<close>.\<close>

definition zero_pipe :: pipe where
  "zero_pipe = \<lparr>pipe_id = 0, pipe_buffer = replicate PIPE_BUFFER_SIZE NUL, read_pos = 0, write_pos = 0,
     pipe_count = 0, readers = 0, writers = 0, sem_items = 0, sem_spaces = 0, pipe_mutex = 0, pipe_used = False\<rparr>"

definition pipe_create :: "'a pipes_scheme \<Rightarrow> (u64 \<times> 'a pipes_scheme) option" where
  "pipe_create s =
     (case find (\<lambda>i. \<not> pipe_used (pip s i)) [0..<MAX_PIPES] of
        None \<Rightarrow> Some (0, s)
      | Some i \<Rightarrow>
          let s1 = upd_pipe i (\<lambda>_. zero_pipe) s;
              (items, s2) = sem_alloc 0 s1;
              s3 = upd_pipe i (sem_items_update (\<lambda>_. items)) s2
          in if items = 0 then Some (0, s3)
             else
               let (spaces, s4) = sem_alloc (int PIPE_BUFFER_SIZE) s3;
                   s5 = upd_pipe i (sem_spaces_update (\<lambda>_. spaces)) s4
               in if spaces = 0
                  then do { (_, s6) \<leftarrow> sem_close_by_id items s5; Some (0, s6) }
                  else
                    let (mutex, s6) = sem_alloc 1 s5;
                        s7 = upd_pipe i (pipe_mutex_update (\<lambda>_. mutex)) s6
                    in if mutex = 0
                       then do {
                         (_, s8) \<leftarrow> sem_close_by_id items s7;
                         (_, s9) \<leftarrow> sem_close_by_id spaces s8;
                         Some (0, s9)
                       }
                       else
                         let s8 = upd_pipe i (\<lambda>p. p\<lparr>pipe_id := next_pipe_id s7, read_pos := 0, write_pos := 0,
                               pipe_count := 0, readers := 0, writers := 0, pipe_used := True\<rparr>) s7
                         in Some (next_pipe_id s7, s8\<lparr>next_pipe_id := next_pipe_id s7 + 1\<rparr>))"

section \<open>Opening and closing\<close>

definition mutex_wait :: "u64 \<Rightarrow> 'a pipes_scheme \<Rightarrow> (int \<times> 'a pipes_scheme) option" where
  "mutex_wait sid s =
     do {
       r \<leftarrow> sem_wait_by_id sid s;
       case r of KRet v s1 \<Rightarrow> Some (v, s1) | KYield _ _ \<Rightarrow> None
     }"

definition signal :: "u64 \<Rightarrow> 'a pipes_scheme \<Rightarrow> 'a pipes_scheme option" where
  "signal sid s = map_option snd (sem_signal_by_id sid s)"

definition pipe_open_by_id :: "u64 \<Rightarrow> bool \<Rightarrow> 'a pipes_scheme \<Rightarrow> (int \<times> 'a pipes_scheme) option" where
  "pipe_open_by_id pid is_writer s =
     (case pipe_get_by_id pid s of
        None \<Rightarrow> Some (0, s)
      | Some i \<Rightarrow> do {
          (_, s1) \<leftarrow> mutex_wait (pipe_mutex (pip s i)) s;
          let s2 = upd_pipe i (if is_writer then (\<lambda>p. p\<lparr>writers := writers p + 1\<rparr>)
                               else (\<lambda>p. p\<lparr>readers := readers p + 1\<rparr>)) s1;
          s3 \<leftarrow> signal (pipe_mutex (pip s2 i)) s2;
          Some (1, s3)
        })"

fun signal_times :: "nat \<Rightarrow> u64 \<Rightarrow> 'a pipes_scheme \<Rightarrow> 'a pipes_scheme option" where
  "signal_times 0 sid s = Some s"
| "signal_times (Suc n) sid s = do { s1 \<leftarrow> signal sid s; signal_times n sid s1 }"

definition pipe_close_by_id :: "u64 \<Rightarrow> bool \<Rightarrow> 'a pipes_scheme \<Rightarrow> (int \<times> 'a pipes_scheme) option" where
  "pipe_close_by_id pid is_writer s =
     (case pipe_get_by_id pid s of
        None \<Rightarrow> Some (0, s)
      | Some i \<Rightarrow> do {
          (_, s1) \<leftarrow> mutex_wait (pipe_mutex (pip s i)) s;
          let p = pip s1 i;
          let (p', was_last_writer) =
            (if is_writer
             then if writers p > 0 then (p\<lparr>writers := writers p - 1\<rparr>, writers p - 1 = 0) else (p, False)
             else if readers p > 0 then (p\<lparr>readers := readers p - 1\<rparr>, False) else (p, False));
          let s2 = upd_pipe i (\<lambda>_. p') s1;
          if readers p' = 0 \<and> writers p' = 0
          then do {
            let s3 = upd_pipe i (\<lambda>p. p\<lparr>pipe_used := False, pipe_id := 0, sem_items := 0, sem_spaces := 0,
              pipe_mutex := 0, read_pos := 0, write_pos := 0, pipe_count := 0\<rparr>) s2;
            s4 \<leftarrow> signal (pipe_mutex p') s3;
            (_, s5) \<leftarrow> sem_close_by_id (sem_items p') s4;
            (_, s6) \<leftarrow> sem_close_by_id (sem_spaces p') s5;
            (_, s7) \<leftarrow> sem_close_by_id (pipe_mutex p') s6;
            Some (1, s7)
          }
          else do {
            s3 \<leftarrow> (if was_last_writer then signal_times (min (nat (readers p')) 100) (sem_items p') s2 else Some s2);
            s4 \<leftarrow> signal (pipe_mutex p') s3;
            Some (1, s4)
          }
        })"

section \<open>Reading and writing\<close>

text \<open>Taking the oldest byte of a non-empty pipe and adding a byte to one that is not full.\<close>

definition pipe_get :: "pipe \<Rightarrow> char \<times> pipe" where
  "pipe_get p = (pipe_buffer p ! read_pos p,
     p\<lparr>read_pos := (read_pos p + 1) mod PIPE_BUFFER_SIZE, pipe_count := pipe_count p - 1\<rparr>)"

definition pipe_put :: "char \<Rightarrow> pipe \<Rightarrow> pipe" where
  "pipe_put c p = p\<lparr>pipe_buffer := (pipe_buffer p)[write_pos p := c],
     write_pos := (write_pos p + 1) mod PIPE_BUFFER_SIZE, pipe_count := pipe_count p + 1\<rparr>"

text \<open>The loop of \<open>pipe_read\<close> with the bytes read so far, and that of \<open>pipe_write\<close> with the bytes
  still to write.  A \<open>KYield\<close> carries them to the continuation.\<close>

partial_function (option) pipe_read_loop ::
    "nat \<Rightarrow> nat \<Rightarrow> string \<Rightarrow> 'a pipes_scheme \<Rightarrow> (string, string, 'a pipes_scheme) kres option" where
  "pipe_read_loop i n acc s =
     (if length acc \<ge> n then Some (KRet acc s)
      else do {
        (ok, s1) \<leftarrow> mutex_wait (pipe_mutex (pip s i)) s;
        if ok = 0 then Some (KRet acc s1)
        else if pipe_count (pip s1 i) = 0 \<and> writers (pip s1 i) = 0
        then do { s2 \<leftarrow> signal (pipe_mutex (pip s1 i)) s1; Some (KRet acc s2) }
        else if pipe_count (pip s1 i) > 0
        then do {
          let (c, p') = pipe_get (pip s1 i);
          let s2 = upd_pipe i (\<lambda>_. p') s1;
          s3 \<leftarrow> signal (pipe_mutex (pip s2 i)) s2;
          s4 \<leftarrow> signal (sem_spaces (pip s3 i)) s3;
          pipe_read_loop i n (acc @ [c]) s4
        }
        else if acc \<noteq> []
        then do { s2 \<leftarrow> signal (pipe_mutex (pip s1 i)) s1; Some (KRet acc s2) }
        else do {
          s2 \<leftarrow> signal (pipe_mutex (pip s1 i)) s1;
          r \<leftarrow> sem_wait_by_id (sem_items (pip s2 i)) s2;
          case r of
            KYield _ s3 \<Rightarrow> Some (KYield acc s3)
          | KRet v s3 \<Rightarrow> if v = 0 then Some (KRet acc s3) else pipe_read_loop i n acc s3
        }
      })"

definition pipe_read ::
    "nat option \<Rightarrow> nat \<Rightarrow> 'a pipes_scheme \<Rightarrow> (string, string, 'a pipes_scheme) kres option" where
  "pipe_read p n s =
     (case p of
        None \<Rightarrow> Some (KRet [] s)
      | Some i \<Rightarrow> if n = 0 then Some (KRet [] s) else pipe_read_loop i n [] s)"

partial_function (option) pipe_write_loop ::
    "nat \<Rightarrow> string \<Rightarrow> nat \<Rightarrow> 'a pipes_scheme \<Rightarrow> (nat, nat, 'a pipes_scheme) kres option" where
  "pipe_write_loop i bytes k s =
     (if k \<ge> length bytes then Some (KRet k s)
      else do {
        (ok, s1) \<leftarrow> mutex_wait (pipe_mutex (pip s i)) s;
        if ok = 0 then Some (KRet k s1)
        else if readers (pip s1 i) = 0
        then do { s2 \<leftarrow> signal (pipe_mutex (pip s1 i)) s1; Some (KRet k s2) }
        else if pipe_count (pip s1 i) < PIPE_BUFFER_SIZE
        then do {
          let s2 = upd_pipe i (pipe_put (bytes ! k)) s1;
          s3 \<leftarrow> signal (pipe_mutex (pip s2 i)) s2;
          s4 \<leftarrow> signal (sem_items (pip s3 i)) s3;
          pipe_write_loop i bytes (k + 1) s4
        }
        else do {
          s2 \<leftarrow> signal (pipe_mutex (pip s1 i)) s1;
          r \<leftarrow> sem_wait_by_id (sem_spaces (pip s2 i)) s2;
          case r of
            KYield _ s3 \<Rightarrow> Some (KYield k s3)
          | KRet v s3 \<Rightarrow> if v = 0 then Some (KRet k s3) else pipe_write_loop i bytes k s3
        }
      })"

declare pipe_read_loop.simps [code] pipe_write_loop.simps [code]

definition pipe_write ::
    "nat option \<Rightarrow> string \<Rightarrow> 'a pipes_scheme \<Rightarrow> (nat, nat, 'a pipes_scheme) kres option" where
  "pipe_write p bytes s =
     (case p of
        None \<Rightarrow> Some (KRet 0 s)
      | Some i \<Rightarrow> if bytes = [] then Some (KRet 0 s) else pipe_write_loop i bytes 0 s)"

end
