(* ===== verification/MM_Buddy.thy ===== *)
theory MM_Buddy
  imports MM_Simple
begin

text \<open>
  The buddy memory manager of \<open>Kernel/mm/mm_buddy.c\<close>, compiled in place of \<open>mm_simple.c\<close> under
  \<open>USE_BUDDY_MM\<close>.  Blocks of level \<open>l\<close> have \<open>2 ^ l\<close> times the base size; the free blocks of each level
  form a null-terminated doubly linked list.  Loops that follow pointers are partial functions.
\<close>

section \<open>State\<close>

record buddy_block =
  b_next :: ptr
  b_prev :: ptr
  b_level :: u8
  b_is_free :: u8

type_synonym buddy_heap = "ptr \<Rightarrow> buddy_block"

record mm_buddy =
  mem_b :: buddy_heap
  endOfKernel_b :: ptr
  BASE_BLOCK_SIZE :: u64
  free_lists :: "ptr list"
  mm_initialized_flag_b :: u8
  heap_capacity_bytes_b :: u64
  heap_used_bytes_b :: u64
  heap_allocation_count_b :: u64
  heap_free_count_b :: u64
  heap_failed_allocations_b :: u64
  heap_base :: ptr
  heap_usable_bytes :: u64
  max_level :: u8

definition MIN_ALIGN :: u64 where "MIN_ALIGN = 16"
definition MM_MAX_LEVELS :: nat where "MM_MAX_LEVELS = 32"

definition align_up_u64 :: "u64 \<Rightarrow> u64 \<Rightarrow> u64" where
  "align_up_u64 v a = (v + a - 1) AND NOT (a - 1)"

definition pow2_u64 :: "u8 \<Rightarrow> u64" where
  "pow2_u64 e = push_bit (unat e) 1"

text \<open>\<open>sizeof (buddy_block_t)\<close> is two pointers and two bytes, padded to 24.\<close>

definition HDR_SIZE :: u64 where "HDR_SIZE = align_up_u64 24 MIN_ALIGN"

definition upd_blk :: "ptr \<Rightarrow> (buddy_block \<Rightarrow> buddy_block) \<Rightarrow> mm_buddy \<Rightarrow> mm_buddy" where
  "upd_blk a f m = m\<lparr>mem_b := (mem_b m)(a := f (mem_b m a))\<rparr>"

abbreviation blk :: "mm_buddy \<Rightarrow> ptr \<Rightarrow> buddy_block" where
  "blk m a \<equiv> mem_b m a"

definition set_free_list :: "nat \<Rightarrow> ptr \<Rightarrow> mm_buddy \<Rightarrow> mm_buddy" where
  "set_free_list l a m = m\<lparr>free_lists := (free_lists m)[l := a]\<rparr>"

section \<open>Free lists\<close>

definition free_lists_init :: "mm_buddy \<Rightarrow> mm_buddy" where
  "free_lists_init m = m\<lparr>free_lists := replicate MM_MAX_LEVELS NULL\<rparr>"

function order_loop :: "u64 \<Rightarrow> u64 \<Rightarrow> nat \<Rightarrow> nat" where
  "order_loop tot b order =
     (if b < tot \<and> order < MM_MAX_LEVELS - 1 then order_loop tot (push_bit 1 b) (order + 1) else order)"
  by auto
termination by (relation "measure (\<lambda>(_, _, order). MM_MAX_LEVELS - order)") auto

declare order_loop.simps [simp del]

definition order_for :: "u64 \<Rightarrow> mm_buddy \<Rightarrow> nat" where
  "order_for size_bytes m =
     (let tot = (if size_bytes < BASE_BLOCK_SIZE m then BASE_BLOCK_SIZE m else size_bytes)
      in order_loop tot (BASE_BLOCK_SIZE m) 0)"

definition push_free :: "ptr \<Rightarrow> mm_buddy \<Rightarrow> mm_buddy" where
  "push_free b m =
     (let l = unat (b_level (blk m b));
          m1 = upd_blk b (\<lambda>k. k\<lparr>b_is_free := 1, b_prev := NULL, b_next := free_lists m ! l\<rparr>) m;
          m2 = (if b_next (blk m1 b) \<noteq> NULL then upd_blk (b_next (blk m1 b)) (b_prev_update (\<lambda>_. b)) m1 else m1)
      in set_free_list l b m2)"

definition pop_free :: "nat \<Rightarrow> mm_buddy \<Rightarrow> ptr \<times> mm_buddy" where
  "pop_free l m =
     (let b = free_lists m ! l
      in if b = NULL then (NULL, m)
         else
           let m1 = set_free_list l (b_next (blk m b)) m;
               m2 = (if free_lists m1 ! l \<noteq> NULL
                     then upd_blk (free_lists m1 ! l) (b_prev_update (\<lambda>_. NULL)) m1 else m1)
           in (b, upd_blk b (\<lambda>k. k\<lparr>b_next := NULL, b_prev := NULL, b_is_free := 0\<rparr>) m2))"

text \<open>One iteration of \<open>split_down\<close> at level \<open>Suc l\<close>, then the loop down to \<open>to_level\<close>.\<close>

definition split_once :: "nat \<Rightarrow> ptr \<Rightarrow> mm_buddy \<Rightarrow> mm_buddy" where
  "split_once l b m =
     (let sz = pow2_u64 (of_nat (Suc l)) * BASE_BLOCK_SIZE m;
          buddy = b + drop_bit 1 sz;
          fresh = (\<lambda>k. k\<lparr>b_level := of_nat l, b_is_free := 1, b_next := NULL, b_prev := NULL\<rparr>);
          m1 = push_free buddy (upd_blk buddy fresh m)
      in push_free b (upd_blk b fresh m1))"

fun split_down :: "nat \<Rightarrow> nat \<Rightarrow> mm_buddy \<Rightarrow> ptr \<times> mm_buddy" where
  "split_down 0 to_level m = pop_free to_level m"
| "split_down (Suc l) to_level m =
     (if Suc l > to_level
      then let (b, m1) = pop_free (Suc l) m
           in if b = NULL then (NULL, m1) else split_down l to_level (split_once l b m1)
      else pop_free to_level m)"

section \<open>Buddies\<close>

definition get_block_from_ptr :: "ptr \<Rightarrow> ptr" where
  "get_block_from_ptr p = (if p = NULL then NULL else p - HDR_SIZE)"

definition find_buddy :: "ptr \<Rightarrow> mm_buddy \<Rightarrow> ptr" where
  "find_buddy b m =
     (let offset = b - heap_base m;
          bsize = pow2_u64 (b_level (blk m b)) * BASE_BLOCK_SIZE m;
          buddy_off = offset XOR bsize
      in if buddy_off + bsize > heap_usable_bytes m then NULL else heap_base m + buddy_off)"

text \<open>The pointer to the pointer that \<open>remove_from_free_list\<close> walks with: the head of the list or the
  \<open>next\<close> field of a block.\<close>

datatype cell = List_head | Next_of ptr

partial_function (option) find_cell :: "buddy_heap \<Rightarrow> ptr \<Rightarrow> cell \<Rightarrow> ptr \<Rightarrow> (cell \<times> ptr) option" where
  "find_cell h b c cur =
     (if cur \<noteq> NULL \<and> cur \<noteq> b then find_cell h b (Next_of cur) (b_next (h cur)) else Some (c, cur))"

definition remove_from_free_list :: "ptr \<Rightarrow> mm_buddy \<Rightarrow> mm_buddy option" where
  "remove_from_free_list b m =
     (let l = unat (b_level (blk m b))
      in do {
        (c, cur) \<leftarrow> find_cell (mem_b m) b List_head (free_lists m ! l);
        if cur = b
        then
          let nxt = b_next (blk m b);
              m1 = (case c of List_head \<Rightarrow> set_free_list l nxt m | Next_of a \<Rightarrow> upd_blk a (b_next_update (\<lambda>_. nxt)) m);
              m2 = (if b_next (blk m1 b) \<noteq> NULL
                    then upd_blk (b_next (blk m1 b)) (b_prev_update (\<lambda>_. b_prev (blk m1 b))) m1 else m1)
          in Some (upd_blk b (\<lambda>k. k\<lparr>b_next := NULL, b_prev := NULL\<rparr>) m2)
        else Some m
      })"

partial_function (option) coalesce_loop :: "ptr \<Rightarrow> mm_buddy \<Rightarrow> (ptr \<times> mm_buddy) option" where
  "coalesce_loop b m =
     (if b_level (blk m b) < max_level m
      then
        let bud = find_buddy b m
        in if bud = NULL \<or> b_is_free (blk m bud) = 0 \<or> b_level (blk m bud) \<noteq> b_level (blk m b)
           then Some (b, m)
           else do {
             m1 \<leftarrow> remove_from_free_list bud m;
             let b' = (if bud < b then bud else b);
             coalesce_loop b' (upd_blk b' (\<lambda>k. k\<lparr>b_level := b_level k + 1, b_is_free := 1\<rparr>) m1)
           }
      else Some (b, m))"

definition coalesce :: "ptr \<Rightarrow> mm_buddy \<Rightarrow> mm_buddy option" where
  "coalesce b m = do { (b', m') \<leftarrow> coalesce_loop b m; Some (push_free b' m') }"

section \<open>Initialisation\<close>

text \<open>\<open>while (v < min_need) v <<= 1\<close>, with the number of shifts that are still possible in 64 bits.\<close>

fun double_until :: "nat \<Rightarrow> u64 \<Rightarrow> u64 \<Rightarrow> u64" where
  "double_until 0 need v = v"
| "double_until (Suc n) need v = (if v < need then double_until n need (push_bit 1 v) else v)"

fun level_down :: "nat \<Rightarrow> u64 \<Rightarrow> u64 \<Rightarrow> nat" where
  "level_down 0 base remaining = 0"
| "level_down (Suc l) base remaining =
     (if pow2_u64 (of_nat (Suc l)) * base > remaining then level_down l base remaining else Suc l)"

partial_function (option) init_blocks :: "ptr \<Rightarrow> u64 \<Rightarrow> mm_buddy \<Rightarrow> mm_buddy option" where
  "init_blocks cur remaining m =
     (if remaining \<ge> BASE_BLOCK_SIZE m
      then
        let l = level_down (unat (max_level m)) (BASE_BLOCK_SIZE m) remaining;
            blk_size = pow2_u64 (of_nat l) * BASE_BLOCK_SIZE m;
            m1 = upd_blk cur (\<lambda>k. k\<lparr>b_next := NULL, b_prev := NULL, b_level := of_nat l, b_is_free := 1\<rparr>) m
        in init_blocks (cur + blk_size) (remaining - blk_size) (push_free cur m1)
      else Some m)"

declare find_cell.simps [code] coalesce_loop.simps [code] init_blocks.simps [code]

definition mm_init_buddy :: "ptr \<Rightarrow> u64 \<Rightarrow> mm_buddy \<Rightarrow> mm_buddy option" where
  "mm_init_buddy heap_start heap_size m =
     (let min_need_init = HDR_SIZE + 16;
          failed = m\<lparr>mm_initialized_flag_b := 0, heap_capacity_bytes_b := 0, heap_usable_bytes := 0\<rparr>;
          aligned_start = align_up_u64 heap_start MIN_ALIGN;
          alignment_loss = aligned_start - heap_start;
          usable = (heap_size - alignment_loss) AND NOT (MIN_ALIGN - 1)
      in if heap_size < min_need_init then Some failed
         else if alignment_loss \<ge> heap_size then Some failed
         else if usable < min_need_init then Some failed
         else
           let base = double_until 64 (HDR_SIZE + 16) 1;
               m1 = m\<lparr>heap_base := aligned_start, heap_usable_bytes := usable, BASE_BLOCK_SIZE := base,
                      max_level := of_nat (order_loop usable base 0)\<rparr>
           in do {
             m2 \<leftarrow> init_blocks (heap_base m1) usable (free_lists_init m1);
             Some (m2\<lparr>heap_capacity_bytes_b := usable - HDR_SIZE, heap_used_bytes_b := 0,
               heap_allocation_count_b := 0, heap_free_count_b := 0, heap_failed_allocations_b := 0,
               mm_initialized_flag_b := 1\<rparr>)
           })"

definition mm_default_region_buddy :: "ptr \<Rightarrow> ptr \<times> u64" where
  "mm_default_region_buddy endOfKernel =
     (let raw_start = endOfKernel + 0x1000 * 8;
          aligned_start = align_up_u64 raw_start MIN_ALIGN;
          heap_limit = MM_DEFAULT_HEAP_LIMIT
      in if aligned_start \<ge> heap_limit then (NULL, 0) else (aligned_start, heap_limit - aligned_start))"

definition mm_init_default_buddy :: "mm_buddy \<Rightarrow> mm_buddy option" where
  "mm_init_default_buddy m =
     (let (start, sz) = mm_default_region_buddy (endOfKernel_b m)
      in if start \<noteq> NULL \<and> sz \<noteq> 0 then mm_init_buddy start sz m else Some m)"

section \<open>Allocation\<close>

definition buddy_fail :: "mm_buddy \<Rightarrow> ptr \<times> mm_buddy" where
  "buddy_fail m = (NULL, m\<lparr>heap_failed_allocations_b := heap_failed_allocations_b m + 1\<rparr>)"

text \<open>A block of order \<open>ord\<close>: from its own list or split from the first larger one.\<close>

definition buddy_take :: "nat \<Rightarrow> mm_buddy \<Rightarrow> ptr \<times> mm_buddy" where
  "buddy_take ord m =
     (let (b, m1) = pop_free ord m
      in if b \<noteq> NULL then (b, m1)
         else case find (\<lambda>l. free_lists m1 ! l \<noteq> NULL) [Suc ord..<Suc (unat (max_level m1))] of
                None \<Rightarrow> (NULL, m1)
              | Some l \<Rightarrow> split_down l ord m1)"

definition mm_alloc_buddy :: "u64 \<Rightarrow> mm_buddy \<Rightarrow> (ptr \<times> mm_buddy) option" where
  "mm_alloc_buddy sz m0 =
     do {
       m \<leftarrow> (if mm_initialized_flag_b m0 = 0 then mm_init_default_buddy m0 else Some m0);
       if mm_initialized_flag_b m = 0 then Some (buddy_fail m)
       else if sz = 0 then Some (NULL, m)
       else
         let req = align_up_u64 sz MIN_ALIGN;
             ord = order_for (req + HDR_SIZE) m;
             (b, m1) = buddy_take ord m
         in if b = NULL then Some (buddy_fail m1)
            else
              let m2 = upd_blk b (b_is_free_update (\<lambda>_. 0)) m1;
                  payload = pow2_u64 (of_nat ord) * BASE_BLOCK_SIZE m2 - HDR_SIZE;
                  used = heap_used_bytes_b m2 + payload
              in Some (b + HDR_SIZE,
                   m2\<lparr>heap_used_bytes_b := (if used > heap_capacity_bytes_b m2 then heap_capacity_bytes_b m2 else used)\<rparr>)
     }"

definition mm_free_buddy :: "ptr \<Rightarrow> mm_buddy \<Rightarrow> mm_buddy option" where
  "mm_free_buddy p m =
     (if p = NULL \<or> mm_initialized_flag_b m = 0 then Some m
      else
        let b = get_block_from_ptr p
        in if b = NULL \<or> b_is_free (blk m b) \<noteq> 0 then Some m
           else
             let m1 = upd_blk b (b_is_free_update (\<lambda>_. 1)) m;
                 payload = pow2_u64 (b_level (blk m1 b)) * BASE_BLOCK_SIZE m1 - HDR_SIZE;
                 used = heap_used_bytes_b m1;
                 m2 = m1\<lparr>heap_free_count_b := heap_free_count_b m1 + 1,
                         heap_used_bytes_b := (if used \<ge> payload then used - payload else 0)\<rparr>
             in coalesce b m2)"

section \<open>Statistics\<close>

partial_function (option) largest_in_list :: "mm_buddy \<Rightarrow> u64 \<Rightarrow> ptr \<Rightarrow> u64 option" where
  "largest_in_list m largest cur =
     (if cur = NULL then Some largest
      else
        let cur_payload = pow2_u64 (b_level (blk m cur)) * BASE_BLOCK_SIZE m - HDR_SIZE
        in largest_in_list m (if cur_payload > largest then cur_payload else largest) (b_next (blk m cur)))"

fun largest_in_levels :: "nat list \<Rightarrow> mm_buddy \<Rightarrow> u64 \<Rightarrow> u64 option" where
  "largest_in_levels [] m largest = Some largest"
| "largest_in_levels (l # ls) m largest =
     do { largest' \<leftarrow> largest_in_list m largest (free_lists m ! l); largest_in_levels ls m largest' }"

declare largest_in_list.simps [code]

definition mm_get_stats_buddy :: "mm_buddy \<Rightarrow> mm_stats option" where
  "mm_get_stats_buddy m =
     do {
       largest \<leftarrow> largest_in_levels [0..<Suc (unat (max_level m))] m 0;
       Some \<lparr>total_bytes = heap_capacity_bytes_b m,
             used_bytes = heap_used_bytes_b m,
             free_bytes = (if heap_capacity_bytes_b m > heap_used_bytes_b m
                           then heap_capacity_bytes_b m - heap_used_bytes_b m else 0),
             largest_free_block = largest,
             allocations = heap_allocation_count_b m,
             frees = heap_free_count_b m,
             failed_allocations = heap_failed_allocations_b m\<rparr>
     }"

definition mm_is_initialized_buddy :: "mm_buddy \<Rightarrow> u8" where
  "mm_is_initialized_buddy m = mm_initialized_flag_b m"

definition mm_get_manager_name_buddy :: string where
  "mm_get_manager_name_buddy = ''buddy''"

end
