(* ===== verification/Font.thy ===== *)
theory Font
  imports Kernel_Prelude
begin

text \<open>
  The glyphs of \<open>Kernel/include/font.h\<close>: sixteen rows of eight pixels per character, the leftmost pixel
  in the highest bit.  The table is written in groups of eight characters.
\<close>

definition FONT_HEIGHT :: nat where "FONT_HEIGHT = 16"
definition FONT_WIDTH :: nat where "FONT_WIDTH = 8"

definition font_00 :: "u8 list list" where
  "font_00 =
     [[0x0, 0x0, 0x0, 0x0, 0x0, 0x0, 0x0, 0x0, 0x0, 0x0, 0x0, 0x0, 0x0, 0x0, 0x0, 0x0],
      [0x0, 0x0, 0x7E, 0x81, 0xA5, 0x81, 0x81, 0xBD, 0x99, 0x81, 0x81, 0x7E, 0x0, 0x0, 0x0, 0x0],
      [0x0, 0x0, 0x7E, 0xFF, 0xDB, 0xFF, 0xFF, 0xC3, 0xE7, 0xFF, 0xFF, 0x7E, 0x0, 0x0, 0x0, 0x0],
      [0x0, 0x0, 0x0, 0x0, 0x6C, 0xFE, 0xFE, 0xFE, 0xFE, 0x7C, 0x38, 0x10, 0x0, 0x0, 0x0, 0x0],
      [0x0, 0x0, 0x0, 0x0, 0x10, 0x38, 0x7C, 0xFE, 0x7C, 0x38, 0x10, 0x0, 0x0, 0x0, 0x0, 0x0],
      [0x0, 0x0, 0x0, 0x18, 0x3C, 0x3C, 0xE7, 0xE7, 0xE7, 0x18, 0x18, 0x3C, 0x0, 0x0, 0x0, 0x0],
      [0x0, 0x0, 0x0, 0x18, 0x3C, 0x7E, 0xFF, 0xFF, 0x7E, 0x18, 0x18, 0x3C, 0x0, 0x0, 0x0, 0x0],
      [0x0, 0x0, 0x0, 0x0, 0x0, 0x0, 0x18, 0x3C, 0x3C, 0x18, 0x0, 0x0, 0x0, 0x0, 0x0, 0x0]]"

definition font_08 :: "u8 list list" where
  "font_08 =
     [[0xFF, 0xFF, 0xFF, 0xFF, 0xFF, 0xFF, 0xE7, 0xC3, 0xC3, 0xE7, 0xFF, 0xFF, 0xFF, 0xFF, 0xFF, 0xFF],
      [0x0, 0x0, 0x0, 0x0, 0x0, 0x3C, 0x66, 0x42, 0x42, 0x66, 0x3C, 0x0, 0x0, 0x0, 0x0, 0x0],
      [0xFF, 0xFF, 0xFF, 0xFF, 0xFF, 0xC3, 0x99, 0xBD, 0xBD, 0x99, 0xC3, 0xFF, 0xFF, 0xFF, 0xFF, 0xFF],
      [0x0, 0x0, 0x1E, 0xE, 0x1A, 0x32, 0x78, 0xCC, 0xCC, 0xCC, 0xCC, 0x78, 0x0, 0x0, 0x0, 0x0],
      [0x0, 0x0, 0x3C, 0x66, 0x66, 0x66, 0x66, 0x3C, 0x18, 0x7E, 0x18, 0x18, 0x0, 0x0, 0x0, 0x0],
      [0x0, 0x0, 0x3F, 0x33, 0x3F, 0x30, 0x30, 0x30, 0x30, 0x70, 0xF0, 0xE0, 0x0, 0x0, 0x0, 0x0],
      [0x0, 0x0, 0x7F, 0x63, 0x7F, 0x63, 0x63, 0x63, 0x63, 0x67, 0xE7, 0xE6, 0xC0, 0x0, 0x0, 0x0],
      [0x0, 0x0, 0x0, 0x18, 0x18, 0xDB, 0x3C, 0xE7, 0x3C, 0xDB, 0x18, 0x18, 0x0, 0x0, 0x0, 0x0]]"

definition font_10 :: "u8 list list" where
  "font_10 =
     [[0x0, 0x80, 0xC0, 0xE0, 0xF0, 0xF8, 0xFE, 0xF8, 0xF0, 0xE0, 0xC0, 0x80, 0x0, 0x0, 0x0, 0x0],
      [0x0, 0x2, 0x6, 0xE, 0x1E, 0x3E, 0xFE, 0x3E, 0x1E, 0xE, 0x6, 0x2, 0x0, 0x0, 0x0, 0x0],
      [0x0, 0x0, 0x18, 0x3C, 0x7E, 0x18, 0x18, 0x18, 0x7E, 0x3C, 0x18, 0x0, 0x0, 0x0, 0x0, 0x0],
      [0x0, 0x0, 0x66, 0x66, 0x66, 0x66, 0x66, 0x66, 0x66, 0x0, 0x66, 0x66, 0x0, 0x0, 0x0, 0x0],
      [0x0, 0x0, 0x7F, 0xDB, 0xDB, 0xDB, 0x7B, 0x1B, 0x1B, 0x1B, 0x1B, 0x1B, 0x0, 0x0, 0x0, 0x0],
      [0x0, 0x7C, 0xC6, 0x60, 0x38, 0x6C, 0xC6, 0xC6, 0x6C, 0x38, 0xC, 0xC6, 0x7C, 0x0, 0x0, 0x0],
      [0x0, 0x0, 0x0, 0x0, 0x0, 0x0, 0x0, 0x0, 0xFE, 0xFE, 0xFE, 0xFE, 0x0, 0x0, 0x0, 0x0],
      [0x0, 0x0, 0x18, 0x3C, 0x7E, 0x18, 0x18, 0x18, 0x7E, 0x3C, 0x18, 0x7E, 0x0, 0x0, 0x0, 0x0]]"

definition font_18 :: "u8 list list" where
  "font_18 =
     [[0x0, 0x0, 0x18, 0x3C, 0x7E, 0x18, 0x18, 0x18, 0x18, 0x18, 0x18, 0x18, 0x0, 0x0, 0x0, 0x0],
      [0x0, 0x0, 0x18, 0x18, 0x18, 0x18, 0x18, 0x18, 0x18, 0x7E, 0x3C, 0x18, 0x0, 0x0, 0x0, 0x0],
      [0x0, 0x0, 0x0, 0x0, 0x0, 0x18, 0xC, 0xFE, 0xC, 0x18, 0x0, 0x0, 0x0, 0x0, 0x0, 0x0],
      [0x0, 0x0, 0x0, 0x0, 0x0, 0x30, 0x60, 0xFE, 0x60, 0x30, 0x0, 0x0, 0x0, 0x0, 0x0, 0x0],
      [0x0, 0x0, 0x0, 0x0, 0x0, 0x0, 0xC0, 0xC0, 0xC0, 0xFE, 0x0, 0x0, 0x0, 0x0, 0x0, 0x0],
      [0x0, 0x0, 0x0, 0x0, 0x0, 0x28, 0x6C, 0xFE, 0x6C, 0x28, 0x0, 0x0, 0x0, 0x0, 0x0, 0x0],
      [0x0, 0x0, 0x0, 0x0, 0x10, 0x38, 0x38, 0x7C, 0x7C, 0xFE, 0xFE, 0x0, 0x0, 0x0, 0x0, 0x0],
      [0x0, 0x0, 0x0, 0x0, 0xFE, 0xFE, 0x7C, 0x7C, 0x38, 0x38, 0x10, 0x0, 0x0, 0x0, 0x0, 0x0]]"

definition font_20 :: "u8 list list" where
  "font_20 =
     [[0x0, 0x0, 0x0, 0x0, 0x0, 0x0, 0x0, 0x0, 0x0, 0x0, 0x0, 0x0, 0x0, 0x0, 0x0, 0x0],
      [0x0, 0x0, 0x18, 0x3C, 0x3C, 0x3C, 0x18, 0x18, 0x18, 0x0, 0x18, 0x18, 0x0, 0x0, 0x0, 0x0],
      [0x0, 0x66, 0x66, 0x66, 0x24, 0x0, 0x0, 0x0, 0x0, 0x0, 0x0, 0x0, 0x0, 0x0, 0x0, 0x0],
      [0x0, 0x0, 0x0, 0x6C, 0x6C, 0xFE, 0x6C, 0x6C, 0x6C, 0xFE, 0x6C, 0x6C, 0x0, 0x0, 0x0, 0x0],
      [0x18, 0x18, 0x7C, 0xC6, 0xC2, 0xC0, 0x7C, 0x6, 0x6, 0x86, 0xC6, 0x7C, 0x18, 0x18, 0x0, 0x0],
      [0x0, 0x0, 0x0, 0x0, 0xC2, 0xC6, 0xC, 0x18, 0x30, 0x60, 0xC6, 0x86, 0x0, 0x0, 0x0, 0x0],
      [0x0, 0x0, 0x38, 0x6C, 0x6C, 0x38, 0x76, 0xDC, 0xCC, 0xCC, 0xCC, 0x76, 0x0, 0x0, 0x0, 0x0],
      [0x0, 0x30, 0x30, 0x30, 0x60, 0x0, 0x0, 0x0, 0x0, 0x0, 0x0, 0x0, 0x0, 0x0, 0x0, 0x0]]"

definition font_28 :: "u8 list list" where
  "font_28 =
     [[0x0, 0x0, 0xC, 0x18, 0x30, 0x30, 0x30, 0x30, 0x30, 0x30, 0x18, 0xC, 0x0, 0x0, 0x0, 0x0],
      [0x0, 0x0, 0x30, 0x18, 0xC, 0xC, 0xC, 0xC, 0xC, 0xC, 0x18, 0x30, 0x0, 0x0, 0x0, 0x0],
      [0x0, 0x0, 0x0, 0x0, 0x0, 0x66, 0x3C, 0xFF, 0x3C, 0x66, 0x0, 0x0, 0x0, 0x0, 0x0, 0x0],
      [0x0, 0x0, 0x0, 0x0, 0x0, 0x18, 0x18, 0x7E, 0x18, 0x18, 0x0, 0x0, 0x0, 0x0, 0x0, 0x0],
      [0x0, 0x0, 0x0, 0x0, 0x0, 0x0, 0x0, 0x0, 0x0, 0x18, 0x18, 0x18, 0x30, 0x0, 0x0, 0x0],
      [0x0, 0x0, 0x0, 0x0, 0x0, 0x0, 0x0, 0xFE, 0x0, 0x0, 0x0, 0x0, 0x0, 0x0, 0x0, 0x0],
      [0x0, 0x0, 0x0, 0x0, 0x0, 0x0, 0x0, 0x0, 0x0, 0x0, 0x18, 0x18, 0x0, 0x0, 0x0, 0x0],
      [0x0, 0x0, 0x0, 0x0, 0x2, 0x6, 0xC, 0x18, 0x30, 0x60, 0xC0, 0x80, 0x0, 0x0, 0x0, 0x0]]"

definition font_30 :: "u8 list list" where
  "font_30 =
     [[0x0, 0x0, 0x38, 0x6C, 0xC6, 0xC6, 0xD6, 0xD6, 0xC6, 0xC6, 0x6C, 0x38, 0x0, 0x0, 0x0, 0x0],
      [0x0, 0x0, 0x18, 0x38, 0x78, 0x18, 0x18, 0x18, 0x18, 0x18, 0x18, 0x7E, 0x0, 0x0, 0x0, 0x0],
      [0x0, 0x0, 0x7C, 0xC6, 0x6, 0xC, 0x18, 0x30, 0x60, 0xC0, 0xC6, 0xFE, 0x0, 0x0, 0x0, 0x0],
      [0x0, 0x0, 0x7C, 0xC6, 0x6, 0x6, 0x3C, 0x6, 0x6, 0x6, 0xC6, 0x7C, 0x0, 0x0, 0x0, 0x0],
      [0x0, 0x0, 0xC, 0x1C, 0x3C, 0x6C, 0xCC, 0xFE, 0xC, 0xC, 0xC, 0x1E, 0x0, 0x0, 0x0, 0x0],
      [0x0, 0x0, 0xFE, 0xC0, 0xC0, 0xC0, 0xFC, 0x6, 0x6, 0x6, 0xC6, 0x7C, 0x0, 0x0, 0x0, 0x0],
      [0x0, 0x0, 0x38, 0x60, 0xC0, 0xC0, 0xFC, 0xC6, 0xC6, 0xC6, 0xC6, 0x7C, 0x0, 0x0, 0x0, 0x0],
      [0x0, 0x0, 0xFE, 0xC6, 0x6, 0x6, 0xC, 0x18, 0x30, 0x30, 0x30, 0x30, 0x0, 0x0, 0x0, 0x0]]"

definition font_38 :: "u8 list list" where
  "font_38 =
     [[0x0, 0x0, 0x7C, 0xC6, 0xC6, 0xC6, 0x7C, 0xC6, 0xC6, 0xC6, 0xC6, 0x7C, 0x0, 0x0, 0x0, 0x0],
      [0x0, 0x0, 0x7C, 0xC6, 0xC6, 0xC6, 0x7E, 0x6, 0x6, 0x6, 0xC, 0x78, 0x0, 0x0, 0x0, 0x0],
      [0x0, 0x0, 0x0, 0x0, 0x18, 0x18, 0x0, 0x0, 0x0, 0x18, 0x18, 0x0, 0x0, 0x0, 0x0, 0x0],
      [0x0, 0x0, 0x0, 0x0, 0x18, 0x18, 0x0, 0x0, 0x0, 0x18, 0x18, 0x30, 0x0, 0x0, 0x0, 0x0],
      [0x0, 0x0, 0x0, 0x6, 0xC, 0x18, 0x30, 0x60, 0x30, 0x18, 0xC, 0x6, 0x0, 0x0, 0x0, 0x0],
      [0x0, 0x0, 0x0, 0x0, 0x0, 0x7E, 0x0, 0x0, 0x7E, 0x0, 0x0, 0x0, 0x0, 0x0, 0x0, 0x0],
      [0x0, 0x0, 0x0, 0x60, 0x30, 0x18, 0xC, 0x6, 0xC, 0x18, 0x30, 0x60, 0x0, 0x0, 0x0, 0x0],
      [0x0, 0x0, 0x7C, 0xC6, 0xC6, 0xC, 0x18, 0x18, 0x18, 0x0, 0x18, 0x18, 0x0, 0x0, 0x0, 0x0]]"

definition font_40 :: "u8 list list" where
  "font_40 =
     [[0x0, 0x0, 0x0, 0x7C, 0xC6, 0xC6, 0xDE, 0xDE, 0xDE, 0xDC, 0xC0, 0x7C, 0x0, 0x0, 0x0, 0x0],
      [0x0, 0x0, 0x10, 0x38, 0x6C, 0xC6, 0xC6, 0xFE, 0xC6, 0xC6, 0xC6, 0xC6, 0x0, 0x0, 0x0, 0x0],
      [0x0, 0x0, 0xFC, 0x66, 0x66, 0x66, 0x7C, 0x66, 0x66, 0x66, 0x66, 0xFC, 0x0, 0x0, 0x0, 0x0],
      [0x0, 0x0, 0x3C, 0x66, 0xC2, 0xC0, 0xC0, 0xC0, 0xC0, 0xC2, 0x66, 0x3C, 0x0, 0x0, 0x0, 0x0],
      [0x0, 0x0, 0xF8, 0x6C, 0x66, 0x66, 0x66, 0x66, 0x66, 0x66, 0x6C, 0xF8, 0x0, 0x0, 0x0, 0x0],
      [0x0, 0x0, 0xFE, 0x66, 0x62, 0x68, 0x78, 0x68, 0x60, 0x62, 0x66, 0xFE, 0x0, 0x0, 0x0, 0x0],
      [0x0, 0x0, 0xFE, 0x66, 0x62, 0x68, 0x78, 0x68, 0x60, 0x60, 0x60, 0xF0, 0x0, 0x0, 0x0, 0x0],
      [0x0, 0x0, 0x3C, 0x66, 0xC2, 0xC0, 0xC0, 0xDE, 0xC6, 0xC6, 0x66, 0x3A, 0x0, 0x0, 0x0, 0x0]]"

definition font_48 :: "u8 list list" where
  "font_48 =
     [[0x0, 0x0, 0xC6, 0xC6, 0xC6, 0xC6, 0xFE, 0xC6, 0xC6, 0xC6, 0xC6, 0xC6, 0x0, 0x0, 0x0, 0x0],
      [0x0, 0x0, 0x3C, 0x18, 0x18, 0x18, 0x18, 0x18, 0x18, 0x18, 0x18, 0x3C, 0x0, 0x0, 0x0, 0x0],
      [0x0, 0x0, 0x1E, 0xC, 0xC, 0xC, 0xC, 0xC, 0xCC, 0xCC, 0xCC, 0x78, 0x0, 0x0, 0x0, 0x0],
      [0x0, 0x0, 0xE6, 0x66, 0x66, 0x6C, 0x78, 0x78, 0x6C, 0x66, 0x66, 0xE6, 0x0, 0x0, 0x0, 0x0],
      [0x0, 0x0, 0xF0, 0x60, 0x60, 0x60, 0x60, 0x60, 0x60, 0x62, 0x66, 0xFE, 0x0, 0x0, 0x0, 0x0],
      [0x0, 0x0, 0xC6, 0xEE, 0xFE, 0xFE, 0xD6, 0xC6, 0xC6, 0xC6, 0xC6, 0xC6, 0x0, 0x0, 0x0, 0x0],
      [0x0, 0x0, 0xC6, 0xE6, 0xF6, 0xFE, 0xDE, 0xCE, 0xC6, 0xC6, 0xC6, 0xC6, 0x0, 0x0, 0x0, 0x0],
      [0x0, 0x0, 0x7C, 0xC6, 0xC6, 0xC6, 0xC6, 0xC6, 0xC6, 0xC6, 0xC6, 0x7C, 0x0, 0x0, 0x0, 0x0]]"

definition font_50 :: "u8 list list" where
  "font_50 =
     [[0x0, 0x0, 0xFC, 0x66, 0x66, 0x66, 0x7C, 0x60, 0x60, 0x60, 0x60, 0xF0, 0x0, 0x0, 0x0, 0x0],
      [0x0, 0x0, 0x7C, 0xC6, 0xC6, 0xC6, 0xC6, 0xC6, 0xC6, 0xD6, 0xDE, 0x7C, 0xC, 0xE, 0x0, 0x0],
      [0x0, 0x0, 0xFC, 0x66, 0x66, 0x66, 0x7C, 0x6C, 0x66, 0x66, 0x66, 0xE6, 0x0, 0x0, 0x0, 0x0],
      [0x0, 0x0, 0x7C, 0xC6, 0xC6, 0x60, 0x38, 0xC, 0x6, 0xC6, 0xC6, 0x7C, 0x0, 0x0, 0x0, 0x0],
      [0x0, 0x0, 0x7E, 0x7E, 0x5A, 0x18, 0x18, 0x18, 0x18, 0x18, 0x18, 0x3C, 0x0, 0x0, 0x0, 0x0],
      [0x0, 0x0, 0xC6, 0xC6, 0xC6, 0xC6, 0xC6, 0xC6, 0xC6, 0xC6, 0xC6, 0x7C, 0x0, 0x0, 0x0, 0x0],
      [0x0, 0x0, 0xC6, 0xC6, 0xC6, 0xC6, 0xC6, 0xC6, 0xC6, 0x6C, 0x38, 0x10, 0x0, 0x0, 0x0, 0x0],
      [0x0, 0x0, 0xC6, 0xC6, 0xC6, 0xC6, 0xD6, 0xD6, 0xD6, 0xFE, 0xEE, 0x6C, 0x0, 0x0, 0x0, 0x0]]"

definition font_58 :: "u8 list list" where
  "font_58 =
     [[0x0, 0x0, 0xC6, 0xC6, 0x6C, 0x7C, 0x38, 0x38, 0x7C, 0x6C, 0xC6, 0xC6, 0x0, 0x0, 0x0, 0x0],
      [0x0, 0x0, 0x66, 0x66, 0x66, 0x66, 0x3C, 0x18, 0x18, 0x18, 0x18, 0x3C, 0x0, 0x0, 0x0, 0x0],
      [0x0, 0x0, 0xFE, 0xC6, 0x86, 0xC, 0x18, 0x30, 0x60, 0xC2, 0xC6, 0xFE, 0x0, 0x0, 0x0, 0x0],
      [0x0, 0x0, 0x3C, 0x30, 0x30, 0x30, 0x30, 0x30, 0x30, 0x30, 0x30, 0x3C, 0x0, 0x0, 0x0, 0x0],
      [0x0, 0x0, 0x0, 0x80, 0xC0, 0xE0, 0x70, 0x38, 0x1C, 0xE, 0x6, 0x2, 0x0, 0x0, 0x0, 0x0],
      [0x0, 0x0, 0x3C, 0xC, 0xC, 0xC, 0xC, 0xC, 0xC, 0xC, 0xC, 0x3C, 0x0, 0x0, 0x0, 0x0],
      [0x10, 0x38, 0x6C, 0xC6, 0x0, 0x0, 0x0, 0x0, 0x0, 0x0, 0x0, 0x0, 0x0, 0x0, 0x0, 0x0],
      [0x0, 0x0, 0x0, 0x0, 0x0, 0x0, 0x0, 0x0, 0x0, 0x0, 0x0, 0x0, 0x0, 0xFF, 0x0, 0x0]]"

definition font_60 :: "u8 list list" where
  "font_60 =
     [[0x30, 0x30, 0x18, 0x0, 0x0, 0x0, 0x0, 0x0, 0x0, 0x0, 0x0, 0x0, 0x0, 0x0, 0x0, 0x0],
      [0x0, 0x0, 0x0, 0x0, 0x0, 0x78, 0xC, 0x7C, 0xCC, 0xCC, 0xCC, 0x76, 0x0, 0x0, 0x0, 0x0],
      [0x0, 0x0, 0xE0, 0x60, 0x60, 0x78, 0x6C, 0x66, 0x66, 0x66, 0x66, 0x7C, 0x0, 0x0, 0x0, 0x0],
      [0x0, 0x0, 0x0, 0x0, 0x0, 0x7C, 0xC6, 0xC0, 0xC0, 0xC0, 0xC6, 0x7C, 0x0, 0x0, 0x0, 0x0],
      [0x0, 0x0, 0x1C, 0xC, 0xC, 0x3C, 0x6C, 0xCC, 0xCC, 0xCC, 0xCC, 0x76, 0x0, 0x0, 0x0, 0x0],
      [0x0, 0x0, 0x0, 0x0, 0x0, 0x7C, 0xC6, 0xFE, 0xC0, 0xC0, 0xC6, 0x7C, 0x0, 0x0, 0x0, 0x0],
      [0x0, 0x0, 0x38, 0x6C, 0x64, 0x60, 0xF0, 0x60, 0x60, 0x60, 0x60, 0xF0, 0x0, 0x0, 0x0, 0x0],
      [0x0, 0x0, 0x0, 0x0, 0x0, 0x76, 0xCC, 0xCC, 0xCC, 0xCC, 0xCC, 0x7C, 0xC, 0xCC, 0x78, 0x0]]"

definition font_68 :: "u8 list list" where
  "font_68 =
     [[0x0, 0x0, 0xE0, 0x60, 0x60, 0x6C, 0x76, 0x66, 0x66, 0x66, 0x66, 0xE6, 0x0, 0x0, 0x0, 0x0],
      [0x0, 0x0, 0x18, 0x18, 0x0, 0x38, 0x18, 0x18, 0x18, 0x18, 0x18, 0x3C, 0x0, 0x0, 0x0, 0x0],
      [0x0, 0x0, 0x6, 0x6, 0x0, 0xE, 0x6, 0x6, 0x6, 0x6, 0x6, 0x6, 0x66, 0x66, 0x3C, 0x0],
      [0x0, 0x0, 0xE0, 0x60, 0x60, 0x66, 0x6C, 0x78, 0x78, 0x6C, 0x66, 0xE6, 0x0, 0x0, 0x0, 0x0],
      [0x0, 0x0, 0x38, 0x18, 0x18, 0x18, 0x18, 0x18, 0x18, 0x18, 0x18, 0x3C, 0x0, 0x0, 0x0, 0x0],
      [0x0, 0x0, 0x0, 0x0, 0x0, 0xEC, 0xFE, 0xD6, 0xD6, 0xD6, 0xD6, 0xC6, 0x0, 0x0, 0x0, 0x0],
      [0x0, 0x0, 0x0, 0x0, 0x0, 0xDC, 0x66, 0x66, 0x66, 0x66, 0x66, 0x66, 0x0, 0x0, 0x0, 0x0],
      [0x0, 0x0, 0x0, 0x0, 0x0, 0x7C, 0xC6, 0xC6, 0xC6, 0xC6, 0xC6, 0x7C, 0x0, 0x0, 0x0, 0x0]]"

definition font_70 :: "u8 list list" where
  "font_70 =
     [[0x0, 0x0, 0x0, 0x0, 0x0, 0xDC, 0x66, 0x66, 0x66, 0x66, 0x66, 0x7C, 0x60, 0x60, 0xF0, 0x0],
      [0x0, 0x0, 0x0, 0x0, 0x0, 0x76, 0xCC, 0xCC, 0xCC, 0xCC, 0xCC, 0x7C, 0xC, 0xC, 0x1E, 0x0],
      [0x0, 0x0, 0x0, 0x0, 0x0, 0xDC, 0x76, 0x66, 0x60, 0x60, 0x60, 0xF0, 0x0, 0x0, 0x0, 0x0],
      [0x0, 0x0, 0x0, 0x0, 0x0, 0x7C, 0xC6, 0x60, 0x38, 0xC, 0xC6, 0x7C, 0x0, 0x0, 0x0, 0x0],
      [0x0, 0x0, 0x10, 0x30, 0x30, 0xFC, 0x30, 0x30, 0x30, 0x30, 0x36, 0x1C, 0x0, 0x0, 0x0, 0x0],
      [0x0, 0x0, 0x0, 0x0, 0x0, 0xCC, 0xCC, 0xCC, 0xCC, 0xCC, 0xCC, 0x76, 0x0, 0x0, 0x0, 0x0],
      [0x0, 0x0, 0x0, 0x0, 0x0, 0x66, 0x66, 0x66, 0x66, 0x66, 0x3C, 0x18, 0x0, 0x0, 0x0, 0x0],
      [0x0, 0x0, 0x0, 0x0, 0x0, 0xC6, 0xC6, 0xD6, 0xD6, 0xD6, 0xFE, 0x6C, 0x0, 0x0, 0x0, 0x0]]"

definition font_78 :: "u8 list list" where
  "font_78 =
     [[0x0, 0x0, 0x0, 0x0, 0x0, 0xC6, 0x6C, 0x38, 0x38, 0x38, 0x6C, 0xC6, 0x0, 0x0, 0x0, 0x0],
      [0x0, 0x0, 0x0, 0x0, 0x0, 0xC6, 0xC6, 0xC6, 0xC6, 0xC6, 0xC6, 0x7E, 0x6, 0xC, 0xF8, 0x0],
      [0x0, 0x0, 0x0, 0x0, 0x0, 0xFE, 0xCC, 0x18, 0x30, 0x60, 0xC6, 0xFE, 0x0, 0x0, 0x0, 0x0],
      [0x0, 0x0, 0xE, 0x18, 0x18, 0x18, 0x70, 0x18, 0x18, 0x18, 0x18, 0xE, 0x0, 0x0, 0x0, 0x0],
      [0x0, 0x0, 0x18, 0x18, 0x18, 0x18, 0x0, 0x18, 0x18, 0x18, 0x18, 0x18, 0x0, 0x0, 0x0, 0x0],
      [0x0, 0x0, 0x70, 0x18, 0x18, 0x18, 0xE, 0x18, 0x18, 0x18, 0x18, 0x70, 0x0, 0x0, 0x0, 0x0],
      [0x0, 0x0, 0x76, 0xDC, 0x0, 0x0, 0x0, 0x0, 0x0, 0x0, 0x0, 0x0, 0x0, 0x0, 0x0, 0x0],
      [0x0, 0x0, 0x0, 0x0, 0x0, 0x0, 0x0, 0x0, 0x0, 0x0, 0x0, 0x0, 0x0, 0x0, 0x0, 0x0]]"

definition font8x16 :: "u8 list list" where
  "font8x16 = concat
     [font_00, font_08, font_10, font_18, font_20, font_28, font_30, font_38,
      font_40, font_48, font_50, font_58, font_60, font_68, font_70, font_78]"

lemmas font_defs = font_00_def font_08_def font_10_def font_18_def font_20_def font_28_def
  font_30_def font_38_def font_40_def font_48_def font_50_def font_58_def
  font_60_def font_68_def font_70_def font_78_def

text \<open>The table has a glyph of sixteen rows for each of the 128 ASCII codes.\<close>

lemma length_font8x16: "length font8x16 = 128"
  by (simp add: font8x16_def font_defs)

lemma font_rows: "\<forall>g \<in> set font8x16. length g = FONT_HEIGHT"
  by (simp add: font8x16_def font_defs FONT_HEIGHT_def)

end
