(* ===== verification/Video.thy ===== *)
theory Video
  imports Font
begin

text \<open>
  The video driver (\<open>Kernel/drivers/videoDriver.c\<close>), the printing of the exception handler
  (\<open>Kernel/exceptions/exceptions.c\<close>) that uses it, and the text console of
  \<open>Kernel/console/naiveConsole.c\<close>.  The frame buffer is a function from byte offsets; the mode
  information that the boot loader leaves in memory is part of the state.  A character code above 127
  reads past the font table: \<open>after_font\<close> is what the memory holds there.
\<close>

section \<open>State\<close>

record vbe_mode_info =
  vbe_pitch :: u16
  vbe_width :: u16
  vbe_height :: u16
  vbe_bpp :: u8
  vbe_framebuffer :: u32

record video =
  VBEModeInfo :: vbe_mode_info
  fb :: "u64 \<Rightarrow> u8"
  after_font :: "nat \<Rightarrow> u8 list"
  cursorX :: u64
  cursorY :: u64
  fontScale :: u64

definition BACKGROUND_COLOR :: u32 where "BACKGROUND_COLOR = 0x000000"
definition FOREGROUND_COLOR :: u64 where "FOREGROUND_COLOR = 0xFFFFFF"
definition ERROR_FG_COLOR :: u64 where "ERROR_FG_COLOR = 0xFF0000"
definition ERROR_BG_COLOR :: u64 where "ERROR_BG_COLOR = 0x000000"

text \<open>The 16-bit fields are converted to 64 bits where they meet a \<open>uint64_t\<close>.\<close>

abbreviation scr_width :: "video \<Rightarrow> u64" where "scr_width v \<equiv> ucast (vbe_width (VBEModeInfo v))"
abbreviation scr_height :: "video \<Rightarrow> u64" where "scr_height v \<equiv> ucast (vbe_height (VBEModeInfo v))"
abbreviation char_w :: "video \<Rightarrow> u64" where "char_w v \<equiv> of_nat FONT_WIDTH * fontScale v"
abbreviation char_h :: "video \<Rightarrow> u64" where "char_h v \<equiv> of_nat FONT_HEIGHT * fontScale v"

section \<open>Pixels\<close>

definition video_putPixel :: "u32 \<Rightarrow> u64 \<Rightarrow> u64 \<Rightarrow> video \<Rightarrow> video" where
  "video_putPixel color x y v =
     (let offset = x * ucast (vbe_bpp (VBEModeInfo v) div 8) + y * ucast (vbe_pitch (VBEModeInfo v))
      in v\<lparr>fb := (fb v)(offset := ucast (color AND 0xFF),
                        offset + 1 := ucast (drop_bit 8 color AND 0xFF),
                        offset + 2 := ucast (drop_bit 16 color AND 0xFF))\<rparr>)"

text \<open>The nested loops over a rectangle, row by row; \<open>for (int j = 0; j < n; j++)\<close> with an unsigned bound.\<close>

definition for_upto :: "u64 \<Rightarrow> (u64 \<Rightarrow> 's \<Rightarrow> 's) \<Rightarrow> 's \<Rightarrow> 's" where
  "for_upto n body = fold (\<lambda>i. body (of_nat i)) [0..<unat n]"

definition glyph_of :: "char \<Rightarrow> video \<Rightarrow> u8 list" where
  "glyph_of c v =
     (let i = (of_char c :: nat) in if i < length font8x16 then font8x16 ! i else after_font v i)"

definition glyph_bit :: "u8 list \<Rightarrow> nat \<Rightarrow> nat \<Rightarrow> bool" where
  "glyph_bit g row col = bit (g ! row) (7 - col)"

definition draw_glyph :: "u8 list \<Rightarrow> u32 \<Rightarrow> u32 \<Rightarrow> video \<Rightarrow> video" where
  "draw_glyph g foreground background =
     fold (\<lambda>y. fold (\<lambda>x v.
       for_upto (fontScale v) (\<lambda>sy. for_upto (fontScale v) (\<lambda>sx v.
         video_putPixel (if glyph_bit g y x then foreground else background)
           (cursorX v + of_nat x * fontScale v + sx) (cursorY v + of_nat y * fontScale v + sy) v)) v)
       [0..<FONT_WIDTH]) [0..<FONT_HEIGHT]"

section \<open>Scrolling and new lines\<close>

definition video_scrollUp :: "video \<Rightarrow> video" where
  "video_scrollUp v =
     (let row_bytes = ucast (vbe_pitch (VBEModeInfo v)) :: u64;
          n_rows = scr_height v;
          move_bytes = sint (ucast ((n_rows - char_h v) * row_bytes) :: cint);
          src = char_h v * row_bytes;
          v1 = fold (\<lambda>i v. v\<lparr>fb := (fb v)(of_nat i := fb v (src + of_nat i))\<rparr>) [0..<nat move_bytes] v;
          first = nat (sint (ucast (n_rows - char_h v) :: cint))
      in fold (\<lambda>y. fold (\<lambda>x. video_putPixel BACKGROUND_COLOR (of_nat x) (of_nat y)) [0..<unat (scr_width v)])
           [first..<unat n_rows] v1)"

definition video_newLine :: "video \<Rightarrow> video" where
  "video_newLine v0 =
     (let v = v0\<lparr>cursorX := 0\<rparr>
      in if cursorY v + char_h v < scr_height v then v\<lparr>cursorY := cursorY v + char_h v\<rparr>
         else (video_scrollUp v)\<lparr>cursorY := scr_height v - char_h v\<rparr>)"

definition clear_cell :: "video \<Rightarrow> video" where
  "clear_cell v =
     for_upto (char_w v) (\<lambda>i. for_upto (char_h v) (\<lambda>j v.
       video_putPixel BACKGROUND_COLOR (cursorX v + i) (cursorY v + j) v)) v"

definition video_backSpace :: "video \<Rightarrow> video" where
  "video_backSpace v =
     (if cursorX v \<ge> char_w v then clear_cell (v\<lparr>cursorX := cursorX v - char_w v\<rparr>)
      else if cursorY v \<ge> char_h v
      then clear_cell (v\<lparr>cursorY := cursorY v - char_h v, cursorX := scr_width v - char_w v\<rparr>)
      else v)"

definition video_tab :: "video \<Rightarrow> video" where
  "video_tab v =
     (let step = char_w v * 8;
          v1 = v\<lparr>cursorX := (cursorX v div step + 1) * step\<rparr>
      in if cursorX v1 \<ge> scr_width v1 then video_newLine v1 else v1)"

section \<open>Characters\<close>

text \<open>\<open>isSpecialChar\<close>: the screen after a control character, or none.\<close>

definition isSpecialChar :: "char \<Rightarrow> video \<Rightarrow> video option" where
  "isSpecialChar c v =
     (if c = CHR 0x0A then Some (video_newLine v)
      else if c = CHR 0x08 then Some (video_backSpace v)
      else if c = CHR 0x09 then Some (video_tab v)
      else None)"

definition video_putChar :: "char \<Rightarrow> u64 \<Rightarrow> u64 \<Rightarrow> video \<Rightarrow> video" where
  "video_putChar c foregroundColor backgroundColor v =
     (case isSpecialChar c v of
        Some v' \<Rightarrow> v'
      | None \<Rightarrow>
          let v1 = draw_glyph (glyph_of c v) (ucast foregroundColor) (ucast backgroundColor) v;
              v2 = v1\<lparr>cursorX := cursorX v1 + char_w v1\<rparr>
          in if cursorX v2 \<ge> scr_width v2 then video_newLine v2 else v2)"

definition video_putString :: "string \<Rightarrow> u64 \<Rightarrow> u64 \<Rightarrow> video \<Rightarrow> video" where
  "video_putString str foregroundColor backgroundColor =
     fold (\<lambda>c. video_putChar c foregroundColor backgroundColor) str"

definition video_putCharXY :: "char \<Rightarrow> int \<Rightarrow> int \<Rightarrow> u32 \<Rightarrow> u32 \<Rightarrow> video \<Rightarrow> video" where
  "video_putCharXY c x y fg bg v =
     (let printable = 0x20 \<le> (of_char c :: nat) \<and> (of_char c :: nat) \<le> 0x7F;
          g = glyph_of (if printable then c else CHR 0x20) v
      in fold (\<lambda>row. fold (\<lambda>col.
           video_putPixel (if glyph_bit g row col then fg else bg) (word_of_int (x + int col)) (word_of_int (y + int row)))
           [0..<FONT_WIDTH]) [0..<FONT_HEIGHT] v)"

section \<open>Whole screen and cursor\<close>

definition video_clearScreenColor :: "u32 \<Rightarrow> video \<Rightarrow> video" where
  "video_clearScreenColor color v =
     (fold (\<lambda>y. fold (\<lambda>x. video_putPixel color (of_nat x) (of_nat y)) [0..<unat (scr_width v)])
        [0..<unat (scr_height v)] v)\<lparr>cursorX := 0, cursorY := 0\<rparr>"

definition video_clearScreen :: "video \<Rightarrow> video" where
  "video_clearScreen v =
     (fold (\<lambda>i. fold (\<lambda>j. video_putPixel BACKGROUND_COLOR (of_nat j) (of_nat i)) [0..<unat (scr_width v)])
        [0..<unat (scr_height v)] v)\<lparr>cursorX := 0, cursorY := 0\<rparr>"

definition video_moveCursorLeft :: "video \<Rightarrow> video" where
  "video_moveCursorLeft v =
     (if cursorX v \<ge> char_w v then v\<lparr>cursorX := cursorX v - char_w v\<rparr>
      else if cursorY v \<ge> char_h v
      then v\<lparr>cursorY := cursorY v - char_h v, cursorX := scr_width v - char_w v\<rparr>
      else v)"

definition video_moveCursorRight :: "video \<Rightarrow> video" where
  "video_moveCursorRight v =
     (if cursorX v + char_w v < scr_width v then v\<lparr>cursorX := cursorX v + char_w v\<rparr>
      else if cursorY v + char_h v < scr_height v then v\<lparr>cursorX := 0, cursorY := cursorY v + char_h v\<rparr>
      else v)"

definition video_moveCursorUp :: "video \<Rightarrow> video" where
  "video_moveCursorUp v = (if cursorY v \<ge> char_h v then v\<lparr>cursorY := cursorY v - char_h v\<rparr> else v)"

definition video_moveCursorDown :: "video \<Rightarrow> video" where
  "video_moveCursorDown v =
     (if cursorY v + char_h v < scr_height v then v\<lparr>cursorY := cursorY v + char_h v\<rparr> else v)"

definition video_drawCursor :: "u64 \<Rightarrow> video \<Rightarrow> video" where
  "video_drawCursor color v =
     for_upto (char_w v) (\<lambda>x v. video_putPixel (ucast color) (cursorX v + x) (cursorY v + char_h v - 2) v) v"

definition video_printError :: "string \<Rightarrow> video \<Rightarrow> video" where
  "video_printError errorMsg = video_putString errorMsg ERROR_FG_COLOR ERROR_BG_COLOR"

definition video_get_width :: "video \<Rightarrow> u16" where "video_get_width v = vbe_width (VBEModeInfo v)"
definition video_get_height :: "video \<Rightarrow> u16" where "video_get_height v = vbe_height (VBEModeInfo v)"

section \<open>Exceptions\<close>

definition regs :: "string list" where
  "regs = [''RAX'', ''RBX'', ''RCX'', ''RDX'', ''RSI'', ''RDI'', ''RBP'', ''RSP'', ''R8'', ''R9'', ''R10'',
     ''R11'', ''R12'', ''R13'', ''R14'', ''R15'', ''RIP'', ''RFLAGS'']"

definition zero_division :: "video \<Rightarrow> video" where
  "zero_division v = video_newLine (video_printError ''Error: No esta permitida la division por cero'' v)"

definition invalidOperation :: "video \<Rightarrow> video" where
  "invalidOperation v = video_newLine (video_printError ''Error: Operacion invalida'' v)"

text \<open>The sixteen digits that \<open>video_printRegister\<close> stores from the last position down to the first.\<close>

fun hex_digits :: "nat \<Rightarrow> u64 \<Rightarrow> string" where
  "hex_digits 0 w = []"
| "hex_digits (Suc n) w = hex_digits n (drop_bit 4 w) @ [''0123456789ABCDEF'' ! unat (w AND 0xF)]"

definition video_printRegister :: "string \<Rightarrow> u64 \<Rightarrow> video \<Rightarrow> video" where
  "video_printRegister regName regValue v =
     (let v1 = video_putString regName 0xFFFFFF 0x000000 v;
          v2 = video_putString '': 0x'' 0xFFFFFF 0x000000 v1
      in video_newLine (video_putString (hex_digits 16 regValue) 0xFFFFFF 0x000000 v2))"

definition video_printRegisters :: "u64 list \<Rightarrow> video \<Rightarrow> video" where
  "video_printRegisters exceptionRegisters =
     fold (\<lambda>i. video_printRegister (regs ! i) (exceptionRegisters ! i)) [0..<18]"

definition exceptionDispatcher :: "int \<Rightarrow> u64 list \<Rightarrow> video \<Rightarrow> video" where
  "exceptionDispatcher exception exceptionRegisters v =
     (let v1 = (if exception = 0 then zero_division v else if exception = 6 then invalidOperation v else v)
      in video_printRegisters exceptionRegisters (video_newLine v1))"

section \<open>Text console\<close>

text \<open>The text frame buffer is what \<open>ncPrintChar\<close> writes: one character every two bytes from the
  current position, an offset from \<open>0xB8000\<close>.\<close>

record console =
  nc_video :: "u64 \<Rightarrow> char"
  nc_pos :: u64

definition ncPrintChar :: "char \<Rightarrow> console \<Rightarrow> console" where
  "ncPrintChar c v = v\<lparr>nc_video := (nc_video v)(nc_pos v := c), nc_pos := nc_pos v + 2\<rparr>"

definition ncPrint :: "string \<Rightarrow> console \<Rightarrow> console" where
  "ncPrint str = fold ncPrintChar str"

partial_function (option) ncNewline :: "console \<Rightarrow> console option" where
  "ncNewline v =
     (let v1 = ncPrintChar (CHR '' '') v
      in if nc_pos v1 mod 160 \<noteq> 0 then ncNewline v1 else Some v1)"

declare ncNewline.simps [code]

definition base_digit :: "u32 \<Rightarrow> char" where
  "base_digit r = (if r < 10 then char_of (unat r + 48) else char_of (unat r + 65 - 10))"

text \<open>The digits from the lowest to the highest, as the first loop of \<open>uintToBase\<close> stores them; the
  second loop reverses them.  A base of 0 divides by zero and one of 1 never ends.\<close>

partial_function (option) digits_from :: "u64 \<Rightarrow> u32 \<Rightarrow> string \<Rightarrow> string option" where
  "digits_from v base acc =
     (if base = 0 then None
      else
        let acc' = acc @ [base_digit (ucast (v mod ucast base))];
            v' = v div ucast base
        in if v' \<noteq> 0 then digits_from v' base acc' else Some acc')"

declare digits_from.simps [code]

fun swap_ends :: "nat \<Rightarrow> nat \<Rightarrow> 'a list \<Rightarrow> 'a list" where
  "swap_ends i 0 xs = xs"
| "swap_ends i (Suc j) xs =
     (if i < Suc j then swap_ends (Suc i) j (xs[i := xs ! Suc j, Suc j := xs ! i]) else xs)"

definition uintToBase :: "u64 \<Rightarrow> u32 \<Rightarrow> (u32 \<times> string) option" where
  "uintToBase v base =
     do {
       ds \<leftarrow> digits_from v base [];
       Some (of_nat (length ds), swap_ends 0 (length ds - 1) ds)
     }"

definition ncPrintBase :: "u64 \<Rightarrow> u32 \<Rightarrow> console \<Rightarrow> console option" where
  "ncPrintBase v base c = do { (_, ds) \<leftarrow> uintToBase v base; Some (ncPrint ds c) }"

definition ncPrintDec :: "u64 \<Rightarrow> console \<Rightarrow> console option" where
  "ncPrintDec v = ncPrintBase v 10"

definition ncPrintHex :: "u64 \<Rightarrow> console \<Rightarrow> console option" where
  "ncPrintHex v = ncPrintBase v 16"

end
