(* ===== verification/Kernel_Lib.thy ===== *)
theory Kernel_Lib
  imports Kernel_Prelude
begin

text \<open>
  The memory routines of \<open>Kernel/lib/lib.c\<close> on a byte-addressed memory, and the module loader
  (\<open>Kernel/loader/moduleLoader.c\<close>) that copies the user programs with them.
\<close>

type_synonym bytes = "ptr \<Rightarrow> u8"

section \<open>Routines\<close>

text \<open>\<open>memset\<close> stores from the last byte down to the first.\<close>

fun memset_loop :: "ptr \<Rightarrow> u8 \<Rightarrow> nat \<Rightarrow> bytes \<Rightarrow> bytes" where
  "memset_loop dst chr 0 m = m"
| "memset_loop dst chr (Suc n) m = memset_loop dst chr n (m(dst + of_nat n := chr))"

definition memset :: "ptr \<Rightarrow> cint \<Rightarrow> u64 \<Rightarrow> bytes \<Rightarrow> bytes" where
  "memset destination c len m = memset_loop destination (ucast c) (unat len) m"

text \<open>32-bit loads and stores are little-endian.\<close>

definition load32 :: "bytes \<Rightarrow> ptr \<Rightarrow> u32" where
  "load32 m a = ucast (m a) OR push_bit 8 (ucast (m (a + 1))) OR push_bit 16 (ucast (m (a + 2)))
     OR push_bit 24 (ucast (m (a + 3)))"

definition store32 :: "ptr \<Rightarrow> u32 \<Rightarrow> bytes \<Rightarrow> bytes" where
  "store32 a w m = m(a := ucast w, a + 1 := ucast (drop_bit 8 w), a + 2 := ucast (drop_bit 16 w),
     a + 3 := ucast (drop_bit 24 w))"

definition copy_words :: "ptr \<Rightarrow> ptr \<Rightarrow> nat \<Rightarrow> bytes \<Rightarrow> bytes" where
  "copy_words d s n m = fold (\<lambda>i m. store32 (d + of_nat (4 * i)) (load32 m (s + of_nat (4 * i))) m) [0..<n] m"

definition copy_bytes :: "ptr \<Rightarrow> ptr \<Rightarrow> nat \<Rightarrow> bytes \<Rightarrow> bytes" where
  "copy_bytes d s n m = fold (\<lambda>i m. m(d + of_nat i := m (s + of_nat i))) [0..<n] m"

definition memcpy :: "ptr \<Rightarrow> ptr \<Rightarrow> u64 \<Rightarrow> bytes \<Rightarrow> bytes" where
  "memcpy destination source len m =
     (if destination mod 4 = 0 \<and> source mod 4 = 0 \<and> len mod 4 = 0
      then copy_words destination source (unat (len div 4)) m
      else copy_bytes destination source (unat len) m)"

partial_function (option) strlen_from :: "bytes \<Rightarrow> ptr \<Rightarrow> u64 \<Rightarrow> u64 option" where
  "strlen_from m s len = (if m (s + len) \<noteq> 0 then strlen_from m s (len + 1) else Some len)"

declare strlen_from.simps [code]

definition strlen :: "ptr \<Rightarrow> bytes \<Rightarrow> u64 option" where
  "strlen s m = (if s = NULL then Some 0 else strlen_from m s 0)"

section \<open>Module loader\<close>

definition readUint32 :: "ptr \<Rightarrow> bytes \<Rightarrow> u32 \<times> ptr" where
  "readUint32 address m = (load32 m address, address + 4)"

text \<open>Without the console messages, which do not touch this memory.\<close>

definition loadModule :: "ptr \<Rightarrow> ptr \<Rightarrow> bytes \<Rightarrow> ptr \<times> bytes" where
  "loadModule module target m =
     (let (moduleSize, body) = readUint32 module m
      in (body + ucast moduleSize, memcpy target body (ucast moduleSize) m))"

fun load_modules_from :: "ptr \<Rightarrow> ptr list \<Rightarrow> bytes \<Rightarrow> bytes" where
  "load_modules_from module [] m = m"
| "load_modules_from module (t # ts) m =
     (let (module', m') = loadModule module t m in load_modules_from module' ts m')"

text \<open>The target addresses of the modules; the count in the payload must not exceed their number, or
  the loop reads past the array (\<open>None\<close>).\<close>

definition loadModules :: "ptr \<Rightarrow> ptr list \<Rightarrow> bytes \<Rightarrow> bytes option" where
  "loadModules payloadStart targets m =
     (let (moduleCount, first) = readUint32 payloadStart m
      in if unat moduleCount \<le> length targets
         then Some (load_modules_from first (take (unat moduleCount) targets) m) else None)"

definition clearBSS :: "ptr \<Rightarrow> u64 \<Rightarrow> bytes \<Rightarrow> bytes" where
  "clearBSS bssAddress bssSize m = memset bssAddress 0 bssSize m"

end
