(* ===== verification/Process_Life.thy ===== *)
theory Process_Life
  imports Pipe MM_Buddy Video Kernel_Lib
begin

text \<open>
  Creation and destruction of processes (\<open>Kernel/proc/process.c\<close>) on the whole kernel state: the
  layers below, the memory manager that was compiled in, and the screen.  The control block and the
  stack of a process come from \<open>mm_alloc\<close>.
\<close>

section \<open>Kernel state\<close>

datatype mm = Mm_simple mm_simple | Mm_buddy mm_buddy

definition mm_alloc :: "u64 \<Rightarrow> mm \<Rightarrow> (ptr \<times> mm) option" where
  "mm_alloc sz m =
     (case m of
        Mm_simple a \<Rightarrow> map_option (map_prod (\<lambda>x. x) Mm_simple) (mm_alloc_simple sz a)
      | Mm_buddy b \<Rightarrow> map_option (map_prod (\<lambda>x. x) Mm_buddy) (mm_alloc_buddy sz b))"

definition mm_free :: "ptr \<Rightarrow> mm \<Rightarrow> mm option" where
  "mm_free p m =
     (case m of
        Mm_simple a \<Rightarrow> Some (Mm_simple (mm_free_simple p a))
      | Mm_buddy b \<Rightarrow> map_option Mm_buddy (mm_free_buddy p b))"

definition mm_init_default :: "mm \<Rightarrow> mm option" where
  "mm_init_default m =
     (case m of
        Mm_simple a \<Rightarrow> Some (Mm_simple (mm_init_default_simple a))
      | Mm_buddy b \<Rightarrow> map_option Mm_buddy (mm_init_default_buddy b))"

definition mm_get_stats :: "mm \<Rightarrow> mm_stats option" where
  "mm_get_stats m = (case m of Mm_simple a \<Rightarrow> mm_get_stats_simple a | Mm_buddy b \<Rightarrow> mm_get_stats_buddy b)"

definition mm_get_manager_name :: "mm \<Rightarrow> string" where
  "mm_get_manager_name m =
     (case m of Mm_simple _ \<Rightarrow> mm_get_manager_name_simple | Mm_buddy _ \<Rightarrow> mm_get_manager_name_buddy)"

text \<open>\<open>umem\<close> is the memory that user programs hand buffers of to the kernel; \<open>process_start\<close> and
  \<open>idle_entry\<close> are addresses of kernel code.\<close>

record kernel = pipes +
  kmm :: mm
  screen :: video
  umem :: bytes
  process_start :: ptr
  idle_entry :: ptr

definition kalloc :: "u64 \<Rightarrow> kernel \<Rightarrow> (ptr \<times> kernel) option" where
  "kalloc sz s = do { (p, m) \<leftarrow> mm_alloc sz (kmm s); Some (p, s\<lparr>kmm := m\<rparr>) }"

definition kfree :: "ptr \<Rightarrow> kernel \<Rightarrow> kernel option" where
  "kfree p s = do { m \<leftarrow> mm_free p (kmm s); Some (s\<lparr>kmm := m\<rparr>) }"

section \<open>First context\<close>

text \<open>\<open>setup_process_context\<close> of \<open>Kernel/asm/interrupts.asm\<close> pushes the frame that the first
  \<open>popState; iretq\<close> of the process consumes.\<close>

fun push_words :: "u64 list \<Rightarrow> u64 \<Rightarrow> (u64 \<Rightarrow> u64) \<Rightarrow> u64 \<times> (u64 \<Rightarrow> u64)" where
  "push_words [] rsp mem = (rsp, mem)"
| "push_words (w # ws) rsp mem = push_words ws (rsp - 8) (mem(rsp - 8 := w))"

definition first_frame :: "ptr \<Rightarrow> ptr \<Rightarrow> ptr \<Rightarrow> ptr \<Rightarrow> u64 list" where
  "first_frame start stack_top entry arg =
     [0, stack_top, 0x202, 8, start,
      0, 0, 0, 0, stack_top, arg, 0, entry, 0, 0, 0, 0, 0, 0, 0]"

definition setup_process_context :: "ptr \<Rightarrow> ptr \<Rightarrow> ptr \<Rightarrow> kernel \<Rightarrow> u64 \<times> kernel" where
  "setup_process_context stack_top entry arg s =
     (let (rsp, mem) = push_words (first_frame (process_start s) stack_top entry arg)
            (stack_top AND NOT 15) (stack_mem s)
      in (rsp, s\<lparr>stack_mem := mem\<rparr>))"

section \<open>Creation\<close>

definition STDIN :: nat where "STDIN = 0"
definition STDOUT :: nat where "STDOUT = 1"

text \<open>\<open>sizeof (process_t)\<close> on x86-64.\<close>

definition sizeof_process :: u64 where "sizeof_process = 480"

definition terminal_fd :: fd_entry where
  "terminal_fd = \<lparr>fd_type = FD_TYPE_TERMINAL, fd_pipe = None\<rparr>"

definition zero_pcb :: process_control_block where
  "zero_pcb = \<lparr>p_pid = 0, p_name = [], p_state = PROCESS_STATE_NEW, p_priority = 0, p_base_priority = 0,
     p_wait_ticks = 0, p_rsp = 0, p_rbp = 0, p_kernel_stack_base = 0, p_kernel_stack_top = 0,
     p_user_stack_base = 0, p_user_stack_top = 0, p_entry_point = 0, p_entry_arg = 0, p_waiting_on_pid = 0,
     p_is_foreground = 0, p_parent = 0, p_first_child = 0, p_next_sibling = 0, p_prev_sibling = 0,
     p_queue_next = 0, p_queue_prev = 0, p_waiters_head = 0, p_waiter_next = 0, p_waiting_on_sem = 0,
     p_sem_waiter_next = 0, p_fds = replicate MAX_FDS terminal_fd\<rparr>"

definition copy_name :: "string option \<Rightarrow> string" where
  "copy_name nm = take PROCESS_NAME_MAX_LEN (case nm of None \<Rightarrow> ''proc'' | Some src \<Rightarrow> src)"

definition process_system_init :: "'a sched_scheme \<Rightarrow> 'a sched_scheme" where
  "process_system_init s = s\<lparr>next_pid := 1\<rparr>"

definition set_fd :: "ptr \<Rightarrow> nat \<Rightarrow> fd_entry \<Rightarrow> 'a sched_scheme \<Rightarrow> 'a sched_scheme" where
  "set_fd p i e s = upd_proc p (\<lambda>b. b\<lparr>p_fds := (p_fds b)[i := e]\<rparr>) s"

abbreviation fd :: "'a sched_scheme \<Rightarrow> ptr \<Rightarrow> nat \<Rightarrow> fd_entry" where
  "fd s p i \<equiv> p_fds (proc s p) ! i"

text \<open>A standard descriptor attached to a pipe named by its id.\<close>

definition attach_std :: "ptr \<Rightarrow> nat \<Rightarrow> bool \<Rightarrow> u64 \<Rightarrow> 'a pipes_scheme \<Rightarrow> 'a pipes_scheme option" where
  "attach_std p i is_writer pid s =
     (if pid = 0 then Some s
      else case pipe_get_by_id pid s of
             None \<Rightarrow> Some s
           | Some k \<Rightarrow> do {
               (ok, s1) \<leftarrow> pipe_open_by_id pid is_writer s;
               Some (if ok \<noteq> 0
                     then set_fd p i \<lparr>fd_type = (if is_writer then FD_TYPE_PIPE_WRITE else FD_TYPE_PIPE_READ),
                                       fd_pipe = Some k\<rparr> s1
                     else s1)
             })"

text \<open>One iteration of the loop that lets the child inherit the descriptors of the parent.\<close>

definition inherit_fd :: "ptr \<Rightarrow> ptr \<Rightarrow> nat \<Rightarrow> 'a pipes_scheme \<Rightarrow> 'a pipes_scheme option" where
  "inherit_fd parent p i s =
     (let pe = fd s parent i
      in if fd_type pe = FD_TYPE_PIPE_READ \<or> fd_type pe = FD_TYPE_PIPE_WRITE
         then if fd_pipe pe \<noteq> None \<and> pipe_get_id (fd_pipe pe) s \<noteq> 0
              then do {
                let s0 = set_fd p i ((fd s p i)\<lparr>fd_type := fd_type pe\<rparr>) s;
                (ok, s1) \<leftarrow> pipe_open_by_id (pipe_get_id (fd_pipe pe) s0) (fd_type pe = FD_TYPE_PIPE_WRITE) s0;
                Some (if ok \<noteq> 0 then set_fd p i ((fd s1 p i)\<lparr>fd_pipe := fd_pipe pe\<rparr>) s1
                      else set_fd p i terminal_fd s1)
              }
              else Some (set_fd p i terminal_fd s)
         else Some (set_fd p i \<lparr>fd_type = fd_type pe, fd_pipe = None\<rparr> s))"

fun inherit_fds :: "nat list \<Rightarrow> ptr \<Rightarrow> ptr \<Rightarrow> u64 \<Rightarrow> u64 \<Rightarrow> 'a pipes_scheme \<Rightarrow> 'a pipes_scheme option" where
  "inherit_fds [] parent p stdin_id stdout_id s = Some s"
| "inherit_fds (i # is) parent p stdin_id stdout_id s =
     (if (i = STDIN \<and> stdin_id \<noteq> 0) \<or> (i = STDOUT \<and> stdout_id \<noteq> 0)
      then inherit_fds is parent p stdin_id stdout_id s
      else do { s1 \<leftarrow> inherit_fd parent p i s; inherit_fds is parent p stdin_id stdout_id s1 })"

definition link_child :: "ptr \<Rightarrow> ptr \<Rightarrow> 'a sched_scheme \<Rightarrow> 'a sched_scheme" where
  "link_child parent p s =
     (let s1 = upd_proc p (\<lambda>b. b\<lparr>p_parent := parent, p_next_sibling := p_first_child (proc s parent)\<rparr>) s;
          fc = p_first_child (proc s1 parent);
          s2 = (if fc \<noteq> NULL then upd_proc fc (p_prev_sibling_update (\<lambda>_. p)) s1 else s1)
      in upd_proc parent (p_first_child_update (\<lambda>_. p)) s2)"

definition process_create ::
  "string option \<Rightarrow> ptr \<Rightarrow> ptr \<Rightarrow> ptr \<Rightarrow> int \<Rightarrow> u64 \<Rightarrow> u64 \<Rightarrow> kernel \<Rightarrow> (ptr \<times> kernel) option" where
  "process_create nm entry arg parent fg stdin_id stdout_id s0 =
     (if entry = NULL then Some (NULL, s0)
      else do {
        (p, s1) \<leftarrow> kalloc sizeof_process s0;
        if p = NULL then Some (NULL, s1)
        else do {
          let s2 = upd_proc p (\<lambda>_. zero_pcb) s1;
          (stk, s3) \<leftarrow> kalloc PROCESS_KERNEL_STACK_SIZE s2;
          if stk = NULL then do { s4 \<leftarrow> kfree p s3; Some (NULL, s4) }
          else do {
            let top = stk + PROCESS_KERNEL_STACK_SIZE;
            let s4 = (upd_proc p (\<lambda>b. b\<lparr>p_kernel_stack_base := stk, p_kernel_stack_top := top,
              p_user_stack_base := NULL, p_user_stack_top := NULL, p_pid := next_pid s3,
              p_entry_point := entry, p_entry_arg := arg, p_state := PROCESS_STATE_NEW,
              p_is_foreground := fg, p_priority := PROCESS_PRIORITY_DEFAULT,
              p_base_priority := PROCESS_PRIORITY_DEFAULT, p_wait_ticks := 0, p_name := copy_name nm,
              p_parent := NULL, p_first_child := NULL, p_next_sibling := NULL, p_prev_sibling := NULL,
              p_queue_next := NULL, p_queue_prev := NULL, p_fds := replicate MAX_FDS terminal_fd\<rparr>)
              s3)\<lparr>next_pid := next_pid s3 + 1\<rparr>;
            s5 \<leftarrow> attach_std p STDIN False stdin_id s4;
            s6 \<leftarrow> attach_std p STDOUT True stdout_id s5;
            s7 \<leftarrow> (if parent \<noteq> NULL then inherit_fds [0..<MAX_FDS] parent p stdin_id stdout_id s6 else Some s6);
            let s8 = (if parent \<noteq> NULL then link_child parent p s7 else s7);
            let (rsp, s9) = setup_process_context (p_kernel_stack_top (proc s8 p)) (p_entry_point (proc s8 p))
                              (p_entry_arg (proc s8 p)) s8;
            Some (p, upd_proc p (\<lambda>b. b\<lparr>p_rsp := rsp, p_rbp := p_kernel_stack_top b,
              p_state := PROCESS_STATE_READY\<rparr>) s9)
          }
        }
      })"

section \<open>Destruction\<close>

text \<open>Closing one descriptor; the loops of \<open>process_destroy\<close> and \<open>process_close_fds\<close> are the same.\<close>

definition close_fd :: "ptr \<Rightarrow> nat \<Rightarrow> 'a pipes_scheme \<Rightarrow> 'a pipes_scheme option" where
  "close_fd p i s =
     (let e = fd s p i
      in if fd_type e = FD_TYPE_PIPE_READ \<or> fd_type e = FD_TYPE_PIPE_WRITE
         then do {
           s1 \<leftarrow> (if fd_pipe e \<noteq> None \<and> pipe_get_id (fd_pipe e) s \<noteq> 0
                  then map_option snd (pipe_close_by_id (pipe_get_id (fd_pipe e) s) (fd_type e = FD_TYPE_PIPE_WRITE) s)
                  else Some s);
           Some (set_fd p i terminal_fd s1)
         }
         else Some s)"

fun close_fds :: "nat list \<Rightarrow> ptr \<Rightarrow> 'a pipes_scheme \<Rightarrow> 'a pipes_scheme option" where
  "close_fds [] p s = Some s"
| "close_fds (i # is) p s = do { s1 \<leftarrow> close_fd p i s; close_fds is p s1 }"

definition process_close_fds :: "ptr \<Rightarrow> 'a pipes_scheme \<Rightarrow> 'a pipes_scheme option" where
  "process_close_fds p s = (if p = NULL then Some s else close_fds [0..<MAX_FDS] p s)"

definition unlink_child :: "ptr \<Rightarrow> 'a sched_scheme \<Rightarrow> 'a sched_scheme" where
  "unlink_child p s =
     (let b = proc s p
      in if p_parent b \<noteq> NULL
         then
           let s1 = (if p_prev_sibling b \<noteq> NULL
                     then upd_proc (p_prev_sibling b) (p_next_sibling_update (\<lambda>_. p_next_sibling b)) s
                     else if p_first_child (proc s (p_parent b)) = p
                     then upd_proc (p_parent b) (p_first_child_update (\<lambda>_. p_next_sibling b)) s
                     else s);
               nxt = p_next_sibling (proc s1 p);
               s2 = (if nxt \<noteq> NULL
                     then upd_proc nxt (p_prev_sibling_update (\<lambda>_. p_prev_sibling (proc s1 p))) s1 else s1)
           in upd_proc p (\<lambda>b. b\<lparr>p_parent := NULL, p_next_sibling := NULL, p_prev_sibling := NULL\<rparr>) s2
         else s)"

definition process_destroy :: "ptr \<Rightarrow> kernel \<Rightarrow> kernel option" where
  "process_destroy p s =
     (if p = NULL then Some s
      else do {
        s1 \<leftarrow> close_fds [0..<MAX_FDS] p s;
        let s2 = unlink_child p s1;
        s3 \<leftarrow> (if p_kernel_stack_base (proc s2 p) \<noteq> NULL then kfree (p_kernel_stack_base (proc s2 p)) s2 else Some s2);
        s4 \<leftarrow> (if p_user_stack_base (proc s3 p) \<noteq> NULL then kfree (p_user_stack_base (proc s3 p)) s3 else Some s3);
        kfree p s4
      })"

end
