(* ===== verification/Kernel_Sched.thy ===== *)
theory Kernel_Sched
  imports Process_Life
begin

text \<open>
  The part of \<open>Kernel/proc/scheduler.c\<close> above processes and pipes (context switch, spawning,
  finishing and killing), the keyboard interrupt handler, the timer interrupt and the start of the
  kernel (\<open>Kernel/kernel.c\<close>).
\<close>

section \<open>Waiters of a process\<close>

text \<open>The loop of \<open>save_context\<close> and of \<open>scheduler_kill_by_pid\<close> that releases the processes waiting
  for \<open>p\<close>.\<close>

partial_function (option) release_waiters :: "ptr \<Rightarrow> 'a sched_scheme \<Rightarrow> 'a sched_scheme option" where
  "release_waiters p s =
     (let w = p_waiters_head (proc s p)
      in if w = NULL then Some s
         else do {
           let s1 = upd_proc p (p_waiters_head_update (\<lambda>_. p_waiter_next (proc s w))) s;
           let s2 = upd_proc w (\<lambda>b. b\<lparr>p_waiter_next := NULL, p_waiting_on_pid := 0,
                      p_state := PROCESS_STATE_READY\<rparr>) s1;
           s3 \<leftarrow> ready_queue_push w s2;
           release_waiters p s3
         })"

declare release_waiters.simps [code]

section \<open>Context switch\<close>

definition save_context :: "ptr \<Rightarrow> u64 \<Rightarrow> 'a kbd_scheme \<Rightarrow> 'a kbd_scheme option" where
  "save_context p current_rsp s0 =
     (if p = NULL then Some s0
      else
        let s = upd_proc p (\<lambda>b. b\<lparr>p_rsp := current_rsp, p_rbp := stack_mem s0 (current_rsp + 80)\<rparr>) s0
        in case p_state (proc s p) of
             PROCESS_STATE_RUNNING \<Rightarrow>
               if p \<noteq> idle_p s
               then ready_queue_push p (upd_proc p (p_state_update (\<lambda>_. PROCESS_STATE_READY)) s)
               else Some s
           | PROCESS_STATE_BLOCKED \<Rightarrow> queue_push Blocked_q p s
           | PROCESS_STATE_FINISHED \<Rightarrow> do {
               let parent = p_parent (proc s p);
               s1 \<leftarrow> (if p_is_foreground (proc s p) \<noteq> 0 \<and> parent \<noteq> NULL \<and>
                        p_state (proc s parent) \<noteq> PROCESS_STATE_FINISHED
                     then keyboard_clear_buffer (upd_proc parent (p_is_foreground_update (\<lambda>_. 1)) s)
                     else Some s);
               s2 \<leftarrow> release_waiters p s1;
               queue_push Finished_q p s2
             }
           | _ \<Rightarrow> Some s)"

fun first_head :: "nat list \<Rightarrow> 'a sched_scheme \<Rightarrow> ptr" where
  "first_head [] s = NULL"
| "first_head (pr # prs) s =
     (if q_head (queue_of s (Ready pr)) \<noteq> NULL then q_head (queue_of s (Ready pr)) else first_head prs s)"

text \<open>The decision of \<open>schedule\<close> and the choice of the next process.\<close>

definition must_switch :: "u64 \<Rightarrow> 'a sched_scheme \<Rightarrow> bool" where
  "must_switch now s \<longleftrightarrow>
     (let peek = first_head priorities_down s
      in p_state (proc s (current s)) \<noteq> PROCESS_STATE_RUNNING
         \<or> (peek \<noteq> NULL \<and> p_priority (proc s peek) > p_priority (proc s (current s)))
         \<or> now - last_switch_tick s \<ge> QUANTUM_TICKS
         \<or> need_resched s)"

definition dispatch_next :: "u64 \<Rightarrow> 'a sched_scheme \<Rightarrow> (ptr \<times> 'a sched_scheme) option" where
  "dispatch_next now s =
     do {
       (p, s1) \<leftarrow> ready_queue_pop_highest s;
       let nxt = (if p = NULL then idle_p s1 else p);
       let s2 = upd_proc nxt (\<lambda>b. b\<lparr>p_state := PROCESS_STATE_RUNNING, p_wait_ticks := 0\<rparr>) s1;
       let s3 = (if nxt \<noteq> idle_p s2 \<and> p_priority (proc s2 nxt) > p_base_priority (proc s2 nxt)
                 then upd_proc nxt (\<lambda>b. b\<lparr>p_priority := p_base_priority b\<rparr>) s2 else s2);
       Some (nxt, s3\<lparr>current := nxt, last_switch_tick := now\<rparr>)
     }"

fun collect_finished :: "nat \<Rightarrow> kernel \<Rightarrow> kernel option" where
  "collect_finished 0 s = Some s"
| "collect_finished (Suc n) s =
     do {
       (fp, s1) \<leftarrow> scheduler_collect_finished s;
       if fp = NULL then Some s1
       else do { s2 \<leftarrow> process_destroy fp s1; collect_finished n s2 }
     }"

definition schedule :: "u64 \<Rightarrow> kernel \<Rightarrow> (u64 \<times> kernel) option" where
  "schedule current_rsp s =
     (if current s = NULL then Some (current_rsp, s)
      else do {
        let now = scast (ticks_elapsed s);
        s1 \<leftarrow> apply_aging s;
        if \<not> must_switch now s1 then Some (current_rsp, s1)
        else do {
          s2 \<leftarrow> save_context (current s1) current_rsp (s1\<lparr>need_resched := False\<rparr>);
          (nxt, s3) \<leftarrow> dispatch_next now s2;
          s4 \<leftarrow> collect_finished MAX_FINISHED_COLLECT s3;
          Some (p_rsp (proc s4 nxt), s4)
        }
      })"

text \<open>The timer interrupt, also raised by \<open>callTimerTick\<close>.\<close>

definition irq00Handler :: "u64 \<Rightarrow> kernel \<Rightarrow> (u64 \<times> kernel) option" where
  "irq00Handler rsp s = schedule rsp (timer_handler s)"

section \<open>Processes\<close>

definition scheduler_spawn_process ::
  "string option \<Rightarrow> ptr \<Rightarrow> ptr \<Rightarrow> ptr \<Rightarrow> u8 \<Rightarrow> int \<Rightarrow> u64 \<Rightarrow> u64 \<Rightarrow> kernel \<Rightarrow> (ptr \<times> kernel) option" where
  "scheduler_spawn_process nm entry arg parent priority fg stdin_id stdout_id s =
     do {
       (p, s1) \<leftarrow> process_create nm entry arg parent fg stdin_id stdout_id s;
       if p = NULL then Some (NULL, s1)
       else do {
         let pr = uint (clamp_priority priority);
         let s2 = upd_proc p (\<lambda>b. b\<lparr>p_priority := pr, p_base_priority := pr, p_wait_ticks := 0\<rparr>) s1;
         s3 \<leftarrow> scheduler_add_process p s2;
         Some (p, s3)
       }
     }"

definition scheduler_finish_current :: "'a pipes_scheme \<Rightarrow> 'a pipes_scheme option" where
  "scheduler_finish_current s =
     (if current s = NULL \<or> current s = idle_p s then Some s
      else do {
        s1 \<leftarrow> process_close_fds (current s) s;
        Some ((upd_proc (current s1) (p_state_update (\<lambda>_. PROCESS_STATE_FINISHED)) s1)\<lparr>need_resched := True\<rparr>)
      })"

definition scheduler_kill_by_pid :: "u64 \<Rightarrow> 'a pipes_scheme \<Rightarrow> (int \<times> 'a pipes_scheme) option" where
  "scheduler_kill_by_pid pid s =
     do {
       p \<leftarrow> scheduler_find_by_pid pid s;
       if p = NULL then Some (0, s)
       else do {
         s1 \<leftarrow> process_close_fds p s;
         let parent = p_parent (proc s1 p);
         let s2 = (if p_is_foreground (proc s1 p) \<noteq> 0 \<and> parent \<noteq> NULL \<and>
                     p_state (proc s1 parent) \<noteq> PROCESS_STATE_FINISHED
                   then upd_proc parent (p_is_foreground_update (\<lambda>_. 1)) s1 else s1);
         s3 \<leftarrow> (if p_state (proc s2 p) = PROCESS_STATE_READY
               then queue_remove (Ready (nat (p_priority (proc s2 p)))) p s2
               else if p_state (proc s2 p) = PROCESS_STATE_BLOCKED then queue_remove Blocked_q p s2
               else Some s2);
         s4 \<leftarrow> release_waiters p (upd_proc p (p_state_update (\<lambda>_. PROCESS_STATE_FINISHED)) s3);
         s5 \<leftarrow> queue_push Finished_q p s4;
         Some (1, if p = current s5 then s5\<lparr>need_resched := True\<rparr> else s5)
       }
     }"

definition init_scheduler :: "kernel \<Rightarrow> kernel option" where
  "init_scheduler s =
     (let s1 = (process_system_init s)\<lparr>ready_queues := replicate 3 process_queue_init,
                 blocked_q := process_queue_init, finished_q := process_queue_init\<rparr>
      in do {
        (p, s2) \<leftarrow> process_create (Some ''idle'') (idle_entry s1) NULL NULL 0 0 0 s1;
        let s3 = s2\<lparr>idle_p := p\<rparr>;
        Some (if p \<noteq> NULL
              then (upd_proc p (p_state_update (\<lambda>_. PROCESS_STATE_RUNNING)) s3)
                     \<lparr>current := p, last_switch_tick := scast (ticks_elapsed s3)\<rparr>
              else s3)
      })"

section \<open>Keyboard interrupt\<close>

definition keyboard_interrupt_handler :: "u8 \<Rightarrow> 'a pipes_scheme \<Rightarrow> 'a pipes_scheme option" where
  "keyboard_interrupt_handler scancode s0 =
     (let s1 = updateFlags scancode s0;
          s = s1\<lparr>key_states := update_key_states scancode (key_states s1)\<rparr>;
          cAscii = scToAscii scancode s
      in if activeCtrl s \<noteq> 0 \<and> (cAscii = CHR ''c'' \<or> cAscii = CHR ''C'')
         then do {
           fg_pid \<leftarrow> scheduler_get_foreground_pid s;
           if fg_pid \<noteq> 0
           then do { (_, s2) \<leftarrow> scheduler_kill_by_pid fg_pid s; keyboard_clear_buffer s2 }
           else Some s
         }
         else if activeCtrl s \<noteq> 0 \<and> (cAscii = CHR ''d'' \<or> cAscii = CHR ''D'')
         then keyboard_store (CHR 0x04) s
         else if cAscii \<noteq> NUL then keyboard_store cAscii s
         else Some s)"

text \<open>\<open>irqDispatcher\<close>: interrupt 0 is the clock (only \<open>timer_handler\<close>), interrupt 1 the keyboard.\<close>

definition irqDispatcher :: "u64 \<Rightarrow> u8 \<Rightarrow> 'a pipes_scheme \<Rightarrow> 'a pipes_scheme option" where
  "irqDispatcher irq scancode s =
     (if irq = 0 then Some (timer_handler s)
      else if irq = 1 then keyboard_interrupt_handler scancode s
      else Some s)"

section \<open>Start of the kernel\<close>

definition sampleCodeModuleAddress :: ptr where "sampleCodeModuleAddress = 0x400000"
definition sampleDataModuleAddress :: ptr where "sampleDataModuleAddress = 0x500000"

definition getStackBase :: "ptr \<Rightarrow> ptr" where
  "getStackBase endOfKernel = endOfKernel + 0x1000 * 8 - 8"

text \<open>\<open>main\<close> up to the loop that waits for interrupts.\<close>

definition kernel_main :: "kernel \<Rightarrow> kernel option" where
  "kernel_main s =
     do {
       m \<leftarrow> mm_init_default (kmm s);
       s1 \<leftarrow> init_scheduler (s\<lparr>kmm := m\<rparr>);
       let s2 = keyboard_init (pipe_system_init s1);
       (_, s3) \<leftarrow> scheduler_spawn_process (Some ''shell'') sampleCodeModuleAddress NULL NULL 2 1 0 0 s2;
       Some s3
     }"

end
