(* ===== verification/Sched_Switch.thy ===== *)
theory Sched_Switch
  imports Sched_Aging Kernel_Sched
begin

text \<open>
  The context switch: \<open>save_context\<close> puts the running process where its state says, \<open>dispatch_next\<close> takes
  the head of the highest queue, and \<open>schedule\<close> composes them with aging.  The lemmas cover a running
  or blocked current process; a process that finishes is collected by code that frees its memory.
\<close>

lemma save_running_wf:
  assumes wf: "queues_wf s X" and c: "nowhere p X" "unlinked (procs s) p" "p \<noteq> idle_p s"
    and st: "p_state (proc s p) = PROCESS_STATE_RUNNING"
  obtains s' where "save_context p rsp s = Some s'"
    and "queues_wf s' (to_ready (prio_of s p) p X)" and "current s' = current s" and "idle_p s' = idle_p s"
    and "need_resched s' = need_resched s" and "sched.more s' = sched.more s"
    and "p_wait_ticks (proc s' p) = p_wait_ticks (proc s p)" and "p_rsp (proc s' p) = rsp"
    and "\<And>a. a \<noteq> p \<Longrightarrow> pcb_core (proc s' a) = pcb_core (proc s a)"
    and "\<And>a. a \<noteq> p \<Longrightarrow> a \<notin> set (X (Ready (prio_of s p))) \<Longrightarrow> proc s' a = proc s a"
proof -
  let ?s1 = "upd_proc p (\<lambda>b. b\<lparr>p_rsp := rsp, p_rbp := stack_mem s (rsp + 80)\<rparr>) s"
  let ?s2 = "upd_proc p (p_state_update (\<lambda>_. PROCESS_STATE_READY)) ?s1"
  have pz: "p \<noteq> 0" using c(2) by (simp add: unlinked_def)
  have wf1: "queues_wf ?s1 X" by (rule queues_wf_upd [OF wf c(1)]) simp_all
  have wf2: "queues_wf ?s2 X" by (rule queues_wf_upd [OF wf1 c(1)]) simp_all
  have u: "unlinked (procs ?s2) p" using c(2) by (simp add: unlinked_def)
  have pr: "prio_of ?s2 p = prio_of s p" by (simp add: prio_of_def)
  from ready_push_wf [OF wf2 c(1) u] c(3) obtain s3 where s3: "ready_queue_push p ?s2 = Some s3"
    "queues_wf s3 (to_ready (prio_of s p) p X)"
    "core_step s3 ?s2 (upd_at p (p_priority_update (\<lambda>_. int (prio_of s p))) (procs ?s2)) (insert p (set (X (Ready (prio_of s p)))))"
    unfolding pr to_ready_def by auto
  note d = core_stepD [OF s3(3)] core_step_fields [OF s3(3)]
  have "save_context p rsp s = Some s3" using pz st c(3) s3(1) by (simp add: save_context_def Let_def)
  with s3(2) show thesis by (intro that [of s3]) (simp_all add: d)
qed

lemma save_blocked_wf:
  assumes wf: "queues_wf s X" and c: "nowhere p X" "unlinked (procs s) p" "p \<noteq> idle_p s"
    and st: "p_state (proc s p) = PROCESS_STATE_BLOCKED"
  obtains s' where "save_context p rsp s = Some s'"
    and "queues_wf s' (X(Blocked_q := X Blocked_q @ [p]))" and "current s' = current s" and "idle_p s' = idle_p s"
    and "need_resched s' = need_resched s" and "sched.more s' = sched.more s"
    and "p_wait_ticks (proc s' p) = p_wait_ticks (proc s p)" and "p_rsp (proc s' p) = rsp"
    and "\<And>a. a \<noteq> p \<Longrightarrow> pcb_core (proc s' a) = pcb_core (proc s a)"
    and "\<And>a. a \<noteq> p \<Longrightarrow> a \<notin> set (X Blocked_q) \<Longrightarrow> proc s' a = proc s a"
proof -
  let ?s1 = "upd_proc p (\<lambda>b. b\<lparr>p_rsp := rsp, p_rbp := stack_mem s (rsp + 80)\<rparr>) s"
  have pz: "p \<noteq> 0" using c(2) by (simp add: unlinked_def)
  have wf1: "queues_wf ?s1 X" by (rule queues_wf_upd [OF wf c(1)]) simp_all
  have u: "unlinked (procs ?s1) p" using c(2) by (simp add: unlinked_def)
  from blocked_push_wf [OF wf1 c(1) u] c(3) st obtain s3 where s3: "queue_push Blocked_q p ?s1 = Some s3"
    "queues_wf s3 (X(Blocked_q := X Blocked_q @ [p]))" "queues_only s3 ?s1 (insert p (set (X Blocked_q)))" by auto
  note d = queues_only_core [OF s3(3)] queues_onlyD [OF s3(3)]
  have "save_context p rsp s = Some s3" using pz st s3(1) by (simp add: save_context_def Let_def)
  with s3(2) show thesis by (intro that [of s3]) (simp_all add: d)
qed

lemma save_idle:
  assumes "idle_p s \<noteq> 0" and "p_state (proc s (idle_p s)) = PROCESS_STATE_RUNNING"
  shows "save_context (idle_p s) rsp s =
    Some (upd_proc (idle_p s) (\<lambda>b. b\<lparr>p_rsp := rsp, p_rbp := stack_mem s (rsp + 80)\<rparr>) s)"
  using assms by (simp add: save_context_def Let_def)

text \<open>The queue that \<open>dispatch_next\<close> serves.\<close>

definition highest :: "nat \<Rightarrow> (qid \<Rightarrow> ptr list) \<Rightarrow> bool" where
  "highest n X \<longleftrightarrow> n < 3 \<and> X (Ready n) \<noteq> [] \<and> (\<forall>m. n < m \<and> m < 3 \<longrightarrow> X (Ready m) = [])"

lemma highest_or_empty:
  obtains n where "highest n X" | "\<And>n. n < 3 \<Longrightarrow> X (Ready n) = []"
proof -
  have "highest 2 X \<or> highest 1 X \<or> highest 0 X \<or> (\<forall>n < 3. X (Ready n) = [])"
    by (auto simp: highest_def less_Suc_eq numeral_3_eq_3 numeral_2_eq_2)
  then show thesis using that by blast
qed

text \<open>The dispatched process runs, is in no queue and starts with a fresh quantum and its base
  priority.\<close>

definition dispatched :: "u64 \<Rightarrow> ptr \<Rightarrow> 'a sched_scheme \<Rightarrow> bool" where
  "dispatched now p s \<longleftrightarrow> current s = p \<and> p_state (proc s p) = PROCESS_STATE_RUNNING \<and>
     p_wait_ticks (proc s p) = 0 \<and> last_switch_tick s = now"

lemma dispatch_idle:
  assumes wf: "queues_wf s X" and none: "\<And>n. n < 3 \<Longrightarrow> X (Ready n) = []" and u: "unlinked (procs s) (idle_p s)"
  obtains s' where "dispatch_next now s = Some (idle_p s, s')" and "sched_wf s' X" and "dispatched now (idle_p s) s'"
    and "idle_p s' = idle_p s" and "need_resched s' = need_resched s" and "sched.more s' = sched.more s"
    and "\<And>a. a \<noteq> idle_p s \<Longrightarrow> proc s' a = proc s a" and "p_rsp (proc s' (idle_p s)) = p_rsp (proc s (idle_p s))"
proof -
  let ?s2 = "upd_proc (idle_p s) (\<lambda>b. b\<lparr>p_state := PROCESS_STATE_RUNNING, p_wait_ticks := 0\<rparr>) s"
  let ?s = "?s2\<lparr>current := idle_p s, last_switch_tick := now\<rparr>"
  note w = queues_wfD [OF wf]
  have "dispatch_next now s = Some (idle_p s, ?s)"
    by (simp add: dispatch_next_def pop_highest_none [OF wf none] Let_def)
  moreover have "queues_wf ?s X" using queues_wf_upd [OF wf w(6)] by simp
  moreover have "unlinked (procs ?s) (idle_p s)" using u by (simp add: unlinked_def)
  ultimately show thesis using w(6,7)
    by (intro that [of ?s]) (simp_all add: sched_wf_def dispatched_def)
qed

lemma dispatch_ready:
  assumes wf: "queues_wf s X" and h: "highest n X" and x: "X (Ready n) = p # ps"
  obtains s' where "dispatch_next now s = Some (p, s')" and "sched_wf s' (X(Ready n := ps))" and "dispatched now p s'"
    and "idle_p s' = idle_p s" and "need_resched s' = need_resched s" and "sched.more s' = sched.more s"
    and "\<And>a. a \<noteq> p \<Longrightarrow> pcb_core (proc s' a) = pcb_core (proc s a)"
    and "\<And>a. a \<notin> set (X (Ready n)) \<Longrightarrow> proc s' a = proc s a"
    and "p_rsp (proc s' p) = p_rsp (proc s p)"
    and "p_priority (proc s' p) = min (int n) (p_base_priority (proc s p))"
proof -
  from h have n: "n < 3" and up: "\<And>m. n < m \<Longrightarrow> m < 3 \<Longrightarrow> X (Ready m) = []" by (auto simp: highest_def)
  note w = queues_wfD [OF wf]
  have p: "p \<in> set (X (Ready n))" using x by simp
  have idle: "p \<noteq> idle_p s" using ready_not_idle [OF wf _ p] n by simp
  from pop_highest_some [OF wf n x up] obtain s1 where s1: "ready_queue_pop_highest s = Some (p, s1)"
    "queues_wf s1 (X(Ready n := ps))" "queues_only s1 s (set (X (Ready n)))" "unlinked (procs s1) p"
    "nowhere p (X(Ready n := ps))" by blast
  note c1 = queues_only_core [OF s1(3)] queues_onlyD [OF s1(3)]
  have pz: "p \<noteq> 0" using s1(4) by (simp add: unlinked_def)
  let ?f = "\<lambda>b. b\<lparr>p_state := PROCESS_STATE_RUNNING, p_wait_ticks := 0\<rparr>"
  let ?g = "\<lambda>b. if p_priority b > p_base_priority b then b\<lparr>p_priority := p_base_priority b\<rparr> else b"
  let ?s3 = "upd_proc p (\<lambda>b. ?g (?f b)) s1"
  let ?s = "?s3\<lparr>current := p, last_switch_tick := now\<rparr>"
  have i1: "p \<noteq> idle_p s1" using idle by (simp add: c1)
  have g: "upd_proc p (\<lambda>b. b\<lparr>p_priority := p_base_priority b\<rparr>) (upd_proc p ?f s1) = ?s3"
    if "p_base_priority (proc s1 p) < p_priority (proc s1 p)"
    using that by (simp add: upd_proc_def upd_at_def)
  have g': "upd_proc p ?f s1 = ?s3" if "\<not> p_base_priority (proc s1 p) < p_priority (proc s1 p)"
    using that by (simp add: upd_proc_def upd_at_def)
  have "dispatch_next now s = Some (p, ?s)"
  proof (cases "p_base_priority (proc s1 p) < p_priority (proc s1 p)")
    case True
    then show ?thesis unfolding g [OF True, symmetric]
      using pz i1 by (simp add: dispatch_next_def s1(1) Let_def)
  next
    case False
    then show ?thesis unfolding g' [OF False, symmetric]
      using pz i1 by (simp add: dispatch_next_def s1(1) Let_def)
  qed
  moreover have "queues_wf ?s3 (X(Ready n := ps))" by (rule queues_wf_upd [OF s1(2,5)]) simp_all
  moreover have "unlinked (procs ?s) p" using s1(4) by (simp add: unlinked_def)
  moreover have "p_priority (proc s p) = int n" by (rule w(3) [OF n p])
  ultimately show thesis using s1(5) pz p
    by (intro that [of ?s]) (auto simp: sched_wf_def dispatched_def c1 min_def)
qed

section \<open>The abstract scheduler\<close>

text \<open>The scheduler on lists: the process that stops running goes to the end of the ready list of its
  priority or of the blocked list; the head of the first nonempty list, from the highest priority
  down, runs next, or the idle process when all are empty.\<close>

definition enqueue_current :: "'a sched_scheme \<Rightarrow> (qid \<Rightarrow> ptr list) \<Rightarrow> qid \<Rightarrow> ptr list" where
  "enqueue_current s X =
     (if current s = idle_p s then X
      else if p_state (proc s (current s)) = PROCESS_STATE_RUNNING then to_ready (prio_of s (current s)) (current s) X
      else X(Blocked_q := X Blocked_q @ [current s]))"

fun pick_from :: "nat list \<Rightarrow> ptr \<Rightarrow> (qid \<Rightarrow> ptr list) \<Rightarrow> ptr \<times> (qid \<Rightarrow> ptr list)" where
  "pick_from [] idle X = (idle, X)"
| "pick_from (n # ns) idle X =
     (case X (Ready n) of [] \<Rightarrow> pick_from ns idle X | p # ps \<Rightarrow> (p, X(Ready n := ps)))"

definition pick :: "ptr \<Rightarrow> (qid \<Rightarrow> ptr list) \<Rightarrow> ptr \<times> (qid \<Rightarrow> ptr list)" where
  "pick idle X = pick_from [2, 1, 0] idle X"

lemma pick_highest:
  assumes "highest n X" and "X (Ready n) = p # ps"
  shows "pick idle X = (p, X(Ready n := ps))"
proof -
  have "n = 0 \<or> n = 1 \<or> n = 2" using assms(1) by (auto simp: highest_def)
  then show ?thesis using assms by (auto simp: highest_def pick_def)
qed

lemma pick_idle: "(\<And>n. n < 3 \<Longrightarrow> X (Ready n) = []) \<Longrightarrow> pick idle X = (idle, X)"
  by (simp add: pick_def)

section \<open>The invariant between two timer interrupts\<close>

definition sched_inv :: "'a sched_scheme \<Rightarrow> (qid \<Rightarrow> ptr list) \<Rightarrow> bool" where
  "sched_inv s X \<longleftrightarrow> sched_wf s X \<and> aging_ok s X \<and> X Finished_q = [] \<and> unlinked (procs s) (idle_p s) \<and>
     p_wait_ticks (proc s (current s)) < AGING_THRESHOLD \<and>
     (p_state (proc s (current s)) = PROCESS_STATE_RUNNING \<or>
      p_state (proc s (current s)) = PROCESS_STATE_BLOCKED \<and> current s \<noteq> idle_p s)"

lemma sched_invD:
  assumes "sched_inv s X"
  shows "queues_wf s X" "aging_ok s X" "X Finished_q = []" "unlinked (procs s) (idle_p s)" "current s \<noteq> 0"
    "nowhere (current s) X" "unlinked (procs s) (current s)" "p_wait_ticks (proc s (current s)) < AGING_THRESHOLD"
  using assms by (auto simp: sched_inv_def sched_wf_def)

lemma dispatch_pick:
  assumes wf: "queues_wf s X" and u: "unlinked (procs s) (idle_p s)"
  obtains s' p X' where "dispatch_next now s = Some (p, s')" and "pick (idle_p s) X = (p, X')"
    and "sched_wf s' X'" and "dispatched now p s'" and "idle_p s' = idle_p s" and "need_resched s' = need_resched s"
    and "sched.more s' = sched.more s" and "\<And>a. a \<noteq> p \<Longrightarrow> pcb_core (proc s' a) = pcb_core (proc s a)"
    and "p_rsp (proc s' p) = p_rsp (proc s p)" and "unlinked (procs s') (idle_p s)"
    and "\<And>i. valid i \<Longrightarrow> set (X' i) \<subseteq> set (X i)" and "X' Finished_q = X Finished_q"
proof (rule highest_or_empty [of X])
  fix n assume h: "highest n X"
  then obtain p ps where x: "X (Ready n) = p # ps" by (auto simp: highest_def neq_Nil_conv)
  have n: "valid (Ready n)" using h by (simp add: highest_def)
  have i: "idle_p s \<notin> set (X (Ready n))" using queues_wfD(6) [OF wf] n by (auto simp: nowhere_def)
  show thesis
  proof (rule dispatch_ready [OF wf h x, of now])
    fix s' assume d: "dispatch_next now s = Some (p, s')" "sched_wf s' (X(Ready n := ps))" "dispatched now p s'"
      "idle_p s' = idle_p s" "need_resched s' = need_resched s" "sched.more s' = sched.more s"
      "\<And>a. a \<noteq> p \<Longrightarrow> pcb_core (proc s' a) = pcb_core (proc s a)"
      "\<And>a. a \<notin> set (X (Ready n)) \<Longrightarrow> proc s' a = proc s a" "p_rsp (proc s' p) = p_rsp (proc s p)"
    have "unlinked (procs s') (idle_p s)" using u d(8) [OF i] by (simp add: unlinked_def)
    then show thesis by (intro that [OF d(1) pick_highest [OF h x] d(2-7,9)]) (use x in auto)
  qed
next
  assume none: "\<And>n. n < 3 \<Longrightarrow> X (Ready n) = []"
  from dispatch_idle [OF wf none u] obtain s' where d: "dispatch_next now s = Some (idle_p s, s')" "sched_wf s' X"
    "dispatched now (idle_p s) s'" "idle_p s' = idle_p s" "need_resched s' = need_resched s" "sched.more s' = sched.more s"
    "\<And>a. a \<noteq> idle_p s \<Longrightarrow> proc s' a = proc s a" "p_rsp (proc s' (idle_p s)) = p_rsp (proc s (idle_p s))" by metis
  have "unlinked (procs s') (idle_p s)"
    using d(2,3,4) queues_wfD(6) [OF wf] by (auto simp: sched_wf_def dispatched_def nowhere_def)
  moreover have "pick (idle_p s) X = (idle_p s, X)" by (rule pick_idle) (rule none)
  ultimately show thesis using that [OF d(1) _ d(2-6)] d(7,8) by auto
qed

lemma save_enqueue:
  fixes s :: "'a kbd_scheme"
  assumes inv: "sched_inv s X"
  obtains s' where "save_context (current s) rsp (s\<lparr>need_resched := False\<rparr>) = Some s'"
    and "queues_wf s' (enqueue_current s X)" and "idle_p s' = idle_p s"
    and "need_resched s' = False" and "sched.more s' = sched.more s"
    and "p_rsp (proc s' (current s)) = rsp" and "unlinked (procs s') (idle_p s)"
    and "p_wait_ticks (proc s' (current s)) = p_wait_ticks (proc s (current s))"
    and "\<And>a. a \<noteq> current s \<Longrightarrow> pcb_core (proc s' a) = pcb_core (proc s a)"
proof -
  note d = sched_invD [OF inv]
  let ?s = "s\<lparr>need_resched := False\<rparr>"
  have wf: "queues_wf ?s X" and u: "unlinked (procs ?s) (current s)" using d by simp_all
  have free: "idle_p s \<notin> set (X i)" if "valid i" for i using queues_wfD(6) [OF d(1)] that by (auto simp: nowhere_def)
  consider (idle) "current s = idle_p s" "p_state (proc s (current s)) = PROCESS_STATE_RUNNING"
    | (run) "current s \<noteq> idle_p s" "p_state (proc s (current s)) = PROCESS_STATE_RUNNING"
    | (block) "current s \<noteq> idle_p s" "p_state (proc s (current s)) = PROCESS_STATE_BLOCKED"
    using inv unfolding sched_inv_def by blast
  then show thesis
  proof cases
    case idle
    let ?u = "upd_proc (idle_p s) (\<lambda>b. b\<lparr>p_rsp := rsp, p_rbp := stack_mem s (rsp + 80)\<rparr>) ?s"
    have "save_context (current s) rsp ?s = Some ?u" using save_idle [of ?s rsp] idle d(5) by simp
    moreover have "queues_wf ?u X" by (rule queues_wf_keep [OF wf]) simp_all
    ultimately show thesis using idle d(4)
      by (intro that [of ?u]) (simp_all add: enqueue_current_def unlinked_def)
  next
    case run
    have ne: "current s \<noteq> idle_p ?s" and st: "p_state (proc ?s (current s)) = PROCESS_STATE_RUNNING" using run by simp_all
    have n: "idle_p s \<notin> set (X (Ready (prio_of ?s (current s))))" by (rule free) (simp add: prio_of_lt3)
    show thesis
    proof (rule save_running_wf [OF wf d(6) u ne st, of rsp])
      fix t :: "'a kbd_scheme" assume "\<And>a. a \<noteq> current s \<Longrightarrow> a \<notin> set (X (Ready (prio_of ?s (current s)))) \<Longrightarrow> proc t a = proc ?s a"
      from this [of "idle_p s"] ne n d(4) have "unlinked (procs t) (idle_p s)" by (simp add: unlinked_def)
      moreover have "enqueue_current s X = to_ready (prio_of ?s (current s)) (current s) X"
        using run by (simp add: enqueue_current_def prio_of_def)
      moreover assume "save_context (current s) rsp ?s = Some t" "queues_wf t (to_ready (prio_of ?s (current s)) (current s) X)"
        "idle_p t = idle_p ?s" "need_resched t = need_resched ?s" "sched.more t = sched.more ?s"
        "p_wait_ticks (proc t (current s)) = p_wait_ticks (proc ?s (current s))" "p_rsp (proc t (current s)) = rsp"
        "\<And>a. a \<noteq> current s \<Longrightarrow> pcb_core (proc t a) = pcb_core (proc ?s a)"
      ultimately show thesis by (intro that [of t]) simp_all
    qed
  next
    case block
    have ne: "current s \<noteq> idle_p ?s" and st: "p_state (proc ?s (current s)) = PROCESS_STATE_BLOCKED" using block by simp_all
    show thesis
    proof (rule save_blocked_wf [OF wf d(6) u ne st, of rsp])
      fix t :: "'a kbd_scheme" assume "\<And>a. a \<noteq> current s \<Longrightarrow> a \<notin> set (X Blocked_q) \<Longrightarrow> proc t a = proc ?s a"
      from this [of "idle_p s"] ne free [of Blocked_q] d(4) have "unlinked (procs t) (idle_p s)" by (simp add: unlinked_def)
      moreover have "enqueue_current s X = X(Blocked_q := X Blocked_q @ [current s])"
        using block by (simp add: enqueue_current_def)
      moreover assume "save_context (current s) rsp ?s = Some t" "queues_wf t (X(Blocked_q := X Blocked_q @ [current s]))"
        "idle_p t = idle_p ?s" "need_resched t = need_resched ?s" "sched.more t = sched.more ?s"
        "p_wait_ticks (proc t (current s)) = p_wait_ticks (proc ?s (current s))" "p_rsp (proc t (current s)) = rsp"
        "\<And>a. a \<noteq> current s \<Longrightarrow> pcb_core (proc t a) = pcb_core (proc ?s a)"
      ultimately show thesis by (intro that [of t]) simp_all
    qed
  qed
qed

lemma enqueue_current_simps:
  "enqueue_current s X Finished_q = X Finished_q"
  "set (enqueue_current s X (Ready n)) \<subseteq> insert (current s) (set (X (Ready n)))"
  "a \<in> set (X (Ready n)) \<Longrightarrow> a \<in> set (enqueue_current s X (Ready n))"
  by (auto simp: enqueue_current_def to_ready_def)

lemma collect_finished_none:
  assumes "sched_rep s X" and "X Finished_q = []"
  shows "collect_finished n s = Some s"
  using queue_pop_none [OF assms(1) valid_simps(3) assms(2)]
  by (cases n) (simp_all add: scheduler_collect_finished_def)

lemma wait_young:
  assumes "young s xs" and "set ys \<subseteq> insert c (set xs)" and "p_wait_ticks (proc s c) < AGING_THRESHOLD"
    and "p_wait_ticks (proc t p) = 0" and "\<And>a. a \<noteq> p \<Longrightarrow> p_wait_ticks (proc t a) = p_wait_ticks (proc s a)"
  shows "young t ys"
  unfolding young_def
proof
  fix a assume "a \<in> set ys"
  then show "p_wait_ticks (proc t a) < AGING_THRESHOLD"
    using assms(1-3,4) assms(5) [of a] by (cases "a = p") (auto simp: young_def sched_consts)
qed

text \<open>What \<open>schedule\<close> does once aging has run.\<close>

lemma switch_refines:
  assumes inv: "sched_inv s X"
  obtains s2 s' X' where "save_context (current s) rsp (s\<lparr>need_resched := False\<rparr>) = Some s2"
    and "dispatch_next now s2 = Some (current s', s')" and "collect_finished n s' = Some s'"
    and "(current s', X') = pick (idle_p s) (enqueue_current s X)"
    and "sched_inv s' X'" and "dispatched now (current s') s'" and "need_resched s' = False"
    and "idle_p s' = idle_p s" and "sched.more s' = sched.more s"
    and "p_rsp (proc s' (current s)) = rsp"
    and "\<And>a. a \<noteq> current s \<Longrightarrow> p_rsp (proc s' a) = p_rsp (proc s a)"
    and "\<And>a. a \<noteq> current s' \<Longrightarrow> p_wait_ticks (proc s' a) = p_wait_ticks (proc s a)"
proof -
  note d = sched_invD [OF inv]
  show thesis
  proof (rule save_enqueue [OF inv, of rsp])
    fix s2 assume s2: "save_context (current s) rsp (s\<lparr>need_resched := False\<rparr>) = Some s2"
      "queues_wf s2 (enqueue_current s X)" "idle_p s2 = idle_p s" "need_resched s2 = False" "sched.more s2 = sched.more s"
      "p_rsp (proc s2 (current s)) = rsp" "unlinked (procs s2) (idle_p s)"
      "p_wait_ticks (proc s2 (current s)) = p_wait_ticks (proc s (current s))"
      "\<And>a. a \<noteq> current s \<Longrightarrow> pcb_core (proc s2 a) = pcb_core (proc s a)"
    have u: "unlinked (procs s2) (idle_p s2)" using s2(3,7) by simp
    show thesis
    proof (rule dispatch_pick [OF s2(2) u, of now])
      fix s' p X' assume s': "dispatch_next now s2 = Some (p, s')" "pick (idle_p s2) (enqueue_current s X) = (p, X')"
        "sched_wf s' X'" "dispatched now p s'" "idle_p s' = idle_p s2" "need_resched s' = need_resched s2"
        "sched.more s' = sched.more s2" "\<And>a. a \<noteq> p \<Longrightarrow> pcb_core (proc s' a) = pcb_core (proc s2 a)"
        "p_rsp (proc s' p) = p_rsp (proc s2 p)" "unlinked (procs s') (idle_p s2)"
        "\<And>i. valid i \<Longrightarrow> set (X' i) \<subseteq> set (enqueue_current s X i)"
        "X' Finished_q = enqueue_current s X Finished_q"
      have cur: "current s' = p" "p_wait_ticks (proc s' p) = 0" using s'(4) by (simp_all add: dispatched_def)
      have fin: "X' Finished_q = []" using s'(12) d(3) by (simp add: enqueue_current_simps)
      have w: "p_wait_ticks (proc s2 a) = p_wait_ticks (proc s a)" for a
        using s2(8) pcb_core_eqD [OF s2(9) [of a]] by (cases "a = current s") simp_all
      have w': "p_wait_ticks (proc s' a) = p_wait_ticks (proc s a)" if "a \<noteq> p" for a
        using pcb_core_eqD [OF s'(8) [OF that]] w by simp
      have r: "p_rsp (proc s' a) = p_rsp (proc s2 a)" for a
        using s'(9) pcb_core_eqD [OF s'(8) [of a]] by (cases "a = p") simp_all
      have yg: "young s' (X' (Ready k))" if "young s (X (Ready k))" "k < 3" for k
        using wait_young [OF that(1) _ d(8) cur(2) w', of "X' (Ready k)"] s'(11) [of "Ready k"] that(2)
          enqueue_current_simps(2) [of s X k] by auto
      have "sched_inv s' X'"
        using s'(3,4,5,10) cur fin yg d(2) by (auto simp: sched_inv_def dispatched_def aging_ok_def sched_consts)
      moreover have "collect_finished n s' = Some s'"
        by (rule collect_finished_none [of _ X', OF queues_wfD(1)]) (use s'(3) fin in \<open>auto simp: sched_wf_def\<close>)
      moreover have "p_rsp (proc s' a) = p_rsp (proc s a)" if "a \<noteq> current s" for a
        using r pcb_core_eqD [OF s2(9) [OF that]] by simp
      ultimately show thesis using s2 s' cur r w' by (intro that [of s2 s' X']) auto
    qed
  qed
qed

lemma sched_inv_aged:
  assumes inv: "sched_inv s X" and wf: "queues_wf s' X'" "aging_ok s' X'" and ag: "aged s' s S"
    and X: "X' Finished_q = X Finished_q" and S: "S = set (X (Ready 0)) \<union> set (X (Ready 1)) \<union> set (X (Ready 2))"
    and R: "set (X' (Ready 0)) \<union> set (X' (Ready 1)) \<union> set (X' (Ready 2)) = S" and B: "X' Blocked_q = X Blocked_q"
  shows "sched_inv s' X'"
proof -
  note d = sched_invD [OF inv] and a = agedD [OF ag]
  have n: "q \<notin> S" if "nowhere q X" for q using that by (simp add: nowhere_def S)
  have n': "nowhere q X'" if "nowhere q X" for q
    unfolding nowhere_def
  proof (intro allI impI)
    fix i assume "valid i"
    then show "q \<notin> set (X' i)" using n [OF that] that R B X
      by (cases i) (auto simp: nowhere_def numeral_2_eq_2 numeral_3_eq_3 less_Suc_eq)
  qed
  have c: "proc s' (current s) = proc s (current s)" by (rule a(10) [OF n [OF d(6)]])
  have i: "proc s' (idle_p s) = proc s (idle_p s)" by (rule a(10) [OF n [OF queues_wfD(6) [OF d(1)]]])
  show ?thesis
    using inv wf c i X n' [OF d(6)] d(5-7) by (auto simp: sched_inv_def sched_wf_def a(1,2) unlinked_def)
qed

lemma apply_aging_inv:
  assumes inv: "sched_inv s X"
  obtains s' X' where "apply_aging s = Some s'" and "sched_inv s' X'"
    and "\<And>n p. n < 2 \<Longrightarrow> p \<in> set (X (Ready n)) \<Longrightarrow> advanced n p s s' X'"
    and "current s' = current s" "idle_p s' = idle_p s" "ticks s' = ticks s"
    and "\<And>a. p_rsp (proc s' a) = p_rsp (proc s a)"
    and "aged s' s (set (X (Ready 0)) \<union> set (X (Ready 1)) \<union> set (X (Ready 2)))"
proof (rule apply_aging_wf [OF sched_invD(1) [OF inv] sched_invD(2) [OF inv]])
  fix s' X' assume a: "apply_aging s = Some s'" "queues_wf s' X'" "aging_ok s' X'"
    "aged s' s (set (X (Ready 0)) \<union> set (X (Ready 1)) \<union> set (X (Ready 2)))"
    "X' Blocked_q = X Blocked_q" "X' Finished_q = X Finished_q"
    "\<And>n p. n < 2 \<Longrightarrow> p \<in> set (X (Ready n)) \<Longrightarrow> advanced n p s s' X'"
    "set (X' (Ready 0)) \<union> set (X' (Ready 1)) \<union> set (X' (Ready 2)) =
         set (X (Ready 0)) \<union> set (X (Ready 1)) \<union> set (X (Ready 2))"
  have r: "p_rsp (proc s' q) = p_rsp (proc s q)" for q
  proof -
    have "p_rsp (aged_core (proc s' q)) = p_rsp (aged_core (proc s q))" by (simp add: agedD(9) [OF a(4)])
    then show ?thesis by (simp add: aged_core_def pcb_core_def)
  qed
  show thesis
    by (rule that [OF a(1) sched_inv_aged [OF inv a(2,3,4,6) refl a(8,5)] a(7) agedD(1) [OF a(4)] agedD(2) [OF a(4)] agedD(5) [OF a(4)] r a(4)])
qed

section \<open>The timer interrupt\<close>

lemma head_of_queue:
  assumes "queues_wf s X" and "n < 3"
  shows "q_head (queue_of s (Ready n)) = hd (X (Ready n) @ [0])"
  using sched_rep_queue [OF queues_wfD(1) [OF assms(1)], of "Ready n"] assms(2) by (simp add: queue_rep_def)

lemma no_switch_priority:
  assumes wf: "queues_wf s X" and "\<not> must_switch now s" and n: "n < 3" and p: "p \<in> set (X (Ready n))"
  shows "int n \<le> p_priority (proc s (current s))"
proof (rule highest_or_empty [of X])
  fix m assume h: "highest m X"
  then have m: "m < 3" "X (Ready m) \<noteq> []" and up: "\<And>k. m < k \<Longrightarrow> k < 3 \<Longrightarrow> X (Ready k) = []" by (auto simp: highest_def)
  have le: "n \<le> m" using up [of n] n p by (metis empty_iff empty_set not_le_imp_less)
  have hp: "hd (X (Ready m)) \<in> set (X (Ready m))" using m(2) by simp
  have nz: "hd (X (Ready m)) \<noteq> 0" by (rule sched_rep_nonzero [OF queues_wfD(1) [OF wf] _ hp]) (use m in simp)
  have "m = 0 \<or> m = 1 \<or> m = 2" using m(1) by arith
  then have "first_head priorities_down s = hd (X (Ready m))"
    using m(2) nz up [of 1] up [of 2] head_of_queue [OF wf] by (auto simp: priorities_down_def)
  then have "p_priority (proc s (hd (X (Ready m)))) \<le> p_priority (proc s (current s))"
    using assms(2) nz by (auto simp: must_switch_def Let_def)
  with queues_wfD(3) [OF wf m(1) hp] le show ?thesis by simp
qed (use n p in auto)

lemma pick_keeps:
  assumes "pick idle X = (p, X')" and "m < 3" and "a \<in> set (X (Ready m))"
  shows "a = p \<or> a \<in> set (X' (Ready m))"
proof (rule highest_or_empty [of X])
  fix n assume h: "highest n X"
  then obtain q ps where x: "X (Ready n) = q # ps" by (auto simp: highest_def neq_Nil_conv)
  with pick_highest [OF h x, of idle] assms show ?thesis by (cases "m = n") auto
qed (use assms in auto)

lemma sched_inv_timer [simp]: "sched_inv (timer_handler s) X = sched_inv s X"
  by (simp add: timer_handler_def sched_inv_def sched_wf_def aging_ok_def young_def)

text \<open>One call of \<open>schedule\<close>, with everything the properties need.\<close>

lemma schedule_step:
  assumes inv: "sched_inv s X"
  obtains s1 X1 r s' X' where "apply_aging s = Some s1" and "sched_inv s1 X1" and "schedule rsp s = Some (r, s')"
    and "sched_inv s' X'"
    and "if must_switch (scast (ticks_elapsed s)) s1
         then (current s', X') = pick (idle_p s) (enqueue_current s1 X1) \<and>
              dispatched (scast (ticks_elapsed s)) (current s') s' \<and> \<not> need_resched s' \<and> p_rsp (proc s' (current s)) = rsp
         else s' = s1 \<and> X' = X1"
    and "r = (if current s' = current s then rsp else p_rsp (proc s (current s')))"
    and "\<And>a. a \<noteq> current s \<Longrightarrow> p_rsp (proc s' a) = p_rsp (proc s a)"
    and "current s' \<noteq> current s \<Longrightarrow> p_rsp (proc s' (current s)) = rsp"
    and "\<And>n p. n < 2 \<Longrightarrow> p \<in> set (X (Ready n)) \<Longrightarrow> current s' = p \<or> advanced n p s s' X'"
proof (rule apply_aging_inv [OF inv])
  fix s1 X1 assume a: "apply_aging s = Some s1" "sched_inv s1 X1"
    "\<And>n p. n < 2 \<Longrightarrow> p \<in> set (X (Ready n)) \<Longrightarrow> advanced n p s s1 X1" "current s1 = current s" "idle_p s1 = idle_p s"
    "ticks s1 = ticks s" "\<And>a. p_rsp (proc s1 a) = p_rsp (proc s a)"
  let ?now = "scast (ticks_elapsed s)"
  have cz: "current s \<noteq> 0" using sched_invD(5) [OF inv] .
  show thesis
  proof (cases "must_switch ?now s1")
    case False
    then have "schedule rsp s = Some (rsp, s1)" using cz a(1) by (simp add: schedule_def Let_def)
    with that [OF a(1,2), of rsp s1 X1] a False show thesis by simp
  next
    case True
    show thesis
    proof (rule switch_refines [OF a(2), of rsp ?now MAX_FINISHED_COLLECT])
      fix s2 s' X' assume b: "save_context (current s1) rsp (s1\<lparr>need_resched := False\<rparr>) = Some s2"
        "dispatch_next ?now s2 = Some (current s', s')" "collect_finished MAX_FINISHED_COLLECT s' = Some s'"
        "(current s', X') = pick (idle_p s1) (enqueue_current s1 X1)" "sched_inv s' X'" "dispatched ?now (current s') s'"
        "need_resched s' = False" "p_rsp (proc s' (current s1)) = rsp"
        "\<And>q. q \<noteq> current s1 \<Longrightarrow> p_rsp (proc s' q) = p_rsp (proc s1 q)"
        "\<And>q. q \<noteq> current s' \<Longrightarrow> p_wait_ticks (proc s' q) = p_wait_ticks (proc s1 q)"
      have "schedule rsp s = Some (p_rsp (proc s' (current s')), s')"
        using cz a(1) True b(1,2,3) by (simp add: schedule_def Let_def)
      moreover have "current s' = p \<or> advanced n p s s' X'" if "n < 2" "p \<in> set (X (Ready n))" for n p
      proof -
        have k: "current s' = p \<or> p \<in> set (X' (Ready m))" if "p \<in> set (X1 (Ready m))" "m < 3" for m
          using pick_keeps [OF b(4) [symmetric] that(2) enqueue_current_simps(3) [of p X1 m, OF that(1)]] by auto
        have "n < 3" using that(1) by simp
        then show ?thesis using a(3) [OF that] k [of n] k b(10) [of p] unfolding advanced_def by fastforce
      qed
      ultimately show thesis
        using that [OF a(1,2), of "p_rsp (proc s' (current s'))" s' X'] a(4,5,7) b True by auto
    qed
  qed
qed

end
