(* ===== verification/Kernel_Sample.thy ===== *)
theory Kernel_Sample
  imports Sched_Switch
begin

text \<open>
  A small kernel state on which the properties of the scheduler are evaluated: the idle process
  (pid 1), the shell running (pid 2), two processes of priority 0 in a queue (pids 3 and 4, the first
  about to be promoted) and a blocked one (pid 5).
\<close>

definition sample_pcb :: process_control_block where
  "sample_pcb = \<lparr>p_pid = 0, p_name = ''p'', p_state = PROCESS_STATE_READY, p_priority = 0, p_base_priority = 0,
     p_wait_ticks = 0, p_rsp = 0, p_rbp = 0, p_kernel_stack_base = 0, p_kernel_stack_top = 0,
     p_user_stack_base = 0, p_user_stack_top = 0, p_entry_point = 0, p_entry_arg = 0, p_waiting_on_pid = 0,
     p_is_foreground = 0, p_parent = 0, p_first_child = 0, p_next_sibling = 0, p_prev_sibling = 0,
     p_queue_next = 0, p_queue_prev = 0, p_waiters_head = 0, p_waiter_next = 0, p_waiting_on_sem = 0,
     p_sem_waiter_next = 0, p_fds = replicate 16 \<lparr>fd_type = FD_TYPE_TERMINAL, fd_pipe = None\<rparr>\<rparr>"

definition sample_procs :: pheap where
  "sample_procs = (\<lambda>_. sample_pcb)(
     0x1000 := sample_pcb\<lparr>p_pid := 1\<rparr>,
     0x2000 := sample_pcb\<lparr>p_pid := 2, p_state := PROCESS_STATE_RUNNING, p_priority := 2, p_base_priority := 2,
                 p_is_foreground := 1, p_rsp := 0x100\<rparr>,
     0x3000 := sample_pcb\<lparr>p_pid := 3, p_wait_ticks := 199, p_queue_next := 0x4000, p_rsp := 0x200\<rparr>,
     0x4000 := sample_pcb\<lparr>p_pid := 4, p_queue_prev := 0x3000, p_rsp := 0x300\<rparr>,
     0x5000 := sample_pcb\<lparr>p_pid := 5, p_state := PROCESS_STATE_BLOCKED, p_priority := 1, p_base_priority := 1\<rparr>)"

definition sample_pipes :: "pipe list" where
  "sample_pipes = replicate 64 \<lparr>pipe_id = 0, pipe_buffer = replicate 4096 NUL, read_pos = 0, write_pos = 0,
     pipe_count = 0, readers = 0, writers = 0, sem_items = 0, sem_spaces = 0, pipe_mutex = 0, pipe_used = False\<rparr>"

text \<open>The table of the pipes stays folded when the sample state is evaluated.\<close>

declare sample_pipes_def [code del]

definition sample_kernel :: kernel where
  "sample_kernel = \<lparr>procs = sample_procs, stack_mem = (\<lambda>_. 0), next_pid = 6, need_resched = False,
     ready_queues = [\<lparr>q_head = 0x3000, q_tail = 0x4000, q_size = 2\<rparr>, process_queue_init, process_queue_init],
     blocked_q = \<lparr>q_head = 0x5000, q_tail = 0x5000, q_size = 1\<rparr>, finished_q = process_queue_init,
     current = 0x2000, idle_p = 0x1000, last_switch_tick = 0, ticks = 3,
     semaphores = replicate 64 \<lparr>sem_id = 0, sem_value = 0, sem_refcount = 0, sem_lock = 0, wait_head = 0,
                     wait_tail = 0, sem_used = False\<rparr>, next_sem_id = 1,
     activeShift = 0, activeCapsLock = 0, activeCtrl = 0, key_states = replicate 84 0,
     kb_buffer = \<lparr>cb_buffer = replicate 256 NUL, cb_readIndex = 0, cb_writeIndex = 0, cb_size = 0\<rparr>, kbd_sem_id = 0,
     pipes = sample_pipes,
     next_pipe_id = 1,
     kmm = Mm_simple (\<lparr>mem_s = (\<lambda>_. \<lparr>size_and_flags = 0, prev_phys = 0, next_phys = 0, prev_free = 0, next_free = 0\<rparr>),
       free_list_sentinel = 64, endOfKernel_s = 0x100000, mm_initialized_flag_s = 0,
       heap_capacity_bytes_s = 0, heap_used_bytes_s = 0, heap_allocation_count_s = 0,
       heap_free_count_s = 0, heap_failed_allocations_s = 0\<rparr>),
     screen = \<lparr>VBEModeInfo = \<lparr>vbe_pitch = 3072, vbe_width = 1024, vbe_height = 768, vbe_bpp = 24, vbe_framebuffer = 0\<rparr>,
       fb = (\<lambda>_. 0), after_font = (\<lambda>_. []), cursorX = 0, cursorY = 0, fontScale = 1\<rparr>,
     umem = (\<lambda>_. 0), process_start = 0x200000, idle_entry = 0x201000\<rparr>"

definition sample_lists :: "qid \<Rightarrow> ptr list" where
  "sample_lists = (\<lambda>_. [])(Ready 0 := [0x3000, 0x4000], Blocked_q := [0x5000])"

lemma valid_cases: "valid i \<longleftrightarrow> i = Ready 0 \<or> i = Ready 1 \<or> i = Ready 2 \<or> i = Blocked_q \<or> i = Finished_q"
  by (cases i) auto

lemma sample_queues_rep: "sched_rep sample_kernel sample_lists"
  unfolding sched_rep_def
proof (intro conjI allI impI)
  show "length (ready_queues sample_kernel) = 3" by (simp add: sample_kernel_def)
  show "queue_rep (procs sample_kernel) (queue_of sample_kernel i) (sample_lists i)" if "valid i" for i
    using that by (auto simp: valid_cases sample_kernel_def queue_of_def sample_lists_def queue_rep_def plinks_def
      sample_procs_def sample_pcb_def process_queue_init_def)
  show "set (sample_lists i) \<inter> set (sample_lists j) = {}" if "valid i" "valid j" "i \<noteq> j" for i j
    using that by (auto simp: valid_cases sample_lists_def)
qed

lemmas sample_defs = sample_kernel_def sample_procs_def sample_pcb_def sample_lists_def

lemma sample_nowhere: "nowhere p sample_lists \<longleftrightarrow> p \<noteq> 0x3000 \<and> p \<noteq> 0x4000 \<and> p \<noteq> 0x5000"
  by (simp add: nowhere_def sample_lists_def valid_cases all_conj_distrib imp_conjL)

lemma sample_sel [simp]:
  "procs sample_kernel = sample_procs" "current sample_kernel = 0x2000" "idle_p sample_kernel = 0x1000"
  "need_resched sample_kernel = False" "last_switch_tick sample_kernel = 0" "ticks sample_kernel = 3"
  by (simp_all add: sample_kernel_def)

lemma sample_lists_sel [simp]:
  "sample_lists Blocked_q = [0x5000]" "sample_lists Finished_q = []" "sample_lists (Ready 0) = [0x3000, 0x4000]"
  "0 < n \<Longrightarrow> sample_lists (Ready n) = []"
  by (simp_all add: sample_lists_def)

lemma sample_sched_inv: "sched_inv sample_kernel sample_lists"
proof -
  have "p_state (sample_procs p) = PROCESS_STATE_READY \<and> p_priority (sample_procs p) = int n"
    if "p \<in> set (sample_lists (Ready n))" for p n
    using that by (cases "n = 0") (auto simp: sample_procs_def sample_pcb_def)
  moreover have "p_state (sample_procs 0x5000) = PROCESS_STATE_BLOCKED" by (simp add: sample_procs_def)
  ultimately have "queues_wf sample_kernel sample_lists"
    using sample_queues_rep by (simp add: queues_wf_def sample_nowhere)
  then show ?thesis
    by (simp add: sched_inv_def sched_wf_def sample_nowhere sample_procs_def sample_pcb_def unlinked_def
      aging_ok_def young_def sched_consts)
qed

end
