(* ===== verification/Sched_Correct.thy ===== *)
theory Sched_Correct
  imports Kernel_Sample
begin

text \<open>
  The properties of the scheduler: the timer interrupt as a step of the abstract scheduler on lists,
  the saved contexts, aging, the searches, blocking, unblocking and priorities.
\<close>

section \<open>The timer interrupt\<close>

lemma schedule_returns:
  assumes "sched_inv s X"
  shows "\<exists>r s'. schedule rsp s = Some (r, s')"
  by (rule schedule_step [OF assms, of rsp]) blast

text \<open>C12: \<open>schedule\<close> always returns, keeps the invariant of the queues and is the abstract scheduler.
  After aging, when a switch is due, the process that ran goes to the end of the list its state and
  priority say, the head of the highest nonempty ready list is taken out and runs with a fresh
  quantum, and the idle process runs exactly when no process is ready.  When no switch is due, the
  process keeps running, and no ready process has a higher priority.\<close>

theorem schedule_refines:
  assumes "sched_inv s X"
  shows "\<exists>s1 X1 r s' X'. apply_aging s = Some s1 \<and> sched_inv s1 X1 \<and> schedule rsp s = Some (r, s') \<and> sched_inv s' X' \<and>
    (if must_switch (scast (ticks_elapsed s)) s1
     then (current s', X') = pick (idle_p s) (enqueue_current s1 X1) \<and>
          dispatched (scast (ticks_elapsed s)) (current s') s' \<and> \<not> need_resched s'
     else s' = s1 \<and> X' = X1 \<and> r = rsp \<and>
          list_all (\<lambda>n. list_all (\<lambda>p. int n \<le> p_priority (proc s' (current s'))) (X' (Ready n))) [0, 1, 2])"
proof (rule schedule_step [OF assms, of rsp])
  fix s1 X1 r s' X' assume a: "apply_aging s = Some s1" "sched_inv s1 X1" "schedule rsp s = Some (r, s')" "sched_inv s' X'"
    "if must_switch (scast (ticks_elapsed s)) s1
     then (current s', X') = pick (idle_p s) (enqueue_current s1 X1) \<and>
          dispatched (scast (ticks_elapsed s)) (current s') s' \<and> \<not> need_resched s' \<and> p_rsp (proc s' (current s)) = rsp
     else s' = s1 \<and> X' = X1"
    "r = (if current s' = current s then rsp else p_rsp (proc s (current s')))"
  show ?thesis
  proof (cases "must_switch (scast (ticks_elapsed s)) s1")
    case True
    with a show ?thesis by auto
  next
    case False
    have "current s1 = current s"
    proof (rule apply_aging_inv [OF assms])
      fix t assume "apply_aging s = Some t" "current t = current s" with a(1) show ?thesis by simp
    qed
    moreover have "list_all (\<lambda>n. list_all (\<lambda>p. int n \<le> p_priority (proc s1 (current s1))) (X1 (Ready n))) [0, 1, 2]"
      using no_switch_priority [OF sched_invD(1) [OF a(2)] False, of 0] no_switch_priority [OF sched_invD(1) [OF a(2)] False, of 1]
        no_switch_priority [OF sched_invD(1) [OF a(2)] False, of 2] by (auto simp: list_all_iff)
    ultimately show ?thesis using a False by auto
  qed
qed

theorem schedule_refines_witness:
  "sched_inv sample_kernel sample_lists \<and> (\<exists>r s' X'. schedule 0x80 sample_kernel = Some (r, s') \<and> sched_inv s' X')"
  using schedule_refines [OF sample_sched_inv, of "0x80"] sample_sched_inv by blast

text \<open>C13: contexts are isolated.  When \<open>schedule\<close> switches to another process, the stack pointer it
  returns is the one at which that process was stopped, the stack pointer of the interrupted process
  is saved in its block, and no other saved stack pointer changes; when the same process goes on, its
  own stack pointer is returned.\<close>

theorem schedule_contexts:
  assumes "sched_inv s X" and "schedule rsp s = Some (r, s')"
  shows "r = (if current s' = current s then rsp else p_rsp (proc s (current s'))) \<and>
    (current s' \<noteq> current s \<longrightarrow> p_rsp (proc s' (current s)) = rsp) \<and>
    (\<forall>a. a \<noteq> current s \<longrightarrow> p_rsp (proc s' a) = p_rsp (proc s a))"
  by (rule schedule_step [OF assms(1), of rsp]) (use assms(2) in auto)

text \<open>Five ticks after the sample state its quantum is over and the shell is the only process of its
  priority.\<close>

theorem schedule_contexts_witness:
  "\<exists>r s'. schedule 0x80 sample_kernel = Some (r, s') \<and> r = (if current s' = 0x2000 then 0x80 else p_rsp (sample_procs (current s')))
     \<and> p_rsp (proc s' 0x3000) = 0x200"
proof -
  obtain r s' where e: "schedule 0x80 sample_kernel = Some (r, s')"
    using schedule_returns [OF sample_sched_inv] by blast
  from schedule_contexts [OF sample_sched_inv e] e show ?thesis by (auto simp: sample_procs_def)
qed

section \<open>Aging\<close>

text \<open>A sequence of timer interrupts, given by the stack pointers at which they come.\<close>

fun timer_run :: "u64 list \<Rightarrow> kernel \<Rightarrow> kernel option" where
  "timer_run [] s = Some s"
| "timer_run (rsp # rsps) s = do { (_, s1) \<leftarrow> irq00Handler rsp s; timer_run rsps s1 }"

lemma timer_run_append:
  "timer_run (xs @ ys) s = do { s1 \<leftarrow> timer_run xs s; timer_run ys s1 }"
  by (induction xs arbitrary: s) (auto split: Option.bind_splits)

lemma irq_step:
  assumes inv: "sched_inv s X"
  obtains s' X' where "timer_run [rsp] s = Some s'" and "sched_inv s' X'"
    and "\<And>n p. n < 2 \<Longrightarrow> p \<in> set (X (Ready n)) \<Longrightarrow> current s' = p \<or> advanced n p s s' X'"
proof -
  have i: "sched_inv (timer_handler s) X" using inv by simp
  show thesis
  proof (rule schedule_step [OF i, of rsp])
    fix s1 X1 r s' X' assume "schedule rsp (timer_handler s) = Some (r, s')" "sched_inv s' X'"
      "\<And>n p. n < 2 \<Longrightarrow> p \<in> set (X (Ready n)) \<Longrightarrow> current s' = p \<or> advanced n p (timer_handler s) s' X'"
    then show thesis by (intro that [of s' X']) (auto simp: irq00Handler_def advanced_def timer_handler_def)
  qed
qed

text \<open>Within a run, a waiting process is dispatched, is promoted, or has waited as long as the run.\<close>

definition served :: "nat \<Rightarrow> ptr \<Rightarrow> kernel \<Rightarrow> bool" where
  "served n p s \<longleftrightarrow> current s = p \<or> (\<exists>X m. sched_inv s X \<and> n < m \<and> m < 3 \<and> p \<in> set (X (Ready m)))"

lemma timer_run_waits:
  assumes "sched_inv s X" and "n < 2" and "p \<in> set (X (Ready n))"
  shows "(\<exists>k s'. k \<le> length rsps \<and> timer_run (take k rsps) s = Some s' \<and> served n p s') \<or>
    (\<exists>s' X'. timer_run rsps s = Some s' \<and> sched_inv s' X' \<and> p \<in> set (X' (Ready n)) \<and>
      length rsps \<le> unat (p_wait_ticks (proc s' p)))"
proof (induction rsps rule: rev_induct)
  case Nil
  then show ?case using assms by auto
next
  case (snoc r rs)
  then consider k s' where "k \<le> length rs" "timer_run (take k rs) s = Some s'" "served n p s'"
    | s' X' where "timer_run rs s = Some s'" "sched_inv s' X'" "p \<in> set (X' (Ready n))"
        "length rs \<le> unat (p_wait_ticks (proc s' p))" by blast
  then show ?case
  proof cases
    case 1
    then show ?thesis by (intro disjI1 exI [of _ k]) auto
  next
    case 2
    show ?thesis
    proof (rule irq_step [OF 2(2), of r])
      fix t Y assume t: "timer_run [r] s' = Some t" "sched_inv t Y"
        "\<And>n p. n < 2 \<Longrightarrow> p \<in> set (X' (Ready n)) \<Longrightarrow> current t = p \<or> advanced n p s' t Y"
      have run: "timer_run (rs @ [r]) s = Some t" using 2(1) t(1) by (simp add: timer_run_append)
      from t(3) [OF assms(2) 2(3)] have "served n p t \<or>
        (p \<in> set (Y (Ready n)) \<and> unat (p_wait_ticks (proc s' p)) < unat (p_wait_ticks (proc t p)))"
        using t(2) by (auto simp: served_def advanced_def)
      then show ?thesis
      proof
        assume "served n p t"
        with run show ?thesis by (intro disjI1 exI [of _ "length (rs @ [r])"] exI [of _ t]) simp
      next
        assume "p \<in> set (Y (Ready n)) \<and> unat (p_wait_ticks (proc s' p)) < unat (p_wait_ticks (proc t p))"
        with run t(2) 2(4) show ?thesis by (intro disjI2 exI [of _ t] exI [of _ Y]) simp
      qed
    qed
  qed
qed

text \<open>C14: no ready process of priority 0 or 1 is forgotten.  In any 200 timer interrupts (the aging
  threshold) it is dispatched at some point or moves to a ready queue of a higher priority.\<close>

theorem aging_prevents_starvation:
  assumes "sched_inv s X" and "n < 2" and "p \<in> set (X (Ready n))" and "length rsps = 200"
  shows "\<exists>k s'. k \<le> 200 \<and> timer_run (take k rsps) s = Some s' \<and> served n p s'"
proof -
  have False if "timer_run rsps s = Some s'" "sched_inv s' X'" "p \<in> set (X' (Ready n))"
    "200 \<le> unat (p_wait_ticks (proc s' p))" for s' X'
  proof -
    have "n = 0 \<or> n = 1" using assms(2) by arith
    with sched_invD(2) [OF that(2)] that(3) have "p_wait_ticks (proc s' p) < 200"
      by (auto simp: aging_ok_def young_def sched_consts)
    with that(4) show False by (simp add: word_less_nat_alt)
  qed
  with timer_run_waits [OF assms(1-3), of rsps] assms(4) show ?thesis by auto
qed

theorem aging_prevents_starvation_witness:
  "\<exists>k s'. k \<le> 200 \<and> timer_run (take k (replicate 200 0x80)) sample_kernel = Some s' \<and> served 0 0x4000 s'"
  by (rule aging_prevents_starvation [OF sample_sched_inv]) simp_all


section \<open>Searching and listing\<close>

lemma known_nonzero: "sched_rep s X \<Longrightarrow> 0 \<notin> set (known s X)"
  using sched_rep_nonzero [of s X] by (auto simp: known_def in_order_set)

text \<open>The search by pid always ends.  It returns a process that has the pid and is running or in one
  of the queues, and it returns \<open>NULL\<close> exactly when there is none.\<close>

theorem find_by_pid_correct:
  assumes "sched_rep s X"
  shows "\<exists>p. scheduler_find_by_pid pid s = Some p \<and>
    (if p = 0 then pid \<notin> p_pid ` proc s ` set (known s X) else p \<in> set (known s X) \<and> p_pid (proc s p) = pid)"
proof -
  note f = find_by_pid_rep [OF assms, of pid]
  show ?thesis
  proof (cases "first_or_null (\<lambda>p. p_pid (proc s p) = pid) (known s X) = 0")
    case True
    with f first_or_null_none [OF known_nonzero [OF assms]] show ?thesis by auto
  next
    case False
    from first_or_null_some [OF refl False] f False show ?thesis by auto
  qed
qed

lemma refresh_entry_none:
  "b_pid = p_pid b \<Longrightarrow> b_pid \<notin> i_pid ` set es \<Longrightarrow> refresh_entry b es = None"
  by (induction es) auto

text \<open>The listing shows, in the order of the queues and up to the size of the buffer, one entry for
  every process in a queue and one for the running process, and none for the idle process.\<close>

theorem list_all_processes_correct:
  assumes wf: "queues_wf s X" and c: "current s \<noteq> 0" "p_pid (proc s (current s)) \<notin> p_pid ` proc s ` set (in_order X)"
  shows "scheduler_list_all_processes k s = Some (take k (map (\<lambda>p. info_of (proc s p))
    (in_order X @ (if current s = idle_p s then [] else [current s]))))"
proof -
  note w = queues_wfD [OF wf]
  have "list_queues all_queues s k [] = Some (take k (map (\<lambda>p. info_of (proc s p)) (in_order X)))"
    using list_queues_rep [OF w(1) w(6), of all_queues "[]" k] by (simp add: in_order_def valid_def)
  moreover have "refresh_entry (proc s (current s)) (map (\<lambda>p. info_of (proc s p)) (in_order X)) = None"
    using c(2) by (intro refresh_entry_none [OF refl]) (auto simp: info_of_def)
  ultimately show ?thesis using c(1)
    by (cases "length (in_order X) < k") (auto simp: scheduler_list_all_processes_def add_process_to_list_def)
qed

section \<open>Blocking, unblocking, priorities\<close>

text \<open>C15: blocking a ready process by pid and unblocking it brings the queues back, with the process at
  the end of the ready queue of its priority; no other block changes but for its links.\<close>

theorem block_then_unblock:
  assumes wf: "queues_wf s X" and n: "n < 3" and p: "p \<in> set (X (Ready n))"
    and f: "scheduler_find_by_pid pid s = Some p" and c: "p \<noteq> current s"
  shows "\<exists>s1 s2. scheduler_block_by_pid pid s = Some (1, s1) \<and>
    queues_wf s1 (X(Ready n := remove1 p (X (Ready n)), Blocked_q := X Blocked_q @ [p])) \<and>
    scheduler_unblock_process p s1 = Some s2 \<and> queues_wf s2 (X(Ready n := remove1 p (X (Ready n)) @ [p])) \<and>
    (\<forall>a. a \<noteq> p \<longrightarrow> pcb_core (proc s2 a) = pcb_core (proc s a))"
proof (rule block_ready_wf [OF wf n p f c])
  fix s1 assume s1: "scheduler_block_by_pid pid s = Some (1, s1)"
    "queues_wf s1 (X(Ready n := remove1 p (X (Ready n)), Blocked_q := X Blocked_q @ [p]))"
    "p_priority (proc s1 p) = int n" "\<And>a. a \<noteq> p \<Longrightarrow> pcb_core (proc s1 a) = pcb_core (proc s a)"
  have nb: "p \<notin> set (X Blocked_q)"
    using sched_rep_disjoint [OF queues_wfD(1) [OF wf], of "Ready n" Blocked_q p] n p by auto
  have pr: "prio_of s1 p = n" using n s1(3) by (subst prio_of_id) simp_all
  show ?thesis
  proof (rule unblock_wf [OF s1(2), of p])
    fix s2 assume s2: "scheduler_unblock_process p s1 = Some s2"
      "queues_wf s2 (to_ready (prio_of s1 p) p ((X(Ready n := remove1 p (X (Ready n)), Blocked_q := X Blocked_q @ [p]))
         (Blocked_q := remove1 p ((X(Ready n := remove1 p (X (Ready n)), Blocked_q := X Blocked_q @ [p])) Blocked_q))))"
      "\<And>a. pcb_core (proc s2 a) = pcb_core (upd_at p (\<lambda>b. b\<lparr>p_state := PROCESS_STATE_READY,
         p_priority := int (prio_of s1 p)\<rparr>) (procs s1) a)"
    have "X(Ready n := remove1 p (X (Ready n)) @ [p], Blocked_q := X Blocked_q) = X(Ready n := remove1 p (X (Ready n)) @ [p])"
      by (auto simp: fun_eq_iff)
    with s1 s2 nb show ?thesis
      by (auto simp: pr to_ready_def remove1_append fun_upd_twist)
  qed simp
qed

lemma sample_find: "scheduler_find_by_pid 4 sample_kernel = Some 0x4000"
proof -
  have k: "known sample_kernel sample_lists = [0x3000, 0x4000, 0x5000, 0x2000]"
    by (simp add: known_def in_order_def all_queues_def priorities_up_def)
  show ?thesis by (simp add: find_by_pid_rep [OF sample_queues_rep] k sample_procs_def sample_pcb_def)
qed

theorem block_then_unblock_witness:
  "\<exists>s1 s2. scheduler_block_by_pid 4 sample_kernel = Some (1, s1) \<and> scheduler_unblock_process 0x4000 s1 = Some s2 \<and>
     queues_wf s2 (sample_lists(Ready 0 := [0x3000, 0x4000]))"
  using block_then_unblock [OF sched_invD(1) [OF sample_sched_inv] _ _ sample_find, of 0] by auto

text \<open>C16: a new priority is clamped to the range of the queues; a ready process moves to the end of the
  queue of its new priority, with its base priority set and its waiting time reset, and nothing
  happens when the priority is the one it has.\<close>

theorem set_priority_correct:
  assumes wf: "queues_wf s X" and n: "n < 3" and p: "p \<in> set (X (Ready n))"
    and f: "scheduler_find_by_pid pid s = Some p"
  shows "\<exists>s'. scheduler_set_priority pid pr s = Some (1, s') \<and>
    (if min (unat pr) 2 = n then s' = s
     else queues_wf s' (to_ready (min (unat pr) 2) p (X(Ready n := remove1 p (X (Ready n))))) \<and>
       p_base_priority (proc s' p) = int (min (unat pr) 2) \<and> p_wait_ticks (proc s' p) = 0 \<and>
       (\<forall>a. a \<noteq> p \<longrightarrow> pcb_core (proc s' a) = pcb_core (proc s a)))"
proof (cases "min (unat pr) 2 = n")
  case True
  note w = queues_wfD [OF wf]
  have "uint (clamp_priority pr) = int n" using clamp_priority_unat [of pr] True by (simp add: uint_nat)
  moreover have "p \<noteq> 0" "p \<noteq> idle_p s"
    using sched_rep_nonzero [OF w(1) _ p] ready_not_idle [OF wf _ p] n by simp_all
  ultimately show ?thesis using True f w(3) [OF n p] by (simp add: scheduler_set_priority_def Let_def)
next
  case False
  have m: "min (unat pr) 2 = nat (uint (clamp_priority pr))"
    using clamp_priority_unat [of pr] by (simp add: nat_uint_eq)
  show ?thesis by (rule set_priority_ready_wf [OF wf n p f m False]) (use False in auto)
qed

theorem set_priority_correct_witness:
  "\<exists>s'. scheduler_set_priority 4 7 sample_kernel = Some (1, s') \<and>
     queues_wf s' (to_ready 2 0x4000 (sample_lists(Ready 0 := [0x3000])))"
  using set_priority_correct [OF sched_invD(1) [OF sample_sched_inv] _ _ sample_find, of 0 7] by auto

section \<open>A waiter is left in the queue of the blocked processes\<close>

text \<open>The sample state in which the shell has finished while process 5 waits for it.\<close>

definition waiting_kernel :: kernel where
  "waiting_kernel = upd_proc 0x2000 (\<lambda>b. b\<lparr>p_state := PROCESS_STATE_FINISHED, p_waiters_head := 0x5000\<rparr>)
     (upd_proc 0x5000 (\<lambda>b. b\<lparr>p_waiting_on_pid := 2\<rparr>) sample_kernel)"

lemma waiting_saved:
  "map_option (\<lambda>s. (q_head (queue_of s Blocked_q), q_head (queue_of s (Ready 1)), p_state (proc s 0x5000)))
     (save_context 0x2000 0x80 waiting_kernel) = Some (0x5000, 0x5000, PROCESS_STATE_READY)"
  by code_simp


end
