(* ===== verification/Ring_Buffer.thy ===== *)
theory Ring_Buffer
  imports Kernel_Prelude
begin

text \<open>
  Ring buffers, as the keyboard driver and the pipes use them: an array, the positions of the next
  read and the next write, and the number of stored elements.  \<open>ring_rep\<close> relates them to the list of
  the elements in the order they will be read.  \<open>bounded_fifo\<close> is the contract that the two users of
  the array provide; what follows from it is proved once.
\<close>

section \<open>The array\<close>

definition ring_rep :: "nat \<Rightarrow> 'a list \<Rightarrow> nat \<Rightarrow> nat \<Rightarrow> nat \<Rightarrow> 'a list \<Rightarrow> bool" where
  "ring_rep N buf r w n xs \<longleftrightarrow> length buf = N \<and> r < N \<and> w = (r + n) mod N \<and> length xs = n \<and> n \<le> N \<and>
     (\<forall>i < n. buf ! ((r + i) mod N) = xs ! i)"

lemma ring_rep_empty: "length buf = N \<Longrightarrow> r < N \<Longrightarrow> ring_rep N buf r r 0 []"
  by (simp add: ring_rep_def)

lemma mod_apart:
  assumes "i < n" and "n < (N :: nat)"
  shows "(r + i) mod N \<noteq> (r + n) mod N"
proof
  assume "(r + i) mod N = (r + n) mod N"
  then have "(r + n) mod N = (r + i) mod N" by simp
  then have "N dvd (r + n) - (r + i)" using assms by (subst (asm) mod_eq_dvd_iff_nat) simp_all
  then have "N dvd n - i" by simp
  with assms show False by (auto dest: dvd_imp_le)
qed

lemma ring_put:
  assumes rep: "ring_rep N buf r w n xs" and room: "n < N"
  shows "ring_rep N (buf[w := x]) r ((w + 1) mod N) (n + 1) (xs @ [x])"
proof -
  from rep have w: "w = (r + n) mod N" and l: "length buf = N" "length xs = n" and r: "r < N"
    and e: "\<forall>i < n. buf ! ((r + i) mod N) = xs ! i" by (auto simp: ring_rep_def)
  have "w < N" using w r by simp
  have "buf[w := x] ! ((r + i) mod N) = (xs @ [x]) ! i" if "i < n + 1" for i
  proof (cases "i = n")
    case True
    with l w \<open>w < N\<close> show ?thesis by (simp add: nth_append)
  next
    case False
    with that have i: "i < n" by simp
    from mod_apart [OF i room, of r] w have "(r + i) mod N \<noteq> w" by simp
    with e i l show ?thesis by (simp add: nth_append)
  qed
  moreover have "(w + 1) mod N = (r + (n + 1)) mod N" unfolding w by (simp add: mod_simps)
  ultimately show ?thesis using l r room by (simp add: ring_rep_def)
qed

lemma ring_get:
  assumes rep: "ring_rep N buf r w n (x # xs)"
  shows "buf ! r = x" and "ring_rep N buf ((r + 1) mod N) w (n - 1) xs"
proof -
  from rep have w: "w = (r + n) mod N" and l: "length buf = N" "n = Suc (length xs)" and r: "r < N"
    and n: "n \<le> N" and e: "\<And>i. i < n \<Longrightarrow> buf ! ((r + i) mod N) = (x # xs) ! i" by (auto simp: ring_rep_def)
  show "buf ! r = x" using e [of 0] l r by simp
  have "buf ! (((r + 1) mod N + i) mod N) = xs ! i" if "i < n - 1" for i
    using e [of "i + 1"] that by (simp add: mod_simps add.assoc)
  moreover have "w = ((r + 1) mod N + (n - 1)) mod N" unfolding w l(2) by (simp add: mod_simps)
  ultimately show "ring_rep N buf ((r + 1) mod N) w (n - 1) xs" using l r n by (simp add: ring_rep_def)
qed

section \<open>The contract\<close>

locale bounded_fifo =
  fixes rep :: "'b \<Rightarrow> 'a list \<Rightarrow> bool"
    and put :: "'a \<Rightarrow> 'b \<Rightarrow> 'b"
    and get :: "'b \<Rightarrow> 'a \<times> 'b"
    and cap :: nat
  assumes put_law: "rep b xs \<Longrightarrow> length xs < cap \<Longrightarrow> rep (put x b) (xs @ [x])"
    and get_law: "rep b (x # xs) \<Longrightarrow> fst (get b) = x \<and> rep (snd (get b)) xs"
begin

fun get_many :: "nat \<Rightarrow> 'b \<Rightarrow> 'a list \<times> 'b" where
  "get_many 0 b = ([], b)"
| "get_many (Suc n) b = (let (x, b1) = get b; (xs, b2) = get_many n b1 in (x # xs, b2))"

lemma put_many: "rep b xs \<Longrightarrow> length xs + length ys \<le> cap \<Longrightarrow> rep (fold put ys b) (xs @ ys)"
proof (induction ys arbitrary: b xs)
  case (Cons y ys)
  then have "rep (put y b) (xs @ [y])" by (intro put_law) simp_all
  from Cons.IH [OF this] Cons.prems show ?case by simp
qed simp

lemma get_many_law: "rep b (xs @ ys) \<Longrightarrow> fst (get_many (length xs) b) = xs \<and> rep (snd (get_many (length xs) b)) ys"
proof (induction xs arbitrary: b)
  case (Cons x xs)
  then have "rep b (x # (xs @ ys))" by simp
  from get_law [OF this] Cons.IH [of "snd (get b)"] show ?case by (auto simp: split_beta Let_def)
qed simp

lemma put_get:
  assumes "rep b []" and "length ys \<le> cap"
  shows "fst (get_many (length ys) (fold put ys b)) = ys" and "rep (snd (get_many (length ys) (fold put ys b))) []"
  using get_many_law [of "fold put ys b" ys "[]"] put_many [OF assms(1), of ys] assms(2) by simp_all

end

end
