(* ===== verification/Sem_Inv.thy ===== *)
theory Sem_Inv
  imports Sched_Inv Semaphore
begin

text \<open>
  Correctness of the semaphores.  \<open>waiters s i ws\<close>: the waiting list of the semaphore in slot \<open>i\<close> is
  \<open>ws\<close>.  Between two kernel operations no lock is held, a semaphore with a positive value has no
  waiter, no process waits twice, and all waiters are blocked (\<open>sems_inv\<close>).
\<close>

section \<open>Waiting lists\<close>

fun wait_chain :: "pheap \<Rightarrow> ptr list \<Rightarrow> bool" where
  "wait_chain h [] \<longleftrightarrow> True"
| "wait_chain h [p] \<longleftrightarrow> p_sem_waiter_next (h p) = 0"
| "wait_chain h (p # q # ps) \<longleftrightarrow> p_sem_waiter_next (h p) = q \<and> wait_chain h (q # ps)"

lemma wait_chain_cong:
  assumes "wait_chain h ws" and "\<And>a. a \<in> set ws \<Longrightarrow> p_sem_waiter_next (h' a) = p_sem_waiter_next (h a)"
  shows "wait_chain h' ws"
  using assms by (induction h ws rule: wait_chain.induct) auto

lemma wait_chain_head: "wait_chain h (p # ps) \<Longrightarrow> p_sem_waiter_next (h p) = hd (ps @ [0]) \<and> wait_chain h ps"
  by (cases ps) auto

lemma wait_chain_snoc:
  assumes "wait_chain h (ps @ [q])" and "p_sem_waiter_next (h' q) = p" and "p_sem_waiter_next (h' p) = 0"
    and "\<And>a. a \<in> set ps \<Longrightarrow> p_sem_waiter_next (h' a) = p_sem_waiter_next (h a)"
  shows "wait_chain h' (ps @ [q, p])"
  using assms
proof (induction ps)
  case (Cons a ps)
  then show ?case by (cases ps) auto
qed simp

definition waiters :: "'a sems_scheme \<Rightarrow> nat \<Rightarrow> ptr list \<Rightarrow> bool" where
  "waiters s i ws \<longleftrightarrow> 0 \<notin> set ws \<and> distinct ws \<and> wait_chain (procs s) ws \<and>
     wait_head (sem s i) = hd (ws @ [0]) \<and> wait_tail (sem s i) = last (0 # ws)"

definition sems_rep :: "'a sems_scheme \<Rightarrow> (nat \<Rightarrow> ptr list) \<Rightarrow> bool" where
  "sems_rep s W \<longleftrightarrow> length (semaphores s) = MAX_SEMAPHORES \<and> (\<forall>i < MAX_SEMAPHORES. waiters s i (W i)) \<and>
     (\<forall>i < MAX_SEMAPHORES. \<forall>j < MAX_SEMAPHORES. i \<noteq> j \<longrightarrow> set (W i) \<inter> set (W j) = {})"

lemma sems_repD:
  assumes "sems_rep s W" and "i < MAX_SEMAPHORES"
  shows "length (semaphores s) = MAX_SEMAPHORES" "waiters s i (W i)" "i < length (semaphores s)"
    "j < MAX_SEMAPHORES \<Longrightarrow> i \<noteq> j \<Longrightarrow> set (W i) \<inter> set (W j) = {}"
  using assms by (auto simp: sems_rep_def)

lemma upd_sem_sel [simp]:
  "procs (upd_sem i f s) = procs s" "current (upd_sem i f s) = current s" "idle_p (upd_sem i f s) = idle_p s"
  "need_resched (upd_sem i f s) = need_resched s" "last_switch_tick (upd_sem i f s) = last_switch_tick s"
  "ticks (upd_sem i f s) = ticks s" "queue_of (upd_sem i f s) q = queue_of s q"
  "next_sem_id (upd_sem i f s) = next_sem_id s" "sems.more (upd_sem i f s) = sems.more s"
  "length (semaphores (upd_sem i f s)) = length (semaphores s)" "next_pid (upd_sem i f s) = next_pid s"
  "ready_queues (upd_sem i f s) = ready_queues s" "blocked_q (upd_sem i f s) = blocked_q s"
  "finished_q (upd_sem i f s) = finished_q s" "stack_mem (upd_sem i f s) = stack_mem s"
  by (simp_all add: upd_sem_def queue_of_def split: qid.split)

lemma sem_upd_sem [simp]:
  "i < length (semaphores s) \<Longrightarrow> sem (upd_sem i f s) j = (if j = i then f (sem s i) else sem s j)"
  by (auto simp: upd_sem_def)

lemma sems_upd_proc [simp]:
  "semaphores (upd_proc p f s) = semaphores s" "next_sem_id (upd_proc p f s) = next_sem_id s"
  "sems.more (upd_proc p f s) = sems.more s"
  by (simp_all add: upd_proc_def)

lemma queues_wf_upd_sem [simp]: "queues_wf (upd_sem i f s) X = queues_wf s X"
  by (simp add: queues_wf_def sched_rep_def)

lemma enqueue_waiter_rep:
  assumes rep: "sems_rep s W" and i: "i < MAX_SEMAPHORES" and p: "p \<noteq> 0" "\<And>j. j < MAX_SEMAPHORES \<Longrightarrow> p \<notin> set (W j)"
  shows "sems_rep (enqueue_waiter i p s) (W(i := W i @ [p]))"
proof -
  note r = sems_repD [OF rep]
  have d: "waiters (enqueue_waiter i p s) j ((W(i := W i @ [p])) j)" if j: "j < MAX_SEMAPHORES" for j
  proof (cases "W i" rule: rev_cases)
    case Nil
    have "wait_chain (procs s) (W j)" using r(2) [OF j] by (simp add: waiters_def)
    then have "wait_chain (procs (upd_proc p (p_sem_waiter_next_update (\<lambda>_. NULL)) s)) (W j)"
      by (rule wait_chain_cong) (use p(2) [OF j] in auto)
    then show ?thesis
      using r(2) [OF i] r(2) [OF j] r(3) [OF i] Nil p j by (auto simp: waiters_def enqueue_waiter_def Let_def)
  next
    case (snoc us q)
    have q: "q \<noteq> 0" "p \<noteq> q" "q \<notin> set us" "0 \<notin> set us" "wait_head (sem s i) = hd (us @ [q])" "wait_tail (sem s i) = q"
      using r(2) [OF i] p(2) [OF i] snoc by (cases us; auto simp: waiters_def)+
    let ?h = "procs (upd_proc q (p_sem_waiter_next_update (\<lambda>_. p)) (upd_proc p (p_sem_waiter_next_update (\<lambda>_. NULL)) s))"
    have hd: "hd (us @ [q]) \<noteq> 0" using q by (cases us) auto
    have e: "enqueue_waiter i p s = upd_sem i (wait_tail_update (\<lambda>_. p))
        (upd_proc q (p_sem_waiter_next_update (\<lambda>_. p)) (upd_proc p (p_sem_waiter_next_update (\<lambda>_. NULL)) s))"
      using hd q by (simp add: enqueue_waiter_def Let_def)
    show ?thesis
    proof (cases "j = i")
      case True
      have "wait_chain ?h (us @ [q, p])"
        by (rule wait_chain_snoc [of "procs s"]) (use r(2) [OF i] snoc q p(2) [OF i] in \<open>auto simp: waiters_def\<close>)
      moreover have "hd (us @ [q, p, 0]) = hd (us @ [q])" "distinct us" "p \<notin> set us"
        using r(2) [OF i] p(2) [OF i] snoc by (simp_all add: waiters_def hd_append)
      ultimately show ?thesis using r(3) [OF i] p(1) True snoc q by (simp add: waiters_def e)
    next
      case False
      have "q \<notin> set (W j)" using r(4) [OF i j] False snoc by auto
      moreover have c: "wait_chain (procs s) (W j)" using r(2) [OF j] by (simp add: waiters_def)
      ultimately have "wait_chain ?h (W j)" using p(2) [OF j] by (intro wait_chain_cong [OF c]) auto
      then show ?thesis using r(2) [OF j] r(3) [OF i] False by (simp add: waiters_def e)
    qed
  qed
  have "length (semaphores (enqueue_waiter i p s)) = MAX_SEMAPHORES"
    using r(1) [OF i] by (simp add: enqueue_waiter_def Let_def)
  moreover have "set ((W(i := W i @ [p])) j) \<inter> set ((W(i := W i @ [p])) k) = {}"
    if "j < MAX_SEMAPHORES" "k < MAX_SEMAPHORES" "j \<noteq> k" for j k
    using r(4) [OF that] p(2) that by auto
  ultimately show ?thesis using d unfolding sems_rep_def by blast
qed

lemma dequeue_waiter_rep:
  assumes rep: "sems_rep s W" and i: "i < MAX_SEMAPHORES" and w: "W i = w # ws"
  obtains s' where "dequeue_waiter i s = (w, s')" and "sems_rep s' (W(i := ws))"
    and "\<And>j. sem_lock (sem s' j) = sem_lock (sem s j)" "\<And>j. sem_value (sem s' j) = sem_value (sem s j)"
    and "\<And>j. sem_used (sem s' j) = sem_used (sem s j) \<and> sem_id (sem s' j) = sem_id (sem s j)"
    and "s' = s\<lparr>procs := upd_at w (p_sem_waiter_next_update (\<lambda>_. 0)) (procs s), semaphores := semaphores s'\<rparr>"
proof -
  note r = sems_repD [OF rep]
  have wz: "w \<noteq> 0" "wait_head (sem s i) = w" "p_sem_waiter_next (proc s w) = hd (ws @ [0])" "wait_chain (procs s) ws"
    "w \<notin> set ws" "distinct ws" "0 \<notin> set ws" "wait_tail (sem s i) = last (w # ws)"
    using r(2) [OF i] w by (auto simp: waiters_def dest: wait_chain_head)
  have hd0: "hd (ws @ [0]) = 0 \<longleftrightarrow> ws = []" using wz(7) by (cases ws) auto
  let ?s1 = "upd_sem i (wait_head_update (\<lambda>_. hd (ws @ [0]))) s"
  let ?s2 = "if ws = [] then upd_sem i (wait_tail_update (\<lambda>_. 0)) ?s1 else ?s1"
  let ?s = "upd_proc w (p_sem_waiter_next_update (\<lambda>_. 0)) ?s2"
  have e: "dequeue_waiter i s = (w, ?s)"
    using wz r(3) [OF i] hd0 by (simp add: dequeue_waiter_def Let_def)
  have d: "waiters ?s j ((W(i := ws)) j)" if j: "j < MAX_SEMAPHORES" for j
  proof (cases "j = i")
    case True
    have "wait_chain (procs ?s) ws" by (rule wait_chain_cong [OF wz(4)]) (use wz in auto)
    moreover have "last (w # ws) = last (0 # ws)" if "ws \<noteq> []" using that by simp
    ultimately show ?thesis using True wz(5-8) r(3) [OF i] by (cases "ws = []") (simp_all add: waiters_def)
  next
    case False
    have "w \<notin> set (W j)" using r(4) [OF i j] False w by auto
    moreover have c: "wait_chain (procs s) (W j)" using r(2) [OF j] by (simp add: waiters_def)
    ultimately have "wait_chain (procs ?s) (W j)" by (intro wait_chain_cong [OF c]) auto
    then show ?thesis using r(2) [OF j] r(3) [OF i] False by (simp add: waiters_def)
  qed
  have "length (semaphores ?s) = MAX_SEMAPHORES" using r(1) [OF i] by simp
  moreover have "set ((W(i := ws)) j) \<inter> set ((W(i := ws)) k) = {}"
    if "j < MAX_SEMAPHORES" "k < MAX_SEMAPHORES" "j \<noteq> k" for j k
    using r(4) [OF that] w that by auto
  ultimately have "sems_rep ?s (W(i := ws))" using d unfolding sems_rep_def by blast
  moreover have "?s = s\<lparr>procs := upd_at w (p_sem_waiter_next_update (\<lambda>_. 0)) (procs s), semaphores := semaphores ?s\<rparr>"
    by (simp add: upd_proc_def upd_sem_def)
  moreover have "sem_lock (sem ?s j) = sem_lock (sem s j)" "sem_value (sem ?s j) = sem_value (sem s j)"
    "sem_used (sem ?s j) = sem_used (sem s j) \<and> sem_id (sem ?s j) = sem_id (sem s j)" for j
    using r(3) [OF i] by simp_all
  ultimately show thesis using e by (intro that [of ?s])
qed

lemma dequeue_waiter_none:
  assumes "sems_rep s W" and "i < MAX_SEMAPHORES" and "W i = []"
  shows "dequeue_waiter i s = (0, s)"
  using sems_repD(2) [OF assms(1,2)] assms(3) by (simp add: dequeue_waiter_def waiters_def Let_def)

section \<open>The invariant\<close>

definition sems_free :: "'a sems_scheme \<Rightarrow> (nat \<Rightarrow> ptr list) \<Rightarrow> bool" where
  "sems_free s W \<longleftrightarrow> (\<forall>i < MAX_SEMAPHORES. sem_lock (sem s i) = 0 \<and> (0 < sem_value (sem s i) \<longrightarrow> W i = []))"

text \<open>The blocked processes: those in the queue, and the current one between its call and the context
  switch.\<close>

definition asleep :: "'a sched_scheme \<Rightarrow> (qid \<Rightarrow> ptr list) \<Rightarrow> ptr set" where
  "asleep s X = set (X Blocked_q) \<union>
     (if p_state (proc s (current s)) = PROCESS_STATE_BLOCKED then {current s} else {})"

lemma asleep_upd_sem [simp]: "asleep (upd_sem i f s) X = asleep s X"
  by (simp add: asleep_def)

definition sems_inv :: "'a sems_scheme \<Rightarrow> (qid \<Rightarrow> ptr list) \<Rightarrow> (nat \<Rightarrow> ptr list) \<Rightarrow> bool" where
  "sems_inv s X W \<longleftrightarrow> queues_wf s X \<and> sems_rep s W \<and> sems_free s W \<and>
     (\<forall>i < MAX_SEMAPHORES. set (W i) \<subseteq> asleep s X)"

lemma sems_invD:
  assumes "sems_inv s X W"
  shows "queues_wf s X" "sems_rep s W" "sems_free s W" "i < MAX_SEMAPHORES \<Longrightarrow> set (W i) \<subseteq> asleep s X"
    "i < MAX_SEMAPHORES \<Longrightarrow> sem_lock (sem s i) = 0" "i < MAX_SEMAPHORES \<Longrightarrow> 0 < sem_value (sem s i) \<Longrightarrow> W i = []"
    "i < MAX_SEMAPHORES \<Longrightarrow> i < length (semaphores s)"
  using assms by (auto simp: sems_inv_def sems_free_def sems_rep_def)

lemma sems_inv_cong:
  assumes "procs s' = procs s" "ready_queues s' = ready_queues s" "blocked_q s' = blocked_q s" "finished_q s' = finished_q s"
    "current s' = current s" "idle_p s' = idle_p s" "semaphores s' = semaphores s"
  shows "sems_inv s' X W = sems_inv s X W"
proof -
  have "queue_of s' i = queue_of s i" for i using assms by (simp add: queue_of_def split: qid.split)
  then show ?thesis
    using assms by (simp add: sems_inv_def queues_wf_def sched_rep_def sems_rep_def sems_free_def waiters_def asleep_def)
qed

lemma sem_get_lt: "sem_get_by_id sid s = Some i \<Longrightarrow> i < MAX_SEMAPHORES"
  by (auto simp: sem_get_by_id_def find_slot_by_id_def find_Some_iff split: if_splits)

lemma sem_get_slot:
  "sem_get_by_id sid s = Some i \<Longrightarrow> sem_used (sem s i) \<and> sem_id (sem s i) = sid"
  by (auto simp: sem_get_by_id_def find_slot_by_id_def find_Some_iff split: if_splits)

lemma sems_rep_frame:
  assumes "sems_rep s W" and "length (semaphores s') = length (semaphores s)"
    and "\<And>i. i < MAX_SEMAPHORES \<Longrightarrow> wait_head (sem s' i) = wait_head (sem s i) \<and> wait_tail (sem s' i) = wait_tail (sem s i)"
    and "\<And>a. p_sem_waiter_next (proc s' a) = p_sem_waiter_next (proc s a)"
  shows "sems_rep s' W"
proof -
  have "waiters s' i (W i)" if "i < MAX_SEMAPHORES" for i
    using sems_repD(2) [OF assms(1) that] assms(3) [OF that] assms(4) wait_chain_cong [of "procs s" "W i" "procs s'"]
    by (simp add: waiters_def)
  with assms(1,2) show ?thesis by (simp add: sems_rep_def)
qed

lemma more_sems:
  assumes "sched.more s' = sched.more (s :: 'a sems_scheme)"
  shows "semaphores s' = semaphores s" "next_sem_id s' = next_sem_id s" "sems.more s' = sems.more s"
  using assms by (cases s, cases s', simp)+

lemma wake_waiter_rep:
  assumes wf: "queues_wf s X" and rep: "sems_rep s W" and w: "w \<in> set (X Blocked_q)"
  obtains s' where "wake_waiter w s = Some s'"
    and "queues_wf s' (to_ready (prio_of s w) w (X(Blocked_q := remove1 w (X Blocked_q))))"
    and "sems_rep s' W" and "sched.more s' = sched.more s" and "current s' = current s" and "idle_p s' = idle_p s"
    and "\<And>a. pcb_core (proc s' a) = pcb_core (upd_at w (\<lambda>b. b\<lparr>p_state := PROCESS_STATE_READY,
           p_priority := int (prio_of s w), p_waiting_on_sem := 0\<rparr>) (procs s) a)"
    and "\<And>a. a \<notin> set (X Blocked_q) \<Longrightarrow> a \<notin> set (X (Ready (prio_of s w))) \<Longrightarrow> proc s' a = proc s a"
proof -
  let ?s = "upd_proc w (p_waiting_on_sem_update (\<lambda>_. 0)) s"
  have wf1: "queues_wf ?s X" by (rule queues_wf_keep [OF wf]) simp_all
  have pr: "prio_of ?s w = prio_of s w" by (simp add: prio_of_def)
  show thesis
  proof (rule unblock_wf [OF wf1 w])
    fix t assume t: "scheduler_unblock_process w ?s = Some t"
      "queues_wf t (to_ready (prio_of ?s w) w (X(Blocked_q := remove1 w (X Blocked_q))))"
      "current t = current ?s" "idle_p t = idle_p ?s" "sched.more t = sched.more ?s"
      "\<And>a. pcb_core (proc t a) = pcb_core (upd_at w (\<lambda>b. b\<lparr>p_state := PROCESS_STATE_READY,
           p_priority := int (prio_of ?s w)\<rparr>) (procs ?s) a)"
      "\<And>a. a \<notin> set (X Blocked_q) \<Longrightarrow> a \<notin> set (X (Ready (prio_of ?s w))) \<Longrightarrow> proc t a = proc ?s a"
    note m = more_sems [OF t(5)]
    have nx: "p_sem_waiter_next (proc t a) = p_sem_waiter_next (proc s a)" for a
      using pcb_core_eqD(14) [OF t(6) [of a]] by (simp split: if_splits)
    have "sems_rep t W" by (rule sems_rep_frame [OF rep]) (simp_all add: m nx)
    moreover have "pcb_core (proc t a) = pcb_core (upd_at w (\<lambda>b. b\<lparr>p_state := PROCESS_STATE_READY,
           p_priority := int (prio_of s w), p_waiting_on_sem := 0\<rparr>) (procs s) a)" for a
      using t(6) [of a] by (simp add: pr)
    moreover have "proc t a = proc s a" if "a \<notin> set (X Blocked_q)" "a \<notin> set (X (Ready (prio_of s w)))" for a
      using t(7) [of a] that w by (auto simp: pr)
    ultimately show thesis
      using t(1-5) by (intro that [of t]) (simp_all add: wake_waiter_def pr)
  qed
qed

section \<open>Signal\<close>

lemma acquire_free: "sem_lock (sem s i) = 0 \<Longrightarrow> acquire i s = Some (upd_sem i (sem_lock_update (\<lambda>_. 1)) s)"
  by (simp add: acquire_def)

lemma upd_sem_same: "f (sem s i) = sem s i \<Longrightarrow> upd_sem i f s = s"
  by (simp add: upd_sem_def)

lemma upd_sem_twice: "i < length (semaphores s) \<Longrightarrow> upd_sem i f (upd_sem i g s) = upd_sem i (\<lambda>m. f (g m)) s"
  by (simp add: upd_sem_def)

lemma unlock_value: "sem_lock m = 0 \<Longrightarrow> m\<lparr>sem_value := v, sem_lock := 0\<rparr> = m\<lparr>sem_value := v\<rparr>"
  by (cases m) simp

lemma signal_counts:
  assumes inv: "sems_inv s X W" and g: "sem_get_by_id sid s = Some i" and n: "W i = []"
  shows "sem_signal_by_id sid s = Some (1, upd_sem i (\<lambda>m. m\<lparr>sem_value := sem_value m + 1\<rparr>) s)"
    and "sems_inv (upd_sem i (\<lambda>m. m\<lparr>sem_value := sem_value m + 1\<rparr>) s) X W"
proof -
  note d = sems_invD [OF inv] and i = sem_get_lt [OF g]
  let ?l = "upd_sem i (sem_lock_update (\<lambda>_. 1)) s"
  have r: "sems_rep ?l W" by (rule sems_rep_frame [OF d(2)]) (use d(7) [OF i] in simp_all)
  have "release i (upd_sem i (\<lambda>m. m\<lparr>sem_value := sem_value m + 1\<rparr>) ?l) = upd_sem i (\<lambda>m. m\<lparr>sem_value := sem_value m + 1\<rparr>) s"
    using d(5) [OF i] d(7) [OF i] by (simp add: release_def upd_sem_twice) (simp add: upd_sem_def unlock_value)
  then show "sem_signal_by_id sid s = Some (1, upd_sem i (\<lambda>m. m\<lparr>sem_value := sem_value m + 1\<rparr>) s)"
    by (simp add: sem_signal_by_id_def g acquire_free [OF d(5) [OF i]] dequeue_waiter_none [OF r i n])
  have "sems_rep (upd_sem i (\<lambda>m. m\<lparr>sem_value := sem_value m + 1\<rparr>) s) W"
    by (rule sems_rep_frame [OF d(2)]) (use d(7) [OF i] in simp_all)
  then show "sems_inv (upd_sem i (\<lambda>m. m\<lparr>sem_value := sem_value m + 1\<rparr>) s) X W"
    using inv n d(7) [OF i] by (auto simp: sems_inv_def sems_free_def)
qed

text \<open>The lists after the first waiter \<open>w\<close> of a semaphore is woken.\<close>

abbreviation woken :: "'a sched_scheme \<Rightarrow> ptr \<Rightarrow> (qid \<Rightarrow> ptr list) \<Rightarrow> qid \<Rightarrow> ptr list" where
  "woken s w X \<equiv> to_ready (prio_of s w) w (X(Blocked_q := remove1 w (X Blocked_q)))"

lemma signal_wakes:
  assumes inv: "sems_inv s X W" and g: "sem_get_by_id sid s = Some i" and ws: "W i = w # ws"
    and c: "p_state (proc s (current s)) \<noteq> PROCESS_STATE_BLOCKED"
  obtains s' where "sem_signal_by_id sid s = Some (1, s')" and "sems_inv s' (woken s w X) (W(i := ws))"
    and "\<And>j. j < MAX_SEMAPHORES \<Longrightarrow> sem_value (sem s' j) = sem_value (sem s j)"
    and "\<And>j. j < MAX_SEMAPHORES \<Longrightarrow> sem_used (sem s' j) = sem_used (sem s j) \<and> sem_id (sem s' j) = sem_id (sem s j)"
    and "current s' = current s" and "idle_p s' = idle_p s" and "sems.more s' = sems.more s"
    and "\<And>a. pcb_core (proc s' a) = pcb_core (upd_at w (\<lambda>b. b\<lparr>p_state := PROCESS_STATE_READY,
           p_priority := int (prio_of s w), p_waiting_on_sem := 0, p_sem_waiter_next := 0\<rparr>) (procs s) a)"
    and "\<And>a. a \<notin> set (X Blocked_q) \<Longrightarrow> a \<notin> set (X (Ready (prio_of s w))) \<Longrightarrow> proc s' a = proc s a"
proof -
  note d = sems_invD [OF inv] and i = sem_get_lt [OF g]
  let ?l = "upd_sem i (sem_lock_update (\<lambda>_. 1)) s"
  have r: "sems_rep ?l W" by (rule sems_rep_frame [OF d(2)]) (use d(7) [OF i] in simp_all)
  from dequeue_waiter_rep [OF r i ws] obtain s1 where s1: "dequeue_waiter i ?l = (w, s1)" "sems_rep s1 (W(i := ws))"
    "\<And>j. sem_lock (sem s1 j) = sem_lock (sem ?l j)" "\<And>j. sem_value (sem s1 j) = sem_value (sem ?l j)"
    "\<And>j. sem_used (sem s1 j) = sem_used (sem ?l j) \<and> sem_id (sem s1 j) = sem_id (sem ?l j)"
    "s1 = ?l\<lparr>procs := upd_at w (p_sem_waiter_next_update (\<lambda>_. 0)) (procs ?l), semaphores := semaphores s1\<rparr>" by blast
  have f: "procs s1 = upd_at w (p_sem_waiter_next_update (\<lambda>_. 0)) (procs s)" "current s1 = current s" "idle_p s1 = idle_p s"
    "sems.more s1 = sems.more s" "queue_of s1 q = queue_of s q" "ready_queues s1 = ready_queues s" for q
    by (subst s1(6), simp add: queue_of_def split: qid.split)+
  have wf1: "queues_wf s1 X"
    using queues_wf_keep [OF d(1), of "p_sem_waiter_next_update (\<lambda>_. 0)" w] by (simp add: queues_wf_def sched_rep_def f)
  have wb: "w \<in> set (X Blocked_q)" using d(4) [OF i] ws c by (auto simp: asleep_def)
  have pr: "prio_of s1 w = prio_of s w" by (simp add: prio_of_def f)
  have wn: "w \<notin> set ((W(i := ws)) j)" if "j < MAX_SEMAPHORES" for j
    using sems_repD [OF d(2) i] sems_repD(4) [OF d(2) i that] ws by (auto simp: waiters_def)
  have wz: "w \<noteq> 0" using sems_repD(2) [OF d(2) i] ws by (auto simp: waiters_def)
  show thesis
  proof (rule wake_waiter_rep [OF wf1 s1(2) wb])
    fix t assume t: "wake_waiter w s1 = Some t" "queues_wf t (woken s1 w X)" "sems_rep t (W(i := ws))"
      "sched.more t = sched.more s1" "current t = current s1" "idle_p t = idle_p s1"
      "\<And>a. pcb_core (proc t a) = pcb_core (upd_at w (\<lambda>b. b\<lparr>p_state := PROCESS_STATE_READY,
           p_priority := int (prio_of s1 w), p_waiting_on_sem := 0\<rparr>) (procs s1) a)"
      "\<And>a. a \<notin> set (X Blocked_q) \<Longrightarrow> a \<notin> set (X (Ready (prio_of s1 w))) \<Longrightarrow> proc t a = proc s1 a"
    note m = more_sems [OF t(4)]
    let ?s = "release i t"
    have len: "i < length (semaphores t)" using sems_repD(3) [OF t(3) i] .
    have e: "sem_signal_by_id sid s = Some (1, ?s)"
      using wz t(1) by (simp add: sem_signal_by_id_def g acquire_free [OF d(5) [OF i]] s1(1))
    have core: "pcb_core (proc ?s a) = pcb_core (upd_at w (\<lambda>b. b\<lparr>p_state := PROCESS_STATE_READY,
           p_priority := int (prio_of s w), p_waiting_on_sem := 0, p_sem_waiter_next := 0\<rparr>) (procs s) a)" for a
      using t(7) [of a] by (simp add: release_def f pr)
    have val: "sem_value (sem ?s j) = sem_value (sem s j)" "sem_lock (sem ?s j) = (if j = i then 0 else sem_lock (sem s j))"
      "sem_used (sem ?s j) = sem_used (sem s j) \<and> sem_id (sem ?s j) = sem_id (sem s j)" for j
      using len d(7) [OF i] by (simp_all add: release_def m s1(3,4,5))
    have "sems_rep ?s (W(i := ws))" by (rule sems_rep_frame [OF t(3)]) (use len in \<open>simp_all add: release_def\<close>)
    moreover have "sems_free ?s (W(i := ws))"
      using d(3) d(5,6) [OF i] ws by (auto simp: sems_free_def val)
    moreover have "set ((W(i := ws)) j) \<subseteq> asleep ?s (woken s w X)" if "j < MAX_SEMAPHORES" for j
    proof
      fix a assume a: "a \<in> set ((W(i := ws)) j)"
      then have "a \<in> set (W j)" "a \<noteq> w" using wn [OF that] ws that by (auto split: if_splits)
      then have "a \<in> set (X Blocked_q)" using d(4) [OF that] c by (auto simp: asleep_def)
      then show "a \<in> asleep ?s (woken s w X)" using \<open>a \<noteq> w\<close> by (simp add: asleep_def to_ready_def)
    qed
    ultimately have "sems_inv ?s (woken s w X) (W(i := ws))"
      using t(2) by (simp add: sems_inv_def release_def pr)
    moreover have "proc ?s a = proc s a" if "a \<notin> set (X Blocked_q)" "a \<notin> set (X (Ready (prio_of s w)))" for a
      using t(8) [of a] that wb by (auto simp: release_def f pr)
    ultimately show thesis using e val core t(5,6) m(3) f
      by (intro that [of ?s]) (simp_all add: release_def)
  qed
qed

section \<open>Wait\<close>

lemma wait_takes:
  assumes inv: "sems_inv s X W" and g: "sem_get_by_id sid s = Some i" and c: "current s \<noteq> 0"
    and v: "0 < sem_value (sem s i)"
  shows "sem_wait_by_id sid s = Some (KRet 1 (upd_sem i (\<lambda>m. m\<lparr>sem_value := sem_value m - 1\<rparr>) s))"
    and "sems_inv (upd_sem i (\<lambda>m. m\<lparr>sem_value := sem_value m - 1\<rparr>) s) X W"
proof -
  note d = sems_invD [OF inv] and i = sem_get_lt [OF g]
  have "release i (upd_sem i (\<lambda>m. m\<lparr>sem_value := sem_value m - 1\<rparr>) (upd_sem i (sem_lock_update (\<lambda>_. 1)) s)) =
      upd_sem i (\<lambda>m. m\<lparr>sem_value := sem_value m - 1\<rparr>) s"
    using d(5) [OF i] d(7) [OF i] by (simp add: release_def upd_sem_twice) (simp add: upd_sem_def unlock_value)
  then show "sem_wait_by_id sid s = Some (KRet 1 (upd_sem i (\<lambda>m. m\<lparr>sem_value := sem_value m - 1\<rparr>) s))"
    using v c d(7) [OF i]
    by (simp add: sem_wait_by_id_def g acquire_free [OF d(5) [OF i]] scheduler_current_process_def)
  have "sems_rep (upd_sem i (\<lambda>m. m\<lparr>sem_value := sem_value m - 1\<rparr>) s) W"
    by (rule sems_rep_frame [OF d(2)]) (use d(7) [OF i] in simp_all)
  then show "sems_inv (upd_sem i (\<lambda>m. m\<lparr>sem_value := sem_value m - 1\<rparr>) s) X W"
    using inv d(6) [OF i v] d(7) [OF i] by (auto simp: sems_inv_def sems_free_def)
qed

lemma enqueue_waiter_frame:
  "current (enqueue_waiter i p s) = current s" "idle_p (enqueue_waiter i p s) = idle_p s"
  "sems.more (enqueue_waiter i p s) = sems.more s" "next_sem_id (enqueue_waiter i p s) = next_sem_id s"
  "i < length (semaphores s) \<Longrightarrow> sem_lock (sem (enqueue_waiter i p s) j) = sem_lock (sem s j)"
  "i < length (semaphores s) \<Longrightarrow> sem_value (sem (enqueue_waiter i p s) j) = sem_value (sem s j)"
  "i < length (semaphores s) \<Longrightarrow> sem_used (sem (enqueue_waiter i p s) j) = sem_used (sem s j)"
  "i < length (semaphores s) \<Longrightarrow> sem_id (sem (enqueue_waiter i p s) j) = sem_id (sem s j)"
  "p_state (proc (enqueue_waiter i p s) a) = p_state (proc s a)"
  "length (semaphores (enqueue_waiter i p s)) = length (semaphores s)"
  by (simp_all add: enqueue_waiter_def Let_def)

lemma enqueue_waiter_wf: "queues_wf s X \<Longrightarrow> queues_wf (enqueue_waiter i p s) X"
  unfolding enqueue_waiter_def Let_def by (auto intro!: queues_wf_keep)

lemma wait_blocks:
  assumes inv: "sems_inv s X W" and g: "sem_get_by_id sid s = Some i"
    and c: "current s \<noteq> 0" "current s \<noteq> idle_p s" "nowhere (current s) X"
      "p_state (proc s (current s)) = PROCESS_STATE_RUNNING"
    and v: "sem_value (sem s i) \<le> 0"
  obtains s' where "sem_wait_by_id sid s = Some (KYield () s')" and "sems_inv s' X (W(i := W i @ [current s]))"
    and "\<And>j. sem_value (sem s' j) = sem_value (sem s j)" and "current s' = current s" and "idle_p s' = idle_p s"
    and "p_state (proc s' (current s)) = PROCESS_STATE_BLOCKED" and "p_waiting_on_sem (proc s' (current s)) = sid"
    and "need_resched s'" and "sems.more s' = sems.more s"
    and "\<And>j. sem_used (sem s' j) = sem_used (sem s j) \<and> sem_id (sem s' j) = sem_id (sem s j)"
proof -
  note d = sems_invD [OF inv] and i = sem_get_lt [OF g]
  let ?p = "current s" and ?l = "upd_sem i (sem_lock_update (\<lambda>_. 1)) s"
  let ?s2 = "upd_proc ?p (p_waiting_on_sem_update (\<lambda>_. sid)) ?l"
  let ?e = "enqueue_waiter i ?p ?s2"
  let ?b = "upd_proc ?p (p_state_update (\<lambda>_. PROCESS_STATE_BLOCKED)) (release i ?e)"
  let ?s = "?b\<lparr>need_resched := True, last_switch_tick := scast (ticks_elapsed ?b) - QUANTUM_TICKS\<rparr>"
  note len = d(7) [OF i]
  have pn: "?p \<notin> set (W j)" if "j < MAX_SEMAPHORES" for j
    using d(4) [OF that] c by (auto simp: asleep_def nowhere_def)
  have r2: "sems_rep ?s2 W" by (rule sems_rep_frame [OF d(2)]) (use len in simp_all)
  note re = enqueue_waiter_rep [OF r2 i c(1) pn]
  have "sems_rep ?s (W(i := W i @ [?p]))"
    by (rule sems_rep_frame [OF re]) (use len in \<open>simp_all add: release_def enqueue_waiter_frame\<close>)
  moreover have "sems_free ?s (W(i := W i @ [?p]))"
    using d(3) v len by (auto simp: sems_free_def release_def enqueue_waiter_frame)
  moreover have "queues_wf ?e X" by (rule enqueue_waiter_wf, rule queues_wf_keep) (use d(1) in simp_all)
  then have "queues_wf ?s X"
    using queues_wf_upd [of "release i ?e" X ?p "p_state_update (\<lambda>_. PROCESS_STATE_BLOCKED)"] c(3) by (simp add: release_def)
  moreover have "set ((W(i := W i @ [?p])) j) \<subseteq> asleep ?s X" if "j < MAX_SEMAPHORES" for j
    using d(4) [OF that] c(4) by (auto simp: asleep_def release_def enqueue_waiter_frame)
  ultimately have "sems_inv ?s X (W(i := W i @ [?p]))" by (simp add: sems_inv_def)
  moreover have "sem_wait_by_id sid s = Some (KYield () ?s)"
    using c v len sem_get_slot [OF g]
    by (simp add: sem_wait_by_id_def g acquire_free [OF d(5) [OF i]] scheduler_current_process_def Let_def
      scheduler_block_current_def scheduler_yield_current_def release_def enqueue_waiter_frame ticks_elapsed_def)
  moreover have "p_waiting_on_sem (proc ?e ?p) = sid" using len by (simp add: enqueue_waiter_def Let_def)
  ultimately show thesis using len
    by (intro that [of ?s]) (simp_all add: release_def enqueue_waiter_frame)
qed


section \<open>Setting the value\<close>

lemma wake_step:
  assumes wf: "queues_wf s X" and rep: "sems_rep s W" and sub: "\<And>j. j < MAX_SEMAPHORES \<Longrightarrow> set (W j) \<subseteq> set (X Blocked_q)"
    and i: "i < MAX_SEMAPHORES" and ws: "W i = w # ws"
  obtains s1 s2 X' where "dequeue_waiter i s = (w, s1)" and "wake_waiter w s1 = Some s2" and "w \<noteq> 0"
    and "queues_wf s2 X'" and "sems_rep s2 (W(i := ws))"
    and "\<And>j. j < MAX_SEMAPHORES \<Longrightarrow> set ((W(i := ws)) j) \<subseteq> set (X' Blocked_q)"
    and "\<And>j. sem_lock (sem s2 j) = sem_lock (sem s j)" and "\<And>j. sem_value (sem s2 j) = sem_value (sem s j)"
    and "\<And>j. sem_used (sem s2 j) = sem_used (sem s j) \<and> sem_id (sem s2 j) = sem_id (sem s j)"
    and "current s2 = current s" and "idle_p s2 = idle_p s" and "sems.more s2 = sems.more s"
    and "p_state (proc s2 w) = PROCESS_STATE_READY" and "\<And>a. a \<noteq> w \<Longrightarrow> p_state (proc s2 a) = p_state (proc s a)"
proof -
  from dequeue_waiter_rep [OF rep i ws] obtain s1 where s1: "dequeue_waiter i s = (w, s1)" "sems_rep s1 (W(i := ws))"
    "\<And>j. sem_lock (sem s1 j) = sem_lock (sem s j)" "\<And>j. sem_value (sem s1 j) = sem_value (sem s j)"
    "\<And>j. sem_used (sem s1 j) = sem_used (sem s j) \<and> sem_id (sem s1 j) = sem_id (sem s j)"
    "s1 = s\<lparr>procs := upd_at w (p_sem_waiter_next_update (\<lambda>_. 0)) (procs s), semaphores := semaphores s1\<rparr>" by blast
  have f: "procs s1 = upd_at w (p_sem_waiter_next_update (\<lambda>_. 0)) (procs s)" "current s1 = current s" "idle_p s1 = idle_p s"
    "sems.more s1 = sems.more s" "queue_of s1 q = queue_of s q" "ready_queues s1 = ready_queues s" for q
    by (subst s1(6), simp add: queue_of_def split: qid.split)+
  have wf1: "queues_wf s1 X"
    using queues_wf_keep [OF wf, of "p_sem_waiter_next_update (\<lambda>_. 0)" w] by (simp add: queues_wf_def sched_rep_def f)
  have wb: "w \<in> set (X Blocked_q)" using sub [OF i] ws by auto
  have wn: "w \<notin> set ((W(i := ws)) j)" if "j < MAX_SEMAPHORES" for j
    using sems_repD [OF rep i] sems_repD(4) [OF rep i that] ws by (auto simp: waiters_def)
  have wz: "w \<noteq> 0" using sems_repD(2) [OF rep i] ws by (auto simp: waiters_def)
  show thesis
  proof (rule wake_waiter_rep [OF wf1 s1(2) wb])
    fix t assume t: "wake_waiter w s1 = Some t" "queues_wf t (woken s1 w X)" "sems_rep t (W(i := ws))"
      "sched.more t = sched.more s1" "current t = current s1" "idle_p t = idle_p s1"
      "\<And>a. pcb_core (proc t a) = pcb_core (upd_at w (\<lambda>b. b\<lparr>p_state := PROCESS_STATE_READY,
           p_priority := int (prio_of s1 w), p_waiting_on_sem := 0\<rparr>) (procs s1) a)"
    note m = more_sems [OF t(4)]
    have st: "p_state (proc t a) = (if a = w then PROCESS_STATE_READY else p_state (proc s a))" for a
      using pcb_core_eqD(3) [OF t(7) [of a]] by (simp add: f)
    have "set ((W(i := ws)) j) \<subseteq> set ((woken s1 w X) Blocked_q)" if j: "j < MAX_SEMAPHORES" for j
    proof
      fix a assume a: "a \<in> set ((W(i := ws)) j)"
      then have "a \<in> set (W j)" "a \<noteq> w" using wn [OF j] ws by (auto split: if_splits)
      with sub [OF j] show "a \<in> set ((woken s1 w X) Blocked_q)" by (auto simp: to_ready_def)
    qed
    with s1 t m f st wz show thesis by (intro that [of s1 t "woken s1 w X"]) simp_all
  qed
qed

lemma wake_upto_rep:
  assumes "queues_wf s X" and "sems_rep s W" and "\<And>j. j < MAX_SEMAPHORES \<Longrightarrow> set (W j) \<subseteq> set (X Blocked_q)"
    and "i < MAX_SEMAPHORES"
  shows "\<exists>s' X'. sem_wake_upto i n s = Some (n - length (W i), s') \<and> queues_wf s' X' \<and> sems_rep s' (W(i := drop n (W i))) \<and>
    (\<forall>j < MAX_SEMAPHORES. set ((W(i := drop n (W i))) j) \<subseteq> set (X' Blocked_q)) \<and>
    (\<forall>j. sem_lock (sem s' j) = sem_lock (sem s j) \<and> sem_value (sem s' j) = sem_value (sem s j) \<and>
      sem_used (sem s' j) = sem_used (sem s j) \<and> sem_id (sem s' j) = sem_id (sem s j)) \<and>
    current s' = current s \<and> idle_p s' = idle_p s \<and> sems.more s' = sems.more s \<and>
    (\<forall>a \<in> set (take n (W i)). p_state (proc s' a) = PROCESS_STATE_READY) \<and>
    (\<forall>a. a \<notin> set (take n (W i)) \<longrightarrow> p_state (proc s' a) = p_state (proc s a))"
  using assms
proof (induction n arbitrary: s X W)
  case 0
  then show ?case by (auto simp: fun_upd_idem)
next
  case (Suc n)
  note wf = Suc.prems(1) and rep = Suc.prems(2) and sub = Suc.prems(3) and i = Suc.prems(4)
  show ?case
  proof (cases "W i")
    case Nil
    then have "W(i := []) = W" by auto
    with Nil wf rep sub show ?thesis by (auto simp: dequeue_waiter_none [OF rep i Nil])
  next
    case (Cons w ws)
    have dw: "w \<notin> set ws" using sems_repD(2) [OF rep i] Cons by (simp add: waiters_def)
    show ?thesis
    proof (rule wake_step [OF wf rep sub i Cons])
      fix s1 s2 X1
      assume d: "dequeue_waiter i s = (w, s1)" "wake_waiter w s1 = Some s2" "w \<noteq> 0"
        "queues_wf s2 X1" "sems_rep s2 (W(i := ws))"
        "\<And>j. j < MAX_SEMAPHORES \<Longrightarrow> set ((W(i := ws)) j) \<subseteq> set (X1 Blocked_q)"
        "\<And>j. sem_lock (sem s2 j) = sem_lock (sem s j)" "\<And>j. sem_value (sem s2 j) = sem_value (sem s j)"
        "\<And>j. sem_used (sem s2 j) = sem_used (sem s j) \<and> sem_id (sem s2 j) = sem_id (sem s j)"
        "current s2 = current s" "idle_p s2 = idle_p s" "sems.more s2 = sems.more s"
        "p_state (proc s2 w) = PROCESS_STATE_READY" "\<And>a. a \<noteq> w \<Longrightarrow> p_state (proc s2 a) = p_state (proc s a)"
      from Suc.IH [OF d(4-6) i] obtain s' X' where
        e: "sem_wake_upto i n s2 = Some (n - length ws, s')" "queues_wf s' X'" "sems_rep s' (W(i := drop n ws))"
          "\<forall>j < MAX_SEMAPHORES. set ((W(i := drop n ws)) j) \<subseteq> set (X' Blocked_q)"
          "\<forall>j. sem_lock (sem s' j) = sem_lock (sem s2 j) \<and> sem_value (sem s' j) = sem_value (sem s2 j) \<and>
            sem_used (sem s' j) = sem_used (sem s2 j) \<and> sem_id (sem s' j) = sem_id (sem s2 j)"
          "current s' = current s2" "idle_p s' = idle_p s2" "sems.more s' = sems.more s2"
          "\<forall>a \<in> set (take n ws). p_state (proc s' a) = PROCESS_STATE_READY"
          "\<forall>a. a \<notin> set (take n ws) \<longrightarrow> p_state (proc s' a) = p_state (proc s2 a)"
        unfolding fun_upd_same fun_upd_upd by blast
      have "w \<notin> set (take n ws)" using dw by (meson in_set_takeD)
      with e(10) d(13) have "p_state (proc s' w) = PROCESS_STATE_READY" by simp
      with e d Cons show ?thesis by (intro exI [of _ s'] exI [of _ X']) (auto simp del: fun_upd_apply)
    qed
  qed
qed

lemma sem_set_wakes:
  assumes inv: "sems_inv s X W" and g: "sem_get_by_id sid s = Some i"
    and c: "p_state (proc s (current s)) \<noteq> PROCESS_STATE_BLOCKED"
  shows "\<exists>s' X'. sem_set_by_id sid (int n) s = Some (1, s') \<and> sems_inv s' X' (W(i := drop n (W i))) \<and>
    sem_value (sem s' i) = int (n - length (W i)) \<and>
    (\<forall>j < MAX_SEMAPHORES. j \<noteq> i \<longrightarrow> sem_value (sem s' j) = sem_value (sem s j)) \<and>
    (\<forall>a \<in> set (take n (W i)). p_state (proc s' a) = PROCESS_STATE_READY) \<and>
    (\<forall>a. a \<notin> set (take n (W i)) \<longrightarrow> p_state (proc s' a) = p_state (proc s a)) \<and>
    current s' = current s \<and> sems.more s' = sems.more s"
proof -
  note d = sems_invD [OF inv] and i = sem_get_lt [OF g]
  let ?l = "upd_sem i (sem_lock_update (\<lambda>_. 1)) s"
  have r: "sems_rep ?l W" by (rule sems_rep_frame [OF d(2)]) (use d(7) [OF i] in simp_all)
  have wf: "queues_wf ?l X" using d(1) by simp
  have sub: "set (W j) \<subseteq> set (X Blocked_q)" if "j < MAX_SEMAPHORES" for j
    using d(4) [OF that] c by (simp add: asleep_def)
  from wake_upto_rep [OF wf r sub i, of n] obtain s1 X' where
    e: "sem_wake_upto i n ?l = Some (n - length (W i), s1)" "queues_wf s1 X'" "sems_rep s1 (W(i := drop n (W i)))"
      "\<forall>j < MAX_SEMAPHORES. set ((W(i := drop n (W i))) j) \<subseteq> set (X' Blocked_q)"
      "\<forall>j. sem_lock (sem s1 j) = sem_lock (sem ?l j) \<and> sem_value (sem s1 j) = sem_value (sem ?l j) \<and>
        sem_used (sem s1 j) = sem_used (sem ?l j) \<and> sem_id (sem s1 j) = sem_id (sem ?l j)"
      "current s1 = current ?l" "sems.more s1 = sems.more ?l"
      "\<forall>a \<in> set (take n (W i)). p_state (proc s1 a) = PROCESS_STATE_READY"
      "\<forall>a. a \<notin> set (take n (W i)) \<longrightarrow> p_state (proc s1 a) = p_state (proc ?l a)" by blast
  have len: "i < length (semaphores s1)" using sems_repD(3) [OF e(3) i] .
  let ?s = "release i (upd_sem i (sem_value_update (\<lambda>_. int (n - length (W i)))) s1)"
  have val: "sem_value (sem ?s j) = (if j = i then int (n - length (W i)) else sem_value (sem s j))"
    "sem_lock (sem ?s j) = (if j = i then 0 else sem_lock (sem s j))" for j
    using len e(5) d(7) [OF i] by (simp_all add: release_def)
  have "sems_rep ?s (W(i := drop n (W i)))" by (rule sems_rep_frame [OF e(3)]) (use len in \<open>simp_all add: release_def\<close>)
  moreover have "sems_free ?s (W(i := drop n (W i)))" using d(3) by (auto simp: sems_free_def val)
  moreover have "queues_wf ?s X'" using e(2) by (simp add: release_def)
  moreover have "\<forall>j < MAX_SEMAPHORES. set ((W(i := drop n (W i))) j) \<subseteq> asleep ?s X'"
    using e(4) unfolding asleep_def by blast
  ultimately have "sems_inv ?s X' (W(i := drop n (W i)))" by (simp add: sems_inv_def)
  moreover have "sem_set_by_id sid (int n) s = Some (1, ?s)"
    by (simp add: sem_set_by_id_def g acquire_free [OF d(5) [OF i]] e(1))
  ultimately show ?thesis using e(6-9) by (intro exI [of _ ?s] exI [of _ X']) (simp add: val, simp add: release_def)
qed


section \<open>The table\<close>

definition ids_ok :: "'a sems_scheme \<Rightarrow> bool" where
  "ids_ok s \<longleftrightarrow> length (semaphores s) = MAX_SEMAPHORES \<and>
     (\<forall>i < MAX_SEMAPHORES. sem_used (sem s i) \<longrightarrow> 0 < sem_id (sem s i) \<and> sem_id (sem s i) < next_sem_id s) \<and>
     (\<forall>i < MAX_SEMAPHORES. \<forall>j < MAX_SEMAPHORES. sem_used (sem s i) \<longrightarrow> sem_used (sem s j) \<longrightarrow>
        sem_id (sem s i) = sem_id (sem s j) \<longrightarrow> i = j)"

lemma sem_get_iff:
  assumes "ids_ok s" and "sid \<noteq> 0"
  shows "sem_get_by_id sid s = Some i \<longleftrightarrow> i < MAX_SEMAPHORES \<and> sem_used (sem s i) \<and> sem_id (sem s i) = sid"
proof
  assume "sem_get_by_id sid s = Some i"
  then show "i < MAX_SEMAPHORES \<and> sem_used (sem s i) \<and> sem_id (sem s i) = sid" by (simp add: sem_get_lt sem_get_slot)
next
  assume i: "i < MAX_SEMAPHORES \<and> sem_used (sem s i) \<and> sem_id (sem s i) = sid"
  have "find (\<lambda>j. sem_used (sem s j) \<and> sem_id (sem s j) = sid) [0..<MAX_SEMAPHORES] \<noteq> None"
    using i by (auto simp: find_None_iff)
  then obtain j where j: "sem_get_by_id sid s = Some j" using assms(2) by (auto simp: sem_get_by_id_def find_slot_by_id_def)
  with sem_get_lt [OF j] sem_get_slot [OF j] i assms(1) have "j = i" unfolding ids_ok_def by blast
  with j show "sem_get_by_id sid s = Some i" by simp
qed

lemma sem_get_none:
  assumes "sid \<noteq> 0"
  shows "sem_get_by_id sid s = None \<longleftrightarrow> (\<forall>i < MAX_SEMAPHORES. \<not> (sem_used (sem s i) \<and> sem_id (sem s i) = sid))"
  using assms by (auto simp: sem_get_by_id_def find_slot_by_id_def find_None_iff)

lemma sem_get_zero [simp]: "sem_get_by_id 0 s = None"
  by (simp add: sem_get_by_id_def)

text \<open>Two states with the same used slots find the same semaphores.\<close>

lemma sem_get_cong:
  assumes "\<And>i. i < MAX_SEMAPHORES \<Longrightarrow> sem_used (sem s' i) = sem_used (sem s i) \<and> sem_id (sem s' i) = sem_id (sem s i)"
  shows "sem_get_by_id sid s' = sem_get_by_id sid s"
proof -
  have "find (\<lambda>i. sem_used (sem s' i) \<and> sem_id (sem s' i) = sid) [0..<MAX_SEMAPHORES] =
    find (\<lambda>i. sem_used (sem s i) \<and> sem_id (sem s i) = sid) [0..<MAX_SEMAPHORES]"
    by (rule find_cong) (use assms in auto)
  then show ?thesis by (simp add: sem_get_by_id_def find_slot_by_id_def)
qed

lemma alloc_full: "(\<And>i. i < MAX_SEMAPHORES \<Longrightarrow> sem_used (sem s i)) \<Longrightarrow> sem_alloc v s = (0, s)"
proof -
  assume "\<And>i. i < MAX_SEMAPHORES \<Longrightarrow> sem_used (sem s i)"
  then have "find (\<lambda>i. \<not> sem_used (sem s i)) [0..<MAX_SEMAPHORES] = None" by (simp add: find_None_iff)
  then show ?thesis by (simp add: sem_alloc_def)
qed

lemma alloc_fresh_slot:
  assumes ids: "ids_ok s" and wrap: "next_sem_id s + 1 \<noteq> 0" and nz: "next_sem_id s \<noteq> 0"
    and free: "k < MAX_SEMAPHORES" "\<not> sem_used (sem s k)"
  obtains i s' where "sem_alloc v s = (next_sem_id s, s')" and "ids_ok s'" and "i < MAX_SEMAPHORES" and "\<not> sem_used (sem s i)"
    and "s' = upd_sem i (\<lambda>_. \<lparr>sem_id = next_sem_id s, sem_value = v, sem_refcount = 1, sem_lock = 0,
           wait_head = 0, wait_tail = 0, sem_used = True\<rparr>) (s\<lparr>next_sem_id := next_sem_id s + 1\<rparr>)"
    and "sem_get_by_id (next_sem_id s) s' = Some i"
    and "\<And>sid. sid \<noteq> next_sem_id s \<Longrightarrow> sem_get_by_id sid s' = sem_get_by_id sid s"
proof -
  have "find (\<lambda>i. \<not> sem_used (sem s i)) [0..<MAX_SEMAPHORES] \<noteq> None" using free by (auto simp: find_None_iff)
  then obtain i where fi: "find (\<lambda>i. \<not> sem_used (sem s i)) [0..<MAX_SEMAPHORES] = Some i" by blast
  then have i: "i < MAX_SEMAPHORES" "\<not> sem_used (sem s i)" by (auto simp: find_Some_iff)
  have len: "i < length (semaphores s)" using ids i by (simp add: ids_ok_def)
  let ?m = "\<lparr>sem_id = next_sem_id s, sem_value = v, sem_refcount = 1, sem_lock = 0,
           wait_head = 0, wait_tail = 0, sem_used = True\<rparr>"
  let ?s = "upd_sem i (\<lambda>_. ?m) (s\<lparr>next_sem_id := next_sem_id s + 1\<rparr>)"
  have at: "sem ?s j = (if j = i then ?m else sem s j)" for j using len by simp
  have lt: "a < next_sem_id s + 1" if "a \<le> next_sem_id s" for a
  proof -
    have "unat (next_sem_id s + 1) = unat (next_sem_id s) + 1" using unatSuc [of "next_sem_id s"] wrap by (simp add: add.commute)
    with that show ?thesis by (simp add: word_less_nat_alt word_le_nat_alt)
  qed
  have ids': "ids_ok ?s"
    unfolding ids_ok_def
  proof (intro conjI allI impI)
    show "length (semaphores ?s) = MAX_SEMAPHORES" using ids by (simp add: ids_ok_def)
  next
    fix j assume "j < MAX_SEMAPHORES" "sem_used (sem ?s j)"
    with ids nz show "0 < sem_id (sem ?s j)" by (auto simp: at ids_ok_def word_gt_0)
  next
    fix j assume "j < MAX_SEMAPHORES" "sem_used (sem ?s j)"
    with ids have "sem_id (sem ?s j) \<le> next_sem_id s" by (auto simp: at ids_ok_def intro: order.strict_implies_order)
    then show "sem_id (sem ?s j) < next_sem_id ?s" using lt by simp
  next
    fix j k assume jk: "j < MAX_SEMAPHORES" "k < MAX_SEMAPHORES" "sem_used (sem ?s j)" "sem_used (sem ?s k)"
      "sem_id (sem ?s j) = sem_id (sem ?s k)"
    have "sem_id (sem s a) \<noteq> next_sem_id s" if "a < MAX_SEMAPHORES" "sem_used (sem s a)" for a
      using ids that by (auto simp: ids_ok_def)
    with jk ids show "j = k" by (auto simp: at ids_ok_def split: if_splits)
  qed
  have g: "sem_get_by_id (next_sem_id s) ?s = Some i"
    using sem_get_iff [OF ids' nz, of i] i by (simp add: at)
  have other: "sem_get_by_id sid ?s = sem_get_by_id sid s" if "sid \<noteq> next_sem_id s" for sid
  proof (cases "sid = 0")
    case False
    show ?thesis
    proof (rule option.expand)
      show "(sem_get_by_id sid ?s = None) = (sem_get_by_id sid s = None)"
        using i that by (auto simp: sem_get_none [OF False] at)
      show "the (sem_get_by_id sid ?s) = the (sem_get_by_id sid s)"
        if "sem_get_by_id sid ?s \<noteq> None" "sem_get_by_id sid s \<noteq> None"
      proof -
        from that(2) obtain j where j: "sem_get_by_id sid s = Some j" by blast
        then have "sem_used (sem ?s j)" "sem_id (sem ?s j) = sid" "j < MAX_SEMAPHORES"
          using sem_get_slot [OF j] sem_get_lt [OF j] i by (auto simp: at)
        then have "sem_get_by_id sid ?s = Some j" using sem_get_iff [OF ids' False, of j] by blast
        with j show ?thesis by simp
      qed
    qed
  qed simp
  have e: "sem_alloc v s = (next_sem_id s, ?s)" by (simp add: sem_alloc_def fi)
  show thesis by (rule that [OF e ids' i refl g other])
qed

section \<open>References\<close>

lemma unlock_refcount: "sem_lock m = 0 \<Longrightarrow> m\<lparr>sem_refcount := v, sem_lock := 0\<rparr> = m\<lparr>sem_refcount := v\<rparr>"
  by (cases m) simp

lemma open_counts:
  assumes "sem_get_by_id sid s = Some i" and "sem_lock (sem s i) = 0" and "i < length (semaphores s)"
  shows "sem_open_by_id sid s = Some (1, upd_sem i (\<lambda>m. m\<lparr>sem_refcount := sem_refcount m + 1\<rparr>) s)"
  using assms by (simp add: sem_open_by_id_def acquire_free release_def upd_sem_twice)
    (simp add: upd_sem_def unlock_refcount)

lemma close_counts:
  assumes "sem_get_by_id sid s = Some i" and "sem_lock (sem s i) = 0" and "i < length (semaphores s)"
    and "1 < sem_refcount (sem s i)"
  shows "sem_close_by_id sid s = Some (1, upd_sem i (\<lambda>m. m\<lparr>sem_refcount := sem_refcount m - 1\<rparr>) s)"
  using assms by (simp add: sem_close_by_id_def acquire_free release_def upd_sem_twice Let_def)
    (simp add: upd_sem_def unlock_refcount)

lemma unlock_unused:
  "sem_lock m = 0 \<Longrightarrow> m\<lparr>sem_refcount := v, sem_used := False, wait_head := 0, wait_tail := 0, sem_lock := 0\<rparr> =
    m\<lparr>sem_refcount := v, sem_used := False, wait_head := 0, wait_tail := 0\<rparr>"
  by (cases m) simp

lemma close_frees:
  assumes "sem_get_by_id sid s = Some i" and "sem_lock (sem s i) = 0" "i < length (semaphores s)"
    and "sem_refcount (sem s i) \<le> 1"
  shows "sem_close_by_id sid s = Some (1, upd_sem i (\<lambda>m. m\<lparr>sem_refcount := sem_refcount m - 1, sem_used := False,
    wait_head := 0, wait_tail := 0\<rparr>) s)"
  using assms by (simp add: sem_close_by_id_def acquire_free release_def upd_sem_twice Let_def)
    (simp add: upd_sem_def unlock_unused)

end
