(* ===== verification/Sem_Correct.thy ===== *)
theory Sem_Correct
  imports Sem_Inv Kernel_Sample
begin

text \<open>
  The properties of the semaphores: every operation against the value and the waiting list, identifiers
  and references, and mutual exclusion for a semaphore that starts with the value 1.
\<close>

section \<open>A sample\<close>

text \<open>The sample kernel with one semaphore, number 7, on which process 5 waits.\<close>

definition sample_sems :: kernel where
  "sample_sems = sample_kernel\<lparr>semaphores := (semaphores sample_kernel)
     [0 := \<lparr>sem_id = 7, sem_value = 0, sem_refcount = 1, sem_lock = 0, wait_head = 0x5000, wait_tail = 0x5000, sem_used = True\<rparr>],
     next_sem_id := 8\<rparr>"

definition sample_waiting :: "nat \<Rightarrow> ptr list" where
  "sample_waiting = (\<lambda>_. [])(0 := [0x5000])"

lemma sample_sems_sel [simp]:
  "procs sample_sems = sample_procs" "current sample_sems = 0x2000" "idle_p sample_sems = 0x1000"
  "next_sem_id sample_sems = 8" "length (semaphores sample_sems) = 64"
  by (simp_all add: sample_sems_def sample_kernel_def)

lemma sample_sem: "i < 64 \<Longrightarrow> sem sample_sems i =
    (if i = 0 then \<lparr>sem_id = 7, sem_value = 0, sem_refcount = 1, sem_lock = 0, wait_head = 0x5000, wait_tail = 0x5000, sem_used = True\<rparr>
     else \<lparr>sem_id = 0, sem_value = 0, sem_refcount = 0, sem_lock = 0, wait_head = 0, wait_tail = 0, sem_used = False\<rparr>)"
  by (simp add: sample_sems_def sample_kernel_def nth_Cons split: nat.split)

lemma sample_sems_wf: "queues_wf sample_sems sample_lists"
proof -
  have "queue_of sample_sems q = queue_of sample_kernel q" "ready_queues sample_sems = ready_queues sample_kernel" for q
    by (simp_all add: sample_sems_def queue_of_def split: qid.split)
  then show ?thesis using sched_invD(1) [OF sample_sched_inv] by (simp add: queues_wf_def sched_rep_def)
qed

lemma sample_sems_inv: "sems_inv sample_sems sample_lists sample_waiting"
proof -
  have "sems_rep sample_sems sample_waiting"
    by (auto simp: sems_rep_def waiters_def MAX_SEMAPHORES_def sample_waiting_def sample_sem sample_procs_def sample_pcb_def)
  moreover have "sems_free sample_sems sample_waiting" by (simp add: sems_free_def MAX_SEMAPHORES_def sample_sem)
  moreover have "set (sample_waiting i) \<subseteq> asleep sample_sems sample_lists" for i
    by (auto simp: asleep_def sample_waiting_def split: if_splits)
  ultimately show ?thesis by (simp add: sems_inv_def sample_sems_wf)
qed

lemma sample_sems_ids: "ids_ok sample_sems"
  by (simp add: ids_ok_def MAX_SEMAPHORES_def sample_sem)

lemma sample_sems_get: "sem_get_by_id 7 sample_sems = Some 0"
  using sem_get_iff [OF sample_sems_ids, of 7 0] by (simp add: MAX_SEMAPHORES_def sample_sem)

lemma sample_sems_running: "p_state (proc sample_sems (current sample_sems)) = PROCESS_STATE_RUNNING"
  by (simp add: sample_procs_def)

section \<open>Signal and wait\<close>



text \<open>C20: waiting takes a unit when there is one.  Otherwise the call blocks the running process: it
  becomes the last of the waiting list, its state and the semaphore it waits for are recorded, a
  switch is requested and the processor is given up.\<close>

theorem sem_wait_correct:
  assumes inv: "sems_inv s X W" and g: "sem_get_by_id sid s = Some i"
    and c: "current s \<noteq> 0" "current s \<noteq> idle_p s" "nowhere (current s) X"
      "p_state (proc s (current s)) = PROCESS_STATE_RUNNING"
  shows "if 0 < sem_value (sem s i)
    then \<exists>s'. sem_wait_by_id sid s = Some (KRet 1 s') \<and> sems_inv s' X W \<and>
      sem_value (sem s' i) = sem_value (sem s i) - 1 \<and> procs s' = procs s
    else \<exists>s'. sem_wait_by_id sid s = Some (KYield () s') \<and> sems_inv s' X (W(i := W i @ [current s])) \<and>
      sem_value (sem s' i) = sem_value (sem s i) \<and> current s' = current s \<and> need_resched s' \<and>
      p_state (proc s' (current s)) = PROCESS_STATE_BLOCKED \<and> p_waiting_on_sem (proc s' (current s)) = sid"
proof (cases "0 < sem_value (sem s i)")
  case True
  with wait_takes [OF inv g c(1) True] sems_invD(7) [OF inv sem_get_lt [OF g]] show ?thesis by simp
next
  case False
  then have v: "sem_value (sem s i) \<le> 0" by simp
  show ?thesis by (rule wait_blocks [OF inv g c v]) (use False in auto)
qed

theorem sem_wait_correct_witness:
  "\<exists>s'. sem_wait_by_id 7 sample_sems = Some (KYield () s') \<and> p_state (proc s' 0x2000) = PROCESS_STATE_BLOCKED"
  using sem_wait_correct [OF sample_sems_inv sample_sems_get] sample_sems_running
  by (auto simp: sample_sem sample_nowhere)

text \<open>Setting a semaphore to \<open>n\<close> wakes the first \<open>n\<close> waiters, in order, and no other process; what is
  left of \<open>n\<close> when the waiting list is empty is the new value.\<close>

theorem sem_set_correct:
  assumes "sems_inv s X W" and "sem_get_by_id sid s = Some i"
    and "p_state (proc s (current s)) \<noteq> PROCESS_STATE_BLOCKED"
  shows "\<exists>s' X'. sem_set_by_id sid (int n) s = Some (1, s') \<and> sems_inv s' X' (W(i := drop n (W i))) \<and>
    sem_value (sem s' i) = int (n - length (W i)) \<and>
    (\<forall>a. p_state (proc s' a) = (if a \<in> set (take n (W i)) then PROCESS_STATE_READY else p_state (proc s a)))"
proof -
  from sem_set_wakes [OF assms, of n] obtain s' X' where
    "sem_set_by_id sid (int n) s = Some (1, s')" "sems_inv s' X' (W(i := drop n (W i)))"
    "sem_value (sem s' i) = int (n - length (W i))"
    "\<forall>a \<in> set (take n (W i)). p_state (proc s' a) = PROCESS_STATE_READY"
    "\<forall>a. a \<notin> set (take n (W i)) \<longrightarrow> p_state (proc s' a) = p_state (proc s a)" by blast
  then show ?thesis by (intro exI [of _ s'] exI [of _ X']) simp
qed

section \<open>Identifiers and references\<close>

text \<open>C21: \<open>sem_alloc\<close> fails with 0 exactly when all 64 slots are used, and then changes nothing.
  Otherwise it returns a new identifier, under which the semaphore is found with the requested value
  and one reference; all other identifiers find what they found before.\<close>

theorem sem_alloc_correct:
  assumes ids: "ids_ok s" and nz: "next_sem_id s \<noteq> 0" and wrap: "next_sem_id s + 1 \<noteq> 0"
  shows "if list_all sem_used (semaphores s) then sem_alloc v s = (0, s)
    else \<exists>i s'. sem_alloc v s = (next_sem_id s, s') \<and> ids_ok s' \<and> sem_get_by_id (next_sem_id s) s' = Some i \<and>
      sem_value (sem s' i) = v \<and> sem_refcount (sem s' i) = 1 \<and> sem_get_by_id (next_sem_id s) s = None \<and>
      (\<forall>sid. sid \<noteq> next_sem_id s \<longrightarrow> sem_get_by_id sid s' = sem_get_by_id sid s)"
proof (cases "list_all sem_used (semaphores s)")
  case True
  then have "sem_alloc v s = (0, s)" using ids by (intro alloc_full) (simp add: ids_ok_def list_all_length)
  with True show ?thesis by simp
next
  case False
  then obtain k where k: "k < MAX_SEMAPHORES" "\<not> sem_used (sem s k)" using ids by (auto simp: ids_ok_def list_all_length)
  have n: "sem_get_by_id (next_sem_id s) s = None" using ids by (auto simp: sem_get_none [OF nz] ids_ok_def)
  show ?thesis
  proof (rule alloc_fresh_slot [OF ids wrap nz k, of v])
    fix i s' assume a: "sem_alloc v s = (next_sem_id s, s')" "ids_ok s'" "i < MAX_SEMAPHORES"
      "s' = upd_sem i (\<lambda>_. \<lparr>sem_id = next_sem_id s, sem_value = v, sem_refcount = 1, sem_lock = 0,
           wait_head = 0, wait_tail = 0, sem_used = True\<rparr>) (s\<lparr>next_sem_id := next_sem_id s + 1\<rparr>)"
      "sem_get_by_id (next_sem_id s) s' = Some i"
      "\<And>sid. sid \<noteq> next_sem_id s \<Longrightarrow> sem_get_by_id sid s' = sem_get_by_id sid s"
    have "sem s' i = \<lparr>sem_id = next_sem_id s, sem_value = v, sem_refcount = 1, sem_lock = 0,
           wait_head = 0, wait_tail = 0, sem_used = True\<rparr>" using ids a(3) by (simp add: a(4) ids_ok_def)
    with False a n show ?thesis by auto
  qed
qed

theorem sem_alloc_correct_witness: "\<exists>s' i. sem_alloc 3 sample_sems = (8, s') \<and> sem_get_by_id 8 s' = Some i"
proof -
  have "\<not> list_all sem_used (semaphores sample_sems)"
    by (auto simp: list_all_length sample_sem intro!: exI [of _ 1])
  with sem_alloc_correct [OF sample_sems_ids, of 3] show ?thesis by auto
qed

text \<open>References are counted.  Opening a semaphore and closing it brings the state back; closing the
  last reference frees the identifier, which is unknown from then on.\<close>

theorem sem_open_close:
  assumes ids: "ids_ok s" and g: "sem_get_by_id sid s = Some i" and l: "sem_lock (sem s i) = 0"
    and r: "1 \<le> sem_refcount (sem s i)"
  shows "(\<exists>s1. sem_open_by_id sid s = Some (1, s1) \<and> sem_close_by_id sid s1 = Some (1, s)) \<and>
    (sem_refcount (sem s i) = 1 \<longrightarrow> (\<exists>s1. sem_close_by_id sid s = Some (1, s1) \<and> sem_get_by_id sid s1 = None))"
proof
  have len: "i < length (semaphores s)" using sem_get_lt [OF g] ids by (simp add: ids_ok_def)
  let ?o = "upd_sem i (\<lambda>m. m\<lparr>sem_refcount := sem_refcount m + 1\<rparr>) s"
  have "sem_get_by_id sid ?o = Some i" using g len by (subst sem_get_cong [of _ s]) simp_all
  then have "sem_close_by_id sid ?o = Some (1, upd_sem i (\<lambda>m. m\<lparr>sem_refcount := sem_refcount m - 1\<rparr>) ?o)"
    using l r len by (intro close_counts) simp_all
  moreover have "upd_sem i (\<lambda>m. m\<lparr>sem_refcount := sem_refcount m - 1\<rparr>) ?o = s"
    using len by (simp add: upd_sem_twice upd_sem_same)
  ultimately show "\<exists>s1. sem_open_by_id sid s = Some (1, s1) \<and> sem_close_by_id sid s1 = Some (1, s)"
    using open_counts [OF g l len] by auto
  show "sem_refcount (sem s i) = 1 \<longrightarrow> (\<exists>s1. sem_close_by_id sid s = Some (1, s1) \<and> sem_get_by_id sid s1 = None)"
  proof
    assume "sem_refcount (sem s i) = 1"
    then have c: "sem_close_by_id sid s = Some (1, upd_sem i (\<lambda>m. m\<lparr>sem_refcount := sem_refcount m - 1,
        sem_used := False, wait_head := 0, wait_tail := 0\<rparr>) s)" using close_frees [OF g l len] by simp
    have "sid \<noteq> 0" using g by auto
    then have "sem_get_by_id sid (upd_sem i (\<lambda>m. m\<lparr>sem_refcount := sem_refcount m - 1, sem_used := False,
        wait_head := 0, wait_tail := 0\<rparr>) s) = None"
      using ids g len sem_get_slot [OF g] sem_get_lt [OF g] by (auto simp: sem_get_none ids_ok_def)
    with c show "\<exists>s1. sem_close_by_id sid s = Some (1, s1) \<and> sem_get_by_id sid s1 = None" by blast
  qed
qed

end
