(* ===== verification/Keyboard_Correct.thy ===== *)
theory Keyboard_Correct
  imports Ring_Buffer Sem_Correct
begin

text \<open>
  Correctness of the keyboard driver: its buffer is a bounded queue, key releases type nothing, a typed
  character reaches the buffer and wakes a reader, and a reader of an empty buffer ends up blocked.
\<close>

section \<open>The buffer\<close>

definition kb_rep :: "circle_buffer \<Rightarrow> char list \<Rightarrow> bool" where
  "kb_rep b xs \<longleftrightarrow> ring_rep BUFFER_SIZE (cb_buffer b) (cb_readIndex b) (cb_writeIndex b) (cb_size b) xs"

lemma kb_rep_size: "kb_rep b xs \<Longrightarrow> cb_size b = length xs \<and> length xs \<le> BUFFER_SIZE"
  by (simp add: kb_rep_def ring_rep_def)

lemma kb_push: "kb_rep b xs \<Longrightarrow> length xs < BUFFER_SIZE \<Longrightarrow> fst (buffer_push c b) \<and> kb_rep (snd (buffer_push c b)) (xs @ [c])"
  using ring_put [of BUFFER_SIZE "cb_buffer b" "cb_readIndex b" "cb_writeIndex b" "cb_size b" xs c] kb_rep_size [of b xs]
  by (simp add: buffer_push_def buffer_full_def kb_rep_def)

lemma kb_pop: "kb_rep b (x # xs) \<Longrightarrow> fst (buffer_pop b) = x \<and> kb_rep (snd (buffer_pop b)) xs"
  using ring_get [of BUFFER_SIZE "cb_buffer b" "cb_readIndex b" "cb_writeIndex b" "cb_size b" x xs] kb_rep_size [of b "x # xs"]
  by (simp add: buffer_pop_def buffer_empty_def kb_rep_def)

lemma kb_clear: "kb_rep b xs \<Longrightarrow> kb_rep (buffer_clear b) []"
  by (simp add: kb_rep_def ring_rep_def buffer_clear_def kbd_consts)

interpretation kb: bounded_fifo kb_rep "\<lambda>c b. snd (buffer_push c b)" buffer_pop BUFFER_SIZE
  by unfold_locales (simp_all add: kb_push kb_pop)

text \<open>C22: the keyboard buffer is a queue of at most 256 characters: a push into a full buffer is refused
  and changes nothing, otherwise it appends; a pop takes the oldest character, and gives 0 on an
  empty buffer; clearing empties it.\<close>

theorem keyboard_buffer_correct:
  assumes "kb_rep b xs"
  shows "(if length xs = BUFFER_SIZE then buffer_push c b = (False, b)
      else fst (buffer_push c b) \<and> kb_rep (snd (buffer_push c b)) (xs @ [c])) \<and>
    (case xs of [] \<Rightarrow> buffer_pop b = (NUL, b) | x # ys \<Rightarrow> fst (buffer_pop b) = x \<and> kb_rep (snd (buffer_pop b)) ys) \<and>
    kb_rep (buffer_clear b) []"
proof (intro conjI)
  note n = kb_rep_size [OF assms]
  show "if length xs = BUFFER_SIZE then buffer_push c b = (False, b)
      else fst (buffer_push c b) \<and> kb_rep (snd (buffer_push c b)) (xs @ [c])"
    using n kb_push [OF assms] by (auto simp: buffer_push_def buffer_full_def)
  show "case xs of [] \<Rightarrow> buffer_pop b = (NUL, b) | x # ys \<Rightarrow> fst (buffer_pop b) = x \<and> kb_rep (snd (buffer_pop b)) ys"
  proof (cases xs)
    case Nil
    with n show ?thesis by (simp add: buffer_pop_def buffer_empty_def)
  next
    case (Cons x ys)
    with assms kb_pop [of b x ys] show ?thesis by simp
  qed
  show "kb_rep (buffer_clear b) []" by (rule kb_clear [OF assms])
qed

definition empty_kb :: circle_buffer where
  "empty_kb = \<lparr>cb_buffer = replicate 256 NUL, cb_readIndex = 250, cb_writeIndex = 250, cb_size = 0\<rparr>"

lemma empty_kb_rep: "kb_rep empty_kb []"
  by (simp add: kb_rep_def ring_rep_def empty_kb_def kbd_consts)

theorem keyboard_buffer_correct_witness:
  "kb_rep (snd (buffer_push CHR ''a'' empty_kb)) [CHR ''a''] \<and> buffer_pop empty_kb = (NUL, empty_kb)"
  using keyboard_buffer_correct [OF empty_kb_rep, of "CHR ''a''"] by (simp add: BUFFER_SIZE_def)

text \<open>What is typed is read in the same order, also when the positions wrap around.\<close>

theorem keyboard_typed_is_read:
  assumes "kb_rep b []" and "length cs \<le> BUFFER_SIZE"
  shows "fst (kb.get_many (length cs) (fold (\<lambda>c b. snd (buffer_push c b)) cs b)) = cs"
  by (rule kb.put_get(1) [OF assms])

section \<open>Scan codes\<close>

lemma release_no_char: "128 \<le> scancode \<Longrightarrow> scToAscii scancode s = NUL"
  by (auto simp: scToAscii_def kbd_consts word_less_nat_alt word_le_nat_alt)

lemma updateFlags_frame:
  "kb_buffer (updateFlags scancode s) = kb_buffer s" "procs (updateFlags scancode s) = procs s"
  "semaphores (updateFlags scancode s) = semaphores s"
  by (simp_all add: updateFlags_def)

text \<open>The release of a key types nothing: whatever the modifier keys say, the interrupt handler
  returns and the buffer, the processes and the semaphores are as before.\<close>

theorem key_release_types_nothing:
  assumes "128 \<le> scancode"
  shows "\<exists>s'. keyboard_interrupt_handler scancode s = Some s' \<and> kb_buffer s' = kb_buffer s \<and> procs s' = procs s \<and>
    semaphores s' = semaphores s"
proof -
  let ?s = "(updateFlags scancode s)\<lparr>key_states := update_key_states scancode (key_states (updateFlags scancode s))\<rparr>"
  have "keyboard_interrupt_handler scancode s = Some ?s"
    unfolding keyboard_interrupt_handler_def Let_def release_no_char [OF assms] by simp
  then show ?thesis by (simp add: updateFlags_frame)
qed

section \<open>Readers\<close>

text \<open>A typed character is stored and a reader is told: with room in the buffer the character is
  appended and the semaphore of the keyboard is signalled, which wakes the process that has waited
  longest or is remembered; with a full buffer the character is dropped and nothing changes.\<close>

theorem keyboard_store_correct:
  assumes inv: "sems_inv s X W" and kb: "kb_rep (kb_buffer s) xs" and g: "sem_get_by_id (kbd_sem_id s) s = Some i"
    and c: "p_state (proc s (current s)) \<noteq> PROCESS_STATE_BLOCKED"
  shows "\<exists>s'. keyboard_store ch s = Some s' \<and>
    (if length xs = BUFFER_SIZE then s' = s
     else kb_rep (kb_buffer s') (xs @ [ch]) \<and>
       (case W i of
          [] \<Rightarrow> sems_inv s' X W \<and> sem_value (sem s' i) = sem_value (sem s i) + 1
        | w # ws \<Rightarrow> sems_inv s' (woken s w X) (W(i := ws)) \<and> p_state (proc s' w) = PROCESS_STATE_READY))"
proof (cases "length xs = BUFFER_SIZE")
  case True
  with kb_rep_size [OF kb] have "buffer_push ch (kb_buffer s) = (False, kb_buffer s)"
    by (simp add: buffer_push_def buffer_full_def)
  with True show ?thesis by (simp add: keyboard_store_def)
next
  case False
  let ?s = "s\<lparr>kb_buffer := snd (buffer_push ch (kb_buffer s))\<rparr>"
  have lt: "length xs < BUFFER_SIZE" using False kb_rep_size [OF kb] by simp
  note p = kb_push [OF kb lt, of ch]
  have inv1: "sems_inv ?s X W"
    using inv by (subst sems_inv_cong [of _ s]) simp_all
  have g1: "sem_get_by_id (kbd_sem_id s) ?s = Some i" using g by (subst sem_get_cong [of _ s]) simp_all
  have nz: "kbd_sem_id s \<noteq> 0" using g by auto
  have store: "keyboard_store ch s = map_option snd (sem_signal_by_id (kbd_sem_id s) ?s)"
    using p nz by (simp add: keyboard_store_def split_beta Let_def)
  show ?thesis
  proof (cases "W i")
    case Nil
    note sc = signal_counts [OF inv1 g1 Nil]
    have kbs: "kb_buffer (upd_sem i f ?s) = kb_buffer ?s" for f by (simp add: upd_sem_def)
    show ?thesis using sc store p False Nil sems_invD(7) [OF inv sem_get_lt [OF g]] kbs by simp
  next
    case (Cons w ws)
    have c1: "p_state (proc ?s (current ?s)) \<noteq> PROCESS_STATE_BLOCKED" using c by simp
    show ?thesis
    proof (rule signal_wakes [OF inv1 g1 Cons c1])
      fix t assume t: "sem_signal_by_id (kbd_sem_id s) ?s = Some (1, t)" "sems_inv t (woken ?s w X) (W(i := ws))"
        "sems.more t = sems.more ?s"
        "\<And>a. pcb_core (proc t a) = pcb_core (upd_at w (\<lambda>b. b\<lparr>p_state := PROCESS_STATE_READY,
           p_priority := int (prio_of ?s w), p_waiting_on_sem := 0, p_sem_waiter_next := 0\<rparr>) (procs ?s) a)"
      have "kb_buffer t = kb_buffer ?s" using t(3) by (cases t, cases s) simp
      moreover have "prio_of ?s w = prio_of s w" by (simp add: prio_of_def)
      moreover have "p_state (proc t w) = PROCESS_STATE_READY" using pcb_core_eqD(3) [OF t(4) [of w]] by simp
      ultimately show ?thesis using t(1,2) store p False Cons by simp
    qed
  qed
qed

text \<open>C23: a process that waits for a key while the buffer is empty gives up the processor after finitely
  many steps: it uses up the units left in the semaphore from characters that were already read, and
  is then blocked as the last process that waits for the keyboard.\<close>

theorem keyboard_wait_blocks:
  assumes "sems_inv s X W" and "sem_get_by_id (kbd_sem_id s) s = Some i" and "buffer_empty (kb_buffer s)"
    and "current s \<noteq> 0" "current s \<noteq> idle_p s" "nowhere (current s) X"
      "p_state (proc s (current s)) = PROCESS_STATE_RUNNING"
  shows "\<exists>s'. keyboard_wait_for_char s = Some (KYield () s') \<and> sems_inv s' X (W(i := W i @ [current s])) \<and>
    sem_value (sem s' i) \<le> 0 \<and> p_state (proc s' (current s)) = PROCESS_STATE_BLOCKED"
  using assms
proof (induction "nat (sem_value (sem s i))" arbitrary: s rule: less_induct)
  case less
  note inv = less.prems(1) and g = less.prems(2) and e = less.prems(3) and c = less.prems(4-7)
  have nz: "kbd_sem_id s \<noteq> 0" using g by auto
  show ?case
  proof (cases "0 < sem_value (sem s i)")
    case True
    let ?s = "upd_sem i (\<lambda>m. m\<lparr>sem_value := sem_value m - 1\<rparr>) s"
    note len = sems_invD(7) [OF inv sem_get_lt [OF g]] and w = wait_takes [OF inv g c(1) True]
    have k: "kb_buffer ?s = kb_buffer s" "kbd_sem_id ?s = kbd_sem_id s" by (simp_all add: upd_sem_def)
    have g1: "sem_get_by_id (kbd_sem_id s) ?s = Some i" using g len by (subst sem_get_cong [of _ s]) simp_all
    have "keyboard_wait_for_char s = keyboard_wait_for_char ?s"
      using e nz w(1) by (subst keyboard_wait_for_char.simps) simp
    moreover have "\<exists>s'. keyboard_wait_for_char ?s = Some (KYield () s') \<and>
      sems_inv s' X (W(i := W i @ [current ?s])) \<and> sem_value (sem s' i) \<le> 0 \<and>
      p_state (proc s' (current ?s)) = PROCESS_STATE_BLOCKED"
      by (rule less.hyps) (use True len w(2) g1 k e c in simp_all)
    ultimately show ?thesis by simp
  next
    case False
    then have v: "sem_value (sem s i) \<le> 0" by simp
    show ?thesis
    proof (rule wait_blocks [OF inv g c v])
      fix t assume "sem_wait_by_id (kbd_sem_id s) s = Some (KYield () t)" "sems_inv t X (W(i := W i @ [current s]))"
        "\<And>j. sem_value (sem t j) = sem_value (sem s j)" "p_state (proc t (current s)) = PROCESS_STATE_BLOCKED"
      with e nz v show ?thesis by (subst keyboard_wait_for_char.simps) simp
    qed
  qed
qed

definition sample_kbd :: kernel where
  "sample_kbd = sample_sems\<lparr>kbd_sem_id := 7\<rparr>"

lemma sample_kbd_inv: "sems_inv sample_kbd sample_lists sample_waiting" "sem_get_by_id 7 sample_kbd = Some 0"
  "kb_rep (kb_buffer sample_kbd) []"
proof -
  show "sems_inv sample_kbd sample_lists sample_waiting"
    using sample_sems_inv by (subst sems_inv_cong [of _ sample_sems]) (simp_all add: sample_kbd_def)
  show "sem_get_by_id 7 sample_kbd = Some 0"
    using sample_sems_get by (subst sem_get_cong [of _ sample_sems]) (simp_all add: sample_kbd_def)
  show "kb_rep (kb_buffer sample_kbd) []"
    by (simp add: sample_kbd_def sample_sems_def sample_kernel_def kb_rep_def ring_rep_def kbd_consts)
qed

lemma sample_kbd_sel [simp]:
  "kbd_sem_id sample_kbd = 7" "current sample_kbd = 0x2000" "idle_p sample_kbd = 0x1000" "procs sample_kbd = sample_procs"
  by (simp_all add: sample_kbd_def)

theorem keyboard_wait_blocks_witness:
  "\<exists>s'. keyboard_wait_for_char sample_kbd = Some (KYield () s') \<and> p_state (proc s' 0x2000) = PROCESS_STATE_BLOCKED"
proof -
  have "buffer_empty (kb_buffer sample_kbd)" using kb_rep_size [OF sample_kbd_inv(3)] by (simp add: buffer_empty_def)
  from keyboard_wait_blocks [of sample_kbd, OF sample_kbd_inv(1) _ this] sample_kbd_inv(2) show ?thesis
    by (auto simp: sample_nowhere sample_procs_def)
qed

end
