(* ===== verification/Pipe_Inv.thy ===== *)
theory Pipe_Inv
  imports Keyboard_Correct
begin

text \<open>
  The invariant of a pipe and the steps of its loops.  \<open>pipe_ok s X W i xs\<close>: the pipe in slot \<open>i\<close> holds
  the bytes \<open>xs\<close>, its three semaphores exist and are different, its mutex is free with nobody waiting
  for it, and a running process that is not the idle one is at work.  Under it a wait for the mutex
  never blocks, so that a turn of a loop is one atomic step on the buffer followed by a signal.
\<close>

section \<open>The buffer\<close>

definition pipe_rep :: "pipe \<Rightarrow> char list \<Rightarrow> bool" where
  "pipe_rep p xs \<longleftrightarrow> ring_rep PIPE_BUFFER_SIZE (pipe_buffer p) (read_pos p) (write_pos p) (pipe_count p) xs"

lemma pipe_rep_count: "pipe_rep p xs \<Longrightarrow> pipe_count p = length xs \<and> length xs \<le> PIPE_BUFFER_SIZE"
  by (simp add: pipe_rep_def ring_rep_def)

interpretation pf: bounded_fifo pipe_rep pipe_put pipe_get PIPE_BUFFER_SIZE
proof
  fix p xs c assume "pipe_rep p xs" "length xs < PIPE_BUFFER_SIZE"
  then show "pipe_rep (pipe_put c p) (xs @ [c])"
    using ring_put [of PIPE_BUFFER_SIZE "pipe_buffer p" "read_pos p" "write_pos p" "pipe_count p" xs c]
      pipe_rep_count [of p xs] by (simp add: pipe_rep_def pipe_put_def)
next
  fix p x xs assume "pipe_rep p (x # xs)"
  then show "fst (pipe_get p) = x \<and> pipe_rep (snd (pipe_get p)) xs"
    using ring_get [of PIPE_BUFFER_SIZE "pipe_buffer p" "read_pos p" "write_pos p" "pipe_count p" x xs]
    by (simp add: pipe_rep_def pipe_get_def)
qed

section \<open>The invariant\<close>

lemma upd_pipe_sel [simp]:
  "procs (upd_pipe i f s) = procs s" "ready_queues (upd_pipe i f s) = ready_queues s" "blocked_q (upd_pipe i f s) = blocked_q s"
  "finished_q (upd_pipe i f s) = finished_q s" "current (upd_pipe i f s) = current s" "idle_p (upd_pipe i f s) = idle_p s"
  "semaphores (upd_pipe i f s) = semaphores s" "length (pipes (upd_pipe i f s)) = length (pipes s)"
  "next_sem_id (upd_pipe i f s) = next_sem_id s" "next_pipe_id (upd_pipe i f s) = next_pipe_id s"
  "pipes.more (upd_pipe i f s) = pipes.more s" "need_resched (upd_pipe i f s) = need_resched s"
  by (simp_all add: upd_pipe_def)

lemma pip_upd_pipe [simp]: "i < length (pipes s) \<Longrightarrow> pip (upd_pipe i f s) j = (if j = i then f (pip s i) else pip s j)"
  by (auto simp: upd_pipe_def)

lemma pipes_upd_sem [simp]: "pipes (upd_sem k f s) = pipes s" "pipes.more (upd_sem k f s) = pipes.more s"
  by (simp_all add: upd_sem_def)

lemma sems_inv_upd_pipe [simp]: "sems_inv (upd_pipe i f s) X W = sems_inv s X W"
  by (rule sems_inv_cong) simp_all

lemma sem_get_upd_pipe [simp]: "sem_get_by_id sid (upd_pipe i f s) = sem_get_by_id sid s"
  by (rule sem_get_cong) simp

lemma upd_pipe_sem_commute: "upd_pipe i f (upd_sem k g s) = upd_sem k g (upd_pipe i f s)"
  by (simp add: upd_pipe_def upd_sem_def)

text \<open>The running process can wait.\<close>

definition running :: "'a sched_scheme \<Rightarrow> (qid \<Rightarrow> ptr list) \<Rightarrow> bool" where
  "running s X \<longleftrightarrow> current s \<noteq> 0 \<and> current s \<noteq> idle_p s \<and> nowhere (current s) X \<and>
     p_state (proc s (current s)) = PROCESS_STATE_RUNNING"

lemma runningD:
  assumes "running s X"
  shows "current s \<noteq> 0" "current s \<noteq> idle_p s" "nowhere (current s) X"
    "p_state (proc s (current s)) = PROCESS_STATE_RUNNING" "p_state (proc s (current s)) \<noteq> PROCESS_STATE_BLOCKED"
  using assms by (simp_all add: running_def)

definition pipe_sems :: "'a pipes_scheme \<Rightarrow> nat \<Rightarrow> nat \<Rightarrow> nat \<Rightarrow> nat \<Rightarrow> bool" where
  "pipe_sems s i m a b \<longleftrightarrow> sem_get_by_id (pipe_mutex (pip s i)) s = Some m \<and> sem_get_by_id (sem_items (pip s i)) s = Some a \<and>
     sem_get_by_id (sem_spaces (pip s i)) s = Some b \<and> m \<noteq> a \<and> m \<noteq> b \<and> a \<noteq> b"

definition pipe_ok :: "'a pipes_scheme \<Rightarrow> (qid \<Rightarrow> ptr list) \<Rightarrow> (nat \<Rightarrow> ptr list) \<Rightarrow> nat \<Rightarrow> nat \<times> nat \<times> nat \<Rightarrow> char list \<Rightarrow> bool" where
  "pipe_ok s X W i = (\<lambda>(m, a, b) xs. sems_inv s X W \<and> running s X \<and> i < length (pipes s) \<and> pipe_sems s i m a b \<and>
     sem_value (sem s m) = 1 \<and> W m = [] \<and> pipe_rep (pip s i) xs)"

lemma pipe_okD:
  assumes "pipe_ok s X W i (m, a, b) xs"
  shows "sems_inv s X W" "running s X" "i < length (pipes s)" "sem_value (sem s m) = 1" "W m = []" "pipe_rep (pip s i) xs"
    "sem_get_by_id (pipe_mutex (pip s i)) s = Some m" "sem_get_by_id (sem_items (pip s i)) s = Some a"
    "sem_get_by_id (sem_spaces (pip s i)) s = Some b" "m \<noteq> a" "m \<noteq> b" "a \<noteq> b" "m < length (semaphores s)"
  using assms sems_invD(7) [of s X W m] sem_get_lt [of _ s m] by (auto simp: pipe_ok_def pipe_sems_def)

text \<open>Taking the mutex, changing the buffer and giving the mutex back changes only the buffer.\<close>

lemma mutex_take:
  assumes ok: "pipe_ok s X W i (m, a, b) xs"
  shows "mutex_wait (pipe_mutex (pip s i)) s = Some (1, upd_sem m (\<lambda>x. x\<lparr>sem_value := sem_value x - 1\<rparr>) s)"
proof -
  note d = pipe_okD [OF ok]
  have "0 < sem_value (sem s m)" using d(4) by simp
  from wait_takes(1) [OF d(1,7) runningD(1) [OF d(2)] this] show ?thesis by (simp add: mutex_wait_def)
qed

lemma mutex_give:
  assumes ok: "pipe_ok s X W i (m, a, b) xs"
  shows "signal (pipe_mutex (pip s i)) (upd_pipe i f (upd_sem m (\<lambda>x. x\<lparr>sem_value := sem_value x - 1\<rparr>) s)) = Some (upd_pipe i f s)"
proof -
  note d = pipe_okD [OF ok]
  let ?t = "upd_sem m (\<lambda>x. x\<lparr>sem_value := sem_value x - 1\<rparr>) (upd_pipe i f s)"
  have "0 < sem_value (sem (upd_pipe i f s) m)" using d(4) by simp
  from wait_takes(2) [of "upd_pipe i f s", OF _ _ _ this] d runningD(1) [OF d(2)] have inv: "sems_inv ?t X W" by simp
  have g: "sem_get_by_id (pipe_mutex (pip s i)) ?t = Some m"
    using d(7,13) by (subst sem_get_cong [of _ s]) simp_all
  have "upd_sem m (\<lambda>x. x\<lparr>sem_value := sem_value x + 1\<rparr>) ?t = upd_pipe i f s"
    using d(13) by (simp add: upd_sem_twice upd_sem_same)
  with signal_counts(1) [OF inv g d(5)] show ?thesis by (simp add: signal_def upd_pipe_sem_commute)
qed

lemma upd_pipe_id: "upd_pipe i (\<lambda>p. p) s = s"
  by (simp add: upd_pipe_def)

lemmas mutex_give_same = mutex_give [where f = "\<lambda>p. p", unfolded upd_pipe_id]

lemma pipe_ok_upd:
  assumes "pipe_ok s X W i (m, a, b) xs" and "pipe_rep (f (pip s i)) ys"
    and "pipe_mutex (f (pip s i)) = pipe_mutex (pip s i)" "sem_items (f (pip s i)) = sem_items (pip s i)"
      "sem_spaces (f (pip s i)) = sem_spaces (pip s i)"
  shows "pipe_ok (upd_pipe i f s) X W i (m, a, b) ys"
  using assms by (simp add: pipe_ok_def pipe_sems_def running_def)

text \<open>Signalling another semaphore, whether it wakes a process or not.\<close>

lemma more_pipes:
  assumes "sems.more s' = sems.more (s :: 'a pipes_scheme)"
  shows "pipes s' = pipes s" "pipes.more s' = pipes.more s" "kb_buffer s' = kb_buffer s"
  using assms by (cases s, cases s', simp)+

lemma signal_other:
  assumes ok: "pipe_ok s X W i (m, a, b) xs" and g: "sem_get_by_id sid s = Some k" and k: "k \<noteq> m"
  obtains s' X' W' where "signal sid s = Some s'" and "pipe_ok s' X' W' i (m, a, b) xs" and "pipes s' = pipes s"
    and "current s' = current s" and "proc s' (current s) = proc s (current s)"
proof -
  note d = pipe_okD [OF ok] and r = runningD [OF pipe_okD(2) [OF ok]]
  have kl: "k < length (semaphores s)" by (rule sems_invD(7) [OF d(1) sem_get_lt [OF g]])
  show thesis
  proof (cases "W k")
    case Nil
    let ?t = "upd_sem k (\<lambda>x. x\<lparr>sem_value := sem_value x + 1\<rparr>) s"
    note sc = signal_counts [OF d(1) g Nil]
    have "sem_get_by_id q ?t = sem_get_by_id q s" for q by (rule sem_get_cong) (use kl in simp)
    then have "pipe_ok ?t X W i (m, a, b) xs"
      using ok sc(2) kl k by (simp add: pipe_ok_def pipe_sems_def running_def)
    with sc(1) show thesis by (intro that [of ?t X W]) (simp_all add: signal_def)
  next
    case (Cons w ws)
    show thesis
    proof (rule signal_wakes [OF d(1) g Cons r(5)])
      fix t assume t: "sem_signal_by_id sid s = Some (1, t)" "sems_inv t (woken s w X) (W(k := ws))"
        "\<And>j. j < MAX_SEMAPHORES \<Longrightarrow> sem_value (sem t j) = sem_value (sem s j)"
        "\<And>j. j < MAX_SEMAPHORES \<Longrightarrow> sem_used (sem t j) = sem_used (sem s j) \<and> sem_id (sem t j) = sem_id (sem s j)"
        "current t = current s" "idle_p t = idle_p s" "sems.more t = sems.more s"
        "\<And>a. a \<notin> set (X Blocked_q) \<Longrightarrow> a \<notin> set (X (Ready (prio_of s w))) \<Longrightarrow> proc t a = proc s a"
      note p = more_pipes [OF t(7)]
      have wb: "w \<in> set (X Blocked_q)"
        using sems_invD(4) [OF d(1) sem_get_lt [OF g]] Cons r(5) by (auto simp: asleep_def)
      have n: "current s \<notin> set (X Blocked_q)" "current s \<notin> set (X (Ready (prio_of s w)))"
        using r(3) prio_of_lt3 [of s w] by (simp_all add: nowhere_def)
      have cp: "proc t (current s) = proc s (current s)" by (rule t(8) [OF n])
      have "nowhere (current s) (woken s w X)"
        using r(3) wb n(1) set_remove1_subset [of w "X Blocked_q"] by (auto simp: nowhere_def to_ready_def)
      then have "running t (woken s w X)" using r cp t(5,6) by (simp add: running_def)
      moreover have "sem_get_by_id q t = sem_get_by_id q s" for q by (rule sem_get_cong) (rule t(4))
      ultimately have "pipe_ok t (woken s w X) (W(k := ws)) i (m, a, b) xs"
        using ok t(2) t(3) [of m] sem_get_lt [OF d(7)] k by (simp add: pipe_ok_def pipe_sems_def p)
      with t(1,5) cp p show thesis by (intro that [of t]) (simp_all add: signal_def)
    qed
  qed
qed

end
