(* ===== verification/Pipe_Correct.thy ===== *)
theory Pipe_Correct
  imports Pipe_Inv
begin

text \<open>
  The properties of the pipes: reads and writes on every branch, the end of file, the broken pipe, and
  that bytes come out in the order they went in.
\<close>

section \<open>Reading\<close>

lemma read_full: "n \<le> length acc \<Longrightarrow> pipe_read_loop i n acc s = Some (KRet acc s)"
  by (subst pipe_read_loop.simps) simp

lemma read_step:
  assumes ok: "pipe_ok s X W i (m, a, b) xs" and n: "length acc < n"
  shows "pipe_read_loop i n acc s =
    (case xs of
       x # ys \<Rightarrow> do { s' \<leftarrow> signal (sem_spaces (pip s i)) (upd_pipe i (\<lambda>p. snd (pipe_get p)) s); pipe_read_loop i n (acc @ [x]) s' }
     | [] \<Rightarrow>
         if writers (pip s i) = 0 \<or> acc \<noteq> [] then Some (KRet acc s)
         else do {
           r \<leftarrow> sem_wait_by_id (sem_items (pip s i)) s;
           case r of
             KYield _ s3 \<Rightarrow> Some (KYield acc s3)
           | KRet v s3 \<Rightarrow> if v = 0 then Some (KRet acc s3) else pipe_read_loop i n acc s3
         })"
proof -
  note d = pipe_okD [OF ok] and t = mutex_take [OF ok] and g = mutex_give [OF ok] and gs = mutex_give_same [OF ok]
  note c = pipe_rep_count [OF d(6)]
  let ?s1 = "upd_sem m (\<lambda>x. x\<lparr>sem_value := sem_value x - 1\<rparr>) s"
  show ?thesis
  proof (cases xs)
    case Nil
    then show ?thesis using n c by (subst pipe_read_loop.simps) (simp add: t gs)
  next
    case (Cons x ys)
    have x: "fst (pipe_get (pip s i)) = x" using pf.get_law [of "pip s i" x ys] d(6) Cons by simp
    have u: "upd_pipe i (\<lambda>_. snd (pipe_get (pip s i))) q = upd_pipe i (\<lambda>p. snd (pipe_get p)) q" if "pip q i = pip s i"
      for q :: "'a pipes_scheme" using that by (simp add: upd_pipe_def)
    have k: "pipe_mutex (snd (pipe_get (pip s i))) = pipe_mutex (pip s i)" "sem_spaces (snd (pipe_get (pip s i))) = sem_spaces (pip s i)"
      by (simp_all add: pipe_get_def)
    show ?thesis using n c Cons d(3) x
      by (subst pipe_read_loop.simps) (simp add: t split_beta u g k)
  qed
qed

lemma read_available:
  assumes "pipe_ok s X W i (m, a, b) xs" and "acc \<noteq> [] \<or> xs \<noteq> []" and "length acc \<le> n"
  shows "\<exists>s' X' W'. pipe_read_loop i n acc s = Some (KRet (acc @ take (n - length acc) xs) s') \<and>
    pipe_ok s' X' W' i (m, a, b) (drop (n - length acc) xs) \<and> current s' = current s \<and>
    readers (pip s' i) = readers (pip s i) \<and> writers (pip s' i) = writers (pip s i)"
  using assms
proof (induction xs arbitrary: acc s X W)
  case Nil
  show ?case
  proof (cases "length acc < n")
    case True
    with read_step [OF Nil.prems(1) True] Nil.prems show ?thesis by auto
  next
    case False
    with read_full [of n acc] Nil.prems(1) show ?thesis by auto
  qed
next
  case (Cons x xs)
  show ?case
  proof (cases "length acc < n")
    case False
    with read_full [of n acc] Cons.prems(1) show ?thesis by auto
  next
    case True
    note d = pipe_okD [OF Cons.prems(1)]
    let ?u = "upd_pipe i (\<lambda>p. snd (pipe_get p)) s"
    have rep: "pipe_rep (snd (pipe_get (pip s i))) xs" using pf.get_law [of "pip s i" x xs] d(6) by simp
    have k: "pipe_mutex (snd (pipe_get p)) = pipe_mutex p" "sem_spaces (snd (pipe_get p)) = sem_spaces p"
      "sem_items (snd (pipe_get p)) = sem_items p" "readers (snd (pipe_get p)) = readers p" "writers (snd (pipe_get p)) = writers p" for p
      by (simp_all add: pipe_get_def)
    have ok: "pipe_ok ?u X W i (m, a, b) xs" by (rule pipe_ok_upd [OF Cons.prems(1)]) (simp_all add: k rep)
    have g: "sem_get_by_id (sem_spaces (pip s i)) ?u = Some b" using d(9) by simp
    show ?thesis
    proof (rule signal_other [OF ok g])
      fix s' X' W' assume s': "signal (sem_spaces (pip s i)) ?u = Some s'" "pipe_ok s' X' W' i (m, a, b) xs"
        "pipes s' = pipes ?u" "current s' = current ?u"
      have "length (acc @ [x]) \<le> n" using True by simp
      from Cons.IH [OF s'(2) _ this] obtain t Y V where t:
        "pipe_read_loop i n (acc @ [x]) s' = Some (KRet ((acc @ [x]) @ take (n - length (acc @ [x])) xs) t)"
        "pipe_ok t Y V i (m, a, b) (drop (n - length (acc @ [x])) xs)" "current t = current s'"
        "readers (pip t i) = readers (pip s' i)" "writers (pip t i) = writers (pip s' i)" by blast
      have "pip s' i = snd (pipe_get (pip s i))" using s'(3) d(3) by simp
      moreover have "n - length acc = Suc (n - length (acc @ [x]))" using True by simp
      ultimately show ?thesis using t s'(1,4)
        by (intro exI [of _ t] exI [of _ Y] exI [of _ V]) (simp add: read_step [OF Cons.prems(1) True] k)
    qed (use d(11) in simp)
  qed
qed

lemma read_blocks:
  assumes "pipe_ok s X W i (m, a, b) []" and "writers (pip s i) \<noteq> 0" and "0 < n"
  shows "\<exists>s'. pipe_read_loop i n [] s = Some (KYield [] s') \<and> sems_inv s' X (W(a := W a @ [current s])) \<and>
    pipes s' = pipes s \<and> current s' = current s \<and> p_state (proc s' (current s)) = PROCESS_STATE_BLOCKED \<and>
    p_waiting_on_sem (proc s' (current s)) = sem_items (pip s i)"
  using assms
proof (induction "nat (sem_value (sem s a))" arbitrary: s rule: less_induct)
  case less
  note ok = less.prems(1) and d = pipe_okD [OF less.prems(1)] and r = runningD [OF pipe_okD(2) [OF less.prems(1)]]
  have step: "pipe_read_loop i n [] s = (do {
           r \<leftarrow> sem_wait_by_id (sem_items (pip s i)) s;
           case r of
             KYield _ s3 \<Rightarrow> Some (KYield [] s3)
           | KRet v s3 \<Rightarrow> if v = 0 then Some (KRet [] s3) else pipe_read_loop i n [] s3 })"
    using read_step [OF ok, of "[]" n] less.prems(2,3) by simp
  have al: "a < length (semaphores s)" by (rule sems_invD(7) [OF d(1) sem_get_lt [OF d(8)]])
  show ?case
  proof (cases "0 < sem_value (sem s a)")
    case True
    let ?t = "upd_sem a (\<lambda>x. x\<lparr>sem_value := sem_value x - 1\<rparr>) s"
    note w = wait_takes [OF d(1,8) r(1) True]
    have "sem_get_by_id q ?t = sem_get_by_id q s" for q by (rule sem_get_cong) (use al in simp)
    then have ok1: "pipe_ok ?t X W i (m, a, b) []"
      using ok w(2) al d(10) by (simp add: pipe_ok_def pipe_sems_def running_def)
    have "\<exists>s'. pipe_read_loop i n [] ?t = Some (KYield [] s') \<and> sems_inv s' X (W(a := W a @ [current ?t])) \<and>
      pipes s' = pipes ?t \<and> current s' = current ?t \<and> p_state (proc s' (current ?t)) = PROCESS_STATE_BLOCKED \<and>
      p_waiting_on_sem (proc s' (current ?t)) = sem_items (pip ?t i)"
      by (rule less.hyps [OF _ ok1]) (use True al less.prems in simp_all)
    then show ?thesis using step w(1) by simp
  next
    case False
    then have v: "sem_value (sem s a) \<le> 0" by simp
    show ?thesis
    proof (rule wait_blocks [OF d(1,8) r(1-4) v])
      fix t assume "sem_wait_by_id (sem_items (pip s i)) s = Some (KYield () t)" "sems_inv t X (W(a := W a @ [current s]))"
        "current t = current s" "p_state (proc t (current s)) = PROCESS_STATE_BLOCKED"
        "p_waiting_on_sem (proc t (current s)) = sem_items (pip s i)" "sems.more t = sems.more s"
      with step more_pipes [of t s] show ?thesis by simp
    qed
  qed
qed

section \<open>Writing\<close>

lemma write_done: "length bytes \<le> k \<Longrightarrow> pipe_write_loop i bytes k s = Some (KRet k s)"
  by (subst pipe_write_loop.simps) simp

lemma write_step:
  assumes ok: "pipe_ok s X W i (m, a, b) xs" and k: "k < length bytes"
  shows "pipe_write_loop i bytes k s =
    (if readers (pip s i) = 0 then Some (KRet k s)
     else if length xs < PIPE_BUFFER_SIZE
     then do { s' \<leftarrow> signal (sem_items (pip s i)) (upd_pipe i (pipe_put (bytes ! k)) s); pipe_write_loop i bytes (k + 1) s' }
     else do {
       r \<leftarrow> sem_wait_by_id (sem_spaces (pip s i)) s;
       case r of
         KYield _ s3 \<Rightarrow> Some (KYield k s3)
       | KRet v s3 \<Rightarrow> if v = 0 then Some (KRet k s3) else pipe_write_loop i bytes k s3
     })"
proof -
  note d = pipe_okD [OF ok] and t = mutex_take [OF ok] and g = mutex_give [OF ok] and gs = mutex_give_same [OF ok]
  have e: "pipe_mutex (pipe_put c p) = pipe_mutex p" "sem_items (pipe_put c p) = sem_items p" for c p
    by (simp_all add: pipe_put_def)
  show ?thesis using k pipe_rep_count [OF d(6)] d(3)
    by (subst pipe_write_loop.simps) (simp add: t g gs e)
qed

lemma pipe_put_keeps [simp]:
  "pipe_mutex (pipe_put c p) = pipe_mutex p" "sem_items (pipe_put c p) = sem_items p" "sem_spaces (pipe_put c p) = sem_spaces p"
  "readers (pipe_put c p) = readers p" "writers (pipe_put c p) = writers p"
  by (simp_all add: pipe_put_def)

lemma write_room:
  assumes "pipe_ok s X W i (m, a, b) xs" and "readers (pip s i) \<noteq> 0" and "j \<le> length bytes" and "k \<le> j"
    and "length xs + (j - k) \<le> PIPE_BUFFER_SIZE"
  shows "\<exists>s' X' W'. pipe_write_loop i bytes k s = pipe_write_loop i bytes j s' \<and>
    pipe_ok s' X' W' i (m, a, b) (xs @ drop k (take j bytes)) \<and> current s' = current s \<and>
    readers (pip s' i) = readers (pip s i) \<and> writers (pip s' i) = writers (pip s i)"
  using assms
proof (induction "j - k" arbitrary: k s X W xs)
  case 0
  then show ?case by (auto intro!: exI [of _ s])
next
  case (Suc l)
  note d = pipe_okD [OF Suc.prems(1)]
  have kj: "k < j" using Suc.hyps(2) by simp
  let ?u = "upd_pipe i (pipe_put (bytes ! k)) s"
  have room: "length xs < PIPE_BUFFER_SIZE" using Suc.prems(5) kj by simp
  have ok: "pipe_ok ?u X W i (m, a, b) (xs @ [bytes ! k])"
    by (rule pipe_ok_upd [OF Suc.prems(1)]) (simp_all add: pf.put_law [OF d(6) room])
  have g: "sem_get_by_id (sem_items (pip s i)) ?u = Some a" using d(8) by simp
  show ?case
  proof (rule signal_other [OF ok g])
    fix s' X' W' assume s': "signal (sem_items (pip s i)) ?u = Some s'" "pipe_ok s' X' W' i (m, a, b) (xs @ [bytes ! k])"
      "pipes s' = pipes ?u" "current s' = current ?u"
    have pip': "readers (pip s' i) = readers (pip s i)" "writers (pip s' i) = writers (pip s i)" using s'(3) d(3) by simp_all
    have l: "l = j - Suc k" "Suc k \<le> j" "readers (pip s' i) \<noteq> 0" "length (xs @ [bytes ! k]) + (j - Suc k) \<le> PIPE_BUFFER_SIZE"
      using Suc.hyps(2) Suc.prems pip' by simp_all
    from Suc.hyps(1) [OF l(1) s'(2) l(3) Suc.prems(3) l(2,4)] obtain t Y V where t:
      "pipe_write_loop i bytes (Suc k) s' = pipe_write_loop i bytes j t"
      "pipe_ok t Y V i (m, a, b) ((xs @ [bytes ! k]) @ drop (Suc k) (take j bytes))" "current t = current s'"
      "readers (pip t i) = readers (pip s' i)" "writers (pip t i) = writers (pip s' i)" by blast
    have "drop k (take j bytes) = bytes ! k # drop (Suc k) (take j bytes)"
      using kj Suc.prems(3) by (subst Cons_nth_drop_Suc [symmetric]) simp_all
    moreover have "pipe_write_loop i bytes k s = pipe_write_loop i bytes (Suc k) s'"
      using write_step [OF Suc.prems(1), of k bytes] kj Suc.prems(2,3) room s'(1) by simp
    ultimately show ?thesis using t s'(4) pip' by (intro exI [of _ t] exI [of _ Y] exI [of _ V]) simp
  qed (use d(10) in simp)
qed

lemma write_blocks:
  assumes "pipe_ok s X W i (m, a, b) xs" and "readers (pip s i) \<noteq> 0" and "k < length bytes" and "length xs = PIPE_BUFFER_SIZE"
  shows "\<exists>s'. pipe_write_loop i bytes k s = Some (KYield k s') \<and> sems_inv s' X (W(b := W b @ [current s])) \<and>
    pipes s' = pipes s \<and> current s' = current s \<and> p_state (proc s' (current s)) = PROCESS_STATE_BLOCKED \<and>
    p_waiting_on_sem (proc s' (current s)) = sem_spaces (pip s i)"
  using assms
proof (induction "nat (sem_value (sem s b))" arbitrary: s rule: less_induct)
  case less
  note ok = less.prems(1) and d = pipe_okD [OF less.prems(1)] and r = runningD [OF pipe_okD(2) [OF less.prems(1)]]
  have step: "pipe_write_loop i bytes k s = (do {
       r \<leftarrow> sem_wait_by_id (sem_spaces (pip s i)) s;
       case r of
         KYield _ s3 \<Rightarrow> Some (KYield k s3)
       | KRet v s3 \<Rightarrow> if v = 0 then Some (KRet k s3) else pipe_write_loop i bytes k s3 })"
    using write_step [OF ok, of k bytes] less.prems(2-4) by simp
  have bl: "b < length (semaphores s)" by (rule sems_invD(7) [OF d(1) sem_get_lt [OF d(9)]])
  show ?case
  proof (cases "0 < sem_value (sem s b)")
    case True
    let ?t = "upd_sem b (\<lambda>x. x\<lparr>sem_value := sem_value x - 1\<rparr>) s"
    note w = wait_takes [OF d(1,9) r(1) True]
    have "sem_get_by_id q ?t = sem_get_by_id q s" for q by (rule sem_get_cong) (use bl in simp)
    then have ok1: "pipe_ok ?t X W i (m, a, b) xs"
      using ok w(2) bl d(11) by (simp add: pipe_ok_def pipe_sems_def running_def)
    have "\<exists>s'. pipe_write_loop i bytes k ?t = Some (KYield k s') \<and> sems_inv s' X (W(b := W b @ [current ?t])) \<and>
      pipes s' = pipes ?t \<and> current s' = current ?t \<and> p_state (proc s' (current ?t)) = PROCESS_STATE_BLOCKED \<and>
      p_waiting_on_sem (proc s' (current ?t)) = sem_spaces (pip ?t i)"
      by (rule less.hyps [OF _ ok1]) (use True bl less.prems in simp_all)
    then show ?thesis using step w(1) by simp
  next
    case False
    then have v: "sem_value (sem s b) \<le> 0" by simp
    show ?thesis
    proof (rule wait_blocks [OF d(1,9) r(1-4) v])
      fix t assume "sem_wait_by_id (sem_spaces (pip s i)) s = Some (KYield () t)" "sems_inv t X (W(b := W b @ [current s]))"
        "current t = current s" "p_state (proc t (current s)) = PROCESS_STATE_BLOCKED"
        "p_waiting_on_sem (proc t (current s)) = sem_spaces (pip s i)" "sems.more t = sems.more s"
      with step more_pipes [of t s] show ?thesis by simp
    qed
  qed
qed

section \<open>The properties\<close>

text \<open>C24: reading from a pipe.  With bytes in it, \<open>pipe_read\<close> returns at once with the oldest ones, as many
  as there are up to the number asked for, and leaves the rest; an empty pipe without writers gives
  the end of file; an empty pipe with a writer blocks the reader on the semaphore of the items, after
  finitely many steps and with the pipe unchanged.\<close>

theorem pipe_read_correct:
  assumes ok: "pipe_ok s X W i (m, a, b) xs" and n: "0 < n"
  shows "if xs \<noteq> []
    then \<exists>s' X' W'. pipe_read (Some i) n s = Some (KRet (take n xs) s') \<and> pipe_ok s' X' W' i (m, a, b) (drop n xs)
    else if writers (pip s i) = 0 then pipe_read (Some i) n s = Some (KRet [] s)
    else \<exists>s'. pipe_read (Some i) n s = Some (KYield [] s') \<and> sems_inv s' X (W(a := W a @ [current s])) \<and>
      pipes s' = pipes s \<and> p_state (proc s' (current s)) = PROCESS_STATE_BLOCKED"
proof (cases "xs = []")
  case False
  with read_available [OF ok, of "[]" n] n show ?thesis by (auto simp: pipe_read_def)
next
  case True
  then have ok0: "pipe_ok s X W i (m, a, b) []" using ok by simp
  show ?thesis
    using read_step [OF ok, of "[]" n] read_blocks [OF ok0, of n] n True by (auto simp: pipe_read_def)
qed

text \<open>C25: writing to a pipe.  Without readers nothing is written; with room for all bytes they are
  appended and the number written is returned; otherwise the pipe is filled, and the writer is blocked
  on the semaphore of the spaces, to go on with the bytes that are left.\<close>

theorem pipe_write_correct:
  assumes ok: "pipe_ok s X W i (m, a, b) xs" and n: "bytes \<noteq> []"
  shows "if readers (pip s i) = 0 then pipe_write (Some i) bytes s = Some (KRet 0 s)
    else if length xs + length bytes \<le> PIPE_BUFFER_SIZE
    then \<exists>s' X' W'. pipe_write (Some i) bytes s = Some (KRet (length bytes) s') \<and> pipe_ok s' X' W' i (m, a, b) (xs @ bytes)
    else \<exists>s'. pipe_write (Some i) bytes s = Some (KYield (PIPE_BUFFER_SIZE - length xs) s') \<and>
      pipe_rep (pip s' i) (xs @ take (PIPE_BUFFER_SIZE - length xs) bytes) \<and>
      p_state (proc s' (current s)) = PROCESS_STATE_BLOCKED"
proof -
  note d = pipe_okD [OF ok]
  have le: "length xs \<le> PIPE_BUFFER_SIZE" using pipe_rep_count [OF d(6)] by simp
  have w: "pipe_write (Some i) bytes s = pipe_write_loop i bytes 0 s" using n by (simp add: pipe_write_def)
  consider (none) "readers (pip s i) = 0" | (room) "readers (pip s i) \<noteq> 0" "length xs + length bytes \<le> PIPE_BUFFER_SIZE"
    | (full) "readers (pip s i) \<noteq> 0" "PIPE_BUFFER_SIZE < length xs + length bytes" by linarith
  then show ?thesis
  proof cases
    case none
    with write_step [OF ok, of 0 bytes] n w show ?thesis by simp
  next
    case room
    from write_room [OF ok room(1), of "length bytes" bytes 0] room(2) obtain s' X' W' where
      "pipe_write_loop i bytes 0 s = pipe_write_loop i bytes (length bytes) s'" "pipe_ok s' X' W' i (m, a, b) (xs @ bytes)" by auto
    with w room write_done [of bytes "length bytes" i s'] show ?thesis by auto
  next
    case full
    let ?k = "PIPE_BUFFER_SIZE - length xs"
    have kb: "?k \<le> length bytes" "?k < length bytes" "length xs + (?k - 0) \<le> PIPE_BUFFER_SIZE" using full(2) le by linarith+
    from write_room [OF ok full(1) kb(1) _ kb(3)] obtain s' X' W' where s':
      "pipe_write_loop i bytes 0 s = pipe_write_loop i bytes ?k s'" "pipe_ok s' X' W' i (m, a, b) (xs @ take ?k bytes)"
      "current s' = current s" "readers (pip s' i) = readers (pip s i)" by auto
    have len: "length (xs @ take ?k bytes) = PIPE_BUFFER_SIZE" using kb(1) le by simp
    from write_blocks [OF s'(2) _ kb(2) len] full(1) s'(4) obtain t where
      "pipe_write_loop i bytes ?k s' = Some (KYield ?k t)" "pipes t = pipes s'" "p_state (proc t (current s')) = PROCESS_STATE_BLOCKED"
      by auto
    with full w s'(1,3) pipe_okD(6) [OF s'(2)] show ?thesis by auto
  qed
qed

text \<open>C26: what is written to an empty pipe is what the next read returns, and the pipe is empty again.\<close>

theorem pipe_round_trip:
  assumes ok: "pipe_ok s X W i (m, a, b) []" and r: "readers (pip s i) \<noteq> 0"
    and n: "bytes \<noteq> []" "length bytes \<le> PIPE_BUFFER_SIZE"
  shows "\<exists>s1 s2 X' W'. pipe_write (Some i) bytes s = Some (KRet (length bytes) s1) \<and>
    pipe_read (Some i) (length bytes) s1 = Some (KRet bytes s2) \<and> pipe_ok s2 X' W' i (m, a, b) []"
proof -
  from write_room [OF ok r, of "length bytes" bytes 0] n obtain s1 X' W' where s1:
    "pipe_write_loop i bytes 0 s = pipe_write_loop i bytes (length bytes) s1" "pipe_ok s1 X' W' i (m, a, b) bytes" by auto
  from read_available [OF s1(2), of "[]" "length bytes"] n obtain s2 Y V where
    "pipe_read_loop i (length bytes) [] s1 = Some (KRet bytes s2)" "pipe_ok s2 Y V i (m, a, b) []" by auto
  with s1 n write_done [of bytes "length bytes" i s1] show ?thesis by (auto simp: pipe_write_def pipe_read_def)
qed

text \<open>Opening an end of a pipe counts it and changes nothing else: not the bytes, not the semaphores,
  no process.\<close>

theorem pipe_open_correct:
  assumes ok: "pipe_ok s X W i (m, a, b) xs" and g: "pipe_get_by_id pid s = Some i"
  shows "pipe_open_by_id pid w s = Some (1, upd_pipe i (\<lambda>p. if w then p\<lparr>writers := writers p + 1\<rparr>
      else p\<lparr>readers := readers p + 1\<rparr>) s) \<and>
    pipe_ok (upd_pipe i (\<lambda>p. if w then p\<lparr>writers := writers p + 1\<rparr> else p\<lparr>readers := readers p + 1\<rparr>) s) X W i (m, a, b) xs"
proof
  note d = pipe_okD [OF ok]
  let ?f = "\<lambda>p :: pipe. if w then p\<lparr>writers := writers p + 1\<rparr> else p\<lparr>readers := readers p + 1\<rparr>"
  have f: "(if w then (\<lambda>p. p\<lparr>writers := writers p + 1\<rparr>) else (\<lambda>p. p\<lparr>readers := readers p + 1\<rparr>)) = ?f" by (auto simp: fun_eq_iff)
  have k: "pipe_mutex (?f p) = pipe_mutex p" for p by simp
  show "pipe_open_by_id pid w s = Some (1, upd_pipe i ?f s)"
    using d(3) by (simp add: pipe_open_by_id_def g mutex_take [OF ok] f k mutex_give [OF ok])
  show "pipe_ok (upd_pipe i ?f s) X W i (m, a, b) xs"
    by (rule pipe_ok_upd [OF ok]) (use d(6) in \<open>auto simp: pipe_rep_def\<close>)
qed

section \<open>A sample\<close>

text \<open>The sample kernel with an empty pipe, number 3, with one reader and one writer.\<close>

definition sample_pipe_sem :: "u64 \<Rightarrow> int \<Rightarrow> semaphore" where
  "sample_pipe_sem k v = \<lparr>sem_id = k, sem_value = v, sem_refcount = 1, sem_lock = 0, wait_head = 0, wait_tail = 0, sem_used = True\<rparr>"

definition sample_pipe :: kernel where
  "sample_pipe = sample_sems\<lparr>semaphores := (semaphores sample_sems)[1 := sample_pipe_sem 8 0, 2 := sample_pipe_sem 9 4096,
       3 := sample_pipe_sem 10 1],
     pipes := (pipes sample_sems)[0 := zero_pipe\<lparr>pipe_id := 3, readers := 1, writers := 1, sem_items := 8, sem_spaces := 9,
       pipe_mutex := 10, pipe_used := True\<rparr>]\<rparr>"

lemma sample_pipe_sel [simp]:
  "procs sample_pipe = sample_procs" "current sample_pipe = 0x2000" "idle_p sample_pipe = 0x1000"
  "length (semaphores sample_pipe) = 64" "length (pipes sample_pipe) = 64"
  by (simp_all add: sample_pipe_def sample_sems_def sample_kernel_def sample_pipes_def)

lemma sample_pipe_sems: "i < 64 \<Longrightarrow> sem sample_pipe i = (if i = 1 then sample_pipe_sem 8 0 else if i = 2 then sample_pipe_sem 9 4096
    else if i = 3 then sample_pipe_sem 10 1 else sem sample_sems i)"
  by (simp add: sample_pipe_def nth_list_update)

lemma sample_pipe_pip: "pip sample_pipe 0 = zero_pipe\<lparr>pipe_id := 3, readers := 1, writers := 1, sem_items := 8, sem_spaces := 9,
    pipe_mutex := 10, pipe_used := True\<rparr>"
  by (simp add: sample_pipe_def sample_sems_def sample_kernel_def sample_pipes_def)

lemma sample_pipe_inv: "sems_inv sample_pipe sample_lists sample_waiting"
proof -
  have "queue_of sample_pipe q = queue_of sample_sems q" "ready_queues sample_pipe = ready_queues sample_sems" for q
    by (simp_all add: sample_pipe_def queue_of_def split: qid.split)
  then have "queues_wf sample_pipe sample_lists" using sample_sems_wf by (simp add: queues_wf_def sched_rep_def)
  moreover have "waiters sample_pipe i (sample_waiting i)" if "i < 64" for i
    using that by (auto simp: waiters_def sample_waiting_def sample_pipe_sems sample_pipe_sem_def sample_sem sample_procs_def sample_pcb_def)
  then have "sems_rep sample_pipe sample_waiting" by (auto simp: sems_rep_def MAX_SEMAPHORES_def sample_waiting_def)
  moreover have "sems_free sample_pipe sample_waiting"
    by (auto simp: sems_free_def MAX_SEMAPHORES_def sample_pipe_sems sample_pipe_sem_def sample_sem sample_waiting_def)
  moreover have "set (sample_waiting i) \<subseteq> asleep sample_pipe sample_lists" for i
    by (auto simp: asleep_def sample_waiting_def split: if_splits)
  ultimately show ?thesis by (simp add: sems_inv_def)
qed

lemma sample_pipe_ids: "\<exists>s :: kernel. semaphores s = semaphores sample_pipe \<and> ids_ok s"
proof (intro exI conjI)
  show "ids_ok (sample_pipe\<lparr>next_sem_id := 11\<rparr>)"
    by (auto simp: ids_ok_def MAX_SEMAPHORES_def sample_pipe_sems sample_pipe_sem_def sample_sem split: if_splits)
qed simp

lemma sample_pipe_get: "sem_get_by_id 10 sample_pipe = Some 3" "sem_get_by_id 8 sample_pipe = Some 1" "sem_get_by_id 9 sample_pipe = Some 2"
proof -
  from sample_pipe_ids obtain s :: kernel where s: "semaphores s = semaphores sample_pipe" "ids_ok s" by blast
  have "sem_get_by_id q sample_pipe = sem_get_by_id q s" for q by (rule sem_get_cong) (simp add: s(1))
  then show "sem_get_by_id 10 sample_pipe = Some 3" "sem_get_by_id 8 sample_pipe = Some 1" "sem_get_by_id 9 sample_pipe = Some 2"
    using sem_get_iff [OF s(2)] by (simp_all add: s(1) MAX_SEMAPHORES_def sample_pipe_sems sample_pipe_sem_def)
qed

lemma sample_pipe_ok: "pipe_ok sample_pipe sample_lists sample_waiting 0 (3, 1, 2) []"
proof -
  have "pipe_rep (pip sample_pipe 0) []"
    by (simp add: sample_pipe_pip zero_pipe_def pipe_rep_def ring_rep_def PIPE_BUFFER_SIZE_def)
  moreover have "running sample_pipe sample_lists" by (simp add: running_def sample_nowhere sample_procs_def)
  ultimately show ?thesis
    using sample_pipe_inv sample_pipe_get
    by (simp add: pipe_ok_def pipe_sems_def sample_pipe_pip sample_pipe_sems sample_pipe_sem_def sample_waiting_def)
qed

theorem pipe_read_correct_witness:
  "\<exists>s'. pipe_read (Some 0) 5 sample_pipe = Some (KYield [] s') \<and> p_state (proc s' 0x2000) = PROCESS_STATE_BLOCKED"
  using pipe_read_correct [OF sample_pipe_ok, of 5] by (auto simp: sample_pipe_pip)

theorem pipe_write_correct_witness:
  "\<exists>s'. pipe_write (Some 0) ''hola'' sample_pipe = Some (KRet 4 s')"
  using pipe_write_correct [OF sample_pipe_ok, of "''hola''"] by (auto simp: sample_pipe_pip PIPE_BUFFER_SIZE_def)

theorem pipe_round_trip_witness:
  "\<exists>s1 s2. pipe_write (Some 0) ''hola'' sample_pipe = Some (KRet 4 s1) \<and> pipe_read (Some 0) 4 s1 = Some (KRet ''hola'' s2)"
  using pipe_round_trip [OF sample_pipe_ok, of "''hola''"]
  by (auto simp: sample_pipe_pip PIPE_BUFFER_SIZE_def eval_nat_numeral)

end
