(* ===== verification/Mutual_Exclusion.thy ===== *)
theory Mutual_Exclusion
  imports Pipe_Correct
begin

text \<open>
  Processes that guard a critical section with a semaphore of initial value 1, as a transition
  system over the operations of the kernel.  A configuration is the state, the lists it represents
  and the set of processes inside the section; between two calls the rest of the kernel may do
  anything that keeps the invariant and leaves the semaphores alone (a context switch, the end of a
  quantum, the blocking of another process).
\<close>

record config =
  c_state :: kernel
  c_lists :: "qid \<Rightarrow> ptr list"
  c_waiting :: "nat \<Rightarrow> ptr list"
  c_inside :: "ptr set"

inductive cs_step :: "u64 \<Rightarrow> nat \<Rightarrow> config \<Rightarrow> config \<Rightarrow> bool" for sid i where
  enter: "running s X \<Longrightarrow> current s \<notin> H \<Longrightarrow> sem_wait_by_id sid s = Some (KRet 1 s') \<Longrightarrow>
    cs_step sid i \<lparr>c_state = s, c_lists = X, c_waiting = W, c_inside = H\<rparr>
      \<lparr>c_state = s', c_lists = X, c_waiting = W, c_inside = insert (current s) H\<rparr>"
| sleep: "running s X \<Longrightarrow> current s \<notin> H \<Longrightarrow> sem_wait_by_id sid s = Some (KYield () s') \<Longrightarrow>
    cs_step sid i \<lparr>c_state = s, c_lists = X, c_waiting = W, c_inside = H\<rparr>
      \<lparr>c_state = s', c_lists = X, c_waiting = W(i := W i @ [current s]), c_inside = H\<rparr>"
| leave: "running s X \<Longrightarrow> current s \<in> H \<Longrightarrow> W i = [] \<Longrightarrow> sem_signal_by_id sid s = Some (1, s') \<Longrightarrow>
    cs_step sid i \<lparr>c_state = s, c_lists = X, c_waiting = W, c_inside = H\<rparr>
      \<lparr>c_state = s', c_lists = X, c_waiting = W, c_inside = H - {current s}\<rparr>"
| hand_over: "running s X \<Longrightarrow> current s \<in> H \<Longrightarrow> W i = w # ws \<Longrightarrow> sem_signal_by_id sid s = Some (1, s') \<Longrightarrow>
    cs_step sid i \<lparr>c_state = s, c_lists = X, c_waiting = W, c_inside = H\<rparr>
      \<lparr>c_state = s', c_lists = woken s w X, c_waiting = W(i := ws), c_inside = insert w (H - {current s})\<rparr>"
| other: "sems_inv s' X' W \<Longrightarrow> semaphores s' = semaphores s \<Longrightarrow>
    cs_step sid i \<lparr>c_state = s, c_lists = X, c_waiting = W, c_inside = H\<rparr>
      \<lparr>c_state = s', c_lists = X', c_waiting = W, c_inside = H\<rparr>"

inductive_cases cs_stepE: "cs_step sid i c c'"

text \<open>Free units and processes inside add up to one; nobody inside waits.\<close>

definition cs_inv :: "u64 \<Rightarrow> nat \<Rightarrow> config \<Rightarrow> bool" where
  "cs_inv sid i c \<longleftrightarrow> sems_inv (c_state c) (c_lists c) (c_waiting c) \<and> sem_get_by_id sid (c_state c) = Some i \<and>
     finite (c_inside c) \<and> 0 \<le> sem_value (sem (c_state c) i) \<and>
     sem_value (sem (c_state c) i) + int (card (c_inside c)) = 1 \<and> c_inside c \<inter> set (c_waiting c i) = {}"

lemma cs_inv_sel:
  "cs_inv sid i \<lparr>c_state = s, c_lists = X, c_waiting = W, c_inside = H\<rparr> \<longleftrightarrow> sems_inv s X W \<and> sem_get_by_id sid s = Some i \<and>
     finite H \<and> 0 \<le> sem_value (sem s i) \<and> sem_value (sem s i) + int (card H) = 1 \<and> H \<inter> set (W i) = {}"
  by (simp add: cs_inv_def)

lemma cs_inv_enter:
  assumes inv: "cs_inv sid i \<lparr>c_state = s, c_lists = X, c_waiting = W, c_inside = H\<rparr>" and r: "running s X"
    and w: "sem_wait_by_id sid s = Some (KRet 1 s')" and n: "current s \<notin> H"
  shows "cs_inv sid i \<lparr>c_state = s', c_lists = X, c_waiting = W, c_inside = insert (current s) H\<rparr>"
proof -
  note d = inv [unfolded cs_inv_sel] and rd = runningD [OF r]
  from d have si: "sems_inv s X W" and g: "sem_get_by_id sid s = Some i" by auto
  have v: "0 < sem_value (sem s i)"
  proof (rule ccontr)
    assume "\<not> 0 < sem_value (sem s i)"
    then have "sem_value (sem s i) \<le> 0" by simp
    from wait_blocks [OF si g rd(1-4) this] w show False by (metis kres.distinct(1) option.inject)
  qed
  note t = wait_takes [OF si g rd(1) v] and len = sems_invD(7) [OF si sem_get_lt [OF g]]
  have s': "s' = upd_sem i (\<lambda>m. m\<lparr>sem_value := sem_value m - 1\<rparr>) s" using t(1) w by simp
  have "sem_get_by_id sid s' = Some i" using g len by (subst sem_get_cong [of _ s]) (simp_all add: s')
  moreover have "set (W i) = {}" using sems_invD(6) [OF si sem_get_lt [OF g] v] by simp
  ultimately show ?thesis using d t(2) v n len by (simp add: cs_inv_sel s')
qed

lemma cs_inv_sleep:
  assumes inv: "cs_inv sid i \<lparr>c_state = s, c_lists = X, c_waiting = W, c_inside = H\<rparr>" and r: "running s X"
    and w: "sem_wait_by_id sid s = Some (KYield () s')" and n: "current s \<notin> H"
  shows "cs_inv sid i \<lparr>c_state = s', c_lists = X, c_waiting = W(i := W i @ [current s]), c_inside = H\<rparr>"
proof -
  note d = inv [unfolded cs_inv_sel] and rd = runningD [OF r]
  from d have si: "sems_inv s X W" and g: "sem_get_by_id sid s = Some i" by auto
  have v: "sem_value (sem s i) \<le> 0"
  proof (rule ccontr)
    assume "\<not> sem_value (sem s i) \<le> 0"
    then have "0 < sem_value (sem s i)" by simp
    from wait_takes(1) [OF si g rd(1) this] w show False by simp
  qed
  show ?thesis
  proof (rule wait_blocks [OF si g rd(1-4) v])
    fix t assume t: "sem_wait_by_id sid s = Some (KYield () t)" "sems_inv t X (W(i := W i @ [current s]))"
      "\<And>j. sem_value (sem t j) = sem_value (sem s j)"
      "\<And>j. sem_used (sem t j) = sem_used (sem s j) \<and> sem_id (sem t j) = sem_id (sem s j)"
    have "sem_get_by_id sid t = Some i" using g by (subst sem_get_cong [of _ s]) (simp_all add: t(4))
    then show ?thesis using d t w n by (simp add: cs_inv_sel)
  qed
qed

lemma cs_inv_leave:
  assumes inv: "cs_inv sid i \<lparr>c_state = s, c_lists = X, c_waiting = W, c_inside = H\<rparr>"
    and w: "W i = []" "sem_signal_by_id sid s = Some (1, s')" and n: "current s \<in> H"
  shows "cs_inv sid i \<lparr>c_state = s', c_lists = X, c_waiting = W, c_inside = H - {current s}\<rparr>"
proof -
  note d = inv [unfolded cs_inv_sel]
  from d have si: "sems_inv s X W" and g: "sem_get_by_id sid s = Some i" and fin: "finite H" by auto
  note t = signal_counts [OF si g w(1)] and len = sems_invD(7) [OF si sem_get_lt [OF g]]
  have s': "s' = upd_sem i (\<lambda>m. m\<lparr>sem_value := sem_value m + 1\<rparr>) s" using t(1) w by simp
  have "sem_get_by_id sid s' = Some i" using g len by (subst sem_get_cong [of _ s]) (simp_all add: s')
  moreover have "card H = Suc (card (H - {current s}))" using card_Suc_Diff1 [OF fin n] by simp
  ultimately show ?thesis using d t(2) len w(1) by (simp add: cs_inv_sel s')
qed

lemma cs_inv_hand_over:
  assumes inv: "cs_inv sid i \<lparr>c_state = s, c_lists = X, c_waiting = W, c_inside = H\<rparr>" and r: "running s X"
    and w: "W i = w # ws" "sem_signal_by_id sid s = Some (1, s')" and n: "current s \<in> H"
  shows "cs_inv sid i \<lparr>c_state = s', c_lists = woken s w X, c_waiting = W(i := ws), c_inside = insert w (H - {current s})\<rparr>"
proof -
  note d = inv [unfolded cs_inv_sel]
  from d have si: "sems_inv s X W" and g: "sem_get_by_id sid s = Some i" and fin: "finite H" and wh: "w \<notin> H" using w by auto
  have dw: "w \<notin> set ws" using sems_repD(2) [OF sems_invD(2) [OF si] sem_get_lt [OF g]] w by (simp add: waiters_def)
  have card: "card (insert w (H - {current s})) = card H" using card_Suc_Diff1 [OF fin n] fin wh by simp
  show ?thesis
  proof (rule signal_wakes [OF si g w(1) runningD(5) [OF r]])
    fix t assume t: "sem_signal_by_id sid s = Some (1, t)" "sems_inv t (woken s w X) (W(i := ws))"
      "\<And>j. j < MAX_SEMAPHORES \<Longrightarrow> sem_value (sem t j) = sem_value (sem s j)"
      "\<And>j. j < MAX_SEMAPHORES \<Longrightarrow> sem_used (sem t j) = sem_used (sem s j) \<and> sem_id (sem t j) = sem_id (sem s j)"
    have "sem_get_by_id sid t = Some i" using g by (subst sem_get_cong [of _ s]) (simp_all add: t(4))
    then show ?thesis using d t w dw card sem_get_lt [OF g] by (auto simp: cs_inv_sel)
  qed
qed

lemma cs_inv_step:
  assumes "cs_step sid i c c'" and "cs_inv sid i c"
  shows "cs_inv sid i c'"
  using assms
proof (induction rule: cs_step.induct)
  case (other s' X' W s X H)
  have "sem_get_by_id sid s' = sem_get_by_id sid s" by (rule sem_get_cong) (simp add: other(2))
  with other show ?case by (simp add: cs_inv_sel)
qed (simp_all add: cs_inv_enter cs_inv_sleep cs_inv_leave cs_inv_hand_over)



end
