(* ===== verification/Syscalls.thy ===== *)
theory Syscalls
  imports Kernel_Sched
begin

text \<open>
  The system calls (\<open>Kernel/syscalls/syscalls_kernel.c\<close>) and their dispatcher
  (\<open>Kernel/syscalls/syscallDispatcher.c\<close>) on the whole kernel state.  Arguments and results are the
  64-bit registers; buffers live in the user memory of the state.  A call that yields gives what its
  continuation needs: \<open>resume\<close> runs it when the process is scheduled again.  \<open>syscall_sleep\<close> waits in a
  loop of \<open>hlt\<close>, with interrupts on, and yields at each round.
\<close>

section \<open>User memory\<close>

definition int_of_reg :: "u64 \<Rightarrow> int" where
  "int_of_reg r = sint (ucast r :: cint)"

definition load_chars :: "bytes \<Rightarrow> ptr \<Rightarrow> nat \<Rightarrow> string" where
  "load_chars m a n = map (\<lambda>i. char_of_byte (m (a + of_nat i))) [0..<n]"

fun store_bytes :: "ptr \<Rightarrow> u8 list \<Rightarrow> bytes \<Rightarrow> bytes" where
  "store_bytes a [] m = m"
| "store_bytes a (b # bs) m = store_bytes (a + 1) bs (m(a := b))"

definition store_chars :: "ptr \<Rightarrow> string \<Rightarrow> bytes \<Rightarrow> bytes" where
  "store_chars a cs m = store_bytes a (map byte_of_char cs) m"

text \<open>A C string of at most \<open>n\<close> characters, as \<open>copy_name\<close> reads it.\<close>

definition load_cstr :: "bytes \<Rightarrow> ptr \<Rightarrow> nat \<Rightarrow> string" where
  "load_cstr m a n = takeWhile (\<lambda>c. c \<noteq> NUL) (load_chars m a n)"

definition set_umem :: "(bytes \<Rightarrow> bytes) \<Rightarrow> kernel \<Rightarrow> kernel" where
  "set_umem f s = s\<lparr>umem := f (umem s)\<rparr>"

section \<open>Continuations\<close>

datatype cont =
    Read_terminal ptr nat string
  | Read_pipe ptr nat nat string
  | Write_pipe nat string nat
  | Sleep_until u64
  | Wait_for ptr ptr
  | Return u64

type_synonym 's sysres = "(u64, cont, 's) kres option"

text \<open>A result of the kernel's own operations as a return value.\<close>

definition ret_int :: "(int \<times> kernel) option \<Rightarrow> kernel sysres" where
  "ret_int r = map_option (\<lambda>(v, s). KRet (word_of_int v) s) r"

section \<open>Reading and writing\<close>

partial_function (option) read_terminal :: "nat \<Rightarrow> string \<Rightarrow> kernel \<Rightarrow> (string, string, kernel) kres option" where
  "read_terminal n acc s =
     (if length acc \<ge> n then Some (KRet acc s)
      else
        let (c, s1) = keyboard_read_getchar s
        in if c = NUL
           then do {
             r \<leftarrow> keyboard_wait_for_char s1;
             case r of KRet _ s2 \<Rightarrow> read_terminal n acc s2 | KYield _ s2 \<Rightarrow> Some (KYield acc s2)
           }
           else if c = CHR 0x04 then Some (KRet acc s1)
           else if c = CHR 0x0A then Some (KRet (acc @ [c]) s1)
           else read_terminal n (acc @ [c]) s1)"

declare read_terminal.simps [code]

text \<open>The bytes read so far are in the buffer when the call returns or yields.\<close>

definition read_result :: "(string \<Rightarrow> cont) \<Rightarrow> ptr \<Rightarrow> (string, string, kernel) kres option \<Rightarrow> kernel sysres" where
  "read_result k buf r =
     map_option (\<lambda>x. case x of
         KRet acc s \<Rightarrow> KRet (of_nat (length acc)) (set_umem (store_chars buf acc) s)
       | KYield acc s \<Rightarrow> KYield (k acc) (set_umem (store_chars buf acc) s)) r"

definition syscall_read :: "int \<Rightarrow> ptr \<Rightarrow> int \<Rightarrow> kernel \<Rightarrow> kernel sysres" where
  "syscall_read fdn buf n s =
     (let me = scheduler_current_process s
      in if buf = NULL \<or> n \<le> 0 \<or> fdn < 0 \<or> fdn \<ge> int MAX_FDS then Some (KRet 0 s)
         else if me = NULL then Some (KRet 0 s)
         else
           let e = fd s me (nat fdn)
           in case fd_type e of
                FD_TYPE_TERMINAL \<Rightarrow>
                  if nat fdn \<noteq> STDIN then Some (KRet 0 s)
                  else if p_is_foreground (proc s me) = 0
                  then do { (_, s1) \<leftarrow> scheduler_block_by_pid (p_pid (proc s me)) s; Some (KRet 0 s1) }
                  else read_result (Read_terminal buf (nat n)) buf (read_terminal (nat n) [] s)
              | FD_TYPE_PIPE_READ \<Rightarrow>
                  (case fd_pipe e of
                     None \<Rightarrow> Some (KRet 0 s)
                   | Some i \<Rightarrow> read_result (Read_pipe buf i (nat n)) buf (pipe_read (Some i) (nat n) s))
              | FD_TYPE_PIPE_WRITE \<Rightarrow> Some (KRet 0 s))"

definition write_result :: "(nat \<Rightarrow> cont) \<Rightarrow> (nat, nat, kernel) kres option \<Rightarrow> kernel sysres" where
  "write_result k r =
     map_option (\<lambda>x. case x of KRet w s \<Rightarrow> KRet (of_nat w) s | KYield w s \<Rightarrow> KYield (k w) s) r"

definition syscall_write :: "int \<Rightarrow> ptr \<Rightarrow> int \<Rightarrow> kernel \<Rightarrow> kernel sysres" where
  "syscall_write fdn buf n s =
     (let me = scheduler_current_process s
      in if buf = NULL \<or> n \<le> 0 \<or> fdn < 0 \<or> fdn \<ge> int MAX_FDS then Some (KRet 0 s)
         else if me = NULL then Some (KRet 0 s)
         else
           let e = fd s me (nat fdn);
               bs = load_chars (umem s) buf (nat n)
           in case fd_type e of
                FD_TYPE_TERMINAL \<Rightarrow>
                  if nat fdn \<noteq> STDOUT then Some (KRet 0 s)
                  else Some (KRet (word_of_int n)
                         (s\<lparr>screen := fold (\<lambda>c. video_putChar c FOREGROUND_COLOR (ucast BACKGROUND_COLOR)) bs (screen s)\<rparr>))
              | FD_TYPE_PIPE_WRITE \<Rightarrow>
                  (case fd_pipe e of
                     None \<Rightarrow> Some (KRet 0 s)
                   | Some i \<Rightarrow> write_result (Write_pipe i bs) (pipe_write (Some i) bs s))
              | FD_TYPE_PIPE_READ \<Rightarrow> Some (KRet 0 s))"

section \<open>Screen and time\<close>

definition syscall_clearScreen :: "kernel \<Rightarrow> kernel sysres" where
  "syscall_clearScreen s = Some (KRet 1 (s\<lparr>screen := video_clearScreen (screen s)\<rparr>))"

definition sleep_loop :: "u64 \<Rightarrow> kernel \<Rightarrow> kernel sysres" where
  "sleep_loop target s =
     Some (if scast (ticks_elapsed s) < target then KYield (Sleep_until target) s else KRet 0 s)"

definition syscall_sleep :: "cint \<Rightarrow> kernel \<Rightarrow> kernel sysres" where
  "syscall_sleep duration s =
     (let start = scast (ticks_elapsed s) :: u64;
          wait_tics = ucast ((duration * 18 + 999) div 1000 :: u32) :: u64
      in sleep_loop (start + wait_tics) s)"

definition syscall_video_putChar :: "u64 \<Rightarrow> u64 \<Rightarrow> u64 \<Rightarrow> kernel \<Rightarrow> kernel sysres" where
  "syscall_video_putChar c fg bg s =
     Some (KRet 0 (s\<lparr>screen := video_putChar (char_of_byte (ucast c)) fg bg (screen s)\<rparr>))"

text \<open>\<open>syscall_shutdown\<close> turns the machine off and never returns.\<close>

definition syscall_shutdown :: "kernel \<Rightarrow> kernel sysres" where
  "syscall_shutdown s = None"

definition syscall_get_screen_dimensions :: "ptr \<Rightarrow> ptr \<Rightarrow> kernel \<Rightarrow> kernel sysres" where
  "syscall_get_screen_dimensions width height s =
     (if width = NULL \<or> height = NULL then Some (KRet 0 s)
      else Some (KRet 1
             (set_umem (store_bytes height (le_bytes 8 (ucast (video_get_height (screen s)))))
               (set_umem (store_bytes width (le_bytes 8 (ucast (video_get_width (screen s))))) s))))"

section \<open>Memory\<close>

definition syscall_malloc :: "u64 \<Rightarrow> kernel \<Rightarrow> kernel sysres" where
  "syscall_malloc sz s =
     (if sz = 0 then Some (KRet 0 s) else map_option (\<lambda>(p, s1). KRet p s1) (kalloc sz s))"

definition syscall_free :: "u64 \<Rightarrow> kernel \<Rightarrow> kernel sysres" where
  "syscall_free address s =
     (if address = 0 then Some (KRet 0 s) else map_option (KRet 1) (kfree address s))"

definition stats_bytes :: "mm_stats \<Rightarrow> u8 list" where
  "stats_bytes st = concat (map (le_bytes 8) [total_bytes st, used_bytes st, free_bytes st,
     largest_free_block st, allocations st, frees st, failed_allocations st])"

definition syscall_meminfo :: "u64 \<Rightarrow> kernel \<Rightarrow> kernel sysres" where
  "syscall_meminfo user_addr s =
     (if user_addr = 0 then Some (KRet 0 s)
      else do {
        st \<leftarrow> mm_get_stats (kmm s);
        Some (KRet 1 (set_umem (store_bytes user_addr (stats_bytes st)) s))
      })"

definition syscall_get_type_of_mm :: "u64 \<Rightarrow> kernel \<Rightarrow> kernel sysres" where
  "syscall_get_type_of_mm user_addr s =
     (if user_addr = 0 then Some (KRet 0 s)
      else Some (KRet 1 (set_umem (store_chars user_addr (mm_get_manager_name (kmm s) @ [NUL])) s)))"

section \<open>Processes\<close>

text \<open>The last register of \<open>syscall_create_process\<close>: a plain foreground flag, or the flag in bit 32 over
  two 16-bit pipe ids.\<close>

definition unpack_foreground_and_pipes :: "u64 \<Rightarrow> int \<times> u64 \<times> u64" where
  "unpack_foreground_and_pipes r =
     (if r \<le> 1 then (int_of_reg r, 0, 0)
      else (int_of_reg (drop_bit 32 r AND 1), r AND 0xFFFF, drop_bit 16 r AND 0xFFFF))"

definition syscall_create_process :: "u64 \<Rightarrow> u64 \<Rightarrow> u64 \<Rightarrow> u64 \<Rightarrow> u64 \<Rightarrow> kernel \<Rightarrow> kernel sysres" where
  "syscall_create_process nm function argv priority is_foreground_and_pipes s =
     (let (fg, stdin_id, stdout_id) = unpack_foreground_and_pipes is_foreground_and_pipes;
          parent = scheduler_current_process s;
          s1 = (if fg \<noteq> 0 \<and> parent \<noteq> NULL then upd_proc parent (p_is_foreground_update (\<lambda>_. 0)) s else s);
          nm' = (if nm = NULL then ''user_process'' else load_cstr (umem s) nm PROCESS_NAME_MAX_LEN)
      in do {
        (p, s2) \<leftarrow> scheduler_spawn_process (Some nm') function argv parent (ucast priority) fg stdin_id stdout_id s1;
        Some (if p = NULL
              then KRet 0 (if fg \<noteq> 0 \<and> parent \<noteq> NULL then upd_proc parent (p_is_foreground_update (\<lambda>_. 1)) s2 else s2)
              else KRet (p_pid (proc s2 p)) s2)
      })"

definition syscall_kill :: "u64 \<Rightarrow> kernel \<Rightarrow> kernel sysres" where
  "syscall_kill pid s = ret_int (scheduler_kill_by_pid pid s)"

definition syscall_block :: "u64 \<Rightarrow> kernel \<Rightarrow> kernel sysres" where
  "syscall_block pid s = ret_int (scheduler_block_by_pid pid s)"

definition syscall_unblock :: "u64 \<Rightarrow> kernel \<Rightarrow> kernel sysres" where
  "syscall_unblock pid s = ret_int (scheduler_unblock_by_pid pid s)"

definition syscall_getpid :: "kernel \<Rightarrow> kernel sysres" where
  "syscall_getpid s =
     (let p = scheduler_current_process s in Some (KRet (if p = NULL then 0 else p_pid (proc s p)) s))"

definition syscall_set_priority :: "u64 \<Rightarrow> u64 \<Rightarrow> kernel \<Rightarrow> kernel sysres" where
  "syscall_set_priority pid newPrio s = ret_int (scheduler_set_priority pid (ucast newPrio) s)"

text \<open>What \<open>syscall_wait\<close> does after the yield; \<open>target\<close> may have been destroyed meanwhile.\<close>

definition wait_resumed :: "ptr \<Rightarrow> ptr \<Rightarrow> kernel \<Rightarrow> kernel sysres" where
  "wait_resumed target me s =
     Some (KRet 1 (if p_is_foreground (proc s target) \<noteq> 0
                   then upd_proc me (p_is_foreground_update (\<lambda>_. 1)) s else s))"

definition syscall_wait :: "u64 \<Rightarrow> kernel \<Rightarrow> kernel sysres" where
  "syscall_wait pid s =
     (if sint pid \<le> 0 then Some (KRet 0 s)
      else do {
        target \<leftarrow> scheduler_find_by_pid pid s;
        let me = scheduler_current_process s;
        if target = NULL then Some (KRet 0 s)
        else if p_state (proc s target) = PROCESS_STATE_FINISHED
        then Some (KRet 1 (if me \<noteq> NULL \<and> p_is_foreground (proc s target) \<noteq> 0
                           then upd_proc me (p_is_foreground_update (\<lambda>_. 1)) s else s))
        else if me = NULL \<or> me = target then Some (KRet 0 s)
        else
          let s1 = upd_proc me (\<lambda>b. b\<lparr>p_waiting_on_pid := pid, p_waiter_next := p_waiters_head (proc s target)\<rparr>) s;
              s2 = upd_proc target (p_waiters_head_update (\<lambda>_. me)) s1;
              (ticked, s3) = scheduler_yield_current (scheduler_block_current s2)
          in if ticked then Some (KYield (Wait_for target me) s3) else wait_resumed target me s3
      })"

definition syscall_yield :: "kernel \<Rightarrow> kernel sysres" where
  "syscall_yield s =
     (if scheduler_current_process s = NULL then Some (KRet 0 s)
      else let (ticked, s1) = scheduler_yield_current s
           in Some (if ticked then KYield (Return 1) s1 else KRet 1 s1))"

text \<open>\<open>process_info_t\<close> takes 80 bytes; the bytes after the end of the name are not written.\<close>

definition state_code :: "process_state \<Rightarrow> u64" where
  "state_code st = (case st of PROCESS_STATE_NEW \<Rightarrow> 0 | PROCESS_STATE_READY \<Rightarrow> 1 | PROCESS_STATE_RUNNING \<Rightarrow> 2
     | PROCESS_STATE_BLOCKED \<Rightarrow> 3 | PROCESS_STATE_FINISHED \<Rightarrow> 4)"

definition store_info :: "ptr \<Rightarrow> process_info \<Rightarrow> bytes \<Rightarrow> bytes" where
  "store_info a e =
     store_bytes (a + 72) (le_bytes 4 (word_of_int (i_foreground e))) \<circ>
     store_bytes (a + 64) (le_bytes 8 (i_rbp e)) \<circ>
     store_bytes (a + 56) (le_bytes 8 (i_rsp e)) \<circ>
     store_bytes (a + 48) (le_bytes 4 (word_of_int (i_priority e))) \<circ>
     store_bytes (a + 44) (le_bytes 4 (state_code (i_state e))) \<circ>
     store_chars (a + 8) (i_name e @ [NUL]) \<circ>
     store_bytes a (le_bytes 8 (i_pid e))"

definition MAX_PROCESS_INFO :: u64 where "MAX_PROCESS_INFO = 64"

fun store_infos :: "ptr \<Rightarrow> process_info list \<Rightarrow> bytes \<Rightarrow> bytes" where
  "store_infos a [] m = m"
| "store_infos a (e # es) m = store_infos (a + 80) es (store_info a e m)"

definition syscall_list_processes :: "u64 \<Rightarrow> u64 \<Rightarrow> kernel \<Rightarrow> kernel sysres" where
  "syscall_list_processes user_addr max_count s =
     (if user_addr = 0 \<or> max_count = 0 \<or> max_count > MAX_PROCESS_INFO then Some (KRet 0 s)
      else do {
        es \<leftarrow> scheduler_list_all_processes (unat max_count) s;
        Some (KRet (of_nat (length es)) (set_umem (store_infos user_addr es) s))
      })"

definition syscall_get_foreground_pid :: "kernel \<Rightarrow> kernel sysres" where
  "syscall_get_foreground_pid s = map_option (\<lambda>pid. KRet pid s) (scheduler_get_foreground_pid s)"

section \<open>Semaphores\<close>

definition syscall_sem_create :: "int \<Rightarrow> kernel \<Rightarrow> kernel sysres" where
  "syscall_sem_create initial s =
     (if initial < 0 then Some (KRet 0 s) else let (sid, s1) = sem_alloc initial s in Some (KRet sid s1))"

definition syscall_sem_open :: "u64 \<Rightarrow> kernel \<Rightarrow> kernel sysres" where
  "syscall_sem_open sid s = ret_int (sem_open_by_id sid s)"

definition syscall_sem_close :: "u64 \<Rightarrow> kernel \<Rightarrow> kernel sysres" where
  "syscall_sem_close sid s = ret_int (sem_close_by_id sid s)"

definition syscall_sem_wait :: "u64 \<Rightarrow> kernel \<Rightarrow> kernel sysres" where
  "syscall_sem_wait sid s =
     map_option (\<lambda>r. case r of KRet v s1 \<Rightarrow> KRet (word_of_int v) s1 | KYield _ s1 \<Rightarrow> KYield (Return 1) s1)
       (sem_wait_by_id sid s)"

definition syscall_sem_signal :: "u64 \<Rightarrow> kernel \<Rightarrow> kernel sysres" where
  "syscall_sem_signal sid s = ret_int (sem_signal_by_id sid s)"

definition syscall_sem_set :: "u64 \<Rightarrow> int \<Rightarrow> kernel \<Rightarrow> kernel sysres" where
  "syscall_sem_set sid newval s = ret_int (sem_set_by_id sid newval s)"

definition syscall_sem_get :: "u64 \<Rightarrow> kernel \<Rightarrow> kernel sysres" where
  "syscall_sem_get sid s =
     map_option (\<lambda>(v, s1). KRet (case v of None \<Rightarrow> - 1 | Some x \<Rightarrow> word_of_int x) s1) (sem_get_value_by_id sid s)"

section \<open>Pipes\<close>

definition syscall_pipe_create :: "kernel \<Rightarrow> kernel sysres" where
  "syscall_pipe_create s = map_option (\<lambda>(pid, s1). KRet pid s1) (pipe_create s)"

definition syscall_pipe_open :: "u64 \<Rightarrow> u64 \<Rightarrow> kernel \<Rightarrow> kernel sysres" where
  "syscall_pipe_open pid is_writer s = ret_int (pipe_open_by_id pid (int_of_reg is_writer \<noteq> 0) s)"

text \<open>The first descriptor of the process that is attached to the pipe decides which end is closed;
  without one it is the writing end.\<close>

definition pipe_end_of :: "u64 \<Rightarrow> ptr \<Rightarrow> kernel \<Rightarrow> bool" where
  "pipe_end_of pid p s =
     (case find (\<lambda>e. (fd_type e = FD_TYPE_PIPE_READ \<or> fd_type e = FD_TYPE_PIPE_WRITE) \<and> fd_pipe e \<noteq> None \<and>
             pipe_get_id (fd_pipe e) s = pid) (p_fds (proc s p)) of
        None \<Rightarrow> True
      | Some e \<Rightarrow> fd_type e = FD_TYPE_PIPE_WRITE)"

definition syscall_pipe_close :: "u64 \<Rightarrow> kernel \<Rightarrow> kernel sysres" where
  "syscall_pipe_close pid s =
     (let me = scheduler_current_process s
      in if pid = 0 \<or> me = NULL then Some (KRet 0 s)
         else ret_int (pipe_close_by_id pid (pipe_end_of pid me s) s))"

text \<open>Releasing the pipe that a descriptor holds, with the descriptor left as it is.\<close>

definition release_end :: "fd_entry \<Rightarrow> kernel \<Rightarrow> kernel option" where
  "release_end e s =
     (if (fd_type e = FD_TYPE_PIPE_READ \<or> fd_type e = FD_TYPE_PIPE_WRITE) \<and> fd_pipe e \<noteq> None \<and>
        pipe_get_id (fd_pipe e) s \<noteq> 0
      then map_option snd (pipe_close_by_id (pipe_get_id (fd_pipe e) s) (fd_type e = FD_TYPE_PIPE_WRITE) s)
      else Some s)"

definition syscall_pipe_dup :: "u64 \<Rightarrow> u64 \<Rightarrow> u64 \<Rightarrow> kernel \<Rightarrow> kernel sysres" where
  "syscall_pipe_dup pid fdn mode s =
     (let me = scheduler_current_process s; i = unat fdn
      in if fdn \<ge> of_nat MAX_FDS \<or> me = NULL then Some (KRet 0 s)
         else case pipe_get_by_id pid s of
                None \<Rightarrow> Some (KRet 0 s)
              | Some k \<Rightarrow> do {
                  let e = fd s me i;
                  s1 \<leftarrow> release_end e s;
                  let s2 = (if fd_type e = FD_TYPE_PIPE_READ \<or> fd_type e = FD_TYPE_PIPE_WRITE
                            then set_fd me i (e\<lparr>fd_pipe := None\<rparr>) s1 else s1);
                  if mode \<noteq> 0 \<and> mode \<noteq> 1 then Some (KRet 0 s2)
                  else do {
                    let s3 = set_fd me i ((fd s2 me i)\<lparr>fd_type := (if mode = 0 then FD_TYPE_PIPE_READ else FD_TYPE_PIPE_WRITE)\<rparr>) s2;
                    (ok, s4) \<leftarrow> pipe_open_by_id pid (mode = 1) s3;
                    Some (if ok = 0 then KRet 0 s4
                          else KRet 1 (set_fd me i ((fd s4 me i)\<lparr>fd_pipe := Some k\<rparr>) s4))
                  }
                })"

definition syscall_pipe_release_fd :: "u64 \<Rightarrow> kernel \<Rightarrow> kernel sysres" where
  "syscall_pipe_release_fd fdn s =
     (let me = scheduler_current_process s; i = unat fdn
      in if fdn \<ge> of_nat MAX_FDS \<or> me = NULL then Some (KRet 0 s)
         else do {
           s1 \<leftarrow> release_end (fd s me i) s;
           Some (KRet 1 (set_fd me i terminal_fd s1))
         })"

section \<open>Dispatcher\<close>

definition SYSCALLS_COUNT :: u64 where "SYSCALLS_COUNT = 33"

definition syscallHandlers :: "nat \<Rightarrow> u64 \<Rightarrow> u64 \<Rightarrow> u64 \<Rightarrow> u64 \<Rightarrow> u64 \<Rightarrow> kernel \<Rightarrow> kernel sysres" where
  "syscallHandlers n rdi rsi rdx r10 r8 =
     [\<lambda>s. syscall_read (int_of_reg rdi) rsi (int_of_reg rdx) s,
      \<lambda>s. syscall_write (int_of_reg rdi) rsi (int_of_reg rdx) s,
      syscall_clearScreen,
      syscall_sleep (ucast rdi),
      syscall_video_putChar rdi rsi rdx,
      syscall_shutdown,
      syscall_get_screen_dimensions rdi rsi,
      syscall_malloc rdi,
      syscall_free rdi,
      syscall_meminfo rdi,
      syscall_create_process rdi rsi rdx r10 r8,
      syscall_kill rdi,
      syscall_block rdi,
      syscall_unblock rdi,
      syscall_get_type_of_mm rdi,
      syscall_getpid,
      syscall_set_priority rdi rsi,
      syscall_wait rdi,
      syscall_sem_create (int_of_reg rdi),
      syscall_sem_open rdi,
      syscall_sem_close rdi,
      syscall_sem_wait rdi,
      syscall_sem_signal rdi,
      syscall_sem_set rdi (int_of_reg rsi),
      syscall_sem_get rdi,
      syscall_list_processes rdi rsi,
      syscall_yield,
      syscall_pipe_create,
      syscall_pipe_open rdi rsi,
      syscall_pipe_close rdi,
      syscall_pipe_dup rdi rsi rdx,
      syscall_pipe_release_fd rdi,
      syscall_get_foreground_pid] ! n"

definition syscallDispatcher :: "u64 \<Rightarrow> u64 \<Rightarrow> u64 \<Rightarrow> u64 \<Rightarrow> u64 \<Rightarrow> u64 \<Rightarrow> kernel \<Rightarrow> kernel sysres" where
  "syscallDispatcher rdi rsi rdx r10 r8 rax s =
     (if rax \<ge> SYSCALLS_COUNT then Some (KRet 0 s)
      else syscallHandlers (unat rax) rdi rsi rdx r10 r8 s)"

text \<open>The rest of a call that yielded.\<close>

definition resume :: "cont \<Rightarrow> kernel \<Rightarrow> kernel sysres" where
  "resume c s =
     (case c of
        Read_terminal buf n acc \<Rightarrow> read_result (Read_terminal buf n) buf (read_terminal n acc s)
      | Read_pipe buf i n acc \<Rightarrow> read_result (Read_pipe buf i n) buf (pipe_read_loop i n acc s)
      | Write_pipe i bs k \<Rightarrow> write_result (Write_pipe i bs) (pipe_write_loop i bs k s)
      | Sleep_until target \<Rightarrow> sleep_loop target s
      | Wait_for target me \<Rightarrow> wait_resumed target me s
      | Return v \<Rightarrow> Some (KRet v s))"

end
