(* ===== verification/Module_Packer.thy ===== *)
theory Module_Packer
  imports Kernel_Prelude
begin

text \<open>
  The build tool that appends the user programs to the kernel binary (\<open>Toolchain/ModulePacker/main.c\<close>):
  the kernel, the number of modules, and for each module its size and its bytes, the numbers in the
  byte order of the machine.  The file system is a map from names to contents; \<open>None\<close> is a file that
  cannot be read.  The output file is what the calls of \<open>fwrite\<close> append.  The keys that \<open>argp\<close> makes of the
  command line are an argument of the program.
\<close>

definition le32 :: "u32 \<Rightarrow> u8 list" where
  "le32 w = [ucast w, ucast (drop_bit 8 w), ucast (drop_bit 16 w), ucast (drop_bit 24 w)]"

definition PACKER_BUFFER_SIZE :: nat where "PACKER_BUFFER_SIZE = 128"

text \<open>\<open>feof\<close> holds after a read that came to the end of the file, that is one that is cut short.\<close>

function write_file :: "u8 list \<Rightarrow> u8 list \<Rightarrow> u8 list" where
  "write_file target source =
     (let buffer = take PACKER_BUFFER_SIZE source; target' = target @ buffer
      in if length buffer < PACKER_BUFFER_SIZE then target'
         else write_file target' (drop PACKER_BUFFER_SIZE source))"
  by pat_completeness auto
termination
  by (relation "measure (length \<circ> snd)") (auto simp: PACKER_BUFFER_SIZE_def)

declare write_file.simps [simp del]

definition write_size :: "u8 list \<Rightarrow> u8 list \<Rightarrow> u8 list" where
  "write_size target file = target @ le32 (of_nat (length file))"

definition checkFiles :: "(string \<Rightarrow> u8 list option) \<Rightarrow> string list \<Rightarrow> bool" where
  "checkFiles fs names = list_all (\<lambda>f. fs f \<noteq> None) names"

definition write_module :: "u8 list \<Rightarrow> u8 list \<Rightarrow> u8 list" where
  "write_module target file = write_file (write_size target file) file"

definition buildImage :: "u8 list \<Rightarrow> u8 list list \<Rightarrow> u8 list" where
  "buildImage kernel_file modules =
     (let target = write_file [] kernel_file;
          target' = target @ le32 (of_nat (length modules))
      in foldl write_module target' modules)"

text \<open>\<open>main\<close>: at least one file is named, and all can be read.\<close>

definition packer_main :: "(string \<Rightarrow> u8 list option) \<Rightarrow> string list \<Rightarrow> u8 list option" where
  "packer_main fs names =
     (if names = [] \<or> \<not> checkFiles fs names then None
      else Some (buildImage (the (fs (hd names))) (map (the \<circ> fs) (tl names))))"

section \<open>Arguments and exit codes\<close>

definition MAX_FILES :: nat where "MAX_FILES = 128"
definition OUTPUT_FILE :: string where "OUTPUT_FILE = ''packedKernel.bin''"

record arguments =
  args :: "string list"
  output_file :: string
  arg_count :: nat

text \<open>The keys with which \<open>argp_parse\<close> calls \<open>parse_opt\<close>, in the order of its calls; the last one ends the
  arguments.\<close>

datatype argp_key = KEY_o string | KEY_ARG string | KEY_END | KEY_OTHER

datatype parse_result = Parsed arguments | Unknown_key | Usage_exit | Past_the_table

definition parse_opt :: "argp_key \<Rightarrow> nat \<Rightarrow> arguments \<Rightarrow> parse_result" where
  "parse_opt key arg_num a =
     (case key of
        KEY_o f \<Rightarrow> Parsed (a\<lparr>output_file := f\<rparr>)
      | KEY_ARG f \<Rightarrow> if arg_num < MAX_FILES then Parsed (a\<lparr>args := (args a)[arg_num := f]\<rparr>) else Past_the_table
      | KEY_END \<Rightarrow> if arg_num < 1 then Usage_exit else Parsed (a\<lparr>arg_count := arg_num\<rparr>)
      | KEY_OTHER \<Rightarrow> Unknown_key)"

text \<open>A key that \<open>parse_opt\<close> does not know is skipped; \<open>argp\<close> counts the arguments.  \<open>Inl\<close> is the exit code after the
  usage message, \<open>None\<close> a write past the table of arguments.\<close>

fun argp_parse :: "argp_key list \<Rightarrow> nat \<Rightarrow> arguments \<Rightarrow> (int + arguments) option" where
  "argp_parse [] arg_num a = Some (Inr a)"
| "argp_parse (key # keys) arg_num a =
     (case parse_opt key arg_num a of
        Parsed a' \<Rightarrow> argp_parse keys (case key of KEY_ARG _ \<Rightarrow> Suc arg_num | _ \<Rightarrow> arg_num) a'
      | Unknown_key \<Rightarrow> argp_parse keys arg_num a
      | Usage_exit \<Rightarrow> Some (Inl 64)
      | Past_the_table \<Rightarrow> None)"

definition missing_file :: "(string \<Rightarrow> u8 list option) \<Rightarrow> string list \<Rightarrow> string" where
  "missing_file fs names =
     (case List.find (\<lambda>f. fs f = None) names of None \<Rightarrow> [] | Some f \<Rightarrow> ''Can't open file: '' @ f @ [CHR 0x0A])"

text \<open>The exit code, the files and what is printed.  The files named must not include the one written.\<close>

definition packer_run ::
  "(string \<Rightarrow> bool) \<Rightarrow> argp_key list \<Rightarrow> (string \<Rightarrow> u8 list option) \<Rightarrow> (int \<times> (string \<Rightarrow> u8 list option) \<times> string) option" where
  "packer_run creatable keys fs =
     (case argp_parse keys 0 \<lparr>args = replicate MAX_FILES [], output_file = OUTPUT_FILE, arg_count = 0\<rparr> of
        None \<Rightarrow> None
      | Some (Inl code) \<Rightarrow> Some (code, fs, [])
      | Some (Inr a) \<Rightarrow>
          let names = take (arg_count a) (args a)
          in if \<not> checkFiles fs names then Some (1, fs, missing_file fs names)
             else if output_file a \<in> set names then None
             else if \<not> creatable (output_file a) then Some (1, fs, ''Can't create target file'' @ [CHR 0x0A])
             else map_option (\<lambda>img. (0, fs(output_file a \<mapsto> img), [])) (packer_main fs names))"

section \<open>What is written\<close>

lemma write_file_appends: "write_file target source = target @ source"
proof (induction target source rule: write_file.induct)
  case (1 target source)
  show ?case
  proof (cases "length (take PACKER_BUFFER_SIZE source) < PACKER_BUFFER_SIZE")
    case True
    then show ?thesis by (subst write_file.simps) (simp add: Let_def min_def split: if_splits)
  next
    case False
    then show ?thesis using 1 by (subst write_file.simps) (simp add: Let_def del: take_append)
  qed
qed

definition module_bytes :: "u8 list \<Rightarrow> u8 list" where
  "module_bytes file = le32 (of_nat (length file)) @ file"

lemma length_le32 [simp]: "length (le32 w) = 4"
  by (simp add: le32_def)

lemma length_module_bytes [simp]: "length (module_bytes file) = 4 + length file"
  by (simp add: module_bytes_def)

lemma write_modules: "foldl write_module target modules = target @ concat (map module_bytes modules)"
  by (induction modules arbitrary: target)
    (simp_all add: write_module_def write_size_def write_file_appends module_bytes_def)

lemma buildImage_layout:
  "buildImage kernel_file modules =
     kernel_file @ le32 (of_nat (length modules)) @ concat (map module_bytes modules)"
  by (simp add: buildImage_def write_file_appends write_modules)

text \<open>A run with at least one and at most 128 files, all of which can be read, writes the image to the output file.\<close>

lemma argp_parse_files:
  assumes "length pre + length names \<le> MAX_FILES" and "length (args a) = MAX_FILES" and "take (length pre) (args a) = pre"
    and "pre @ names \<noteq> []"
  shows "\<exists>a'. argp_parse (map KEY_ARG names @ [KEY_END]) (length pre) a = Some (Inr a') \<and>
    take (arg_count a') (args a') = pre @ names \<and> output_file a' = output_file a"
  using assms
proof (induction names arbitrary: pre a)
  case Nil
  then show ?case by (cases pre) (simp_all add: parse_opt_def)
next
  case (Cons f names)
  let ?a = "a\<lparr>args := (args a)[length pre := f]\<rparr>"
  have "take (length (pre @ [f])) (args ?a) = pre @ [f]"
    using Cons.prems by (simp add: take_Suc_conv_app_nth)
  with Cons.IH [of "pre @ [f]" ?a] Cons.prems show ?case by (simp add: parse_opt_def)
qed

lemma packer_run_writes:
  assumes "names \<noteq> []" "length names \<le> MAX_FILES" and "checkFiles fs names" and "OUTPUT_FILE \<notin> set names" and "creatable OUTPUT_FILE"
  shows "packer_run creatable (map KEY_ARG names @ [KEY_END]) fs =
    Some (0, fs(OUTPUT_FILE \<mapsto> buildImage (the (fs (hd names))) (map (the \<circ> fs) (tl names))), [])"
  using argp_parse_files [of "[]" names "\<lparr>args = replicate MAX_FILES [], output_file = OUTPUT_FILE, arg_count = 0\<rparr>"] assms
  by (auto simp: packer_run_def packer_main_def)

end
