(* ===== verification/Loader_Correct.thy ===== *)
theory Loader_Correct
  imports Kernel_Lib Module_Packer
begin

text \<open>
  The copies of \<^theory_text>\<open>Kernel_Lib\<close> are the copy of a block of bytes: whichever of the two loops
  \<open>memcpy\<close> takes, every byte of the destination becomes the corresponding byte of the source, and no
  other byte changes.  Regions are taken modulo the address space: \<open>in_block a p n\<close> holds of the \<open>n\<close>
  addresses from \<open>p\<close> on.
\<close>

definition in_block :: "ptr \<Rightarrow> ptr \<Rightarrow> nat \<Rightarrow> bool" where
  "in_block a p n \<longleftrightarrow> unat (a - p) < n"

definition blocks_apart :: "ptr \<Rightarrow> nat \<Rightarrow> ptr \<Rightarrow> nat \<Rightarrow> bool" where
  "blocks_apart p n q k \<longleftrightarrow> (\<forall>a. in_block a p n \<longrightarrow> \<not> in_block a q k)"

text \<open>The reference: all bytes at once.\<close>

definition copy_block :: "ptr \<Rightarrow> ptr \<Rightarrow> nat \<Rightarrow> bytes \<Rightarrow> bytes" where
  "copy_block d s n m = (\<lambda>a. if in_block a d n then m (s + (a - d)) else m a)"

lemma in_block_offset: "i < n \<Longrightarrow> n \<le> 2 ^ 64 \<Longrightarrow> in_block (p + of_nat i) p n"
  using unat_of_nat_64 [of i] by (simp add: in_block_def)

lemma in_block_Suc:
  assumes "n < 2 ^ 64"
  shows "in_block a p (Suc n) \<longleftrightarrow> in_block a p n \<or> a = p + of_nat n"
proof -
  have "unat (a - p) = n \<longleftrightarrow> a - p = of_nat n"
    using unat_of_nat_64 [OF assms] by (metis unsigned_word_eqI)
  then show ?thesis by (auto simp: in_block_def less_Suc_eq algebra_simps)
qed

lemma in_block_mono: "in_block a p n \<Longrightarrow> n \<le> k \<Longrightarrow> in_block a p k"
  by (simp add: in_block_def)

lemma blocks_apart_mono: "blocks_apart p n q k \<Longrightarrow> n' \<le> n \<Longrightarrow> k' \<le> k \<Longrightarrow> blocks_apart p n' q k'"
  unfolding blocks_apart_def by (meson in_block_mono)

lemma copy_block_0 [simp]: "copy_block d s 0 m = m"
  by (simp add: copy_block_def in_block_def fun_eq_iff)

text \<open>One byte more.\<close>

lemma copy_block_Suc:
  assumes "n < 2 ^ 64" and "blocks_apart d (Suc n) s (Suc n)"
  shows "copy_block d s (Suc n) m =
    (copy_block d s n m)(d + of_nat n := copy_block d s n m (s + of_nat n))"
proof -
  have "in_block (s + of_nat n) s (Suc n)" using assms(1) by (intro in_block_offset) auto
  then have "\<not> in_block (s + of_nat n) d n"
    using assms(2) in_block_mono [of _ d n "Suc n"] by (auto simp: blocks_apart_def)
  then show ?thesis
    by (auto simp: copy_block_def fun_eq_iff in_block_Suc [OF assms(1)])
qed

lemma copy_bytes_block:
  assumes "n \<le> 2 ^ 64" and "blocks_apart d n s n"
  shows "copy_bytes d s n m = copy_block d s n m"
  using assms
proof (induction n)
  case 0
  then show ?case by (simp add: copy_bytes_def)
next
  case (Suc n)
  then have "copy_bytes d s n m = copy_block d s n m"
    using blocks_apart_mono [of d "Suc n" s "Suc n" n n] by simp
  then show ?case using Suc.prems copy_block_Suc [of n d s m]
    by (simp add: copy_bytes_def)
qed

text \<open>A 32-bit word read and written back is its four bytes.\<close>

lemma load32_byte:
  "ucast (load32 m a) = m a" "ucast (drop_bit 8 (load32 m a)) = m (a + 1)"
  "ucast (drop_bit 16 (load32 m a)) = m (a + 2)" "ucast (drop_bit 24 (load32 m a)) = m (a + 3)"
  unfolding load32_def by (rule bit_eqI, auto simp: bit_simps dest: bit_imp_le_length)+

lemma store32_load32:
  "store32 d (load32 m s) m = m(d := m s, d + 1 := m (s + 1), d + 2 := m (s + 2), d + 3 := m (s + 3))"
  by (simp add: store32_def load32_byte)

lemma copy_words_block:
  assumes "4 * n \<le> 2 ^ 64" and "blocks_apart d (4 * n) s (4 * n)"
  shows "copy_words d s n m = copy_block d s (4 * n) m"
  using assms
proof (induction n)
  case 0
  then show ?case by (simp add: copy_words_def)
next
  case (Suc n)
  let ?b = "\<lambda>k. copy_block d s (4 * n + k) m"
  have le: "4 * n + k < 2 ^ 64" if "k < 4" for k using Suc.prems(1) that by simp
  have ap: "blocks_apart d (Suc (4 * n + k)) s (Suc (4 * n + k))" if "k < 4" for k
    using Suc.prems(2) that by (auto elim: blocks_apart_mono)
  have IH: "copy_words d s n m = ?b 0"
    using Suc.IH Suc.prems blocks_apart_mono [OF Suc.prems(2), of "4 * n" "4 * n"] by simp
  have step: "?b (Suc k) = (?b k)(d + of_nat (4 * n + k) := m (s + of_nat (4 * n + k)))" if "k < 4" for k
  proof -
    have "in_block (s + of_nat (4 * n + k)) s (Suc (4 * n + k))"
      using le [OF that] by (intro in_block_offset) auto
    then have "\<not> in_block (s + of_nat (4 * n + k)) d (4 * n + k)"
      using ap [OF that] in_block_mono [of _ d "4 * n + k" "Suc (4 * n + k)"] by (auto simp: blocks_apart_def)
    then show ?thesis using copy_block_Suc [OF le [OF that] ap [OF that], of m]
      by (simp add: copy_block_def)
  qed
  have src: "?b 0 (s + of_nat (4 * n + k)) = m (s + of_nat (4 * n + k))" if "k < 4" for k
  proof -
    have "in_block (s + of_nat (4 * n + k)) s (4 * Suc n)"
      using Suc.prems(1) that by (intro in_block_offset) auto
    then have "\<not> in_block (s + of_nat (4 * n + k)) d (4 * n)"
      using Suc.prems(2) in_block_mono [of _ d "4 * n" "4 * Suc n"] by (auto simp: blocks_apart_def)
    then show ?thesis by (simp add: copy_block_def)
  qed
  have "copy_words d s (Suc n) m = store32 (d + of_nat (4 * n)) (load32 (?b 0) (s + of_nat (4 * n))) (?b 0)"
    using IH by (simp add: copy_words_def)
  also have "\<dots> = ?b 4"
    using step [of 0] step [of 1] step [of 2] step [of 3] src [of 0] src [of 1] src [of 2] src [of 3]
    by (simp add: store32_load32 eval_nat_numeral ac_simps)
  finally show ?case by (simp add: ac_simps)
qed

lemma memcpy_block:
  assumes "blocks_apart destination (unat len) source (unat len)"
  shows "memcpy destination source len m = copy_block destination source (unat len) m"
proof (cases "destination mod 4 = 0 \<and> source mod 4 = 0 \<and> len mod 4 = 0")
  case True
  then have "unat len mod 4 = 0" using unat_mod_distrib [of len 4] by simp
  then have "4 * unat (len div 4) = unat len" using mod_mult_div_eq by (simp add: unat_div_distrib, presburger)
  then show ?thesis using True assms copy_words_block [of "unat (len div 4)" destination source m]
      unat_64_lt [of len] by (simp add: memcpy_def)
next
  case False
  show ?thesis unfolding memcpy_def if_not_P [OF False]
    using assms unat_64_lt [of len] by (intro copy_bytes_block) auto
qed

section \<open>Packed modules\<close>

text \<open>\<open>holds m p bs\<close>: the bytes at \<open>p\<close> are \<open>bs\<close>.\<close>

definition holds :: "bytes \<Rightarrow> ptr \<Rightarrow> u8 list \<Rightarrow> bool" where
  "holds m p bs \<longleftrightarrow> (\<forall>i < length bs. m (p + of_nat i) = bs ! i)"

lemma holds_append: "holds m p (xs @ ys) \<longleftrightarrow> holds m p xs \<and> holds m (p + of_nat (length xs)) ys"
proof -
  have "(\<forall>i < length (xs @ ys). m (p + of_nat i) = (xs @ ys) ! i) \<longleftrightarrow>
    (\<forall>i < length xs. m (p + of_nat i) = xs ! i) \<and>
    (\<forall>i < length ys. m (p + of_nat (length xs) + of_nat i) = ys ! i)" (is "?l \<longleftrightarrow> ?a \<and> ?b")
  proof (intro iffI conjI allI impI)
    fix i
    assume ?l and "i < length xs"
    then show "m (p + of_nat i) = xs ! i" by (auto simp: nth_append dest: spec [of _ i])
  next
    fix i
    assume ?l and "i < length ys"
    then show "m (p + of_nat (length xs) + of_nat i) = ys ! i"
      using spec [OF \<open>?l\<close>, of "length xs + i"] by (simp add: add.assoc)
  next
    fix i
    assume *: "?a \<and> ?b" and "i < length (xs @ ys)"
    then show "m (p + of_nat i) = (xs @ ys) ! i"
      using spec [of "\<lambda>k. k < length ys \<longrightarrow> m (p + of_nat (length xs) + of_nat k) = ys ! k" "i - length xs"]
      by (cases "i < length xs") (auto simp: nth_append)
  qed
  then show ?thesis by (simp add: holds_def)
qed

lemma holds_cong:
  assumes "holds m p bs" and "length bs \<le> 2 ^ 64"
    and "\<And>a. in_block a p (length bs) \<Longrightarrow> m' a = m a"
  shows "holds m' p bs"
  using assms in_block_offset [of _ "length bs" p] by (simp add: holds_def)

lemma load32_le32: "holds m p (le32 w) \<Longrightarrow> load32 m p = w"
proof -
  assume "holds m p (le32 w)"
  then have "m p = ucast w" "m (p + 1) = ucast (drop_bit 8 w)" "m (p + 2) = ucast (drop_bit 16 w)"
      "m (p + 3) = ucast (drop_bit 24 w)"
    by (auto simp: holds_def le32_def eval_nat_numeral less_Suc_eq dest!: spec)
  then have "bit (load32 m p) n = bit w n" if "n < 32" for n
    using that unfolding load32_def by (cases "n < 24"; cases "n < 16") (auto simp: bit_simps)
  then show ?thesis by (intro bit_eqI) simp
qed

lemma copy_block_holds:
  assumes "holds m s bs" and "length bs \<le> 2 ^ 64"
  shows "holds (copy_block d s (length bs) m) d bs"
  using assms in_block_offset [of _ "length bs" d] by (simp add: holds_def copy_block_def)

text \<open>The targets of the modules still to be copied are apart from each other and from the payload.\<close>

fun targets_apart :: "ptr list \<Rightarrow> u8 list list \<Rightarrow> ptr \<Rightarrow> nat \<Rightarrow> bool" where
  "targets_apart (t # ts) (b # bs) p n \<longleftrightarrow>
     blocks_apart t (length b) p n \<and> list_all2 (\<lambda>t' b'. blocks_apart t (length b) t' (length b')) ts bs \<and> targets_apart ts bs p n"
| "targets_apart _ _ p n \<longleftrightarrow> True"

definition placed :: "bytes \<Rightarrow> ptr list \<Rightarrow> u8 list list \<Rightarrow> bool" where
  "placed m ts bs \<longleftrightarrow> list_all2 (holds m) ts bs"

lemma in_block_shift:
  assumes "k + n \<le> 2 ^ 64" and "in_block a (p + of_nat k) n"
  shows "in_block a p (k + n)"
proof -
  have "k < 2 ^ 64" using assms by (cases n) (auto simp: in_block_def)
  have "a - p = (a - (p + of_nat k)) + of_nat k" by simp
  then have "unat (a - p) = unat (a - (p + of_nat k)) + k"
    using assms unat_of_nat_64 [OF \<open>k < 2 ^ 64\<close>] unat_add_lt [of "a - (p + of_nat k)" "of_nat k"]
    by (simp add: in_block_def)
  then show ?thesis using assms(2) by (simp add: in_block_def)
qed

lemma blocks_apart_shift: "blocks_apart t n p (k + l) \<Longrightarrow> k + l \<le> 2 ^ 64 \<Longrightarrow> blocks_apart t n (p + of_nat k) l"
  unfolding blocks_apart_def using in_block_shift by blast

lemma targets_apart_shift:
  "targets_apart ts bs p (k + l) \<Longrightarrow> k + l \<le> 2 ^ 64 \<Longrightarrow> targets_apart ts bs (p + of_nat k) l"
  by (induction ts bs p "k + l" rule: targets_apart.induct) (auto intro: blocks_apart_shift)

text \<open>One module of the payload.\<close>

lemma loadModule_correct:
  assumes "holds m p (module_bytes b)" and "length b < 2 ^ 32" and "blocks_apart t (length b) p (4 + length b)"
  shows "loadModule p t m = (p + of_nat (4 + length b), copy_block t (p + 4) (length b) m)"
    and "holds (copy_block t (p + 4) (length b) m) t b"
proof -
  have h: "holds m p (le32 (of_nat (length b)))" "holds m (p + 4) b"
    using assms(1) by (auto simp: module_bytes_def holds_append)
  have w: "(ucast (of_nat (length b) :: u32) :: u64) = of_nat (length b)"
    using assms(2) by (simp add: unsigned_of_nat take_bit_nat_eq_self)
  then have size: "unat (ucast (of_nat (length b) :: u32) :: u64) = length b"
    using assms(2) unat_of_nat_64 [of "length b"] by simp
  have "blocks_apart t (length b) (p + of_nat 4) (length b)"
    using assms(2,3) by (intro blocks_apart_shift) auto
  then show "loadModule p t m = (p + of_nat (4 + length b), copy_block t (p + 4) (length b) m)"
    using memcpy_block [of t "ucast (of_nat (length b) :: u32)" "p + 4" m] size load32_le32 [OF h(1)] w
    by (simp add: loadModule_def readUint32_def)
  show "holds (copy_block t (p + 4) (length b) m) t b"
    using copy_block_holds [OF h(2)] assms(2) by simp
qed

lemma load_modules_from_correct:
  assumes "holds m p (concat (map module_bytes mods))" and "length ts = length mods"
    and "length (concat (map module_bytes mods)) \<le> 2 ^ 64" and "\<forall>b \<in> set mods. length b < 2 ^ 32"
    and "targets_apart ts mods p (length (concat (map module_bytes mods)))"
  shows "placed (load_modules_from p ts m) ts mods \<and>
    (\<forall>a. list_all2 (\<lambda>t b. \<not> in_block a t (length b)) ts mods \<longrightarrow> load_modules_from p ts m a = m a)"
  using assms
proof (induction mods arbitrary: p ts m)
  case Nil
  then show ?case by (simp add: placed_def)
next
  case (Cons b mods)
  then obtain t ts' where ts: "ts = t # ts'" by (cases ts) auto
  let ?rest = "concat (map module_bytes mods)"
  let ?next = "p + of_nat (4 + length b)"
  let ?m = "copy_block t (p + 4) (length b) m"
  have h: "holds m p (module_bytes b)" "holds m ?next ?rest"
    using Cons.prems(1) by (simp_all add: holds_append)
  have ap: "blocks_apart t (length b) p ((4 + length b) + length ?rest)"
      "targets_apart ts' mods p ((4 + length b) + length ?rest)"
      "list_all2 (\<lambda>t' b'. blocks_apart t (length b) t' (length b')) ts' mods"
    using Cons.prems(5) by (simp_all add: ts ac_simps)
  have tot: "(4 + length b) + length ?rest \<le> 2 ^ 64" using Cons.prems(3) by simp
  have b: "length b < 2 ^ 32" using Cons.prems(4) by simp
  have "blocks_apart t (length b) p (4 + length b)" by (rule blocks_apart_mono [OF ap(1)]) auto
  note load = loadModule_correct [OF h(1) b this]
  have off: "?m a = m a" if "\<not> in_block a t (length b)" for a
    using that by (simp add: copy_block_def)
  have "holds ?m ?next ?rest"
    by (rule holds_cong [OF h(2)]) (use tot off blocks_apart_shift [OF ap(1) tot] in \<open>auto simp: blocks_apart_def\<close>)
  then have IH: "placed (load_modules_from ?next ts' ?m) ts' mods"
      "\<And>a. list_all2 (\<lambda>t b. \<not> in_block a t (length b)) ts' mods \<Longrightarrow> load_modules_from ?next ts' ?m a = ?m a"
    using Cons.IH [of ?m ?next ts'] Cons.prems tot targets_apart_shift [OF ap(2) tot] by (auto simp: ts)
  have keep: "list_all2 (\<lambda>t b. \<not> in_block a t (length b)) ts' mods" if "in_block a t (length b)" for a
    using ap(3) that by (auto simp: blocks_apart_def elim: list_all2_mono)
  have "holds (load_modules_from ?next ts' ?m) t b"
    by (rule holds_cong [OF load(2)]) (use b IH(2) keep in auto)
  then show ?case using IH off load(1) by (auto simp: ts placed_def)
qed

section \<open>Properties\<close>

lemma blocks_apart_ordered:
  assumes "unat p + n \<le> unat q" and "unat q + k \<le> 2 ^ 64"
  shows "blocks_apart p n q k" and "blocks_apart q k p n"
proof -
  have "\<not> in_block a q k" if "in_block a p n" for a
  proof
    assume q: "in_block a q k"
    have "unat a = unat (a - p) + unat p" "unat a = unat (a - q) + unat q"
      using that q assms unat_add_lt [of "a - p" p] unat_add_lt [of "a - q" q] by (simp_all add: in_block_def)
    then show False using that q assms by (simp add: in_block_def)
  qed
  then show "blocks_apart p n q k" and "blocks_apart q k p n" by (auto simp: blocks_apart_def)
qed

text \<open>C29: packing and loading are inverse: when the image written by the packer is in memory and the
  kernel's loader runs on the payload behind the kernel, every module ends up at its target address
  byte for byte.  The target regions do not overlap each other or the image, and sizes fit the 32-bit
  size fields.\<close>

theorem packed_modules_are_loaded:
  assumes "packer_main fs (kernel_name # names) = Some img"
    and "fs kernel_name = Some kernel_file" and "map fs names = map Some mods"
    and "holds m base img" and "length img \<le> 2 ^ 64"
    and "\<forall>b \<in> set mods. length b < 2 ^ 32" and "length mods < 2 ^ 32"
    and "length mods \<le> length targets" and "targets_apart (take (length mods) targets) mods base (length img)"
  shows "\<exists>m'. loadModules (base + of_nat (length kernel_file)) targets m = Some m' \<and>
    placed m' (take (length mods) targets) mods"
proof -
  let ?k = "length kernel_file" and ?payload = "concat (map module_bytes mods)"
  have "map (the \<circ> fs) names = mods"
    using arg_cong [OF assms(3), of "map the"] by (simp add: comp_def)
  then have img: "img = kernel_file @ le32 (of_nat (length mods)) @ ?payload"
    using assms(1,2) by (auto simp: packer_main_def buildImage_layout split: if_splits)
  then have h: "holds m (base + of_nat ?k) (le32 (of_nat (length mods)))"
      "holds m (base + of_nat (?k + 4)) ?payload"
    using assms(4) by (simp_all add: holds_append ac_simps)
  have len: "length img = (?k + 4) + length ?payload" by (simp add: img)
  have "targets_apart (take (length mods) targets) mods (base + of_nat (?k + 4)) (length ?payload)"
    using assms(5,9) unfolding len by (intro targets_apart_shift) auto
  then have "placed (load_modules_from (base + of_nat (?k + 4)) (take (length mods) targets) m)
      (take (length mods) targets) mods"
    using load_modules_from_correct [OF h(2)] assms(5,6,8) len by simp
  moreover have "unat (of_nat (length mods) :: u32) = length mods"
    using assms(7) by (simp add: unsigned_of_nat take_bit_nat_eq_self)
  moreover have "base + of_nat ?k + 4 = base + of_nat (?k + 4)" by simp
  ultimately show ?thesis using assms(8) load32_le32 [OF h(1)]
    unfolding loadModules_def readUint32_def by (simp only: Let_def prod.case if_True) blast
qed

definition sample_files :: "string \<Rightarrow> u8 list option" where
  "sample_files f =
     (if f = ''kernel'' then Some [1, 2, 3] else if f = ''code'' then Some [4, 5]
      else if f = ''data'' then Some [6] else None)"

definition sample_image :: "u8 list" where
  "sample_image = [1, 2, 3, 2, 0, 0, 0, 2, 0, 0, 0, 4, 5, 1, 0, 0, 0, 6]"

theorem packed_modules_are_loaded_witness:
  "\<exists>m'. loadModules 0x100003 [0x400000, 0x500000] (\<lambda>a. sample_image ! unat (a - 0x100000)) = Some m' \<and>
    placed m' [0x400000, 0x500000] [[4, 5], [6]]"
proof -
  have img: "packer_main sample_files [''kernel'', ''code'', ''data''] = Some sample_image"
    by (simp add: packer_main_def checkFiles_def sample_files_def buildImage_layout module_bytes_def le32_def
      sample_image_def)
  have h: "holds (\<lambda>a. sample_image ! unat (a - 0x100000)) 0x100000 sample_image"
    by (simp add: holds_def sample_image_def unat_of_nat_64 del: nth_Cons_numeral)
  have "targets_apart [0x400000, 0x500000] [[4, 5], [6]] 0x100000 (length sample_image)"
    unfolding sample_image_def by (simp; intro conjI blocks_apart_ordered) simp_all
  then show ?thesis
    using packed_modules_are_loaded [OF img _ _ h, of "[1, 2, 3]" "[[4, 5], [6]]" "[0x400000, 0x500000]"]
    by (simp add: sample_files_def) (simp add: sample_image_def)
qed

end
