(* ===== verification/Interrupt_Table.thy ===== *)
theory Interrupt_Table
  imports Kernel_Prelude
begin

text \<open>
  The interrupt descriptor table (\<open>Kernel/interrupts/idtLoader.c\<close>): a function from vector numbers to
  descriptors, as the table stands at address 0.  The addresses of the handlers, which the linker
  chooses, and the masks of the two interrupt controllers are parameters and results.
\<close>

record DESCR_INT =
  offset_l :: u16
  selector :: u16
  cero :: u8
  access :: u8
  offset_m :: u16
  offset_h :: u32
  other_cero :: u32

record handlers =
  h_irq00 :: u64
  h_irq01 :: u64
  h_irq80 :: u64
  h_exception0 :: u64
  h_exception6 :: u64

record int_state =
  idt :: "nat \<Rightarrow> DESCR_INT"
  pic_master :: u8
  pic_slave :: u8

definition ACS_PRESENT :: u8 where "ACS_PRESENT = 0x80"
definition ACS_INT_386 :: u8 where "ACS_INT_386 = 0x0E"
definition ACS_INT :: u8 where "ACS_INT = ACS_PRESENT OR ACS_INT_386"

definition setup_IDT_entry :: "nat \<Rightarrow> u64 \<Rightarrow> int_state \<Rightarrow> int_state" where
  "setup_IDT_entry index offset s =
     s\<lparr>idt := (idt s)(index :=
       \<lparr>offset_l = ucast (offset AND 0xFFFF), selector = 0x08, cero = 0, access = ACS_INT,
        offset_m = ucast (drop_bit 16 offset AND 0xFFFF), offset_h = ucast (drop_bit 32 offset AND 0xFFFFFFFF),
        other_cero = 0\<rparr>)\<rparr>"

definition picMasterMask :: "u8 \<Rightarrow> int_state \<Rightarrow> int_state" where
  "picMasterMask m s = s\<lparr>pic_master := m\<rparr>"

definition picSlaveMask :: "u8 \<Rightarrow> int_state \<Rightarrow> int_state" where
  "picSlaveMask m s = s\<lparr>pic_slave := m\<rparr>"

definition load_idt :: "handlers \<Rightarrow> int_state \<Rightarrow> int_state" where
  "load_idt h s =
     (let s1 = setup_IDT_entry 0x20 (h_irq00 h) s;
          s2 = setup_IDT_entry 0x00 (h_exception0 h) s1;
          s3 = setup_IDT_entry 0x06 (h_exception6 h) s2;
          s4 = setup_IDT_entry 0x21 (h_irq01 h) s3;
          s5 = setup_IDT_entry 0x80 (h_irq80 h) s4
      in picSlaveMask 0xFF (picMasterMask 0xFC s5))"

section \<open>What the processor reads\<close>

text \<open>The address of the handler is put together from the three offset fields; an interrupt gate (type
  \<open>0xE\<close>) clears the interrupt flag on entry, so that a handler is not interrupted; line \<open>n\<close> of a
  controller is delivered when bit \<open>n\<close> of its mask is clear.\<close>

definition gate_address :: "DESCR_INT \<Rightarrow> u64" where
  "gate_address d = ucast (offset_l d) OR push_bit 16 (ucast (offset_m d)) OR push_bit 32 (ucast (offset_h d))"

definition is_interrupt_gate :: "DESCR_INT \<Rightarrow> bool" where
  "is_interrupt_gate d \<longleftrightarrow> bit (access d) 7 \<and> access d AND 0x1F = 0x0E \<and> selector d = 8"

definition delivered :: "int_state \<Rightarrow> nat set" where
  "delivered s = {n. n < 8 \<and> \<not> bit (pic_master s) n} \<union> {8 + n | n. n < 8 \<and> \<not> bit (pic_slave s) n}"

lemma split_offset:
  "ucast (ucast (w AND 0xFFFF) :: u16) OR push_bit 16 (ucast (ucast (drop_bit 16 w AND 0xFFFF) :: u16))
     OR push_bit 32 (ucast (ucast (drop_bit 32 w AND 0xFFFFFFFF) :: u32)) = (w :: u64)"
proof -
  have m: "(0xFFFF :: u64) = mask 16" "(0xFFFFFFFF :: u64) = mask 32" by (simp_all add: mask_eq_exp_minus_1)
  show ?thesis unfolding m
    by (rule bit_eqI, case_tac "n < 16"; case_tac "n < 32") (auto simp: bit_simps)
qed

lemma gate_setup:
  "gate_address (idt (setup_IDT_entry i a s) i) = a" "is_interrupt_gate (idt (setup_IDT_entry i a s) i)"
  using split_offset [of a]
  by (simp_all add: setup_IDT_entry_def gate_address_def is_interrupt_gate_def ACS_INT_def ACS_PRESENT_def
    ACS_INT_386_def bit_numeral_rec)

lemma setup_other: "j \<noteq> i \<Longrightarrow> idt (setup_IDT_entry i a s) j = idt s j"
  by (simp add: setup_IDT_entry_def)

section \<open>Property\<close>

text \<open>After \<open>load_idt\<close> the processor finds under the five vectors exactly the addresses of the five
  handlers, each through an interrupt gate; all other vectors keep their descriptors; and the only
  lines the controllers deliver are the timer and the keyboard.\<close>

theorem load_idt_correct:
  "gate_address (idt (load_idt h s) 0x20) = h_irq00 h \<and> gate_address (idt (load_idt h s) 0x21) = h_irq01 h \<and>
   gate_address (idt (load_idt h s) 0x80) = h_irq80 h \<and> gate_address (idt (load_idt h s) 0) = h_exception0 h \<and>
   gate_address (idt (load_idt h s) 6) = h_exception6 h \<and>
   list_all (\<lambda>v. is_interrupt_gate (idt (load_idt h s) v)) [0, 6, 0x20, 0x21, 0x80] \<and>
   restrict_map (Some \<circ> idt (load_idt h s)) (- {0, 6, 0x20, 0x21, 0x80}) =
     restrict_map (Some \<circ> idt s) (- {0, 6, 0x20, 0x21, 0x80}) \<and>
   delivered (load_idt h s) = {0, 1}"
proof -
  have "delivered (load_idt h s) = {n. n < 8 \<and> \<not> bit (0xFC :: u8) n} \<union> {8 + n | n. n < 8 \<and> \<not> bit (0xFF :: u8) n}"
    by (simp add: delivered_def load_idt_def picMasterMask_def picSlaveMask_def Let_def)
  also have "\<dots> = {0, 1}"
    by (auto simp: less_Suc_eq numeral_eq_Suc bit_Suc)
  finally show ?thesis
    by (simp add: load_idt_def Let_def picMasterMask_def picSlaveMask_def gate_setup setup_other fun_eq_iff restrict_map_def)
qed

end
