(* ===== verification/User_Lib.thy ===== *)
theory User_Lib
  imports Kernel_Prelude
begin

text \<open>
  The string and formatting routines of the user library: \<open>lib/utils/lib_utils.c\<close> and the pure part of
  \<open>lib/utils/lib_io.c\<close>.  A C string is the list of the bytes before its terminator; a \<open>char\<close> buffer
  that is written to is the list of all its bytes, and writing outside of it is \<open>None\<close>.  An \<open>int\<close> is a
  32-bit word and its arithmetic wraps around (the programs are built without optimisation).  The
  variable arguments of \<open>printf\<close> and \<open>sprintf\<close> are a list of tagged values; taking one at another type
  than it was passed, taking more than were passed and reading the format past its terminator are
  \<open>None\<close>.
\<close>

section \<open>Strings\<close>

fun user_strlen :: "string \<Rightarrow> u64" where
  "user_strlen [] = 0"
| "user_strlen (c # s) = (if c \<noteq> NUL then user_strlen s + 1 else 0)"

definition store_at :: "string \<Rightarrow> nat \<Rightarrow> char \<Rightarrow> string option" where
  "store_at buf i c = (if i < length buf then Some (buf[i := c]) else None)"

text \<open>The loop of \<open>strncpy\<close> from index \<open>i\<close>, with \<open>room\<close> iterations left by its bound.\<close>

fun strncpy_from :: "nat \<Rightarrow> nat \<Rightarrow> string \<Rightarrow> string \<Rightarrow> string option" where
  "strncpy_from i room dest [] = store_at dest i NUL"
| "strncpy_from i room dest (c # src) =
     (if 0 < room \<and> c \<noteq> NUL then do {
        dest' \<leftarrow> store_at dest i c;
        strncpy_from (i + 1) (room - 1) dest' src
      } else store_at dest i NUL)"

definition user_strncpy :: "string \<Rightarrow> string \<Rightarrow> u64 \<Rightarrow> string option" where
  "user_strncpy dest src n = strncpy_from 0 (unat (n - 1)) dest src"

fun user_strcmp :: "string \<Rightarrow> string \<Rightarrow> int" where
  "user_strcmp [] [] = 0"
| "user_strcmp [] (d # s2) = 0 - of_char d"
| "user_strcmp (c # s1) [] = of_char c"
| "user_strcmp (c # s1) (d # s2) =
     (if c \<noteq> NUL \<and> c = d then user_strcmp s1 s2 else of_char c - of_char d)"

section \<open>Decimal numbers\<close>

definition is_digit :: "char \<Rightarrow> bool" where
  "is_digit c \<longleftrightarrow> 48 \<le> (of_char c :: nat) \<and> (of_char c :: nat) \<le> 57"

definition digit_char :: "nat \<Rightarrow> char" where
  "digit_char d = char_of (48 + d)"

definition digit_value :: "char \<Rightarrow> nat" where
  "digit_value c = of_char c - 48"

fun skip_while :: "(char \<Rightarrow> bool) \<Rightarrow> string \<Rightarrow> string" where
  "skip_while p [] = []"
| "skip_while p (c # s) = (if p c then skip_while p s else c # s)"

fun atoi_digits :: "string \<Rightarrow> cint \<Rightarrow> cint" where
  "atoi_digits [] res = res"
| "atoi_digits (c # s) res =
     (if is_digit c then atoi_digits s (res * 10 + of_nat (digit_value c)) else res)"

definition atoi :: "string \<Rightarrow> cint" where
  "atoi str =
     (let s = skip_while (\<lambda>c. c = CHR '' '' \<or> c = CHR 0x09 \<or> c = CHR 0x0A) str
      in case s of
           [] \<Rightarrow> 0
         | c # s' \<Rightarrow> if c = CHR ''-'' then - 1 * atoi_digits s' 0
                     else if c = CHR ''+'' then 1 * atoi_digits s' 0
                     else 1 * atoi_digits s 0)"

text \<open>The digit loops \<open>while (n > 0) { buf[i++] = n % 10 + '0'; n /= 10; }\<close>: the contents of \<open>buf\<close>,
  the least significant digit first.\<close>

fun digits_rev :: "nat \<Rightarrow> string" where
  "digits_rev n = (if 0 < n then digit_char (n mod 10) # digits_rev (n div 10) else [])"

declare digits_rev.simps [simp del]

text \<open>The loop fills the local buffer of the caller, which has \<open>cap\<close> bytes.\<close>

definition digit_buffer :: "nat \<Rightarrow> nat \<Rightarrow> string option" where
  "digit_buffer cap n = (if length (digits_rev n) \<le> cap then Some (rev (digits_rev n)) else None)"

text \<open>The sixteen hexadecimal digits of a 64-bit value, filled from the last to the first.\<close>

definition hex_char :: "nat \<Rightarrow> char" where
  "hex_char d = (if d < 10 then char_of (48 + d) else char_of (65 + d - 10))"

fun user_hex_digits :: "nat \<Rightarrow> u64 \<Rightarrow> string" where
  "user_hex_digits 0 v = []"
| "user_hex_digits (Suc j) v = user_hex_digits j (drop_bit 4 v) @ [hex_char (unat (v AND 0xF))]"

fun strip_zeros :: "string \<Rightarrow> string" where
  "strip_zeros (c # d # s) = (if c = CHR ''0'' then strip_zeros (d # s) else c # d # s)"
| "strip_zeros s = s"

section \<open>printf\<close>

datatype parg = PStr string | PNull | PInt cint | PLong u64

text \<open>The conversions: the characters put on the screen.\<close>

definition print_int :: "cint \<Rightarrow> string option" where
  "print_int n =
     (if n = 0 then Some ''0''
      else if sint n < 0 then map_option (\<lambda>s. CHR ''-'' # s) (digit_buffer 12 (nat (sint (- n))))
      else digit_buffer 12 (nat (sint n)))"

definition print_llx :: "u64 \<Rightarrow> string" where
  "print_llx v = strip_zeros (user_hex_digits 16 v)"

definition print_llu :: "u64 \<Rightarrow> string option" where
  "print_llu v = (if v = 0 then Some ''0'' else digit_buffer 21 (unat v))"

definition print_lld :: "u64 \<Rightarrow> string option" where
  "print_lld v =
     (if v = 0 then Some ''0''
      else if sint v < 0
      then (let uval = (if v = 0x8000000000000000 then 9223372036854775808 else - v)
            in map_option (\<lambda>s. CHR ''-'' # s) (digit_buffer 21 (unat uval)))
      else digit_buffer 21 (unat v))"

text \<open>The bytes of the argument of \<open>%s\<close> up to its terminator.\<close>

definition c_string :: "string \<Rightarrow> string" where
  "c_string s = takeWhile (\<lambda>c. c \<noteq> NUL) s"

text \<open>The characters written by \<open>printf\<close> and the number it returns.  The conversions are \<open>%s\<close>, \<open>%d\<close>,
  \<open>%c\<close>, \<open>%llx\<close>, \<open>%lld\<close> and \<open>%llu\<close>; every other one is printed as it stands.\<close>

definition emit :: "string \<Rightarrow> (string \<times> cint) option \<Rightarrow> (string \<times> cint) option" where
  "emit out r = map_option (\<lambda>(s, count). (out @ s, of_nat (length out) + count)) r"

fun printf_out :: "string \<Rightarrow> parg list \<Rightarrow> (string \<times> cint) option" where
  "printf_out [] args = Some ([], 0)"
| "printf_out (c # fmt) args =
     (if c \<noteq> CHR ''%'' then emit [c] (printf_out fmt args)
      else case fmt of
        [] \<Rightarrow> None
      | d # rest \<Rightarrow>
          if d = CHR ''s'' then
            (case args of PStr s # args' \<Rightarrow> emit (c_string s) (printf_out rest args') | _ \<Rightarrow> None)
          else if d = CHR ''d'' then
            (case args of
               PInt n # args' \<Rightarrow> Option.bind (print_int n) (\<lambda>s. emit s (printf_out rest args'))
             | _ \<Rightarrow> None)
          else if d = CHR ''c'' then
            (case args of
               PInt n # args' \<Rightarrow> emit [char_of (unat (ucast n :: u8))] (printf_out rest args')
             | _ \<Rightarrow> None)
          else if d = CHR ''l'' \<and> take 2 rest = ''lx'' then
            (case args of PLong v # args' \<Rightarrow> emit (print_llx v) (printf_out (drop 2 rest) args') | _ \<Rightarrow> None)
          else if d = CHR ''l'' \<and> take 2 rest = ''ld'' then
            (case args of
               PLong v # args' \<Rightarrow> Option.bind (print_lld v) (\<lambda>s. emit s (printf_out (drop 2 rest) args'))
             | _ \<Rightarrow> None)
          else if d = CHR ''l'' \<and> take 2 rest = ''lu'' then
            (case args of
               PLong v # args' \<Rightarrow> Option.bind (print_llu v) (\<lambda>s. emit s (printf_out (drop 2 rest) args'))
             | _ \<Rightarrow> None)
          else emit [CHR ''%'', d] (printf_out rest args))"

text \<open>\<open>printHex64\<close> goes through \<open>printf("0x%s", hex)\<close>.\<close>

definition printHex64_out :: "u64 \<Rightarrow> (string \<times> cint) option" where
  "printHex64_out value = printf_out ''0x%s'' [PStr (user_hex_digits 16 value)]"

section \<open>sprintf\<close>

definition append_unsigned_to_str :: "u64 \<Rightarrow> string option" where
  "append_unsigned_to_str value = (if value = 0 then Some ''0'' else digit_buffer 21 (unat value))"

definition append_signed_to_str :: "u64 \<Rightarrow> string option" where
  "append_signed_to_str value =
     (if sint value < 0
      then map_option (\<lambda>s. CHR ''-'' # s) (append_unsigned_to_str (- (value + 1) + 1))
      else append_unsigned_to_str value)"

text \<open>The \<open>long\<close> modifiers are counted and skipped; an \<open>int\<close> argument is widened with its sign, an
  \<open>unsigned int\<close> with zeros.\<close>

fun count_l :: "string \<Rightarrow> nat \<times> string" where
  "count_l [] = (0, [])"
| "count_l (c # s) = (if c = CHR ''l'' then (let (n, r) = count_l s in (n + 1, r)) else (0, c # s))"

lemma count_l_length: "length (snd (count_l s)) \<le> length s"
  by (induction s) (auto split: prod.splits)

lemma count_l_shorter: "count_l s = (n, c # r) \<Longrightarrow> length r < Suc (length s)"
  using count_l_length [of s] by simp

definition take_long :: "nat \<Rightarrow> (cint \<Rightarrow> u64) \<Rightarrow> parg list \<Rightarrow> (u64 \<times> parg list) option" where
  "take_long long_modifiers widen args =
     (case args of
        PLong v # args' \<Rightarrow> if 1 \<le> long_modifiers then Some (v, args') else None
      | PInt n # args' \<Rightarrow> if long_modifiers = 0 then Some (widen n, args') else None
      | _ \<Rightarrow> None)"

function sprintf_out :: "string \<Rightarrow> parg list \<Rightarrow> (string \<times> cint) option" where
  "sprintf_out [] args = Some ([], 0)"
| "sprintf_out (c # fmt) args =
     (if c \<noteq> CHR ''%'' then emit [c] (sprintf_out fmt args)
      else if fmt = [] then Some ([], 0)
      else if hd fmt = CHR ''%'' then emit ''%'' (sprintf_out (tl fmt) args)
      else let (long_modifiers, fmt') = count_l fmt
        in case fmt' of
             [] \<Rightarrow> None
           | spec # rest \<Rightarrow>
               if spec = CHR ''s'' then
                 (case args of
                    PStr s # args' \<Rightarrow> emit (c_string s) (sprintf_out rest args')
                  | PNull # args' \<Rightarrow> sprintf_out rest args'
                  | _ \<Rightarrow> None)
               else if spec = CHR ''c'' then
                 (case args of
                    PInt n # args' \<Rightarrow> emit [char_of (unat (ucast n :: u8))] (sprintf_out rest args')
                  | _ \<Rightarrow> None)
               else if spec = CHR ''d'' then
                 (case take_long long_modifiers scast args of
                    Some (v, args') \<Rightarrow>
                      Option.bind (append_signed_to_str v) (\<lambda>s. emit s (sprintf_out rest args'))
                  | None \<Rightarrow> None)
               else if spec = CHR ''u'' then
                 (case take_long long_modifiers ucast args of
                    Some (v, args') \<Rightarrow>
                      Option.bind (append_unsigned_to_str v) (\<lambda>s. emit s (sprintf_out rest args'))
                  | None \<Rightarrow> None)
               else emit [CHR ''%'', spec] (sprintf_out rest args))"
  by pat_completeness auto
termination
  by (relation "measure (length \<circ> fst)") (auto simp: neq_Nil_conv intro: count_l_shorter dest: sym)

text \<open>\<open>sprintf\<close> stores the characters and a terminator in its buffer.\<close>

fun store_string :: "string \<Rightarrow> nat \<Rightarrow> string \<Rightarrow> string option" where
  "store_string buf i [] = Some buf"
| "store_string buf i (c # s) = do { buf' \<leftarrow> store_at buf i c; store_string buf' (i + 1) s }"

definition sprintf :: "string \<Rightarrow> string \<Rightarrow> parg list \<Rightarrow> (cint \<times> string) option" where
  "sprintf str fmt args = do {
     (out, count) \<leftarrow> sprintf_out fmt args;
     str' \<leftarrow> store_string str 0 (out @ [NUL]);
     Some (count, str')
   }"

section \<open>scanf\<close>

text \<open>What is stored through the successive pointer arguments; \<open>None\<close> for an argument that is taken and
  left alone.  The input is the line read, up to its terminator.\<close>

datatype sval = SStr string | SInt cint | SChar char

definition is_blank :: "char \<Rightarrow> bool" where
  "is_blank c \<longleftrightarrow> c = CHR '' '' \<or> c = CHR 0x09"

definition at_end :: "string \<Rightarrow> bool" where
  "at_end input \<longleftrightarrow> input = [] \<or> hd input = CHR 0x0A"

definition scan_s :: "string \<Rightarrow> sval option \<times> string" where
  "scan_s input =
     (let w = takeWhile (\<lambda>c. c \<noteq> CHR 0x0A) input
      in (if 0 < length w then Some (SStr w) else None, drop (length w) input))"

definition scan_d :: "string \<Rightarrow> sval option \<times> string" where
  "scan_d input =
     (let start = skip_while is_blank input;
          signed = (start \<noteq> [] \<and> (hd start = CHR ''-'' \<or> hd start = CHR ''+''));
          body = (if signed then tl start else start)
      in if body = [] \<or> \<not> is_digit (hd body) then (None, body)
         else let w = (if signed then [hd start] else []) @ takeWhile is_digit body;
                  temp = (if 32 \<le> length w then take 31 w else w)
              in (Some (SInt (atoi temp)), skip_while is_blank (dropWhile is_digit body)))"

text \<open>The loop over the format.\<close>

function scanf_loop :: "string \<Rightarrow> string \<Rightarrow> sval option list option" where
  "scanf_loop [] input = Some []"
| "scanf_loop (c # fmt) input =
     (if is_blank c \<or> c = CHR 0x0A then scanf_loop fmt (skip_while is_blank input)
      else if at_end input then Some []
      else if c = CHR ''%'' then
        (if take 5 fmt = [CHR ''['', CHR ''^'', CHR 0x5C, CHR ''n'', CHR '']''] then
           (let (v, input') = scan_s input in map_option ((#) v) (scanf_loop (drop 5 fmt) input'))
         else case fmt of
             [] \<Rightarrow> None
           | d # rest \<Rightarrow>
               let (vs, input') =
                 (if d = CHR ''s'' then (let (v, i) = scan_s input in ([v], i))
                  else if d = CHR ''d'' then (let (v, i) = scan_d input in ([v], i))
                  else if d = CHR ''c'' then ([Some (SChar (hd input))], tl input)
                  else ([], input))
               in if at_end input' then Some vs else map_option ((@) vs) (scanf_loop rest input'))
      else if hd input = c then
        (if at_end (tl input) then Some [] else scanf_loop fmt (tl input))
      else Some [])"
  by pat_completeness auto
termination
  by (relation "measure (length \<circ> fst)") auto

text \<open>The line was read into \<open>input\<close>; the result is the count of the stores, and the stores.\<close>

definition scanf_line :: "string \<Rightarrow> string \<Rightarrow> (cint \<times> sval option list) option" where
  "scanf_line fmt input =
     map_option (\<lambda>vs. (of_nat (length (filter (\<lambda>v. v \<noteq> None) vs)), vs)) (scanf_loop fmt (c_string input))"

end
