(* ===== verification/User_Env.thy ===== *)
theory User_Env
  imports User_Lib MM_Simple
begin

text \<open>
  The user programs run against the kernel: a program is a function on an environment that holds the
  answers the kernel will give to its system calls, in order (\<open>script\<close>), the calls made so far
  (\<open>trace\<close>) and the memory of the program: the objects on the heap and the global variables.  A call
  is appended to the trace and takes the next answer; a call with no answer left never returns, and
  the result of the program is then \<open>None\<close>: it is waiting in the call the trace ends with.  A theorem
  for every script is a theorem for every behaviour of the kernel and of the other processes, as far
  as they show in the answers.  (Memory that other processes change between two calls is not seen.)

  Strings handed to the kernel are passed by their contents, buffers it fills are part of the answer.
\<close>

section \<open>System calls\<close>

text \<open>The functions of the user image a process can be started at.  The image is linked at \<open>0x400000\<close>,
  so their addresses are above \<open>0x10000\<close>.\<close>

datatype entry =
    zero_to_max_fn | endless_loop_fn | endless_loop_print_fn | my_process_inc_fn
  | cat_fn | wc_fn | filter_fn | ps_fn | loop_fn | mem_fn | mmtype_fn
  | test_mm_fn | test_processes_fn | test_sync_fn | test_no_synchro_fn | test_prio_fn
  | mvar_writer_fn | mvar_reader_fn

datatype ufun = Addr u64 | Entry entry

definition low_address :: "ufun \<Rightarrow> bool" where
  "low_address f = (case f of Addr a \<Rightarrow> a < 0x10000 | Entry _ \<Rightarrow> False)"

record process_info_t =
  i_pid :: u64
  i_name :: string
  i_state :: cint
  i_priority :: cint
  i_rsp :: u64
  i_rbp :: u64
  i_foreground :: cint

datatype ucall =
    Sys_read u64 cint
  | Sys_write u64 string
  | Sys_clearScreen
  | Sys_sleep cint
  | Sys_video_putChar char u32 u32
  | Sys_shutdown
  | Sys_screenDims
  | Sys_malloc u64
  | Sys_free ptr
  | Sys_meminfo
  | Sys_create_process string ufun ptr u64 u64
  | Sys_kill u64
  | Sys_block u64
  | Sys_unblock u64
  | Sys_get_type_of_mm cint
  | Sys_getpid
  | Sys_set_priority u64 u64
  | Sys_wait u64
  | Sys_sem_create cint
  | Sys_sem_open u64
  | Sys_sem_close u64
  | Sys_sem_wait u64
  | Sys_sem_signal u64
  | Sys_sem_set u64 cint
  | Sys_sem_get u64
  | Sys_list_processes u64
  | Sys_yield
  | Sys_pipe_create
  | Sys_pipe_open u64
  | Sys_pipe_close u64
  | Sys_pipe_dup u64 u64 u64
  | Sys_pipe_release_fd u64
  | Sys_get_foreground_pid

text \<open>An answer: the value in \<open>rax\<close> and what the kernel wrote through the pointers of the call.\<close>

record answer =
  a_ret :: u64
  a_bytes :: string
  a_procs :: "process_info_t list"
  a_mem :: mm_stats
  a_dims :: "u64 \<times> u64"

section \<open>Programs\<close>

text \<open>A heap object is a string or a vector of pointers (to strings on the heap, with a null pointer
  at the end); \<open>Args\<close> is a vector of strings that are not on the heap.  The stress test of the
  allocator works on bytes, \<open>ubytes\<close>.  \<open>junk\<close> is what an unwritten byte of the stack holds.\<close>

datatype obj = Str string | Vec "ptr list" | Args "string list"

record uenv =
  script :: "answer list"
  trace :: "ucall list"
  junk :: char
  heap :: "ptr \<Rightarrow> obj option"
  ubytes :: "ptr \<Rightarrow> u8"
  user_sem_names :: "ptr list"
  user_sem_ids :: "u64 list"
  g_last_spawned_pid :: u64
  g_run_in_background :: bool
  shellUser :: string
  m_z :: u32
  m_w :: u32
  max_value :: u64
  global :: u64

text \<open>The user image as it is loaded: the initial values of the global variables.\<close>

definition fresh_user :: "answer list \<Rightarrow> uenv" where
  "fresh_user s =
     \<lparr>script = s, trace = [], junk = NUL, heap = (\<lambda>_. None), ubytes = (\<lambda>_. 0),
      user_sem_names = replicate 8 NULL, user_sem_ids = replicate 8 0, g_last_spawned_pid = - 1,
      g_run_in_background = False, shellUser = ''usuario'' @ replicate 4 NUL, m_z = 362436069, m_w = 521288629,
      max_value = 0, global = 0\<rparr>"

text \<open>An answer that is only a number, and one that delivers bytes.\<close>

definition num :: "u64 \<Rightarrow> answer" where
  "num n =
     \<lparr>a_ret = n, a_bytes = [], a_procs = [],
      a_mem = \<lparr>total_bytes = 0, used_bytes = 0, free_bytes = 0, largest_free_block = 0, allocations = 0, frees = 0,
        failed_allocations = 0\<rparr>, a_dims = (0, 0)\<rparr>"

definition got :: "string \<Rightarrow> answer" where
  "got s = (num (of_nat (length s)))\<lparr>a_bytes := s\<rparr>"

type_synonym 'a io = "uenv \<Rightarrow> 'a option \<times> uenv"

definition ret_io :: "'a \<Rightarrow> 'a io" where
  "ret_io a e = (Some a, e)"

definition bind_io :: "'a io \<Rightarrow> ('a \<Rightarrow> 'b io) \<Rightarrow> 'b io" where
  "bind_io m f e = (case m e of (None, e') \<Rightarrow> (None, e') | (Some a, e') \<Rightarrow> f a e')"

definition then_io :: "'a io \<Rightarrow> 'b io \<Rightarrow> 'b io" where
  "then_io m n = bind_io m (\<lambda>_. n)"

definition get_io :: "(uenv \<Rightarrow> 'a) \<Rightarrow> 'a io" where
  "get_io f e = (Some (f e), e)"

definition modify_io :: "(uenv \<Rightarrow> uenv) \<Rightarrow> unit io" where
  "modify_io f e = (Some (), f e)"

text \<open>Undefined behaviour of the C program: it does not go on.\<close>

definition stuck_io :: "'a io" where
  "stuck_io e = (None, e)"

definition when_io :: "bool \<Rightarrow> unit io \<Rightarrow> unit io" where
  "when_io b m = (if b then m else ret_io ())"

fun for_io :: "('a \<Rightarrow> unit io) \<Rightarrow> 'a list \<Rightarrow> unit io" where
  "for_io f [] = ret_io ()"
| "for_io f (x # xs) = then_io (f x) (for_io f xs)"

text \<open>A loop over a list with a state, left early with \<open>Inr\<close>.\<close>

fun fold_io :: "('a \<Rightarrow> 's \<Rightarrow> ('s + 'r) io) \<Rightarrow> 'a list \<Rightarrow> 's \<Rightarrow> ('s + 'r) io" where
  "fold_io f [] st = ret_io (Inl st)"
| "fold_io f (x # xs) st =
     bind_io (f x st) (\<lambda>r. case r of Inl st' \<Rightarrow> fold_io f xs st' | Inr v \<Rightarrow> ret_io (Inr v))"

definition syscall :: "ucall \<Rightarrow> answer io" where
  "syscall c e =
     (case script e of
        [] \<Rightarrow> (None, e\<lparr>trace := trace e @ [c]\<rparr>)
      | a # as \<Rightarrow> (Some a, e\<lparr>script := as, trace := trace e @ [c]\<rparr>))"

definition call :: "ucall \<Rightarrow> u64 io" where
  "call c = bind_io (syscall c) (\<lambda>a. ret_io (a_ret a))"

text \<open>A loop whose iterations make system calls: the body ends with \<open>Inl\<close> the next loop state or
  \<open>Inr\<close> the result.  Every iteration that goes on takes an answer, so a script of length \<open>n\<close> is used
  up within \<open>n + 1\<close> iterations, and that many are run.\<close>

fun loop_io :: "nat \<Rightarrow> ('s \<Rightarrow> ('s + 'r) io) \<Rightarrow> 's \<Rightarrow> 'r io" where
  "loop_io 0 body st = stuck_io"
| "loop_io (Suc n) body st =
     bind_io (body st) (\<lambda>r. case r of Inl st' \<Rightarrow> loop_io n body st' | Inr v \<Rightarrow> ret_io v)"

definition while_io :: "('s \<Rightarrow> ('s + 'r) io) \<Rightarrow> 's \<Rightarrow> 'r io" where
  "while_io body st e = loop_io (Suc (length (script e))) body st e"

locale calling_loop =
  fixes body :: "'s \<Rightarrow> ('s + 'r) io"
  assumes calls: "body st e = (Some (Inl st'), e') \<Longrightarrow> length (script e') < length (script e)"
begin

lemma loop_fuel:
  "length (script e) < n \<Longrightarrow> length (script e) < m \<Longrightarrow> loop_io n body st e = loop_io m body st e"
proof (induction n arbitrary: m st e)
  case 0
  then show ?case by simp
next
  case (Suc n)
  then obtain m' where m: "m = Suc m'" by (cases m) auto
  have step: "loop_io n body st' e' = loop_io m' body st' e'" if "body st e = (Some (Inl st'), e')" for st' e'
    using Suc.IH [of e' m'] calls [OF that] Suc.prems m by simp
  show ?case unfolding m by (auto simp: bind_io_def step split: option.splits sum.splits prod.splits)
qed

text \<open>The bound on the iterations is never what ends the loop.\<close>

lemma while_unfold:
  "while_io body st e =
     bind_io (body st) (\<lambda>r. case r of Inl st' \<Rightarrow> while_io body st' | Inr v \<Rightarrow> ret_io v) e"
proof -
  have step: "loop_io (length (script e)) body st' e' = loop_io (Suc (length (script e'))) body st' e'"
    if "body st e = (Some (Inl st'), e')" for st' e'
    using loop_fuel [of e' "length (script e)" "Suc (length (script e'))" st'] calls [OF that] by simp
  then show ?thesis
    by (simp add: while_io_def bind_io_def split: option.splits sum.splits prod.splits)
qed

end

section \<open>Which calls a program makes\<close>

text \<open>\<open>only P m\<close>: whatever the kernel answers, \<open>m\<close> makes only calls that satisfy \<open>P\<close>.\<close>

definition only :: "(ucall \<Rightarrow> bool) \<Rightarrow> 'a io \<Rightarrow> bool" where
  "only P m \<longleftrightarrow> (\<forall>e. \<exists>cs. trace (snd (m e)) = trace e @ cs \<and> list_all P cs)"

named_theorems only_rules \<open>the calls of a composed program are those of its parts\<close>

lemma onlyI: "(\<And>e. \<exists>cs. trace (snd (m e)) = trace e @ cs \<and> list_all P cs) \<Longrightarrow> only P m"
  by (simp add: only_def)

lemma onlyD: "only P m \<Longrightarrow> \<exists>cs. trace (snd (m e)) = trace e @ cs \<and> list_all P cs"
  by (simp add: only_def)

lemma only_pure:
  assumes "\<And>e. trace (snd (m e)) = trace e"
  shows "only P m"
  using assms by (intro onlyI) simp

lemma only_ret [only_rules]: "only P (ret_io a)"
  by (rule only_pure) (simp add: ret_io_def)

lemma only_get [only_rules]: "only P (get_io f)"
  by (rule only_pure) (simp add: get_io_def)

lemma only_stuck [only_rules]: "only P stuck_io"
  by (rule only_pure) (simp add: stuck_io_def)

lemma only_modify [only_rules]: "(\<And>e. trace (f e) = trace e) \<Longrightarrow> only P (modify_io f)"
  by (rule only_pure) (simp add: modify_io_def)

lemma only_bind [only_rules]:
  assumes "only P m" and "\<And>a. only P (f a)"
  shows "only P (bind_io m f)"
proof (rule onlyI)
  fix e
  obtain cs where cs: "trace (snd (m e)) = trace e @ cs" "list_all P cs"
    using onlyD [OF assms(1)] by blast
  show "\<exists>cs. trace (snd (bind_io m f e)) = trace e @ cs \<and> list_all P cs"
  proof (cases "fst (m e)")
    case None
    then show ?thesis using cs by (auto simp: bind_io_def split: prod.splits)
  next
    case (Some a)
    obtain ds where "trace (snd (f a (snd (m e)))) = trace (snd (m e)) @ ds" "list_all P ds"
      using onlyD [OF assms(2)] by blast
    then show ?thesis using cs Some
      by (intro exI [of _ "cs @ ds"]) (auto simp: bind_io_def split: prod.splits)
  qed
qed

lemma only_then [only_rules]: "only P m \<Longrightarrow> only P n \<Longrightarrow> only P (then_io m n)"
  unfolding then_io_def by (rule only_bind)

lemma only_syscall [only_rules]: "P c \<Longrightarrow> only P (syscall c)"
  by (rule onlyI) (auto simp: syscall_def split: list.splits)

lemma only_call [only_rules]: "P c \<Longrightarrow> only P (call c)"
  unfolding call_def by (intro only_rules)

lemma only_if [only_rules]: "(b \<Longrightarrow> only P m) \<Longrightarrow> (\<not> b \<Longrightarrow> only P n) \<Longrightarrow> only P (if b then m else n)"
  by simp

lemma only_when [only_rules]: "(b \<Longrightarrow> only P m) \<Longrightarrow> only P (when_io b m)"
  unfolding when_io_def by (intro only_rules)

lemma only_option [only_rules]:
  "(x = None \<Longrightarrow> only P m) \<Longrightarrow> (\<And>a. x = Some a \<Longrightarrow> only P (f a)) \<Longrightarrow>
   only P (case x of None \<Rightarrow> m | Some a \<Rightarrow> f a)"
  by (cases x) auto

lemma only_prod [only_rules]: "(\<And>a b. x = (a, b) \<Longrightarrow> only P (f a b)) \<Longrightarrow> only P (case x of (a, b) \<Rightarrow> f a b)"
  by (cases x) auto

lemma only_Let [only_rules]: "(\<And>x. x = v \<Longrightarrow> only P (f x)) \<Longrightarrow> only P (Let v f)"
  by simp

lemma only_for [only_rules]: "(\<And>x. x \<in> set xs \<Longrightarrow> only P (f x)) \<Longrightarrow> only P (for_io f xs)"
  by (induction xs) (auto intro!: only_rules)

lemma only_sum [only_rules]:
  "(\<And>a. x = Inl a \<Longrightarrow> only P (f a)) \<Longrightarrow> (\<And>b. x = Inr b \<Longrightarrow> only P (g b)) \<Longrightarrow>
   only P (case x of Inl a \<Rightarrow> f a | Inr b \<Rightarrow> g b)"
  by (cases x) auto

lemma only_fold [only_rules]: "(\<And>x st. x \<in> set xs \<Longrightarrow> only P (f x st)) \<Longrightarrow> only P (fold_io f xs st)"
proof (induction xs arbitrary: st)
  case Nil
  then show ?case by (simp add: only_ret)
next
  case (Cons x xs)
  then show ?case by (auto intro!: only_rules)
qed

lemma only_loop: "(\<And>st. only P (body st)) \<Longrightarrow> only P (loop_io n body st)"
  by (induction n arbitrary: st) (auto intro!: only_rules)

lemma only_while [only_rules]: "(\<And>st. only P (body st)) \<Longrightarrow> only P (while_io body st)"
  unfolding while_io_def by (rule onlyI) (rule onlyD, rule only_loop)

lemma only_mono: "only P m \<Longrightarrow> (\<And>c. P c \<Longrightarrow> Q c) \<Longrightarrow> only Q m"
  unfolding only_def by (metis list_all_iff)

section \<open>Runs that return\<close>

lemma ret_io_Some [simp]: "ret_io a e = (Some r, e') \<longleftrightarrow> r = a \<and> e' = e"
  by (auto simp: ret_io_def)

lemma get_io_Some [simp]: "get_io f e = (Some r, e') \<longleftrightarrow> r = f e \<and> e' = e"
  by (auto simp: get_io_def)

lemma stuck_io_Some [simp]: "stuck_io e \<noteq> (Some r, e')"
  by (simp add: stuck_io_def)

lemma bind_io_Some: "bind_io m f e = (Some r, e') \<longleftrightarrow> (\<exists>a e1. m e = (Some a, e1) \<and> f a e1 = (Some r, e'))"
  by (auto simp: bind_io_def split: prod.splits option.splits)

lemma then_io_Some: "then_io m n e = (Some r, e') \<longleftrightarrow> (\<exists>a e1. m e = (Some a, e1) \<and> n e1 = (Some r, e'))"
  by (simp add: then_io_def bind_io_Some)

text \<open>\<open>gives Q m\<close>: when \<open>m\<close> returns, the value satisfies \<open>Q\<close>.\<close>

definition gives :: "('a \<Rightarrow> bool) \<Rightarrow> 'a io \<Rightarrow> bool" where
  "gives Q m \<longleftrightarrow> (\<forall>e r e'. m e = (Some r, e') \<longrightarrow> Q r)"

named_theorems gives_rules \<open>the value of a composed program is that of its last part\<close>

lemma givesI: "(\<And>e r e'. m e = (Some r, e') \<Longrightarrow> Q r) \<Longrightarrow> gives Q m"
  by (auto simp: gives_def)

lemma givesD: "gives Q m \<Longrightarrow> m e = (Some r, e') \<Longrightarrow> Q r"
  by (auto simp: gives_def)

lemma gives_ret [gives_rules]: "Q a \<Longrightarrow> gives Q (ret_io a)"
  by (simp add: gives_def)

lemma gives_stuck [gives_rules]: "gives Q stuck_io"
  by (simp add: gives_def)

lemma gives_bind: "gives R m \<Longrightarrow> (\<And>a. R a \<Longrightarrow> gives Q (f a)) \<Longrightarrow> gives Q (bind_io m f)"
  by (rule givesI) (auto simp: bind_io_Some dest: givesD)

lemma gives_last [gives_rules]: "(\<And>a. gives Q (f a)) \<Longrightarrow> gives Q (bind_io m f)"
  by (rule gives_bind [of "\<lambda>_. True"]) (auto simp: gives_def)

lemma gives_then [gives_rules]: "gives Q n \<Longrightarrow> gives Q (then_io m n)"
  unfolding then_io_def by (intro gives_rules)

lemma gives_if [gives_rules]: "(b \<Longrightarrow> gives Q m) \<Longrightarrow> (\<not> b \<Longrightarrow> gives Q n) \<Longrightarrow> gives Q (if b then m else n)"
  by simp

lemma gives_option [gives_rules]:
  "(x = None \<Longrightarrow> gives Q m) \<Longrightarrow> (\<And>a. x = Some a \<Longrightarrow> gives Q (f a)) \<Longrightarrow>
   gives Q (case x of None \<Rightarrow> m | Some a \<Rightarrow> f a)"
  by (cases x) auto

lemma gives_bool [gives_rules]:
  "(b \<Longrightarrow> gives Q m) \<Longrightarrow> (\<not> b \<Longrightarrow> gives Q n) \<Longrightarrow> gives Q (case b of True \<Rightarrow> m | False \<Rightarrow> n)"
  by (cases b) auto

lemma gives_prod [gives_rules]: "(\<And>a b. x = (a, b) \<Longrightarrow> gives Q (f a b)) \<Longrightarrow> gives Q (case x of (a, b) \<Rightarrow> f a b)"
  by (cases x) auto

lemma gives_Let [gives_rules]: "(\<And>x. x = v \<Longrightarrow> gives Q (f x)) \<Longrightarrow> gives Q (Let v f)"
  by simp

text \<open>An invariant of the loop state gives a property of the result of the loop.\<close>

lemma gives_loop:
  assumes "\<And>st. I st \<Longrightarrow> gives (\<lambda>r. case r of Inl st' \<Rightarrow> I st' | Inr v \<Rightarrow> Q v) (body st)" and "I st"
  shows "gives Q (loop_io n body st)"
  using assms(2)
proof (induction n arbitrary: st)
  case 0
  then show ?case by (simp add: gives_stuck)
next
  case (Suc n)
  show ?case unfolding loop_io.simps
    by (rule gives_bind [OF assms(1) [OF Suc.prems]]) (auto intro: Suc.IH gives_ret split: sum.splits)
qed

lemma gives_while:
  assumes "\<And>st. I st \<Longrightarrow> gives (\<lambda>r. case r of Inl st' \<Rightarrow> I st' | Inr v \<Rightarrow> Q v) (body st)" and "I st"
  shows "gives Q (while_io body st)"
proof (rule givesI)
  fix e r e'
  assume "while_io body st e = (Some r, e')"
  moreover have "gives Q (loop_io (Suc (length (script e))) body st)"
    by (rule gives_loop [of I]) (auto intro: assms)
  ultimately show "Q r" unfolding while_io_def by (rule givesD [rotated])
qed

end
