(* ===== verification/User_Proc.thy ===== *)
theory User_Proc
  imports User_Env
begin

text \<open>
  The part of the user library that makes system calls: characters and lines (\<open>lib/utils/lib_io.c\<close>),
  memory (\<open>lib/utils/lib_memory.c\<close>), the thin wrappers of \<open>lib/lib.c\<close>, processes and the table of
  named semaphores (\<open>lib/process/lib_process.c\<close>).  An \<open>int64_t\<close> is a 64-bit word read through
  \<^const>\<open>sint\<close>; a \<open>NULL\<close> string is \<open>None\<close>.
\<close>

section \<open>Characters and lines\<close>

definition putchar :: "char \<Rightarrow> unit io" where
  "putchar c = then_io (call (Sys_write 1 [c])) (ret_io ())"

text \<open>What a one-byte read leaves in the variable it reads into.\<close>

definition byte_read :: "answer \<Rightarrow> char io" where
  "byte_read a = (case a_bytes a of [] \<Rightarrow> get_io junk | c # _ \<Rightarrow> ret_io c)"

definition getchar_body :: "unit \<Rightarrow> (unit + char) io" where
  "getchar_body _ =
     bind_io (syscall (Sys_read 0 1)) (\<lambda>a.
     if (ucast (a_ret a) :: cint) = 0 then ret_io (Inl ())
     else bind_io (byte_read a) (\<lambda>c. ret_io (Inr c)))"

definition getchar :: "char io" where
  "getchar = while_io getchar_body ()"

definition read_line_body :: "cint \<Rightarrow> string \<Rightarrow> (string + string) io" where
  "read_line_body n s =
     (if int (length s) < sint n - 1 then
        bind_io (syscall (Sys_read 0 1)) (\<lambda>a.
        if sint (ucast (a_ret a) :: cint) \<le> 0 then ret_io (Inr s)
        else bind_io (byte_read a) (\<lambda>c.
          if c = CHR 0x0A then ret_io (Inr (s @ [c])) else ret_io (Inl (s @ [c]))))
      else ret_io (Inr s))"

text \<open>The line stored in the buffer, before its terminator; \<open>None\<close> when nothing is stored.  The buffer
  is not \<open>NULL\<close>.\<close>

definition read_line_internal :: "cint \<Rightarrow> string option io" where
  "read_line_internal n =
     (if sint n \<le> 0 then ret_io None
      else bind_io (while_io (read_line_body n) []) (\<lambda>s. ret_io (if s = [] then None else Some s)))"

definition fgets :: "cint \<Rightarrow> string option io" where
  "fgets n = read_line_internal n"

definition USER_BUFFER_SIZE :: cint where "USER_BUFFER_SIZE = 256"

definition scanf :: "string \<Rightarrow> (cint \<times> sval option list) io" where
  "scanf fmt =
     bind_io (read_line_internal USER_BUFFER_SIZE) (\<lambda>line.
     case line of
       None \<Rightarrow> ret_io (0, [])
     | Some input \<Rightarrow> (case scanf_line fmt input of None \<Rightarrow> stuck_io | Some r \<Rightarrow> ret_io r))"

definition print :: "(string \<times> cint) option \<Rightarrow> cint io" where
  "print r =
     (case r of
        None \<Rightarrow> stuck_io
      | Some (s, count) \<Rightarrow> then_io (for_io putchar s) (ret_io count))"

definition printf :: "string \<Rightarrow> parg list \<Rightarrow> unit io" where
  "printf fmt args = then_io (print (printf_out fmt args)) (ret_io ())"

definition printHex64 :: "u64 \<Rightarrow> unit io" where
  "printHex64 value = then_io (print (printHex64_out value)) (ret_io ())"

section \<open>Screen, time and pipes\<close>

definition clearScreen :: "unit io" where
  "clearScreen = then_io (call Sys_clearScreen) (ret_io ())"

definition sleep :: "cint \<Rightarrow> unit io" where
  "sleep ms = then_io (call (Sys_sleep ms)) (ret_io ())"

definition try_getchar :: "cint io" where
  "try_getchar = ret_io 0"

definition clear_key_buffer :: "unit io" where
  "clear_key_buffer = ret_io ()"

definition getScreenDims :: "(u64 \<times> (u64 \<times> u64)) io" where
  "getScreenDims = bind_io (syscall Sys_screenDims) (\<lambda>a. ret_io (a_ret a, a_dims a))"

definition shutdown :: "unit io" where
  "shutdown = then_io (call Sys_shutdown) (ret_io ())"

definition user_pipe_create :: "u64 io" where
  "user_pipe_create = call Sys_pipe_create"

definition user_pipe_open :: "u64 \<Rightarrow> u64 io" where
  "user_pipe_open pid = (if pid = 0 then ret_io 0 else call (Sys_pipe_open pid))"

definition user_pipe_close :: "u64 \<Rightarrow> u64 io" where
  "user_pipe_close pid = (if pid = 0 then ret_io 0 else call (Sys_pipe_close pid))"

definition user_pipe_dup :: "u64 \<Rightarrow> u64 \<Rightarrow> u64 \<Rightarrow> u64 io" where
  "user_pipe_dup pid fd mode =
     (if pid = 0 then ret_io 0
      else if mode \<noteq> 0 \<and> mode \<noteq> 1 then ret_io 0
      else call (Sys_pipe_dup pid fd mode))"

definition user_pipe_release_fd :: "u64 \<Rightarrow> u64 io" where
  "user_pipe_release_fd fd = call (Sys_pipe_release_fd fd)"

definition get_foreground_pid :: "u64 io" where
  "get_foreground_pid = call Sys_get_foreground_pid"

section \<open>Memory\<close>

definition malloc :: "u64 \<Rightarrow> ptr io" where
  "malloc sz = call (Sys_malloc sz)"

text \<open>A freed object is gone from the heap.\<close>

definition free :: "ptr \<Rightarrow> unit io" where
  "free p =
     when_io (p \<noteq> NULL) (then_io (call (Sys_free p)) (modify_io (\<lambda>e. e\<lparr>heap := (heap e)(p := None)\<rparr>)))"

definition put_obj :: "ptr \<Rightarrow> obj \<Rightarrow> unit io" where
  "put_obj p v = modify_io (\<lambda>e. e\<lparr>heap := (heap e)(p \<mapsto> v)\<rparr>)"

definition get_str :: "ptr \<Rightarrow> string io" where
  "get_str p e = (case heap e p of Some (Str s) \<Rightarrow> (Some s, e) | _ \<Rightarrow> (None, e))"

definition get_vec :: "ptr \<Rightarrow> ptr list io" where
  "get_vec p e = (case heap e p of Some (Vec v) \<Rightarrow> (Some v, e) | _ \<Rightarrow> (None, e))"

definition memory_info :: "(cint \<times> mm_stats) io" where
  "memory_info = bind_io (syscall Sys_meminfo) (\<lambda>a. ret_io (ucast (a_ret a), a_mem a))"

definition get_type_of_mm :: "cint \<Rightarrow> (cint \<times> string) io" where
  "get_type_of_mm buflen =
     (if sint buflen \<le> 0 then ret_io (0, [])
      else bind_io (syscall (Sys_get_type_of_mm buflen)) (\<lambda>a. ret_io (ucast (a_ret a), a_bytes a)))"

section \<open>Processes\<close>

definition resolve_function_by_name :: "string \<Rightarrow> ufun" where
  "resolve_function_by_name nm =
     (if user_strcmp nm ''zero_to_max'' = 0 then Entry zero_to_max_fn
      else if user_strcmp nm ''endless_loop'' = 0 then Entry endless_loop_fn
      else if user_strcmp nm ''endless_loop_print'' = 0 then Entry endless_loop_print_fn
      else if user_strcmp nm ''my_process_inc'' = 0 then Entry my_process_inc_fn
      else Addr 0)"

definition spawn :: "string \<Rightarrow> ufun \<Rightarrow> ptr \<Rightarrow> u64 \<Rightarrow> u64 \<Rightarrow> u64 io" where
  "spawn nm function argv priority fg =
     (let function' = (if low_address function then resolve_function_by_name nm else function)
      in if function' = Addr 0 then ret_io (- 1)
         else bind_io (call (Sys_create_process nm function' argv priority fg)) (\<lambda>pid.
              then_io (when_io (0 < sint pid) (modify_io (\<lambda>e. e\<lparr>g_last_spawned_pid := pid\<rparr>)))
                (ret_io pid)))"

definition my_create_process :: "string \<Rightarrow> ufun \<Rightarrow> ptr \<Rightarrow> u64 \<Rightarrow> cint \<Rightarrow> u64 io" where
  "my_create_process nm function argv priority is_foreground =
     spawn nm function argv priority (scast is_foreground)"

text \<open>The fifth argument of the call: both pipe ids in 16 bits each, the foreground flag in bit 32 and
  bit 33 set when there is a pipe.\<close>

definition pack_pipes :: "cint \<Rightarrow> u64 \<Rightarrow> u64 \<Rightarrow> u64" where
  "pack_pipes is_foreground stdin_pipe_id stdout_pipe_id =
     (let packed = (stdin_pipe_id AND 0xFFFF) OR push_bit 16 (stdout_pipe_id AND 0xFFFF)
                   OR push_bit 32 (scast is_foreground AND 1)
      in if stdin_pipe_id \<noteq> 0 \<or> stdout_pipe_id \<noteq> 0 then packed OR push_bit 33 1 else packed)"

definition my_create_process_with_pipes ::
  "string \<Rightarrow> ufun \<Rightarrow> ptr \<Rightarrow> u64 \<Rightarrow> cint \<Rightarrow> u64 \<Rightarrow> u64 \<Rightarrow> u64 io" where
  "my_create_process_with_pipes nm function argv priority is_foreground stdin_pipe_id stdout_pipe_id =
     spawn nm function argv priority (pack_pipes is_foreground stdin_pipe_id stdout_pipe_id)"

definition my_kill :: "u64 \<Rightarrow> u64 io" where
  "my_kill pid = call (Sys_kill pid)"

definition my_block :: "u64 \<Rightarrow> u64 io" where
  "my_block pid = call (Sys_block pid)"

definition my_unblock :: "u64 \<Rightarrow> u64 io" where
  "my_unblock pid = call (Sys_unblock pid)"

definition my_getpid :: "u64 io" where
  "my_getpid = call Sys_getpid"

definition my_nice :: "u64 \<Rightarrow> u64 \<Rightarrow> u64 io" where
  "my_nice pid newPrio = call (Sys_set_priority pid newPrio)"

definition my_yield :: "u64 io" where
  "my_yield = call Sys_yield"

definition my_wait :: "u64 \<Rightarrow> u64 io" where
  "my_wait pid = call (Sys_wait pid)"

text \<open>The buffer of the caller has room for \<open>max_count\<close> entries; the answer carries those filled in.\<close>

definition list_processes :: "u64 \<Rightarrow> (u64 \<times> process_info_t list) io" where
  "list_processes max_count =
     (if max_count = 0 then ret_io (0, [])
      else bind_io (syscall (Sys_list_processes max_count)) (\<lambda>a. ret_io (a_ret a, a_procs a)))"

definition reset_last_spawned_pid :: "unit io" where
  "reset_last_spawned_pid = modify_io (\<lambda>e. e\<lparr>g_last_spawned_pid := - 1\<rparr>)"

definition get_last_spawned_pid :: "u64 io" where
  "get_last_spawned_pid = get_io g_last_spawned_pid"

section \<open>Named semaphores\<close>

definition MAX_USER_SEMS :: nat where "MAX_USER_SEMS = 8"

definition sem_name_is :: "string \<Rightarrow> uenv \<Rightarrow> nat \<Rightarrow> bool" where
  "sem_name_is nm e i \<longleftrightarrow>
     user_sem_names e ! i \<noteq> NULL \<and>
     (case heap e (user_sem_names e ! i) of Some (Str s) \<Rightarrow> user_strcmp s nm = 0 | _ \<Rightarrow> False)"

definition find_sem_index :: "string option \<Rightarrow> uenv \<Rightarrow> nat option" where
  "find_sem_index nm e =
     (case nm of None \<Rightarrow> None | Some n \<Rightarrow> List.find (sem_name_is n e) [0..<MAX_USER_SEMS])"

definition find_free_sem_slot :: "uenv \<Rightarrow> nat option" where
  "find_free_sem_slot e = List.find (\<lambda>i. user_sem_names e ! i = NULL) [0..<MAX_USER_SEMS]"

definition my_sem_open :: "string option \<Rightarrow> u64 \<Rightarrow> u64 io" where
  "my_sem_open sem_id initialValue =
     (case sem_id of
        None \<Rightarrow> ret_io 0
      | Some nm \<Rightarrow>
          bind_io (get_io (find_sem_index sem_id)) (\<lambda>idx.
          case idx of
            Some i \<Rightarrow> bind_io (get_io user_sem_ids) (\<lambda>ids. then_io (call (Sys_sem_open (ids ! i))) (ret_io 1))
          | None \<Rightarrow>
              bind_io (get_io find_free_sem_slot) (\<lambda>slot.
              case slot of
                None \<Rightarrow> ret_io 0
              | Some j \<Rightarrow>
                  bind_io (call (Sys_sem_create (ucast initialValue))) (\<lambda>sid.
                  if sid = 0 then ret_io 0
                  else bind_io (malloc (user_strlen nm + 1)) (\<lambda>copy.
                    if copy = NULL then then_io (call (Sys_sem_close sid)) (ret_io 0)
                    else then_io (put_obj copy (Str (c_string nm)))
                      (then_io (modify_io (\<lambda>e. e\<lparr>user_sem_names := (user_sem_names e)[j := copy],
                                                user_sem_ids := (user_sem_ids e)[j := sid]\<rparr>))
                      (ret_io 1)))))))"

definition my_sem_wait :: "string option \<Rightarrow> u64 io" where
  "my_sem_wait sem_id =
     bind_io (get_io (find_sem_index sem_id)) (\<lambda>idx.
     case idx of
       None \<Rightarrow> ret_io 0
     | Some i \<Rightarrow> bind_io (get_io user_sem_ids) (\<lambda>ids. call (Sys_sem_wait (ids ! i))))"

definition my_sem_post :: "string option \<Rightarrow> u64 io" where
  "my_sem_post sem_id =
     bind_io (get_io (find_sem_index sem_id)) (\<lambda>idx.
     case idx of
       None \<Rightarrow> ret_io 0
     | Some i \<Rightarrow> bind_io (get_io user_sem_ids) (\<lambda>ids. call (Sys_sem_signal (ids ! i))))"

definition my_sem_close :: "string option \<Rightarrow> u64 io" where
  "my_sem_close sem_id =
     bind_io (get_io (find_sem_index sem_id)) (\<lambda>idx.
     case idx of
       None \<Rightarrow> ret_io 0
     | Some i \<Rightarrow>
         bind_io (get_io user_sem_ids) (\<lambda>ids.
         bind_io (call (Sys_sem_close (ids ! i))) (\<lambda>res.
         bind_io (get_io user_sem_names) (\<lambda>names.
         then_io (free (names ! i))
         (then_io (modify_io (\<lambda>e. e\<lparr>user_sem_names := (user_sem_names e)[i := NULL],
                                   user_sem_ids := (user_sem_ids e)[i := 0]\<rparr>))
         (ret_io res))))))"

end
