(* ===== verification/User_Tests.thy ===== *)
theory User_Tests
  imports User_Proc
begin

text \<open>
  The test programs of the user image: the helpers of \<open>tests/test_util.c\<close> and the stress tests of the
  allocator (\<open>test-mm.c\<close>), of processes (\<open>test_processes.c\<close>), of semaphores (\<open>test_sync.c\<close>) and of
  priorities (\<open>test_prio.c\<close>).  \<open>GetUniform\<close> scales a random word in floating point; the precision of
  its intermediate results is left to the compiler (the image is built without SSE), so what it computes
  from the word and the bound is the parameter \<open>scale\<close>.
\<close>

section \<open>Helpers\<close>

text \<open>A message, then the value the caller returns.\<close>

definition printf_then :: "string \<Rightarrow> 'a \<Rightarrow> 'a io" where
  "printf_then msg r = then_io (printf msg []) (ret_io r)"

definition GetUint :: "uenv \<Rightarrow> u32 \<times> uenv" where
  "GetUint e =
     (let z = 36969 * (m_z e AND 65535) + drop_bit 16 (m_z e);
          w = 18000 * (m_w e AND 65535) + drop_bit 16 (m_w e)
      in (push_bit 16 z + w, e\<lparr>m_z := z, m_w := w\<rparr>))"

definition GetUniform :: "(u32 \<Rightarrow> u32 \<Rightarrow> u32) \<Rightarrow> u32 \<Rightarrow> u32 io" where
  "GetUniform scale mx e = (let (u, e') = GetUint e in (Some (scale u mx), e'))"

text \<open>\<open>memset\<close> of the user image (\<open>loader/_loader.c\<close>) stores from the last byte down; \<open>memcheck\<close> reads
  from the first byte up.\<close>

fun user_memset_loop :: "ptr \<Rightarrow> u8 \<Rightarrow> nat \<Rightarrow> (ptr \<Rightarrow> u8) \<Rightarrow> ptr \<Rightarrow> u8" where
  "user_memset_loop dst chr 0 m = m"
| "user_memset_loop dst chr (Suc n) m = user_memset_loop dst chr n (m(dst + of_nat n := chr))"

definition user_memset :: "ptr \<Rightarrow> u32 \<Rightarrow> u64 \<Rightarrow> unit io" where
  "user_memset dst c len = modify_io (\<lambda>e. e\<lparr>ubytes := user_memset_loop dst (ucast c) (unat len) (ubytes e)\<rparr>)"

fun memcheck_loop :: "(ptr \<Rightarrow> u8) \<Rightarrow> ptr \<Rightarrow> u8 \<Rightarrow> nat \<Rightarrow> bool" where
  "memcheck_loop m p v 0 = True"
| "memcheck_loop m p v (Suc n) = (if m p \<noteq> v then False else memcheck_loop m (p + 1) v n)"

definition memcheck :: "ptr \<Rightarrow> u8 \<Rightarrow> u32 \<Rightarrow> uenv \<Rightarrow> bool" where
  "memcheck start v sz e = memcheck_loop (ubytes e) start v (unat sz)"

text \<open>\<open>str[i]\<close> is a signed \<open>char\<close>; \<open>res\<close> is an \<open>int64_t\<close>.\<close>

fun satoi_digits :: "string \<Rightarrow> u64 \<Rightarrow> u64 option" where
  "satoi_digits [] res = Some res"
| "satoi_digits (c # s) res =
     (if is_digit c then satoi_digits s (res * 10 + of_nat (of_char c) - 48) else None)"

definition satoi :: "string \<Rightarrow> u64" where
  "satoi str =
     (let neg = (str \<noteq> [] \<and> hd str = CHR ''-'')
      in case satoi_digits (if neg then tl str else str) 0 of
           None \<Rightarrow> 0
         | Some res \<Rightarrow> res * (if neg then - 1 else 1))"

text \<open>\<open>bussy_wait\<close> does nothing but count; \<open>endless_loop\<close> runs for ever without a system call.\<close>

definition bussy_wait :: "u64 \<Rightarrow> unit io" where
  "bussy_wait n = ret_io ()"

definition endless_loop :: "unit io" where
  "endless_loop = stuck_io"

definition endless_loop_print_body :: "u64 \<Rightarrow> u64 \<Rightarrow> unit \<Rightarrow> (unit + unit) io" where
  "endless_loop_print_body wait pid _ =
     then_io (printf ''%lld '' [PLong pid]) (then_io (bussy_wait wait) (ret_io (Inl ())))"

definition endless_loop_print :: "u64 \<Rightarrow> unit io" where
  "endless_loop_print wait = bind_io my_getpid (\<lambda>pid. while_io (endless_loop_print_body wait pid) ())"

section \<open>Priorities\<close>

definition TOTAL_PROCESSES :: nat where "TOTAL_PROCESSES = 3"

definition prio :: "u64 list" where "prio = [0, 1, 2]"

text \<open>The counting loop makes no call.\<close>

definition zero_to_max :: "unit io" where
  "zero_to_max = bind_io my_getpid (\<lambda>pid. printf (''PROCESS %lld DONE!'' @ [CHR 0x0A]) [PLong pid])"

text \<open>A loop that collects the values of its rounds.\<close>

fun collect_io :: "('a \<Rightarrow> 'b io) \<Rightarrow> 'a list \<Rightarrow> 'b list io" where
  "collect_io f [] = ret_io []"
| "collect_io f (x # xs) = bind_io (f x) (\<lambda>y. bind_io (collect_io f xs) (\<lambda>ys. ret_io (y # ys)))"

text \<open>\<open>ztm_argv\<close> is the address of a local vector with no strings.\<close>

definition spawn_ztm :: "ptr \<Rightarrow> u64 io" where
  "spawn_ztm ztm_argv = my_create_process ''zero_to_max'' (Entry zero_to_max_fn) ztm_argv 1 0"

definition wait_all :: "u64 list \<Rightarrow> unit io" where
  "wait_all pids = for_io (\<lambda>p. then_io (my_wait p) (ret_io ())) pids"

definition new_priority :: "u64 \<Rightarrow> u64 \<Rightarrow> unit io" where
  "new_priority pid p =
     then_io (my_nice pid p) (printf (''  PROCESS %lld NEW PRIORITY: %lld'' @ [CHR 0x0A]) [PLong pid, PLong p])"

definition test_prio :: "ptr \<Rightarrow> string list \<Rightarrow> u64 io" where
  "test_prio ztm_argv argv =
     (if length argv \<noteq> 1 then ret_io (- 1)
      else then_io (modify_io (\<lambda>e. e\<lparr>max_value := satoi (argv ! 0)\<rparr>))
        (if satoi (argv ! 0) \<le> 0 then ret_io (- 1)
         else
           then_io (printf (''SAME PRIORITY...'' @ [CHR 0x0A]) [])
           (bind_io (collect_io (\<lambda>_. spawn_ztm ztm_argv) [0..<TOTAL_PROCESSES]) (\<lambda>pids.
           then_io (wait_all pids)
           (then_io (printf (''SAME PRIORITY, THEN CHANGE IT...'' @ [CHR 0x0A]) [])
           (bind_io (collect_io (\<lambda>i. bind_io (spawn_ztm ztm_argv) (\<lambda>pid.
                       then_io (new_priority pid (prio ! i)) (ret_io pid))) [0..<TOTAL_PROCESSES]) (\<lambda>pids.
           then_io (wait_all pids)
           (then_io (printf (''SAME PRIORITY, THEN CHANGE IT WHILE BLOCKED...'' @ [CHR 0x0A]) [])
           (bind_io (collect_io (\<lambda>i. bind_io (spawn_ztm ztm_argv) (\<lambda>pid.
                       then_io (my_block pid)
                       (then_io (new_priority pid (prio ! i)) (ret_io pid)))) [0..<TOTAL_PROCESSES]) (\<lambda>pids.
           then_io (for_io (\<lambda>p. then_io (my_unblock p) (ret_io ())) pids)
           (then_io (wait_all pids) (ret_io 0))))))))))))"

section \<open>Semaphores\<close>

definition TOTAL_PAIR_PROCESSES :: nat where "TOTAL_PAIR_PROCESSES = 2"

definition SEM_ID :: "string option" where "SEM_ID = Some ''sem''"

definition slowInc :: "u64 \<Rightarrow> unit io" where
  "slowInc inc =
     bind_io (get_io global) (\<lambda>aux.
     then_io my_yield
     (modify_io (\<lambda>e. e\<lparr>global := aux + inc\<rparr>)))"

definition inc_round :: "bool \<Rightarrow> u64 \<Rightarrow> unit io" where
  "inc_round use_sem inc =
     then_io (if use_sem then then_io (my_sem_wait SEM_ID) (ret_io ()) else ret_io ())
     (then_io (slowInc inc)
     (if use_sem then then_io (my_sem_post SEM_ID) (ret_io ()) else ret_io ()))"

text \<open>\<open>int8_t\<close> variables keep the low byte, with its sign.\<close>

definition to_int8 :: "u64 \<Rightarrow> u64" where
  "to_int8 v = scast (ucast v :: u8)"

definition my_process_inc :: "string list \<Rightarrow> u64 io" where
  "my_process_inc argv =
     (if length argv \<noteq> 3 then ret_io (- 1)
      else let n = satoi (argv ! 0); inc = to_int8 (satoi (argv ! 1)); use_sem = to_int8 (satoi (argv ! 2))
      in if n \<le> 0 then ret_io (- 1)
         else if inc = 0 then ret_io (- 1)
         else if sint use_sem < 0 then ret_io (- 1)
         else
           bind_io (if use_sem \<noteq> 0 then my_sem_open SEM_ID 1 else ret_io 1) (\<lambda>r.
           if r = 0 then printf_then (''test_sync: ERROR opening semaphore'' @ [CHR 0x0A]) (- 1)
           else then_io (for_io (\<lambda>_. inc_round (use_sem \<noteq> 0) inc) [0..<unat n])
             (then_io (if use_sem \<noteq> 0 then my_sem_close SEM_ID else ret_io 0)
             (ret_io 0))))"

text \<open>\<open>frame\<close> gives the addresses of the local vectors.\<close>

definition test_sync :: "(nat \<Rightarrow> ptr) \<Rightarrow> string list \<Rightarrow> u64 io" where
  "test_sync frame argv =
     (if length argv \<noteq> 2 then ret_io (- 1)
      else
        then_io (put_obj (frame 0) (Args [argv ! 0, ''-1'', argv ! 1]))
        (then_io (put_obj (frame 1) (Args [argv ! 0, ''1'', argv ! 1]))
        (then_io (modify_io (\<lambda>e. e\<lparr>global := 0\<rparr>))
        (bind_io (collect_io (\<lambda>i.
             bind_io (my_create_process ''my_process_inc'' (Addr 0) (frame 0) 1 0) (\<lambda>dec.
             bind_io (my_create_process ''my_process_inc'' (Addr 0) (frame 1) 1 0) (\<lambda>inc.
             ret_io (dec, inc)))) [0..<TOTAL_PAIR_PROCESSES]) (\<lambda>pids.
        then_io (for_io (\<lambda>(dec, inc). then_io (my_wait dec) (then_io (my_wait inc) (ret_io ()))) pids)
        (bind_io (get_io global) (\<lambda>g.
        then_io (printf (''Final value: %lld'' @ [CHR 0x0A]) [PLong g]) (ret_io 0))))))))"

section \<open>Processes\<close>

datatype test_state = RUNNING | BLOCKED | KILLED

text \<open>The requests \<open>p_rqs\<close>: the pid, an \<open>int32_t\<close>, and the state.  The counters \<open>rq\<close> and \<open>alive\<close> are
  \<open>uint8_t\<close>.\<close>

type_synonym p_rqs = "u8 \<Rightarrow> cint \<times> test_state"

definition create_body ::
  "ptr \<Rightarrow> u64 \<Rightarrow> u8 \<times> u8 \<times> p_rqs \<Rightarrow> (u8 \<times> u8 \<times> p_rqs + (u8 \<times> p_rqs) option) io" where
  "create_body argvAux max_processes st =
     (case st of (rq, alive, reqs) \<Rightarrow>
      if ucast rq < max_processes then
        then_io (printf ''Creando proceso %d... '' [PInt (ucast rq + 1)])
        (bind_io (my_create_process ''endless_loop'' (Entry endless_loop_fn) argvAux 1 0) (\<lambda>r.
         let pid = (ucast r :: cint)
         in if pid = - 1 then
              then_io (printf (''ERROR'' @ [CHR 0x0A]) [])
              (printf_then (''test_processes: ERROR creating process'' @ [CHR 0x0A]) (Inr None))
            else then_io (printf (''PID: %d'' @ [CHR 0x0A]) [PInt pid])
              (ret_io (Inl (rq + 1, alive + 1, reqs(rq := (pid, RUNNING)))))))
      else ret_io (Inr (Some (alive, reqs))))"

definition on_process :: "string \<Rightarrow> string \<Rightarrow> (u64 \<Rightarrow> u64 io) \<Rightarrow> cint \<Rightarrow> 'a \<Rightarrow> ('a + unit) io" where
  "on_process msg error f pid next =
     then_io (printf msg [PInt pid])
     (bind_io (f (scast pid)) (\<lambda>r.
     if r = - 1 then
       then_io (printf (''ERROR'' @ [CHR 0x0A]) []) (printf_then (error @ [CHR 0x0A]) (Inr ()))
     else printf_then (''OK'' @ [CHR 0x0A]) (Inl next)))"

definition kill_or_block ::
  "(u32 \<Rightarrow> u32 \<Rightarrow> u32) \<Rightarrow> u8 \<Rightarrow> u8 \<times> p_rqs \<Rightarrow> (u8 \<times> p_rqs + unit) io" where
  "kill_or_block scale rq st =
     (case st of (alive, reqs) \<Rightarrow>
      bind_io (GetUniform scale 100) (\<lambda>u.
      let (pid, state) = reqs rq
      in if u mod 2 = 0 then
           (if state = RUNNING \<or> state = BLOCKED then
              on_process ''Matando proceso PID %d... '' ''test_processes: ERROR killing process'' my_kill pid
                (alive - 1, reqs(rq := (pid, KILLED)))
            else ret_io (Inl (alive, reqs)))
         else
           (if state = RUNNING then
              on_process ''Bloqueando proceso PID %d... '' ''test_processes: ERROR blocking process'' my_block pid
                (alive, reqs(rq := (pid, BLOCKED)))
            else ret_io (Inl (alive, reqs)))))"

definition maybe_unblock ::
  "(u32 \<Rightarrow> u32 \<Rightarrow> u32) \<Rightarrow> u8 \<Rightarrow> u8 \<times> p_rqs \<Rightarrow> (u8 \<times> p_rqs + unit) io" where
  "maybe_unblock scale rq st =
     (case st of (alive, reqs) \<Rightarrow>
      let (pid, state) = reqs rq
      in if state = BLOCKED then
           bind_io (GetUniform scale 100) (\<lambda>u.
           if u mod 2 \<noteq> 0 then
             on_process ''Desbloqueando proceso PID %d... '' ''test_processes: ERROR unblocking process'' my_unblock pid
               (alive, reqs(rq := (pid, RUNNING)))
           else ret_io (Inl (alive, reqs)))
         else ret_io (Inl (alive, reqs)))"

text \<open>The counter of the inner loops runs over \<open>0, ..., max_processes - 1\<close>; they are reached with at most
  255 processes, since the creation loop does not end with more.\<close>

definition manipulate_body ::
  "(u32 \<Rightarrow> u32 \<Rightarrow> u32) \<Rightarrow> u64 \<Rightarrow> u8 \<times> p_rqs \<Rightarrow> (u8 \<times> p_rqs + p_rqs option) io" where
  "manipulate_body scale max_processes st =
     (let rqs = map of_nat [0..<unat max_processes]
      in if 0 < fst st then
           then_io (printf (''Procesos vivos: %d'' @ [CHR 0x0A]) [PInt (ucast (fst st))])
           (bind_io (fold_io (kill_or_block scale) rqs st) (\<lambda>r.
            case r of
              Inr _ \<Rightarrow> ret_io (Inr None)
            | Inl st1 \<Rightarrow>
                bind_io (fold_io (maybe_unblock scale) rqs st1) (\<lambda>r'.
                case r' of Inr _ \<Rightarrow> ret_io (Inr None) | Inl st2 \<Rightarrow> ret_io (Inl st2))))
         else ret_io (Inr (Some (snd st))))"

definition test_cycle ::
  "(u32 \<Rightarrow> u32 \<Rightarrow> u32) \<Rightarrow> ptr \<Rightarrow> u64 \<Rightarrow> p_rqs \<Rightarrow> (p_rqs + u64) io" where
  "test_cycle scale argvAux max_processes reqs =
     then_io (printf ([CHR 0x0A] @ ''--- CICLO DE CREACION DE PROCESOS ---'' @ [CHR 0x0A]) [])
     (bind_io (while_io (create_body argvAux max_processes) (0, 0, reqs)) (\<lambda>r.
      case r of
        None \<Rightarrow> ret_io (Inr (- 1))
      | Some (alive, reqs') \<Rightarrow>
          then_io (printf (''Total de procesos creados: %d'' @ [CHR 0x0A]) [PInt (ucast alive)])
          (then_io (printf ([CHR 0x0A] @ ''--- CICLO DE MANIPULACION DE PROCESOS ---'' @ [CHR 0x0A]) [])
          (bind_io (while_io (manipulate_body scale max_processes) (alive, reqs')) (\<lambda>r'.
           case r' of
             None \<Rightarrow> ret_io (Inr (- 1))
           | Some reqs2 \<Rightarrow>
             then_io (printf ([CHR 0x0A] @ ''--- CICLO COMPLETADO ---'' @ [CHR 0x0A]) [])
             (printf_then (''Todos los procesos fueron terminados. Reiniciando...'' @ [CHR 0x0A]) (Inl reqs2)))))))"

definition test_processes :: "(u32 \<Rightarrow> u32 \<Rightarrow> u32) \<Rightarrow> ptr \<Rightarrow> string list \<Rightarrow> u64 io" where
  "test_processes scale argvAux argv =
     (if length argv \<noteq> 1 then ret_io (- 1)
      else let max_processes = satoi (argv ! 0)
      in if max_processes \<le> 0 then ret_io (- 1)
         else
           then_io (printf (''=== TEST DE PROCESOS INICIADO ==='' @ [CHR 0x0A]) [])
           (then_io (printf (''Numero maximo de procesos: %llu'' @ [CHR 0x0A]) [PLong max_processes])
           (while_io (test_cycle scale argvAux max_processes) (\<lambda>_. (0, KILLED)))))"

section \<open>Allocator\<close>

definition MAX_BLOCKS :: nat where "MAX_BLOCKS = 128"

text \<open>The requests granted so far, as \<open>(address, size)\<close>, and the bytes they take, a \<open>uint32_t\<close>.\<close>

definition request_body ::
  "(u32 \<Rightarrow> u32 \<Rightarrow> u32) \<Rightarrow> u64 \<Rightarrow> (ptr \<times> u32) list \<times> u32 \<Rightarrow>
   ((ptr \<times> u32) list \<times> u32 + (ptr \<times> u32) list \<times> u32) io" where
  "request_body scale max_memory st =
     (case st of (reqs, granted) \<Rightarrow>
      if length reqs < MAX_BLOCKS \<and> ucast granted < max_memory then
        bind_io (GetUniform scale (ucast (max_memory - ucast granted - 1))) (\<lambda>u.
        let sz = u + 1
        in bind_io (malloc (ucast sz)) (\<lambda>address.
           if address \<noteq> NULL then ret_io (Inl (reqs @ [(address, sz)], granted + sz))
           else ret_io (Inr (reqs, granted))))
      else ret_io (Inr (reqs, granted)))"

definition set_blocks :: "(ptr \<times> u32) list \<Rightarrow> unit io" where
  "set_blocks reqs =
     for_io (\<lambda>i. let (address, sz) = reqs ! i in when_io (address \<noteq> NULL) (user_memset address (of_nat i) (ucast sz)))
       [0..<length reqs]"

definition check_blocks :: "(ptr \<times> u32) list \<Rightarrow> uenv \<Rightarrow> bool" where
  "check_blocks reqs e \<longleftrightarrow>
     list_all (\<lambda>i. let (address, sz) = reqs ! i in address \<noteq> NULL \<longrightarrow> memcheck address (of_nat i) sz e)
       [0..<length reqs]"

definition test_mm_body :: "(u32 \<Rightarrow> u32 \<Rightarrow> u32) \<Rightarrow> u64 \<Rightarrow> u64 \<Rightarrow> (u64 + u64) io" where
  "test_mm_body scale max_memory iteration =
     (let iteration' = iteration + 1
      in then_io (printf ''Iteracion %llu: '' [PLong iteration'])
      (bind_io (while_io (request_body scale max_memory) ([], 0)) (\<lambda>(reqs, granted).
       then_io (printf ''Asignados %llu bloques (%llu bytes) - '' [PLong (of_nat (length reqs)), PLong (ucast granted)])
       (then_io (set_blocks reqs)
       (then_io (printf ''Escritura OK - '' [])
       (bind_io (get_io (check_blocks reqs)) (\<lambda>ok.
        if \<not> ok then printf_then (''ERROR en verificacion!'' @ [CHR 0x0A]) (Inr (- 1))
        else
          then_io (printf ''Verificacion OK - '' [])
          (then_io (for_io (\<lambda>(address, sz). free address) reqs)
          (printf_then (''Liberacion OK'' @ [CHR 0x0A]) (Inl iteration'))))))))))"

definition test_mm :: "(u32 \<Rightarrow> u32 \<Rightarrow> u32) \<Rightarrow> string list \<Rightarrow> u64 io" where
  "test_mm scale argv =
     (if length argv \<noteq> 1 then ret_io (- 1)
      else let max_memory = satoi (argv ! 0)
      in if max_memory \<le> 0 then ret_io (- 1)
         else
           then_io (printf (''=== TEST DE MEMORIA INICIADO ==='' @ [CHR 0x0A]) [])
           (then_io (printf (''Memoria maxima: %llu bytes'' @ [CHR 0x0A]) [PLong max_memory])
           (then_io (printf (''Bloques maximos: %d'' @ [CHR 0x0A]) [PInt (of_nat MAX_BLOCKS)])
           (then_io (printf (''Presiona Ctrl+C para detener'' @ [CHR 0x0A, CHR 0x0A]) [])
           (while_io (test_mm_body scale max_memory) 0)))))"

end
