(* ===== verification/Shell.thy ===== *)
theory Shell
  imports User_Proc
begin

text \<open>
  The shell (\<open>shell/shell.c\<close>), its parser (\<open>shell/command_parser.c\<close>), the table of commands
  (\<open>shell/commands.c\<close>) and the commands: the built-in ones (\<open>commands_builtin.c\<close>), those that start a
  process (\<open>commands_system.c\<close>, \<open>commands_pipe.c\<close>) and those that start a test (\<open>commands_tests.c\<close>).
  A command gets its arguments as the list of the strings \<open>argv[0]\<close> to \<open>argv[argc - 1]\<close> and returns an
  \<open>int\<close>.
\<close>

definition MAX_ARGS :: nat where "MAX_ARGS = 32"
definition OK :: int where "OK = 0"
definition ERROR :: int where "ERROR = - 1"
definition EXIT_CODE :: int where "EXIT_CODE = 1"
definition CMD_ERROR :: int where "CMD_ERROR = - 2"
definition SHELL_PID :: u64 where "SHELL_PID = 1"
definition MAX_LINE_LENGTH :: cint where "MAX_LINE_LENGTH = 100"
definition MAX_USER_LENGTH :: nat where "MAX_USER_LENGTH = 10"
definition USER_MAX_PROCESS_INFO :: u64 where "USER_MAX_PROCESS_INFO = 64"

text \<open>A format, then the value the caller returns.\<close>

definition printf_ret :: "string \<Rightarrow> parg list \<Rightarrow> 'a \<Rightarrow> 'a io" where
  "printf_ret fmt args r = then_io (printf fmt args) (ret_io r)"

section \<open>Splitting a line\<close>

text \<open>\<open>fillCommandAndArgs\<close> walks over the buffer, puts terminators over the blanks and records where the
  words start: the loop from index \<open>i\<close>, with \<open>argc\<close> words recorded, gives the offsets of the words and
  the rest of the buffer as it leaves it.\<close>

fun fill_from :: "nat \<Rightarrow> bool \<Rightarrow> nat \<Rightarrow> string \<Rightarrow> nat list \<times> string" where
  "fill_from i inArg argc [] = ([], [])"
| "fill_from i inArg argc (c # input) =
     (if c = NUL \<or> MAX_ARGS \<le> argc then ([], c # input)
      else if c = CHR '' '' then
        (let (args, buf) = fill_from (i + 1) False argc input in (args, NUL # buf))
      else if \<not> inArg then
        (let (args, buf) = fill_from (i + 1) True (argc + 1) input in (i # args, c # buf))
      else (let (args, buf) = fill_from (i + 1) inArg argc input in (args, c # buf)))"

definition fillCommandAndArgs :: "string \<Rightarrow> string list" where
  "fillCommandAndArgs input =
     (let (offsets, buf) = fill_from 0 False 0 input in map (\<lambda>a. c_string (drop a buf)) offsets)"

definition contains_pipe_symbol :: "string \<Rightarrow> bool" where
  "contains_pipe_symbol input \<longleftrightarrow> CHR ''|'' \<in> set (c_string input)"

section \<open>Lines\<close>

text \<open>The loop of \<open>readLine\<close>, with the characters kept so far.\<close>

definition readLine_body :: "cint \<Rightarrow> string \<Rightarrow> (string + string) io" where
  "readLine_body maxLen buf =
     bind_io getchar (\<lambda>c.
     if c = CHR 0x04 then
       (if buf = [] then printf_ret [CHR 0x0A] [] (Inr []) else ret_io (Inl buf))
     else if c = CHR 0x0A then then_io (putchar (CHR 0x0A)) (ret_io (Inr buf))
     else if c = CHR 0x08 then
       (if buf \<noteq> [] then
          then_io (putchar (CHR 0x08)) (then_io (putchar (CHR '' '')) (then_io (putchar (CHR 0x08))
            (ret_io (Inl (butlast buf)))))
        else ret_io (Inl buf))
     else if int (length buf) < sint maxLen - 1 then
       then_io (putchar c) (ret_io (Inl (buf @ [c])))
     else ret_io (Inl buf))"

definition readLine :: "cint \<Rightarrow> string io" where
  "readLine maxLen = while_io (readLine_body maxLen) []"

definition shellPrompt :: "unit io" where
  "shellPrompt =
     then_io (printf ''%s'' [PStr ''TP2-SO-''])
     (bind_io (get_io shellUser) (\<lambda>u.
     then_io (printf ''%s'' [PStr u])
     (printf ''%s'' [PStr '':~$ ''])))"

section \<open>Starting processes\<close>

definition execute_external_command ::
  "string \<Rightarrow> ufun \<Rightarrow> ptr \<Rightarrow> cint \<Rightarrow> u64 \<Rightarrow> u64 \<Rightarrow> u64 io" where
  "execute_external_command nm function argv is_foreground stdin_pipe_id stdout_pipe_id =
     (if function = Addr 0 then ret_io (- 1)
      else
        bind_io (if stdin_pipe_id \<noteq> 0 \<or> stdout_pipe_id \<noteq> 0
                 then my_create_process_with_pipes nm function argv 1 is_foreground stdin_pipe_id stdout_pipe_id
                 else my_create_process nm function argv 1 is_foreground) (\<lambda>pid.
        if sint pid \<le> 0 then ret_io (- 1)
        else then_io (if is_foreground \<noteq> 0 then my_wait pid else ret_io 0) (ret_io pid)))"

definition is_foreground :: "uenv \<Rightarrow> cint" where
  "is_foreground e = (if g_run_in_background e then 0 else 1)"

section \<open>Built-in commands\<close>

definition exitCmd :: "int io" where
  "exitCmd =
     then_io clearScreen
     (then_io (printf ''%s'' [PStr (''Saliendo del shell...'' @ [CHR 0x0A])])
     (then_io (sleep 1000)
     (then_io shutdown (ret_io EXIT_CODE))))"

text \<open>The name is read into an 11-byte buffer and copied with \<open>strncpy\<close> into the 11 bytes of
  \<open>shellUser\<close>.\<close>

definition setUserCmd :: "int io" where
  "setUserCmd =
     then_io (printf ''%s'' [PStr ''Ingrese el nuevo nombre de usuario: ''])
     (bind_io (readLine (of_nat (MAX_USER_LENGTH + 1))) (\<lambda>newName.
     bind_io (get_io shellUser) (\<lambda>old.
     case user_strncpy old newName (of_nat MAX_USER_LENGTH) of
       None \<Rightarrow> stuck_io
     | Some u \<Rightarrow>
         then_io (modify_io (\<lambda>e. e\<lparr>shellUser := u\<rparr>))
         (printf_ret (''Nombre de usuario actualizado a: %s'' @ [CHR 0x0A]) [PStr u] OK))))"

definition clearCmd :: "int io" where
  "clearCmd = then_io clearScreen (ret_io OK)"

text \<open>The two faults do not return: the process is in the exception handler.\<close>

definition exceptionCmd :: "string list \<Rightarrow> int io" where
  "exceptionCmd argv =
     (if length argv \<noteq> 2 then
        printf_ret (''Error: cantidad invalida de argumentos.'' @ [CHR 0x0A] @
          ''Uso: exceptions [zero, invalidOpcode]'' @ [CHR 0x0A]) [] CMD_ERROR
      else if user_strcmp (argv ! 1) ''zero'' = 0 then stuck_io
      else if user_strcmp (argv ! 1) ''invalidopcode'' = 0 then
        then_io (printf (''Ejecutando invalidOpcode...'' @ [CHR 0x0A]) []) stuck_io
      else
        printf_ret (''Error: tipo de excepcion invalido.'' @ [CHR 0x0A] @
          ''Ingrese exceptions [zero, invalidOpcode] para testear alguna operacion'' @ [CHR 0x0A]) [] CMD_ERROR)"

text \<open>\<open>int64_t pid = atoi(...)\<close> widens with the sign.\<close>

definition pid_of :: "string \<Rightarrow> u64" where
  "pid_of s = scast (atoi s)"

text \<open>One round of the loop of \<open>kill\<close>: the number of errors after it.\<close>

definition kill_one :: "u64 \<Rightarrow> string \<Rightarrow> nat \<Rightarrow> nat io" where
  "kill_one current_pid arg error_count =
     (let pid = pid_of arg
      in if sint pid \<le> 0 then
           printf_ret (''Error: PID invalido (%s).'' @ [CHR 0x0A]) [PStr arg] (error_count + 1)
         else if pid = current_pid \<or> pid = SHELL_PID then
           printf_ret (''Error: no se puede matar el proceso de la shell (PID %lld).'' @ [CHR 0x0A]) [PLong pid]
             (error_count + 1)
         else bind_io (my_kill pid) (\<lambda>result.
           if result = 0 then
             printf_ret (''Error: no se pudo matar el proceso %lld. Puede que no exista.'' @ [CHR 0x0A]) [PLong pid]
               (error_count + 1)
           else printf_ret (''Proceso %lld terminado exitosamente.'' @ [CHR 0x0A]) [PLong pid] error_count))"

fun kill_all :: "u64 \<Rightarrow> string list \<Rightarrow> nat \<Rightarrow> nat io" where
  "kill_all current_pid [] error_count = ret_io error_count"
| "kill_all current_pid (arg # args) error_count =
     bind_io (kill_one current_pid arg error_count) (kill_all current_pid args)"

definition killCmd :: "string list \<Rightarrow> int io" where
  "killCmd argv =
     (if length argv < 2 then printf_ret (''Uso: kill <pid1> <pid2> ...'' @ [CHR 0x0A]) [] CMD_ERROR
      else bind_io my_getpid (\<lambda>current_pid.
        bind_io (kill_all current_pid (tl argv) 0) (\<lambda>error_count.
        ret_io (if error_count = length argv - 1 then CMD_ERROR else OK))))"

definition niceCmd :: "string list \<Rightarrow> int io" where
  "niceCmd argv =
     (if length argv \<noteq> 3 then printf_ret (''Uso: nice <pid> <prioridad>'' @ [CHR 0x0A]) [] CMD_ERROR
      else let pid = pid_of (argv ! 1)
        in if sint pid \<le> 0 then printf_ret (''Error: PID invalido.'' @ [CHR 0x0A]) [] CMD_ERROR
           else bind_io my_getpid (\<lambda>current_pid.
             if pid = current_pid \<or> pid = SHELL_PID then
               printf_ret (''Error: no se puede cambiar la prioridad del proceso de la shell.'' @ [CHR 0x0A]) []
                 CMD_ERROR
             else let priority = atoi (argv ! 2)
               in if sint priority < 0 \<or> 2 < sint priority then
                    printf_ret (''Error: la prioridad debe estar entre 0 y 2.'' @ [CHR 0x0A]) [] CMD_ERROR
                  else bind_io (my_nice pid (scast priority)) (\<lambda>result.
                    if result = 0 then
                      printf_ret (''Error: no se pudo cambiar la prioridad del proceso %lld.'' @ [CHR 0x0A])
                        [PLong pid] CMD_ERROR
                    else
                      printf_ret (''Prioridad del proceso %lld cambiada a %d exitosamente.'' @ [CHR 0x0A])
                        [PLong pid, PInt priority] OK)))"

definition STATE_BLOCKED :: cint where "STATE_BLOCKED = 3"

text \<open>The first of the \<open>count\<close> entries with the pid, and whether it is blocked.\<close>

definition find_process :: "u64 \<Rightarrow> u64 \<Rightarrow> process_info_t list \<Rightarrow> bool option" where
  "find_process pid count processes =
     map_option (\<lambda>p. i_state p = STATE_BLOCKED)
       (List.find (\<lambda>p. i_pid p = pid) (take (unat count) processes))"

definition blockCmd :: "string list \<Rightarrow> int io" where
  "blockCmd argv =
     (if length argv \<noteq> 2 then printf_ret (''Uso: block <pid>'' @ [CHR 0x0A]) [] CMD_ERROR
      else let pid = pid_of (argv ! 1)
        in if sint pid \<le> 0 then printf_ret (''Error: PID invalido.'' @ [CHR 0x0A]) [] CMD_ERROR
           else bind_io my_getpid (\<lambda>current_pid.
             if pid = current_pid \<or> pid = SHELL_PID then
               printf_ret (''Error: no se puede bloquear/desbloquear el proceso de la shell.'' @ [CHR 0x0A]) []
                 CMD_ERROR
             else bind_io (list_processes USER_MAX_PROCESS_INFO) (\<lambda>(count, processes).
               case find_process pid count processes of
                 None \<Rightarrow> printf_ret (''Error: proceso %lld no encontrado.'' @ [CHR 0x0A]) [PLong pid] CMD_ERROR
               | Some True \<Rightarrow>
                   bind_io (my_unblock pid) (\<lambda>result.
                   if result = 0 then
                     printf_ret (''Error: no se pudo desbloquear el proceso %lld.'' @ [CHR 0x0A]) [PLong pid] CMD_ERROR
                   else printf_ret (''Proceso %lld desbloqueado exitosamente.'' @ [CHR 0x0A]) [PLong pid] OK)
               | Some False \<Rightarrow>
                   bind_io (my_block pid) (\<lambda>result.
                   if result = 0 then
                     printf_ret (''Error: no se pudo bloquear el proceso %lld.'' @ [CHR 0x0A]) [PLong pid] CMD_ERROR
                   else printf_ret (''Proceso %lld bloqueado exitosamente.'' @ [CHR 0x0A]) [PLong pid] OK))))"

end
