(* ===== verification/Process_Entries.thy ===== *)
theory Process_Entries
  imports User_Tests Shell
begin

text \<open>
  The functions the processes started by the shell run (\<open>shell/process_wrappers.c\<close>).  Their argument is
  the address of a vector of strings, or null.
\<close>

section \<open>Argument vectors\<close>

text \<open>The string at position \<open>k\<close> of a vector, \<open>None\<close> for a null pointer; reading past the vector or a
  freed string does not go on.\<close>

definition arg_at :: "ptr list \<Rightarrow> nat \<Rightarrow> string option io" where
  "arg_at v k =
     (if length v \<le> k then stuck_io
      else if v ! k = NULL then ret_io None
      else bind_io (get_str (v ! k)) (\<lambda>s. ret_io (Some s)))"

definition with_args :: "ptr \<Rightarrow> (ptr list \<Rightarrow> string \<Rightarrow> unit io) \<Rightarrow> unit io" where
  "with_args argv k =
     when_io (argv \<noteq> NULL)
       (bind_io (get_vec argv) (\<lambda>v.
        bind_io (arg_at v 0) (\<lambda>a.
        case a of None \<Rightarrow> ret_io () | Some s \<Rightarrow> k v s)))"

section \<open>Tests\<close>

definition test_single_arg_wrapper :: "(string list \<Rightarrow> u64 io) \<Rightarrow> ptr \<Rightarrow> unit io" where
  "test_single_arg_wrapper test_fn argv =
     with_args argv (\<lambda>v a0.
       then_io (test_fn [a0]) (then_io (free (v ! 0)) (free argv)))"

definition test_sync_wrapper_common :: "(nat \<Rightarrow> ptr) \<Rightarrow> string \<Rightarrow> ptr \<Rightarrow> unit io" where
  "test_sync_wrapper_common frame use_sem argv =
     with_args argv (\<lambda>v a0.
       bind_io (arg_at v 1) (\<lambda>a1.
       then_io (case a1 of Some s \<Rightarrow> test_sync frame [a0, use_sem, s] | None \<Rightarrow> test_sync frame [a0, use_sem])
       (then_io (free (v ! 0)) (then_io (when_io (v ! 1 \<noteq> NULL) (free (v ! 1))) (free argv)))))"

definition test_mm_process_wrapper :: "(u32 \<Rightarrow> u32 \<Rightarrow> u32) \<Rightarrow> ptr \<Rightarrow> unit io" where
  "test_mm_process_wrapper scale = test_single_arg_wrapper (test_mm scale)"

definition test_processes_wrapper :: "(u32 \<Rightarrow> u32 \<Rightarrow> u32) \<Rightarrow> ptr \<Rightarrow> ptr \<Rightarrow> unit io" where
  "test_processes_wrapper scale argvAux = test_single_arg_wrapper (test_processes scale argvAux)"

definition test_prio_wrapper :: "ptr \<Rightarrow> ptr \<Rightarrow> unit io" where
  "test_prio_wrapper ztm_argv = test_single_arg_wrapper (test_prio ztm_argv)"

definition test_sync_wrapper :: "(nat \<Rightarrow> ptr) \<Rightarrow> ptr \<Rightarrow> unit io" where
  "test_sync_wrapper frame = test_sync_wrapper_common frame ''1''"

definition test_no_synchro_wrapper :: "(nat \<Rightarrow> ptr) \<Rightarrow> ptr \<Rightarrow> unit io" where
  "test_no_synchro_wrapper frame = test_sync_wrapper_common frame ''0''"

section \<open>loop, ps, mem, mmtype\<close>

definition loop_body :: "u64 \<Rightarrow> cint \<Rightarrow> unit \<Rightarrow> (unit + unit) io" where
  "loop_body pid seconds _ =
     then_io (printf (''Hola! Soy el proceso con ID %lld'' @ [CHR 0x0A]) [PLong pid])
     (then_io (sleep (seconds * 1000)) (ret_io (Inl ())))"

definition loop_process_entry :: "ptr \<Rightarrow> unit io" where
  "loop_process_entry argv =
     bind_io
       (if argv \<noteq> NULL then
          bind_io (get_vec argv) (\<lambda>v.
          bind_io (arg_at v 0) (\<lambda>a.
          case a of
            None \<Rightarrow> ret_io 1
          | Some s \<Rightarrow>
              then_io (free (v ! 0)) (then_io (free argv)
              (ret_io (if sint (atoi s) \<le> 0 then 1 else atoi s)))))
        else ret_io 1) (\<lambda>seconds.
     bind_io my_getpid (\<lambda>pid. while_io (loop_body pid seconds) ()))"

definition state_to_string :: "cint \<Rightarrow> string" where
  "state_to_string state =
     (if state = 0 then ''NEW'' else if state = 1 then ''READY'' else if state = 2 then ''RUNNING''
      else if state = 3 then ''BLOCKED'' else if state = 4 then ''FINISHED'' else ''UNKNOWN'')"

abbreviation TAB :: char where "TAB \<equiv> CHR 0x09"

definition ps_line :: "process_info_t \<Rightarrow> unit io" where
  "ps_line p =
     then_io (printf (''%llu'' @ [TAB]) [PLong (i_pid p)])
     (then_io (printf (''%s'' @ [TAB, TAB]) [PStr (i_name p)])
     (then_io (when_io (user_strlen (i_name p) < 8) (printf [TAB] []))
     (then_io (printf (''%s'' @ [TAB, TAB]) [PStr (state_to_string (i_state p))])
     (then_io (printf (''%d'' @ [TAB, TAB]) [PInt (i_priority p)])
     (then_io (printf (''0x%llx'' @ [TAB]) [PLong (i_rsp p)])
     (then_io (printf (''0x%llx'' @ [TAB]) [PLong (i_rbp p)])
     (printf (''%s'' @ [CHR 0x0A]) [PStr (if i_foreground p \<noteq> 0 then ''Si'' else ''No'')])))))))"

definition ps_process_entry :: "unit io" where
  "ps_process_entry =
     bind_io (list_processes USER_MAX_PROCESS_INFO) (\<lambda>(count, processes).
     if count = 0 then printf (''No hay procesos en el sistema.'' @ [CHR 0x0A]) []
     else
       then_io (printf ([CHR 0x0A] @ ''PID'' @ [TAB] @ ''Nombre'' @ [TAB, TAB, TAB] @ ''Estado'' @ [TAB, TAB] @
         ''Prioridad'' @ [TAB] @ ''RSP'' @ [TAB, TAB, TAB] @ ''RBP'' @ [TAB, TAB, TAB] @ ''Foreground'' @ [CHR 0x0A]) [])
       (then_io (printf (replicate 123 (CHR ''-'') @ [CHR 0x0A]) [])
       (if length processes < unat count then stuck_io
        else
          then_io (for_io ps_line (take (unat count) processes))
          (printf ([CHR 0x0A] @ ''Total de procesos: %llu'' @ [CHR 0x0A]) [PLong count]))))"

definition mem_process_entry :: "unit io" where
  "mem_process_entry =
     bind_io memory_info (\<lambda>(r, info).
     if r = 0 then printf (''Error: no se pudo obtener la informacion de memoria.'' @ [CHR 0x0A]) []
     else
       then_io (printf ([CHR 0x0A] @ ''=== Estado de la Memoria ==='' @ [CHR 0x0A]) [])
       (then_io (printf (''Total de bytes:       %llu'' @ [CHR 0x0A]) [PLong (total_bytes info)])
       (then_io (printf (''Bytes usados:         %llu'' @ [CHR 0x0A]) [PLong (used_bytes info)])
       (then_io (printf (''Bytes libres:         %llu'' @ [CHR 0x0A]) [PLong (free_bytes info)])
       (then_io (printf (''Bloque libre mas grande: %llu bytes'' @ [CHR 0x0A]) [PLong (largest_free_block info)])
       (then_io (printf (''Asignaciones totales: %llu'' @ [CHR 0x0A]) [PLong (allocations info)])
       (then_io (printf (''Liberaciones totales: %llu'' @ [CHR 0x0A]) [PLong (frees info)])
       (then_io (printf (''Asignaciones fallidas: %llu'' @ [CHR 0x0A]) [PLong (failed_allocations info)])
       (then_io (when_io (0 < total_bytes info)
          (then_io (printf ([CHR 0x0A] @ ''Porcentaje de uso:   %llu%%'' @ [CHR 0x0A])
              [PLong ((used_bytes info * 100) div total_bytes info)])
           (printf (''Porcentaje libre:    %llu%%'' @ [CHR 0x0A])
              [PLong ((free_bytes info * 100) div total_bytes info)])))
       (printf [CHR 0x0A] []))))))))))"

definition mmtype_process_entry :: "unit io" where
  "mmtype_process_entry =
     bind_io (get_type_of_mm 32) (\<lambda>(r, buf).
     if r \<noteq> 0 then printf (''Memory manager activo: %s'' @ [CHR 0x0A]) [PStr buf]
     else printf (''No se pudo obtener el tipo de memory manager'' @ [CHR 0x0A]) [])"

section \<open>cat, wc, filter\<close>

text \<open>\<open>int n = sys_read(STDIN_FD, buffer, count)\<close>: the first \<open>n\<close> bytes of the buffer are those the kernel
  delivered; a result beyond the buffer or with fewer bytes does not go on.\<close>

definition read_chunk :: "cint \<Rightarrow> string option io" where
  "read_chunk count =
     bind_io (syscall (Sys_read 0 count)) (\<lambda>a.
     let n = (ucast (a_ret a) :: cint)
     in if sint n \<le> 0 then ret_io None
        else if sint count < sint n \<or> length (a_bytes a) < nat (sint n) then stuck_io
        else ret_io (Some (take (nat (sint n)) (a_bytes a))))"

definition cat_body :: "unit \<Rightarrow> (unit + unit) io" where
  "cat_body _ =
     bind_io (read_chunk 255) (\<lambda>r.
     case r of None \<Rightarrow> ret_io (Inr ()) | Some buffer \<Rightarrow> then_io (printf ''%s'' [PStr buffer]) (ret_io (Inl ())))"

definition cat_process_entry :: "unit io" where
  "cat_process_entry = while_io cat_body ()"

definition wc_body :: "cint \<Rightarrow> (cint + cint) io" where
  "wc_body line_count =
     bind_io (read_chunk 256) (\<lambda>r.
     case r of
       None \<Rightarrow> ret_io (Inr line_count)
     | Some buffer \<Rightarrow> ret_io (Inl (line_count + of_nat (length (filter (\<lambda>c. c = CHR 0x0A) buffer)))))"

definition wc_process_entry :: "unit io" where
  "wc_process_entry =
     bind_io (while_io wc_body 0) (\<lambda>line_count. printf (''%d'' @ [CHR 0x0A]) [PInt line_count])"

definition is_vowel :: "char \<Rightarrow> bool" where
  "is_vowel c \<longleftrightarrow> c \<in> set ''aeiouAEIOU''"

definition filter_body :: "unit \<Rightarrow> (unit + unit) io" where
  "filter_body _ =
     bind_io (read_chunk 256) (\<lambda>r.
     case r of
       None \<Rightarrow> ret_io (Inr ())
     | Some buffer \<Rightarrow>
         then_io (for_io (\<lambda>c. when_io (\<not> is_vowel c) (printf ''%c'' [PInt (of_nat (of_char c))])) buffer)
           (ret_io (Inl ())))"

definition filter_process_entry :: "unit io" where
  "filter_process_entry = while_io filter_body ()"

section \<open>mvar\<close>

definition delay_loop :: "cint \<Rightarrow> unit io" where
  "delay_loop amount = modify_io (\<lambda>e. snd (GetUint e))"

text \<open>A name from the arguments, in a buffer of 32 bytes; a decimal number, with \<open>c - '0'\<close> for every
  character.\<close>

definition short_name :: "string option \<Rightarrow> string" where
  "short_name a = (case a of None \<Rightarrow> '''' | Some s \<Rightarrow> take 31 (c_string s))"

definition parse_u64 :: "string \<Rightarrow> u64" where
  "parse_u64 s = foldl (\<lambda>n c. n * 10 + (scast (of_char c :: u8) - 48)) 0 (c_string s)"

definition parse_int :: "string \<Rightarrow> cint" where
  "parse_int s = foldl (\<lambda>n c. n * 10 + (scast (of_char c :: u8) - 48)) 0 (c_string s)"

text \<open>What the writers and the readers take out of their six arguments: the string of their id, the
  three semaphore names in the order of the vector, the pipe and the delay; the vector is freed.\<close>

definition mvar_args :: "ptr \<Rightarrow> (string \<times> string \<times> string \<times> string \<times> u64 \<times> cint) option io" where
  "mvar_args argv =
     (if argv = NULL then ret_io None
      else
        bind_io (get_vec argv) (\<lambda>v.
        bind_io (arg_at v 0) (\<lambda>a0.
        case a0 of
          None \<Rightarrow> ret_io None
        | Some who \<Rightarrow>
            bind_io (arg_at v 1) (\<lambda>a1.
            bind_io (arg_at v 2) (\<lambda>a2.
            bind_io (arg_at v 3) (\<lambda>a3.
            bind_io (arg_at v 4) (\<lambda>a4.
            bind_io (arg_at v 5) (\<lambda>a5.
            let pid = (case a4 of None \<Rightarrow> 0 | Some s \<Rightarrow> parse_u64 s);
                delay = (case a5 of None \<Rightarrow> 1 | Some s \<Rightarrow> if sint (atoi s) \<le> 0 then 1 else atoi s)
            in then_io (for_io (\<lambda>j. when_io (v ! j \<noteq> NULL) (free (v ! j))) [0..<6])
               (then_io (free argv)
               (ret_io (Some (who, short_name a1, short_name a2, short_name a3, pid, delay))))))))))))"

text \<open>Taking the two semaphores, then the transfer of one byte, then giving back: the mutex and the
  other side's semaphore on success, the mutex and the own one otherwise.\<close>

definition mvar_round ::
  "string \<Rightarrow> string \<Rightarrow> string \<Rightarrow> cint \<Rightarrow> bool io \<Rightarrow> unit \<Rightarrow> (unit + unit) io" where
  "mvar_round own other mutex delay transfer _ =
     then_io (delay_loop delay)
     (bind_io (my_sem_wait (Some own)) (\<lambda>r.
     if r = - 1 then ret_io (Inr ())
     else bind_io (my_sem_wait (Some mutex)) (\<lambda>r'.
       if r' = - 1 then then_io (my_sem_post (Some own)) (ret_io (Inr ()))
       else bind_io transfer (\<lambda>ok.
         then_io (my_sem_post (Some mutex))
         (then_io (my_sem_post (Some (if ok then other else own)))
         (ret_io (Inl ())))))))"

definition write_byte :: "char \<Rightarrow> bool io" where
  "write_byte c = bind_io (call (Sys_write 2 [c])) (\<lambda>r. ret_io ((ucast r :: cint) = 1))"

definition mvar_writer_entry :: "ptr \<Rightarrow> unit io" where
  "mvar_writer_entry argv =
     bind_io (mvar_args argv) (\<lambda>r.
     case r of
       None \<Rightarrow> ret_io ()
     | Some (who, slots, items, mutex, pid, delay) \<Rightarrow>
         let writer_id = (case who of [] \<Rightarrow> NUL | c # _ \<Rightarrow> c)
         in bind_io (user_pipe_open pid) (\<lambda>opened.
            when_io (opened \<noteq> 0)
            (bind_io (user_pipe_dup pid 2 1) (\<lambda>dup.
             when_io (dup \<noteq> 0)
             (while_io (mvar_round slots items mutex delay (write_byte writer_id)) ())))))"

definition reader_colors :: "u32 list" where
  "reader_colors = [0x0000FF, 0x00FF00, 0xFF0000, 0x00FFFF, 0xFF00FF, 0xFFFF00]"

text \<open>A negative remainder reads before the array.\<close>

definition my_color :: "cint \<Rightarrow> u32 option" where
  "my_color reader_id =
     (if 0 \<le> sint reader_id then Some (reader_colors ! nat (sint reader_id mod 6))
      else if sint reader_id mod 6 = 0 then Some (reader_colors ! 0) else None)"

definition read_byte :: "u32 \<Rightarrow> bool io" where
  "read_byte color =
     bind_io (syscall (Sys_read 2 1)) (\<lambda>a.
     if (ucast (a_ret a) :: cint) = 1 then
       then_io (call (Sys_video_putChar (case a_bytes a of [] \<Rightarrow> CHR ''?'' | c # _ \<Rightarrow> c) color 0x000000)) (ret_io True)
     else ret_io False)"

definition mvar_reader_entry :: "ptr \<Rightarrow> unit io" where
  "mvar_reader_entry argv =
     bind_io (mvar_args argv) (\<lambda>r.
     case r of
       None \<Rightarrow> ret_io ()
     | Some (who, items, slots, mutex, pid, delay) \<Rightarrow>
         bind_io (user_pipe_open pid) (\<lambda>opened.
         when_io (opened \<noteq> 0)
         (bind_io (user_pipe_dup pid 2 0) (\<lambda>dup.
          when_io (dup \<noteq> 0)
          (case my_color (parse_int who) of
             None \<Rightarrow> stuck_io
           | Some color \<Rightarrow> while_io (mvar_round items slots mutex delay (read_byte color)) ())))))"

end
