(* ===== verification/User_Log.thy ===== *)
theory User_Log
  imports Process_Entries Shell
begin

text \<open>
  What a program reads and writes.  The \<open>log\<close> of a run that returned pairs every call with its answer;
  \<open>logs j m Q\<close> states that \<open>Q\<close> holds of the result and the log of every such run (\<open>j\<close> is what an unwritten
  byte of the stack holds).  The line editor is shown to compute a function of the characters typed, and
  the processes \<open>cat\<close>, \<open>filter\<close> and \<open>wc\<close> a function of the bytes they read.
\<close>

type_synonym log = "(ucall \<times> answer) list"

definition logs :: "char \<Rightarrow> 'a io \<Rightarrow> ('a \<Rightarrow> log \<Rightarrow> bool) \<Rightarrow> bool" where
  "logs j m Q \<longleftrightarrow>
     (\<forall>e r e'. m e = (Some r, e') \<longrightarrow> junk e = j \<longrightarrow>
        junk e' = j \<and> (\<exists>l. script e = map snd l @ script e' \<and> trace e' = trace e @ map fst l \<and> Q r l))"

named_theorems log_rules \<open>the log of a composed program\<close>

lemma logsI:
  assumes "\<And>e r e'. m e = (Some r, e') \<Longrightarrow> junk e = j \<Longrightarrow>
    junk e' = j \<and> (\<exists>l. script e = map snd l @ script e' \<and> trace e' = trace e @ map fst l \<and> Q r l)"
  shows "logs j m Q"
  using assms by (simp add: logs_def)

lemma logsE:
  assumes "logs j m Q" and "m e = (Some r, e')" and "junk e = j"
  obtains l where "junk e' = j" and "script e = map snd l @ script e'" and "trace e' = trace e @ map fst l" and "Q r l"
  using assms unfolding logs_def by blast

lemma logs_mono: "logs j m P \<Longrightarrow> (\<And>r l. P r l \<Longrightarrow> Q r l) \<Longrightarrow> logs j m Q"
  unfolding logs_def by blast

lemma logs_ret [log_rules]: "Q a [] \<Longrightarrow> logs j (ret_io a) Q"
  by (rule logsI) auto

lemma logs_stuck [log_rules]: "logs j stuck_io Q"
  by (rule logsI) simp

lemma logs_junk [log_rules]: "Q j [] \<Longrightarrow> logs j (get_io junk) Q"
  by (rule logsI) auto

lemma logs_syscall [log_rules]: "(\<And>a. Q a [(c, a)]) \<Longrightarrow> logs j (syscall c) Q"
  by (rule logsI) (auto simp: syscall_def split: list.splits intro!: exI [of _ "[(c, _)]"])

lemma logs_bind [log_rules]:
  assumes "logs j m (\<lambda>a l. logs j (f a) (\<lambda>r l'. Q r (l @ l')))"
  shows "logs j (bind_io m f) Q"
proof (rule logsI)
  fix e r e'
  assume "bind_io m f e = (Some r, e')" and j: "junk e = j"
  then obtain a e1 where m: "m e = (Some a, e1)" and f: "f a e1 = (Some r, e')"
    by (auto simp: bind_io_Some)
  obtain l where l: "junk e1 = j" "script e = map snd l @ script e1" "trace e1 = trace e @ map fst l"
      "logs j (f a) (\<lambda>r l'. Q r (l @ l'))"
    by (rule logsE [OF assms m j])
  obtain l' where "junk e' = j" "script e1 = map snd l' @ script e'" "trace e' = trace e1 @ map fst l'" "Q r (l @ l')"
    by (rule logsE [OF l(4) f l(1)])
  then show "junk e' = j \<and> (\<exists>l. script e = map snd l @ script e' \<and> trace e' = trace e @ map fst l \<and> Q r l)"
    using l by (auto intro!: exI [of _ "l @ l'"])
qed

lemma logs_then [log_rules]:
  "logs j m (\<lambda>_ l. logs j n (\<lambda>r l'. Q r (l @ l'))) \<Longrightarrow> logs j (then_io m n) Q"
  unfolding then_io_def by (rule logs_bind)

lemma logs_if [log_rules]: "(b \<Longrightarrow> logs j m Q) \<Longrightarrow> (\<not> b \<Longrightarrow> logs j n Q) \<Longrightarrow> logs j (if b then m else n) Q"
  by simp

lemma logs_option [log_rules]:
  "(x = None \<Longrightarrow> logs j m Q) \<Longrightarrow> (\<And>a. x = Some a \<Longrightarrow> logs j (f a) Q) \<Longrightarrow>
   logs j (case x of None \<Rightarrow> m | Some a \<Rightarrow> f a) Q"
  by (cases x) auto

lemma logs_Let [log_rules]: "(\<And>x. x = v \<Longrightarrow> logs j (f x) Q) \<Longrightarrow> logs j (Let v f) Q"
  by simp

lemma logs_for:
  assumes "\<And>x. x \<in> set xs \<Longrightarrow> logs j (f x) (\<lambda>_ l. R x l)"
  shows "logs j (for_io f xs) (\<lambda>_ l. \<exists>ls. l = concat ls \<and> list_all2 R xs ls)"
  using assms
proof (induction xs)
  case Nil
  then show ?case by (auto intro!: logs_ret exI [of _ "[]"])
next
  case (Cons x xs)
  have "logs j (f x) (\<lambda>_ l. R x l)" and IH: "logs j (for_io f xs) (\<lambda>_ l. \<exists>ls. l = concat ls \<and> list_all2 R xs ls)"
    using Cons by auto
  then show ?case unfolding for_io.simps
    by (intro logs_then) (elim logs_mono, fastforce intro: exI [of _ "_ # _"])
qed

lemma logs_loop:
  assumes "\<And>st. logs j (body st) (\<lambda>r l. case r of
      Inl st' \<Rightarrow> \<forall>v l'. Q st' v l' \<longrightarrow> Q st v (l @ l') | Inr v \<Rightarrow> Q st v l)"
  shows "logs j (loop_io n body st) (Q st)"
proof (induction n arbitrary: st)
  case 0
  then show ?case by (simp add: logs_stuck)
next
  case (Suc n)
  show ?case unfolding loop_io.simps
    by (rule logs_bind, rule logs_mono [OF assms [of st]])
      (auto split: sum.splits intro: logs_ret logs_mono [OF Suc.IH])
qed

text \<open>A loop: \<open>Q st v l\<close> relates the state at the start, the result and the log; every iteration that goes
  on extends the log of the rest at the front.\<close>

lemma logs_while:
  assumes "\<And>st. logs j (body st) (\<lambda>r l. case r of
      Inl st' \<Rightarrow> \<forall>v l'. Q st' v l' \<longrightarrow> Q st v (l @ l') | Inr v \<Rightarrow> Q st v l)"
  shows "logs j (while_io body st) (Q st)"
proof (rule logsI)
  fix e r e'
  assume r: "while_io body st e = (Some r, e')" and j: "junk e = j"
  have "logs j (loop_io (Suc (length (script e))) body st) (Q st)" by (rule logs_loop [OF assms])
  then show "junk e' = j \<and> (\<exists>l. script e = map snd l @ script e' \<and> trace e' = trace e @ map fst l \<and> Q st r l)"
    using r [unfolded while_io_def] j unfolding logs_def by blast
qed

section \<open>Characters\<close>

text \<open>What the program typed and printed: the byte of every successful one-byte read from descriptor 0,
  and the bytes of every write to descriptor 1.\<close>

definition byte_of :: "char \<Rightarrow> answer \<Rightarrow> char" where
  "byte_of j a = (case a_bytes a of [] \<Rightarrow> j | c # _ \<Rightarrow> c)"

definition typed1 :: "char \<Rightarrow> ucall \<times> answer \<Rightarrow> string" where
  "typed1 j p =
     (case p of
        (Sys_read fd n, a) \<Rightarrow> if fd = 0 \<and> (ucast (a_ret a) :: cint) \<noteq> 0 then [byte_of j a] else []
      | _ \<Rightarrow> [])"

definition typed :: "char \<Rightarrow> log \<Rightarrow> string" where
  "typed j l = concat (map (typed1 j) l)"

definition printed1 :: "ucall \<times> answer \<Rightarrow> string" where
  "printed1 p = (case p of (Sys_write fd s, a) \<Rightarrow> if fd = 1 then s else [] | _ \<Rightarrow> [])"

definition printed :: "log \<Rightarrow> string" where
  "printed l = concat (map printed1 l)"

lemma typed_simps [simp]: "typed j [] = []" "typed j (l @ l') = typed j l @ typed j l'"
  "typed j ((c, a) # l) = typed1 j (c, a) @ typed j l"
  by (simp_all add: typed_def)

lemma printed_simps [simp]: "printed [] = []" "printed (l @ l') = printed l @ printed l'"
  "printed ((c, a) # l) = printed1 (c, a) @ printed l"
  by (simp_all add: printed_def)

lemma one_simps [simp]:
  "typed1 j (Sys_write fd s, a) = []" "printed1 (Sys_write 1 s, a) = s" "printed1 (Sys_read fd n, a) = []"
  "typed1 j (Sys_read 0 n, a) = (if (ucast (a_ret a) :: cint) \<noteq> 0 then [byte_of j a] else [])"
  by (simp_all add: typed1_def printed1_def)

lemma putchar_log: "logs j (putchar c) (\<lambda>_ l. typed j l = [] \<and> printed l = [c])"
  unfolding putchar_def call_def by (intro log_rules) auto

lemma byte_read_log: "logs j (byte_read a) (\<lambda>c l. c = byte_of j a \<and> l = [])"
  unfolding byte_read_def byte_of_def by (cases "a_bytes a") (auto intro!: log_rules)

lemma getchar_log: "logs j getchar (\<lambda>c l. typed j l = [c] \<and> printed l = [])"
  unfolding getchar_def getchar_body_def
  by (rule logs_while [where Q = "\<lambda>_ c l. typed j l = [c] \<and> printed l = []"])
    (auto intro!: log_rules logs_mono [OF byte_read_log])

lemma print_log: "logs j (print r) (\<lambda>n l. r \<noteq> None \<and> typed j l = [] \<and> printed l = fst (the r))"
proof (cases r)
  case None
  then show ?thesis by (simp add: print_def logs_stuck)
next
  case (Some p)
  obtain s n where p: "p = (s, n)" by (cases p)
  have "typed j l = [] \<and> printed l = s"
    if "l = concat ls" "list_all2 (\<lambda>c l. typed j l = [] \<and> printed l = [c]) s ls" for l ls
    using that(2) unfolding that(1) by (induction rule: list_all2_induct) auto
  then have "logs j (for_io putchar s) (\<lambda>_ l. typed j l = [] \<and> printed l = s)"
    by (intro logs_mono [OF logs_for [OF putchar_log]]) auto
  then show ?thesis unfolding print_def Some p
    by (auto intro!: logs_then logs_ret elim!: logs_mono)
qed

lemma printf_log:
  "logs j (printf fmt args) (\<lambda>_ l. printf_out fmt args \<noteq> None \<and> typed j l = [] \<and> printed l = fst (the (printf_out fmt args)))"
  unfolding printf_def by (intro logs_then logs_mono [OF print_log] logs_ret) auto

section \<open>The line editor\<close>

text \<open>The line that a sequence of characters makes: a backspace removes the last one, a newline or an end
  of transmission on an empty line ends it, characters beyond the limit are dropped.\<close>

fun line_of :: "cint \<Rightarrow> string \<Rightarrow> string \<Rightarrow> string option" where
  "line_of maxLen buf [] = None"
| "line_of maxLen buf (c # cs) =
     (if c = CHR 0x04 then (if buf = [] then Some [] else line_of maxLen buf cs)
      else if c = CHR 0x0A then Some buf
      else if c = CHR 0x08 then line_of maxLen (butlast buf) cs
      else if int (length buf) < sint maxLen - 1 then line_of maxLen (buf @ [c]) cs
      else line_of maxLen buf cs)"

lemma readLine_log: "logs j (readLine maxLen) (\<lambda>s l. line_of maxLen [] (typed j l) = Some s)"
proof -
  have "logs j (while_io (readLine_body maxLen) buf) (\<lambda>s l. line_of maxLen buf (typed j l) = Some s)" for buf
    unfolding readLine_body_def printf_ret_def
    by (rule logs_while)
      (intro logs_bind logs_mono [OF getchar_log], auto intro!: log_rules logs_mono [OF putchar_log]
        logs_mono [OF printf_log])
  then show ?thesis by (simp add: readLine_def)
qed

end
