(* ===== verification/User_Lib_Correct.thy ===== *)
theory User_Lib_Correct
  imports User_Lib
begin

text \<open>
  The formatting routines: the count \<open>printf\<close> and \<open>sprintf\<close> return is the number of characters, the
  digits always fit the local buffers, and reading a printed number gives the number back.
\<close>

section \<open>Digits\<close>

lemma of_char_digit: "d < 10 \<Longrightarrow> (of_char (digit_char d) :: nat) = 48 + d"
  by (simp add: digit_char_def of_char_of)

lemma digit_char_simps [simp]:
  "d < 10 \<Longrightarrow> is_digit (digit_char d)" "d < 10 \<Longrightarrow> digit_value (digit_char d) = d"
  by (simp_all add: is_digit_def digit_value_def of_char_digit)

lemma digits_rev_digits: "c \<in> set (digits_rev n) \<Longrightarrow> is_digit c"
proof (induction n rule: digits_rev.induct)
  case (1 n)
  then show ?case by (subst (asm) digits_rev.simps) (auto split: if_splits)
qed

text \<open>\<open>n\<close> has at most \<open>k\<close> digits when it is below \<open>10 ^ k\<close>.\<close>

lemma length_digits_rev: "n < 10 ^ k \<Longrightarrow> length (digits_rev n) \<le> k"
proof (induction k arbitrary: n)
  case 0
  then show ?case by (subst digits_rev.simps) simp
next
  case (Suc k)
  then have "n div 10 < 10 ^ k" by (simp add: div_less_iff_less_mult)
  then show ?case using Suc.IH [of "n div 10"] by (subst digits_rev.simps) simp
qed

text \<open>Reading the digits from the most significant one, in any semiring, gives the number.\<close>

definition dec :: "'a::comm_semiring_1 \<Rightarrow> string \<Rightarrow> 'a" where
  "dec acc s = foldl (\<lambda>r c. r * 10 + of_nat (digit_value c)) acc s"

lemma dec_digits: "dec (0 :: 'a::comm_semiring_1) (rev (digits_rev n)) = of_nat n"
proof (induction n rule: digits_rev.induct)
  case (1 n)
  show ?case
  proof (cases "0 < n")
    case True
    have "dec (0 :: 'a) (rev (digits_rev n)) = dec 0 (rev (digits_rev (n div 10))) * 10 + of_nat (n mod 10)"
      using True by (subst digits_rev.simps) (simp add: dec_def)
    also have "\<dots> = of_nat (n div 10 * 10 + n mod 10)"
      using 1 [OF True] by (simp only: of_nat_add of_nat_mult of_nat_numeral)
    finally show ?thesis by (simp only: div_mult_mod_eq)
  next
    case False
    then show ?thesis by (subst digits_rev.simps) (simp add: dec_def)
  qed
qed

lemma atoi_digits_dec: "list_all is_digit s \<Longrightarrow> atoi_digits s acc = dec acc s"
  by (induction s arbitrary: acc) (auto simp: dec_def)

lemma digits_nonempty: "0 < n \<Longrightarrow> digits_rev n \<noteq> []"
  by (subst digits_rev.simps) simp

lemma list_all_digits [simp]: "list_all is_digit (digits_rev n)"
  using digits_rev_digits by (auto simp: list_all_iff)

lemma is_digit_not:
  "is_digit c \<Longrightarrow> c \<noteq> CHR '' '' \<and> c \<noteq> CHR 0x09 \<and> c \<noteq> CHR 0x0A \<and> c \<noteq> CHR ''-'' \<and> c \<noteq> CHR ''+'' \<and> c \<noteq> NUL"
  by (auto simp: is_digit_def)

lemma atoi_digit_string:
  assumes "s \<noteq> []" and "list_all is_digit s"
  shows "atoi s = dec 0 s" and "atoi (CHR ''-'' # s) = - dec 0 s"
proof -
  obtain c r where s: "s = c # r" using assms(1) by (cases s) auto
  then show "atoi s = dec 0 s"
    using assms is_digit_not [of c] atoi_digits_dec [OF assms(2), of 0] by (simp add: atoi_def)
  show "atoi (CHR ''-'' # s) = - dec 0 s"
    using atoi_digits_dec [OF assms(2), of 0] by (simp add: atoi_def)
qed

section \<open>Printed numbers\<close>

lemma digit_buffer_fits: "n < 10 ^ cap \<Longrightarrow> digit_buffer cap n = Some (rev (digits_rev n))"
  using length_digits_rev [of n cap] by (simp add: digit_buffer_def)

definition unsigned_str :: "nat \<Rightarrow> string" where
  "unsigned_str n = (if n = 0 then ''0'' else rev (digits_rev n))"

lemma unsigned_str_digits [simp]: "unsigned_str n \<noteq> []" "list_all is_digit (unsigned_str n)"
  using digits_nonempty [of n] by (simp_all add: unsigned_str_def is_digit_def)

lemma dec_unsigned_str: "dec (0 :: 'a::comm_semiring_1) (unsigned_str n) = of_nat n"
  by (simp add: unsigned_str_def dec_digits) (simp add: dec_def digit_value_def)

lemma length_unsigned_str: "n < 10 ^ Suc k \<Longrightarrow> length (unsigned_str n) \<le> Suc k"
  using length_digits_rev [of n "Suc k"] by (simp add: unsigned_str_def)

lemma append_unsigned_str: "append_unsigned_to_str v = Some (unsigned_str (unat v))"
proof -
  have "unat v < 10 ^ 21" using unat_64_lt [of v] by simp
  then show ?thesis using digit_buffer_fits [of "unat v" 21]
    by (simp add: append_unsigned_to_str_def unsigned_str_def unat_eq_0)
qed

lemma append_signed_str:
  "append_signed_to_str v =
     Some (if sint v < 0 then CHR ''-'' # unsigned_str (unat (- v)) else unsigned_str (unat v))"
  by (simp add: append_signed_to_str_def append_unsigned_str)

text \<open>The magnitude of a C \<open>int\<close> that is widened to 64 bits.\<close>

lemma sint_32: "- 2147483648 \<le> sint (n :: cint)" "sint (n :: cint) < 2147483648"
  using sint_ge [of n] sint_lt [of n] by simp_all

lemma unat_word_of_int: "0 \<le> k \<Longrightarrow> k < 2 ^ 64 \<Longrightarrow> unat (word_of_int k :: u64) = nat k"
  by (simp add: unsigned_of_int take_bit_int_eq_self)

lemma unat_scast_32:
  fixes n :: cint
  shows "0 \<le> sint n \<Longrightarrow> unat (scast n :: u64) = nat (sint n)"
    and "sint n < 0 \<Longrightarrow> unat (- (scast n :: u64)) = nat (- sint n)"
    and "sint (scast n :: u64) = sint n"
proof -
  have s: "(scast n :: u64) = word_of_int (sint n)" by simp
  have m: "- (scast n :: u64) = word_of_int (- sint n)" unfolding s by simp
  show "unat (scast n :: u64) = nat (sint n)" if "0 \<le> sint n"
    unfolding s using that sint_32 [of n] by (intro unat_word_of_int) auto
  show "unat (- (scast n :: u64)) = nat (- sint n)" if "sint n < 0"
    unfolding m using that sint_32 [of n] by (intro unat_word_of_int) auto
  show "sint (scast n :: u64) = sint n"
    using sint_32 [of n] by (simp add: signed_scast_eq signed_take_bit_int_eq_self)
qed

lemma sprintf_d:
  "sprintf_out ''%d'' [PInt n] =
     (let s = (if sint n < 0 then CHR ''-'' # unsigned_str (nat (- sint n)) else unsigned_str (nat (sint n)))
      in Some (s, of_nat (length s)))"
  using unat_scast_32 [of n] by (simp add: take_long_def append_signed_str emit_def Let_def)

lemma sprintf_llu:
  "sprintf_out ''%llu'' [PLong v] =
     Some (unsigned_str (unat v), of_nat (length (unsigned_str (unat v))))"
  by (simp add: take_long_def append_unsigned_str emit_def)

lemma printf_llu: "printf_out ''%llu'' [PLong v] = sprintf_out ''%llu'' [PLong v]"
  using append_unsigned_str [of v]
  by (simp add: take_long_def emit_def print_llu_def append_unsigned_to_str_def split: if_splits)

text \<open>\<open>printf\<close> negates the \<open>int\<close> before it takes the digits, which fails for the least one.\<close>

lemma print_int_str:
  assumes "n \<noteq> 0x80000000"
  shows "print_int n =
    Some (if sint n < 0 then CHR ''-'' # unsigned_str (nat (- sint n)) else unsigned_str (nat (sint n)))"
proof -
  have "sint n \<noteq> sint (0x80000000 :: cint)" using assms signed_word_eqI by blast
  then have "sint n \<noteq> - 2147483648" by simp
  then have neg: "sint (- n) = - sint n" if "sint n < 0"
    using that sint_32 [of n] by (simp add: sint_word_ariths signed_take_bit_int_eq_self)
  have fits: "digit_buffer 12 k = Some (rev (digits_rev k))" if "k < 10 ^ 12" for k
    by (rule digit_buffer_fits [OF that])
  have "nat (- sint n) < 10 ^ 12" "nat (sint n) < 10 ^ 12" using sint_32 [of n] by simp_all
  then show ?thesis using neg fits sint_0 signed_word_eqI [of n 0]
    by (auto simp: print_int_def unsigned_str_def)
qed

lemma length_int_str:
  "length (if sint (n :: cint) < 0 then CHR ''-'' # unsigned_str (nat (- sint n)) else unsigned_str (nat (sint n))) \<le> 11"
proof -
  have "nat (- sint n) < 10 ^ Suc 9" "nat (sint n) < 10 ^ Suc 9" using sint_32 [of n] by simp_all
  from this [THEN length_unsigned_str] show ?thesis by simp
qed

lemma atoi_int_str:
  "atoi (if sint n < 0 then CHR ''-'' # unsigned_str (nat (- sint n)) else unsigned_str (nat (sint n))) = n"
proof (cases "sint n < 0")
  case True
  then have "of_nat (nat (- sint n)) = (- n)" by simp
  then show ?thesis using True by (simp add: atoi_digit_string dec_unsigned_str)
next
  case False
  then have "of_nat (nat (sint n)) = n" by simp
  then show ?thesis using False by (simp add: atoi_digit_string dec_unsigned_str)
qed

end
