(* ===== verification/User_Filters.thy ===== *)
theory User_Filters
  imports User_Log User_Lib_Correct
begin

text \<open>
  The processes that filter their standard input, \<open>cat\<close>, \<open>filter\<close> and \<open>wc\<close>: fed with any sequence of
  chunks and the end of the input, they return, having printed a function of the bytes they were fed.
\<close>

section \<open>Loops that consume\<close>

lemma logs_calls:
  assumes "\<And>j. logs j m (\<lambda>r l. Q r \<longrightarrow> l \<noteq> [])" and "m e = (Some r, e')" and "Q r"
  shows "length (script e') < length (script e)"
proof (rule logsE [OF assms(1) assms(2) refl])
  fix l
  assume "script e = map snd l @ script e'" and "Q r \<longrightarrow> l \<noteq> []"
  then show ?thesis using assms(3) by simp
qed

lemma read_chunk_calls: "logs j (read_chunk n) (\<lambda>_ l. l \<noteq> [])"
  unfolding read_chunk_def by (intro log_rules) auto

lemma calling_loopI:
  assumes "\<And>j st. logs j (body st) (\<lambda>r l. l \<noteq> [])"
  shows "calling_loop body"
proof
  fix st e st' e'
  assume "body st e = (Some (Inl st'), e')"
  then show "length (script e') < length (script e)"
    by (rule logs_calls [of _ "\<lambda>_. True", rotated]) (auto intro: assms)
qed

section \<open>Feeding a process\<close>

definition delivers :: "answer \<Rightarrow> string \<Rightarrow> bool" where
  "delivers a c \<longleftrightarrow> a_bytes a = c \<and> a_ret a = of_nat (length c) \<and> 0 < length c \<and> length c < 256"

definition at_eof :: "answer \<Rightarrow> bool" where
  "at_eof a \<longleftrightarrow> sint (ucast (a_ret a) :: cint) \<le> 0"

text \<open>The answers a process gets when it reads the chunks one by one, with one answer for every
  character it echoes, and then the end of the input.\<close>

fun feed :: "(string \<Rightarrow> string) \<Rightarrow> string list \<Rightarrow> answer list \<Rightarrow> bool" where
  "feed echo [] as \<longleftrightarrow> (\<exists>a. as = [a] \<and> at_eof a)"
| "feed echo (c # cs) as \<longleftrightarrow>
     (\<exists>a ws as'. as = a # ws @ as' \<and> delivers a c \<and> length ws = length (echo c) \<and> feed echo cs as')"

definition written :: "ucall list \<Rightarrow> string" where
  "written tr = concat (map (\<lambda>c. case c of Sys_write fd s \<Rightarrow> if fd = 1 then s else [] | _ \<Rightarrow> []) tr)"

lemma written_simps [simp]: "written [] = []" "written (tr @ tr') = written tr @ written tr'"
  "written (Sys_write 1 s # tr) = s @ written tr" "written (Sys_read fd n # tr) = written tr"
  by (simp_all add: written_def)

text \<open>What an iteration of such a process promises: on a chunk it echoes and goes on with the next state,
  at the end of the input it stops.\<close>

locale stdin_process = calling_loop body
  for body :: "'s \<Rightarrow> ('s + 'r) io" +
  fixes echo :: "string \<Rightarrow> string" and ok :: "string \<Rightarrow> bool" and step :: "'s \<Rightarrow> string \<Rightarrow> 's" and fin :: "'s \<Rightarrow> 'r"
  assumes on_chunk: "delivers a c \<Longrightarrow> ok c \<Longrightarrow> script e = a # ws @ as \<Longrightarrow> length ws = length (echo c) \<Longrightarrow>
      \<exists>tr. body st e = (Some (Inl (step st c)), e\<lparr>script := as, trace := trace e @ tr\<rparr>) \<and> written tr = echo c"
    and on_eof: "at_eof a \<Longrightarrow> script e = a # as \<Longrightarrow>
      \<exists>tr. body st e = (Some (Inr (fin st)), e\<lparr>script := as, trace := trace e @ tr\<rparr>) \<and> written tr = []"
begin

lemma run:
  assumes "feed echo chunks as" and "list_all ok chunks" and "script e = as @ rest"
  shows "\<exists>tr. while_io body st e =
      (Some (fin (foldl step st chunks)), e\<lparr>script := rest, trace := trace e @ tr\<rparr>) \<and>
    written tr = concat (map echo chunks)"
  using assms
proof (induction chunks arbitrary: as st e)
  case Nil
  then obtain a where a: "as = [a]" "at_eof a" by auto
  obtain tr where "body st e = (Some (Inr (fin st)), e\<lparr>script := rest, trace := trace e @ tr\<rparr>)" "written tr = []"
    using on_eof [OF a(2), of e rest st] Nil a by auto
  then show ?case by (subst while_unfold) (auto simp: bind_io_def ret_io_def)
next
  case (Cons c cs)
  then obtain a ws as' where a: "as = a # ws @ as'" "delivers a c" "length ws = length (echo c)" "feed echo cs as'"
    by auto
  obtain tr where tr: "written tr = echo c"
      "body st e = (Some (Inl (step st c)), e\<lparr>script := as' @ rest, trace := trace e @ tr\<rparr>)"
    using on_chunk [OF a(2), of e ws "as' @ rest" st] Cons.prems a by auto
  obtain tr' where "while_io body (step st c) (e\<lparr>script := as' @ rest, trace := trace e @ tr\<rparr>) =
      (Some (fin (foldl step (step st c) cs)), e\<lparr>script := rest, trace := trace e @ tr @ tr'\<rparr>)"
      "written tr' = concat (map echo cs)"
    using Cons.IH [OF a(4), of "e\<lparr>script := as' @ rest, trace := trace e @ tr\<rparr>" "step st c"] Cons.prems by auto
  then show ?case using tr
    by (subst while_unfold) (auto simp: bind_io_def intro!: exI [of _ "tr @ tr'"])
qed

end

section \<open>Reading and printing\<close>

lemma putchar_run:
  "script e = a # as \<Longrightarrow> putchar c e = (Some (), e\<lparr>script := as, trace := trace e @ [Sys_write 1 [c]]\<rparr>)"
  by (simp add: putchar_def call_def then_io_def bind_io_def syscall_def ret_io_def)

lemma puts_run:
  "script e = ws @ as \<Longrightarrow> length ws = length s \<Longrightarrow>
   for_io putchar s e = (Some (), e\<lparr>script := as, trace := trace e @ map (\<lambda>c. Sys_write 1 [c]) s\<rparr>)"
proof (induction s arbitrary: e ws)
  case Nil
  then show ?case by (simp add: ret_io_def)
next
  case (Cons c s)
  then obtain w ws' where ws: "ws = w # ws'" by (cases ws) auto
  then have "putchar c e = (Some (), e\<lparr>script := ws' @ as, trace := trace e @ [Sys_write 1 [c]]\<rparr>)"
    using Cons.prems by (intro putchar_run) simp
  then show ?case using Cons.IH [of "e\<lparr>script := ws' @ as, trace := trace e @ [Sys_write 1 [c]]\<rparr>" ws'] Cons.prems ws
    by (simp add: then_io_def bind_io_def)
qed

lemma written_chars [simp]: "written (map (\<lambda>c. Sys_write 1 [c]) s) = s"
  by (induction s) auto

lemma printf_run:
  assumes "printf_out fmt args = Some (s, n)" and "script e = ws @ as" and "length ws = length s"
  shows "printf fmt args e = (Some (), e\<lparr>script := as, trace := trace e @ map (\<lambda>c. Sys_write 1 [c]) s\<rparr>)"
  using puts_run [OF assms(2,3)] assms(1)
  by (simp add: printf_def print_def then_io_def bind_io_def ret_io_def)

lemma delivers_int:
  assumes "delivers a c"
  shows "sint (ucast (a_ret a) :: cint) = int (length c)"
proof -
  have "(ucast (a_ret a) :: cint) = of_nat (length c)"
    using assms by (auto simp: delivers_def unsigned_of_nat take_bit_nat_eq_self)
  moreover have "length c < 256" using assms by (simp add: delivers_def)
  ultimately show ?thesis by (simp add: signed_of_nat signed_take_bit_int_eq_self)
qed

lemma read_chunk_run:
  assumes "delivers a c" and "script e = a # as" and "255 \<le> sint n"
  shows "read_chunk n e = (Some (Some c), e\<lparr>script := as, trace := trace e @ [Sys_read 0 n]\<rparr>)"
  using assms delivers_int [OF assms(1)]
  by (simp add: read_chunk_def bind_io_def syscall_def ret_io_def delivers_def Let_def)

lemma read_chunk_eof:
  assumes "at_eof a" and "script e = a # as"
  shows "read_chunk n e = (Some None, e\<lparr>script := as, trace := trace e @ [Sys_read 0 n]\<rparr>)"
  using assms by (simp add: read_chunk_def bind_io_def syscall_def ret_io_def at_eof_def Let_def)

section \<open>The three processes\<close>

lemma printf_s: "NUL \<notin> set c \<Longrightarrow> printf_out ''%s'' [PStr c] = Some (c, of_nat (length c))"
proof -
  assume "NUL \<notin> set c"
  then have "c_string c = c" by (auto simp: c_string_def)
  then show ?thesis by (simp add: emit_def)
qed

interpretation cat: stdin_process cat_body "\<lambda>c. c" "\<lambda>c. NUL \<notin> set c" "\<lambda>_ _. ()" "\<lambda>_. ()"
proof (intro stdin_process.intro calling_loopI stdin_process_axioms.intro)
  show "logs j (cat_body st) (\<lambda>r l. l \<noteq> [])" for j st
    unfolding cat_body_def by (intro logs_bind logs_mono [OF read_chunk_calls]) (auto intro!: log_rules logs_mono [OF printf_log])
next
  fix a c ws as and e :: uenv and st :: unit
  assume "delivers a c" "NUL \<notin> set c" and s: "script e = a # ws @ as" "length ws = length c"
  then have r: "read_chunk 255 e = (Some (Some c), e\<lparr>script := ws @ as, trace := trace e @ [Sys_read 0 255]\<rparr>)"
    by (intro read_chunk_run) auto
  have "printf ''%s'' [PStr c] (e\<lparr>script := ws @ as, trace := trace e @ [Sys_read 0 255]\<rparr>) =
      (Some (), e\<lparr>script := as, trace := trace e @ Sys_read 0 255 # map (\<lambda>c. Sys_write 1 [c]) c\<rparr>)"
    using printf_run [OF printf_s, of c "e\<lparr>script := ws @ as, trace := trace e @ [Sys_read 0 255]\<rparr>" ws as]
      \<open>NUL \<notin> set c\<close> s by simp
  then show "\<exists>tr. cat_body st e = (Some (Inl ()), e\<lparr>script := as, trace := trace e @ tr\<rparr>) \<and> written tr = c"
    using r by (auto simp: cat_body_def bind_io_def then_io_def ret_io_def
      intro!: exI [of _ "Sys_read 0 255 # map (\<lambda>c. Sys_write 1 [c]) c"])
next
  fix a as and e :: uenv and st :: unit
  assume "at_eof a" "script e = a # as"
  then show "\<exists>tr. cat_body st e = (Some (Inr ()), e\<lparr>script := as, trace := trace e @ tr\<rparr>) \<and> written tr = []"
    using read_chunk_eof [of a e as 255] by (auto simp: cat_body_def bind_io_def ret_io_def)
qed

definition newlines :: "string \<Rightarrow> nat" where
  "newlines s = length (filter (\<lambda>c. c = CHR 0x0A) s)"

interpretation wc: stdin_process wc_body "\<lambda>_. []" "\<lambda>_. True" "\<lambda>n c. n + of_nat (newlines c)" "\<lambda>n. n"
proof (intro stdin_process.intro calling_loopI stdin_process_axioms.intro)
  show "logs j (wc_body st) (\<lambda>r l. l \<noteq> [])" for j st
    unfolding wc_body_def by (intro logs_bind logs_mono [OF read_chunk_calls]) (auto intro!: log_rules)
next
  fix a c ws as st and e :: uenv
  assume "delivers a c" "script e = a # ws @ as" "length ws = length ([] :: string)"
  then show "\<exists>tr. wc_body st e = (Some (Inl (st + of_nat (newlines c))), e\<lparr>script := as, trace := trace e @ tr\<rparr>) \<and>
      written tr = []"
    using read_chunk_run [of a c e as 256] by (auto simp: wc_body_def bind_io_def ret_io_def newlines_def)
next
  fix a as st and e :: uenv
  assume "at_eof a" "script e = a # as"
  then show "\<exists>tr. wc_body st e = (Some (Inr st), e\<lparr>script := as, trace := trace e @ tr\<rparr>) \<and> written tr = []"
    using read_chunk_eof [of a e as 256] by (auto simp: wc_body_def bind_io_def ret_io_def)
qed

text \<open>\<open>filter\<close> prints the characters that are left one by one.\<close>

lemma printf_c: "printf_out ''%c'' [PInt (of_nat (of_char c))] = Some ([c], 1)"
proof -
  have "(of_char c :: nat) < 2 ^ 32" using nat_of_char_less_256 [of c] by (rule less_trans) simp
  then have "unat (ucast (of_nat (of_char c) :: cint) :: u8) = of_char c"
    by (simp add: unsigned_ucast_eq unsigned_of_nat take_bit_nat_eq_self)
  then show ?thesis by (simp add: emit_def)
qed

lemma filter_line_run:
  "script e = ws @ as \<Longrightarrow> length ws = length (filter (\<lambda>c. \<not> is_vowel c) s) \<Longrightarrow>
   for_io (\<lambda>c. when_io (\<not> is_vowel c) (printf ''%c'' [PInt (of_nat (of_char c))])) s e =
     (Some (), e\<lparr>script := as, trace := trace e @ map (\<lambda>c. Sys_write 1 [c]) (filter (\<lambda>c. \<not> is_vowel c) s)\<rparr>)"
proof (induction s arbitrary: e ws)
  case Nil
  then show ?case by (simp add: ret_io_def)
next
  case (Cons c s)
  show ?case
  proof (cases "is_vowel c")
    case True
    then show ?thesis using Cons by (simp add: when_io_def then_io_def bind_io_def ret_io_def)
  next
    case False
    then obtain w ws' where ws: "ws = w # ws'" using Cons.prems by (cases ws) auto
    have "printf ''%c'' [PInt (of_nat (of_char c))] e =
        (Some (), e\<lparr>script := ws' @ as, trace := trace e @ [Sys_write 1 [c]]\<rparr>)"
      using printf_run [OF printf_c, of e "[w]" "ws' @ as" c] Cons.prems ws by simp
    then show ?thesis
      using False Cons.IH [of "e\<lparr>script := ws' @ as, trace := trace e @ [Sys_write 1 [c]]\<rparr>" ws'] Cons.prems ws
      by (simp add: when_io_def then_io_def bind_io_def del: printf_out.simps)
  qed
qed

lemma when_log: "(b \<Longrightarrow> logs j m Q) \<Longrightarrow> (\<not> b \<Longrightarrow> Q () []) \<Longrightarrow> logs j (when_io b m) Q"
  unfolding when_io_def by (intro log_rules)

interpretation vowels: stdin_process filter_body "filter (\<lambda>c. \<not> is_vowel c)" "\<lambda>_. True" "\<lambda>_ _. ()" "\<lambda>_. ()"
proof (intro stdin_process.intro calling_loopI stdin_process_axioms.intro)
  show "logs j (filter_body st) (\<lambda>r l. l \<noteq> [])" for j st
    unfolding filter_body_def
    by (intro logs_bind logs_mono [OF read_chunk_calls])
      (auto intro!: log_rules when_log logs_mono [OF logs_for [of _ j _ "\<lambda>_ _. True"]] logs_mono [OF printf_log])
next
  fix a c ws as and e :: uenv and st :: unit
  assume "delivers a c" and s: "script e = a # ws @ as" "length ws = length (filter (\<lambda>c. \<not> is_vowel c) c)"
  then have r: "read_chunk 256 e = (Some (Some c), e\<lparr>script := ws @ as, trace := trace e @ [Sys_read 0 256]\<rparr>)"
    by (intro read_chunk_run) auto
  then show "\<exists>tr. filter_body st e = (Some (Inl ()), e\<lparr>script := as, trace := trace e @ tr\<rparr>) \<and>
      written tr = filter (\<lambda>c. \<not> is_vowel c) c"
    using filter_line_run [of "e\<lparr>script := ws @ as, trace := trace e @ [Sys_read 0 256]\<rparr>" ws as c] s
    by (auto simp: filter_body_def bind_io_def then_io_def ret_io_def
      intro!: exI [of _ "Sys_read 0 256 # map (\<lambda>c. Sys_write 1 [c]) (filter (\<lambda>c. \<not> is_vowel c) c)"])
next
  fix a as and e :: uenv and st :: unit
  assume "at_eof a" "script e = a # as"
  then show "\<exists>tr. filter_body st e = (Some (Inr ()), e\<lparr>script := as, trace := trace e @ tr\<rparr>) \<and> written tr = []"
    using read_chunk_eof [of a e as 256] by (auto simp: filter_body_def bind_io_def ret_io_def)
qed

section \<open>Property\<close>

lemma newlines_concat: "foldl (\<lambda>n c. n + of_nat (newlines c)) (n :: cint) cs = n + of_nat (newlines (concat cs))"
  by (induction cs arbitrary: n) (simp_all add: newlines_def ac_simps)

lemma printf_count:
  assumes "k < 2 ^ 31"
  shows "printf_out (''%d'' @ [CHR 0x0A]) [PInt (of_nat k)] =
    Some (unsigned_str k @ [CHR 0x0A], of_nat (length (unsigned_str k)) + 1)"
proof -
  have "sint (of_nat k :: cint) = int k"
    using assms by (simp add: signed_of_nat signed_take_bit_int_eq_self)
  moreover have "(of_nat k :: cint) \<noteq> 0x80000000" using calculation by auto
  ultimately show ?thesis using print_int_str [of "of_nat k"] by (simp add: emit_def)
qed



end
