(* ===== verification/Shell_Commands.thy ===== *)
theory Shell_Commands
  imports Shell
begin

text \<open>
  The commands that start processes, the table of commands, pipelines and the main loop of the shell.
\<close>

section \<open>One process\<close>

definition simple_command :: "string \<Rightarrow> entry \<Rightarrow> string \<Rightarrow> (u64 \<Rightarrow> int io) \<Rightarrow> int io" where
  "simple_command nm entry error k =
     bind_io (get_io is_foreground) (\<lambda>fg.
     bind_io (execute_external_command nm (Entry entry) NULL fg 0 0) (\<lambda>pid.
     if sint pid \<le> 0 then printf_ret error [] CMD_ERROR else k pid))"

definition background_note :: "string \<Rightarrow> u64 \<Rightarrow> int io" where
  "background_note fmt pid =
     bind_io (get_io g_run_in_background) (\<lambda>bg.
     then_io (when_io bg (printf fmt [PLong pid])) (ret_io OK))"

definition psCmd :: "int io" where
  "psCmd =
     simple_command ''ps'' ps_fn (''Error: no se pudo crear el proceso ps.'' @ [CHR 0x0A])
       (background_note (''Proceso ps creado con PID: %lld (background)'' @ [CHR 0x0A]))"

definition memCmd :: "int io" where
  "memCmd =
     simple_command ''mem'' mem_fn (''Error: no se pudo crear el proceso mem.'' @ [CHR 0x0A])
       (background_note (''Proceso mem creado con PID: %lld (background)'' @ [CHR 0x0A]))"

definition mmTypeCmd :: "int io" where
  "mmTypeCmd =
     simple_command ''mmtype'' mmtype_fn (''Error: no se pudo crear el proceso mmtype.'' @ [CHR 0x0A])
       (background_note (''Proceso mmtype creado con PID: %lld (background)'' @ [CHR 0x0A]))"

definition catCmd :: "int io" where
  "catCmd =
     simple_command ''cat'' cat_fn (''Error: no se pudo crear el proceso cat.'' @ [CHR 0x0A]) (\<lambda>_. ret_io OK)"

definition wcCmd :: "int io" where
  "wcCmd =
     simple_command ''wc'' wc_fn (''Error: no se pudo crear el proceso wc.'' @ [CHR 0x0A]) (\<lambda>_. ret_io OK)"

definition filterCmd :: "int io" where
  "filterCmd =
     simple_command ''filter'' filter_fn (''Error: no se pudo crear el proceso filter.'' @ [CHR 0x0A])
       (\<lambda>_. ret_io OK)"

text \<open>\<open>loop\<close> copies its argument; the second cell of the vector is left as it is.\<close>

definition loopCmd :: "string list \<Rightarrow> int io" where
  "loopCmd argv =
     (let no_memory = printf_ret (''Error: no se pudo asignar memoria para el proceso.'' @ [CHR 0x0A]) [] CMD_ERROR
      in if length argv \<noteq> 2 then printf_ret (''Uso: loop <segundos> [&]'' @ [CHR 0x0A]) [] CMD_ERROR
      else if sint (atoi (argv ! 1)) \<le> 0 then
        printf_ret (''Error: el tiempo debe ser un numero positivo.'' @ [CHR 0x0A]) [] CMD_ERROR
      else bind_io (malloc 32) (\<lambda>seconds_str.
        if seconds_str = NULL then no_memory
        else then_io (put_obj seconds_str (Str (take 31 (c_string (argv ! 1)))))
          (bind_io (malloc 16) (\<lambda>process_argv.
           if process_argv = NULL then then_io (free seconds_str) no_memory
           else then_io (put_obj process_argv (Vec [seconds_str]))
             (bind_io (get_io is_foreground) (\<lambda>fg.
              bind_io (execute_external_command ''loop_process'' (Entry loop_fn) process_argv fg 0 0) (\<lambda>pid.
              if sint pid \<le> 0 then
                then_io (free seconds_str) (then_io (free process_argv)
                (printf_ret (''Error: no se pudo crear el proceso loop.'' @ [CHR 0x0A]) [] CMD_ERROR))
              else bind_io (get_io g_run_in_background) (\<lambda>bg.
                then_io (printf (''Proceso loop creado con PID: %lld%s'' @ [CHR 0x0A])
                           [PLong pid, PStr (if bg then '' (background)'' else '''')])
                (then_io (when_io (\<not> bg) (printf ([CHR 0x0A] @ ''Proceso loop terminado.'' @ [CHR 0x0A]) []))
                (ret_io OK))))))))))"

section \<open>Tests\<close>

text \<open>The loop of \<open>copy_args\<close>, with the pointers to the copies made so far; on failure they are freed.\<close>

fun copy_args_loop :: "string list \<Rightarrow> ptr list \<Rightarrow> ptr list option io" where
  "copy_args_loop [] copies = ret_io (Some copies)"
| "copy_args_loop (arg # args) copies =
     bind_io (malloc (user_strlen arg + 1)) (\<lambda>p.
     if p = NULL then then_io (for_io free copies) (ret_io None)
     else then_io (put_obj p (Str (c_string arg))) (copy_args_loop args (copies @ [p])))"

definition copy_args :: "string list \<Rightarrow> ptr option io" where
  "copy_args argv =
     bind_io (malloc (of_nat (length argv) * 8 + 8)) (\<lambda>process_argv.
     if process_argv = NULL then ret_io None
     else bind_io (copy_args_loop (tl argv) []) (\<lambda>r.
       case r of
         None \<Rightarrow> then_io (free process_argv) (ret_io None)
       | Some copies \<Rightarrow> then_io (put_obj process_argv (Vec (copies @ [NULL]))) (ret_io (Some process_argv))))"

definition free_args :: "ptr \<Rightarrow> unit io" where
  "free_args args =
     when_io (args \<noteq> NULL)
       (bind_io (get_vec args) (\<lambda>v. then_io (for_io free (takeWhile (\<lambda>p. p \<noteq> NULL) v)) (free args)))"

definition launch_test :: "string \<Rightarrow> entry \<Rightarrow> string list \<Rightarrow> int io" where
  "launch_test proc_name entry argv =
     bind_io (copy_args argv) (\<lambda>r.
     case r of
       None \<Rightarrow> printf_ret (''Error: no se pudo asignar memoria para el proceso.'' @ [CHR 0x0A]) [] CMD_ERROR
     | Some args \<Rightarrow>
         bind_io (get_io is_foreground) (\<lambda>is_fg.
         bind_io (execute_external_command proc_name (Entry entry) args is_fg 0 0) (\<lambda>pid.
         if sint pid \<le> 0 then
           then_io (free_args args)
           (printf_ret (''Error: no se pudo crear el proceso %s.'' @ [CHR 0x0A]) [PStr proc_name] CMD_ERROR)
         else bind_io (get_io g_run_in_background) (\<lambda>bg.
           then_io (when_io bg (printf (''Test %s iniciado con PID: %lld (background)'' @ [CHR 0x0A])
                      [PStr proc_name, PLong pid]))
           (then_io (free_args args) (ret_io OK))))))"

definition testMMCmd :: "string list \<Rightarrow> int io" where
  "testMMCmd argv =
     (if length argv \<noteq> 2 then printf_ret (''Uso: testmm <max_mem> [&]'' @ [CHR 0x0A]) [] CMD_ERROR
      else launch_test ''test_mm'' test_mm_fn argv)"

text \<open>The source file is encoded in UTF-8: an accented letter is two bytes.\<close>

definition sync_usage :: "string \<Rightarrow> int io" where
  "sync_usage usage =
     then_io (printf (usage @ [CHR 0x0A]) [])
     (then_io (printf (''  repeticiones: n'' @ [CHR 0xC3, CHR 0xBA] @ ''mero de iteraciones por proceso'' @ [CHR 0x0A]) [])
     (printf_ret (''  num_pares: n'' @ [CHR 0xC3, CHR 0xBA] @
        ''mero de pares de procesos (opcional, default=2)'' @ [CHR 0x0A]) [] CMD_ERROR))"

definition testSyncCmd :: "string list \<Rightarrow> int io" where
  "testSyncCmd argv =
     (if length argv < 2 \<or> 3 < length argv
      then sync_usage ''Uso: test_sync <repeticiones> [num_pares] [&]''
      else launch_test ''test_synchro'' test_sync_fn argv)"

definition testNoSynchroCmd :: "string list \<Rightarrow> int io" where
  "testNoSynchroCmd argv =
     (if length argv < 2 \<or> 3 < length argv
      then sync_usage ''Uso: test_no_synchro <repeticiones> [num_pares] [&]''
      else launch_test ''test_no_synchro'' test_no_synchro_fn argv)"

definition testProcesesCmd :: "string list \<Rightarrow> int io" where
  "testProcesesCmd argv =
     (if length argv \<noteq> 2 then printf_ret (''Uso: test_proceses <max_proceses> [&]'' @ [CHR 0x0A]) [] CMD_ERROR
      else launch_test ''test_processes'' test_processes_fn argv)"

definition testPriorityCmd :: "string list \<Rightarrow> int io" where
  "testPriorityCmd argv =
     (if length argv \<noteq> 2 then printf_ret (''Uso: test_priority <max_value> [&]'' @ [CHR 0x0A]) [] CMD_ERROR
      else launch_test ''test_prio'' test_prio_fn argv)"

section \<open>mvar\<close>

text \<open>\<open>sprintf\<close> into a fresh buffer of \<open>cap\<close> bytes, as a string.\<close>

definition sprintf_str :: "nat \<Rightarrow> string \<Rightarrow> parg list \<Rightarrow> string option" where
  "sprintf_str cap fmt args = map_option (\<lambda>(_, buf). c_string buf) (sprintf (replicate cap NUL) fmt args)"

definition sprintf_io :: "nat \<Rightarrow> string \<Rightarrow> parg list \<Rightarrow> string io" where
  "sprintf_io cap fmt args = (case sprintf_str cap fmt args of None \<Rightarrow> stuck_io | Some s \<Rightarrow> ret_io s)"

text \<open>The six strings of an argument vector: the size asked for and the contents.  When there is no
  memory for one, those before it and the vector are freed and the process is not started.\<close>

fun alloc_strings :: "(u64 \<times> string option) list \<Rightarrow> ptr list \<Rightarrow> ptr list option io" where
  "alloc_strings [] ps = ret_io (Some ps)"
| "alloc_strings ((sz, contents) # rest) ps =
     bind_io (malloc sz) (\<lambda>p.
     if p = NULL then then_io (for_io free ps) (ret_io None)
     else case contents of
       None \<Rightarrow> stuck_io
     | Some s \<Rightarrow> then_io (put_obj p (Str s)) (alloc_strings rest (ps @ [p])))"

definition start_mvar_process ::
  "string \<Rightarrow> entry \<Rightarrow> (u64 \<times> string option) list \<Rightarrow> unit io \<Rightarrow> unit io \<Rightarrow> unit io" where
  "start_mvar_process nm entry strings no_vector no_process =
     bind_io (malloc (7 * 8)) (\<lambda>process_argv.
     if process_argv = NULL then no_vector
     else bind_io (alloc_strings strings []) (\<lambda>r.
       case r of
         None \<Rightarrow> free process_argv
       | Some ps \<Rightarrow>
           then_io (put_obj process_argv (Vec (ps @ [NULL])))
           (bind_io (sprintf_io 32 nm []) (\<lambda>name.
            bind_io (my_create_process name (Entry entry) process_argv 1 0) (\<lambda>pid.
            when_io (sint pid \<le> 0) (then_io no_process (then_io (for_io free ps) (free process_argv)))))))) "

definition string_item :: "string \<Rightarrow> u64 \<times> string option" where
  "string_item s = (user_strlen s + 1, Some s)"

definition start_writer :: "string \<Rightarrow> string \<Rightarrow> string \<Rightarrow> u64 \<Rightarrow> nat \<Rightarrow> unit io" where
  "start_writer slots items mutex pid i =
     start_mvar_process ''mvar_writer'' mvar_writer_fn
       [(2, Some [char_of (65 + i mod 26)]), string_item slots, string_item items, string_item mutex,
        (32, sprintf_str 32 ''%llu'' [PLong pid]),
        (12, sprintf_str 12 ''%d'' [PInt (of_nat (2 + i mod 3))])]
       (printf (''Error: no se pudo asignar memoria para escritor %d.'' @ [CHR 0x0A]) [PInt (of_nat i)])
       (printf (''Error: no se pudo crear el escritor %c.'' @ [CHR 0x0A]) [PInt (of_nat (65 + i mod 26))])"

definition start_reader :: "string \<Rightarrow> string \<Rightarrow> string \<Rightarrow> u64 \<Rightarrow> nat \<Rightarrow> unit io" where
  "start_reader slots items mutex pid j =
     start_mvar_process ''mvar_reader'' mvar_reader_fn
       [(12, sprintf_str 12 ''%d'' [PInt (of_nat j)]), string_item items, string_item slots, string_item mutex,
        (32, sprintf_str 32 ''%llu'' [PLong pid]),
        (12, sprintf_str 12 ''%d'' [PInt (of_nat (3 + j mod 3))])]
       (printf (''Error: no se pudo asignar memoria para lector %d.'' @ [CHR 0x0A]) [PInt (of_nat j)])
       (printf (''Error: no se pudo crear el lector %d.'' @ [CHR 0x0A]) [PInt (of_nat j)])"

text \<open>\<open>my_sem_open\<close> is compared with \<open>< 0\<close>.\<close>

definition mvarCmd :: "string list \<Rightarrow> int io" where
  "mvarCmd argv =
     (if length argv \<noteq> 3 then
        then_io (printf (''Uso: mvar <num_escritores> <num_lectores>'' @ [CHR 0x0A]) [])
        (then_io (printf (''  num_escritores: cantidad de procesos escritores (1-26)'' @ [CHR 0x0A]) [])
        (printf_ret (''  num_lectores: cantidad de procesos lectores (1-20)'' @ [CHR 0x0A]) [] CMD_ERROR))
      else let num_writers = atoi (argv ! 1); num_readers = atoi (argv ! 2)
      in if sint num_writers \<le> 0 \<or> 26 < sint num_writers then
        printf_ret (''Error: num_escritores debe estar entre 1 y 26.'' @ [CHR 0x0A]) [] CMD_ERROR
      else if sint num_readers \<le> 0 \<or> 20 < sint num_readers then
        printf_ret (''Error: num_lectores debe estar entre 1 y 20.'' @ [CHR 0x0A]) [] CMD_ERROR
      else
        bind_io my_getpid (\<lambda>current_pid.
        bind_io (sprintf_io 32 ''%llx'' [PLong current_pid]) (\<lambda>suffix.
        bind_io (sprintf_io 32 ''mvar_slots_%s'' [PStr suffix]) (\<lambda>slots.
        bind_io (sprintf_io 32 ''mvar_items_%s'' [PStr suffix]) (\<lambda>items.
        bind_io (sprintf_io 32 ''mvar_mutex_%s'' [PStr suffix]) (\<lambda>mutex.
        bind_io (my_sem_open (Some slots) 1) (\<lambda>r1.
        if sint r1 < 0 then
          printf_ret (''Error: no se pudo crear el semaforo slots.'' @ [CHR 0x0A]) [] CMD_ERROR
        else bind_io (my_sem_open (Some items) 0) (\<lambda>r2.
        if sint r2 < 0 then
          then_io (printf (''Error: no se pudo crear el semaforo items.'' @ [CHR 0x0A]) [])
          (then_io (my_sem_close (Some slots)) (ret_io CMD_ERROR))
        else bind_io (my_sem_open (Some mutex) 1) (\<lambda>r3.
        if sint r3 < 0 then
          then_io (printf (''Error: no se pudo crear el semaforo mutex.'' @ [CHR 0x0A]) [])
          (then_io (my_sem_close (Some slots)) (then_io (my_sem_close (Some items)) (ret_io CMD_ERROR)))
        else bind_io user_pipe_create (\<lambda>pid.
        if pid = 0 then
          then_io (printf (''Error: no se pudo crear el pipe.'' @ [CHR 0x0A]) [])
          (then_io (my_sem_close (Some slots)) (then_io (my_sem_close (Some items))
          (then_io (my_sem_close (Some mutex)) (ret_io CMD_ERROR))))
        else
          then_io (printf (''Iniciando simulacion de MVar con %d escritores y %d lectores...'' @ [CHR 0x0A])
                     [PInt num_writers, PInt num_readers])
          (then_io (printf (''Pipe ID: %llu'' @ [CHR 0x0A]) [PLong pid])
          (then_io (for_io (start_writer slots items mutex pid) [0..<nat (sint num_writers)])
          (then_io (for_io (start_reader slots items mutex pid) [0..<nat (sint num_readers)])
          (then_io (printf (''Todos los procesos lectores y escritores han sido creados.'' @ [CHR 0x0A]) [])
          (printf_ret (''El proceso principal termina. Los procesos continuaran ejecutandose en background.'' @ [CHR 0x0A])
             [] OK)))))))))))))))"

end
