(* ===== verification/Shell_Loop.thy ===== *)
theory Shell_Loop
  imports Shell_Commands
begin

text \<open>
  The table of commands (\<open>shell/commands.c\<close>), pipelines and the dispatch of a line
  (\<open>shell/command_parser.c\<close>), and the main loop (\<open>shell/shell.c\<close>).
\<close>

section \<open>Table of commands\<close>

datatype cmd_fn =
    HelpCmd | ExitCmd | SetUserCmd | ClearCmd | TestMMCmd | TestProcesesCmd | TestSyncCmd
  | TestNoSynchroCmd | TestPriorityCmd | ExceptionCmd | MmTypeCmd | PsCmd | LoopCmd | KillCmd
  | NiceCmd | BlockCmd | MemCmd | CatCmd | WcCmd | FilterCmd | MvarCmd

record TShellCmd =
  cmd_name :: string
  cmd_function :: cmd_fn
  cmd_help :: string
  cmd_is_builtin :: bool

definition cmd :: "string \<Rightarrow> cmd_fn \<Rightarrow> string \<Rightarrow> bool \<Rightarrow> TShellCmd" where
  "cmd nm f h b = \<lparr>cmd_name = nm, cmd_function = f, cmd_help = h @ [CHR 0x0A], cmd_is_builtin = b\<rparr>"

text \<open>The entries before the terminating one.\<close>

definition shellCmds :: "TShellCmd list" where
  "shellCmds =
    [cmd ''help'' HelpCmd '': Muestra los comandos disponibles'' True,
     cmd ''exit'' ExitCmd '': Salir del shell'' True,
     cmd ''set-user'' SetUserCmd '': Setea el nombre de usuario, con un maximo de 10 caracteres'' True,
     cmd ''clear'' ClearCmd '': Limpia la pantalla'' True,
     cmd ''testmm'' TestMMCmd '': Ejecuta el stress test de memoria. Uso: testmm <max_mem>'' False,
     cmd ''test_proceses'' TestProcesesCmd
       '': Ejecuta el stress test de procesos. Uso: test_proceses <max_proceses>'' False,
     cmd ''test_synchro'' TestSyncCmd
       '': Ejecuta test sincronizado con semaforos. Uso: test_synchro <repeticiones>'' False,
     cmd ''test_no_synchro'' TestNoSynchroCmd
       '': Ejecuta test sin sincronizacion. Uso: test_no_synchro <repeticiones>'' False,
     cmd ''test_priority'' TestPriorityCmd '': Ejecuta el test de prioridades. Uso: test_priority <max_value>'' False,
     cmd ''exceptions'' ExceptionCmd
       '': Testear excepciones. Ingrese: exceptions [zero/invalidOpcode] para testear alguna operacion'' True,
     cmd ''mmtype'' MmTypeCmd '': Muestra el tipo de memory manager activo'' False,
     cmd ''ps'' PsCmd '': Lista todos los procesos con sus propiedades'' False,
     cmd ''loop'' LoopCmd
       '': Crea un proceso que imprime su ID con saludo cada X segundos. Uso: loop <segundos>'' False,
     cmd ''kill'' KillCmd '': Mata un proceso por PID. Uso: kill <pid>'' True,
     cmd ''nice'' NiceCmd '': Cambia la prioridad de un proceso. Uso: nice <pid> <prioridad>'' True,
     cmd ''block'' BlockCmd '': Cambia el estado de un proceso entre bloqueado y listo. Uso: block <pid>'' True,
     cmd ''mem'' MemCmd '': Imprime el estado de la memoria'' False,
     cmd ''cat'' CatCmd '': Imprime el stdin tal como lo recibe'' False,
     cmd ''wc'' WcCmd '': Cuenta la cantidad de lineas del input'' False,
     cmd ''filter'' FilterCmd '': Filtra las vocales del input'' False,
     cmd ''mvar'' MvarCmd '': Simula MVar con lectores/escritores. Uso: mvar <escritores> <lectores>'' False]"

definition helpCmd :: "int io" where
  "helpCmd =
     then_io (printf ''%s'' [PStr (''Comandos disponibles:'' @ [CHR 0x0A])])
     (then_io (for_io (\<lambda>c. then_io (printf ''%s'' [PStr (cmd_name c)]) (printf ''%s'' [PStr (cmd_help c)])) (tl shellCmds))
     (ret_io OK))"

fun run_command :: "cmd_fn \<Rightarrow> string list \<Rightarrow> int io" where
  "run_command HelpCmd argv = helpCmd"
| "run_command ExitCmd argv = exitCmd"
| "run_command SetUserCmd argv = setUserCmd"
| "run_command ClearCmd argv = clearCmd"
| "run_command TestMMCmd argv = testMMCmd argv"
| "run_command TestProcesesCmd argv = testProcesesCmd argv"
| "run_command TestSyncCmd argv = testSyncCmd argv"
| "run_command TestNoSynchroCmd argv = testNoSynchroCmd argv"
| "run_command TestPriorityCmd argv = testPriorityCmd argv"
| "run_command ExceptionCmd argv = exceptionCmd argv"
| "run_command MmTypeCmd argv = mmTypeCmd"
| "run_command PsCmd argv = psCmd"
| "run_command LoopCmd argv = loopCmd argv"
| "run_command KillCmd argv = killCmd argv"
| "run_command NiceCmd argv = niceCmd argv"
| "run_command BlockCmd argv = blockCmd argv"
| "run_command MemCmd argv = memCmd"
| "run_command CatCmd argv = catCmd"
| "run_command WcCmd argv = wcCmd"
| "run_command FilterCmd argv = filterCmd"
| "run_command MvarCmd argv = mvarCmd argv"

definition find_command_index :: "string \<Rightarrow> nat option" where
  "find_command_index nm =
     List.find (\<lambda>i. user_strcmp nm (cmd_name (shellCmds ! i)) = 0) [0..<length shellCmds]"

definition get_process_entry_function :: "nat \<Rightarrow> ufun" where
  "get_process_entry_function cmd_idx =
     (let nm = cmd_name (shellCmds ! cmd_idx)
      in if user_strcmp nm ''cat'' = 0 then Entry cat_fn
         else if user_strcmp nm ''wc'' = 0 then Entry wc_fn
         else if user_strcmp nm ''filter'' = 0 then Entry filter_fn
         else if user_strcmp nm ''ps'' = 0 then Entry ps_fn
         else if user_strcmp nm ''loop'' = 0 then Entry loop_fn
         else if user_strcmp nm ''mem'' = 0 then Entry mem_fn
         else if user_strcmp nm ''mmtype'' = 0 then Entry mmtype_fn
         else if user_strcmp nm ''testmm'' = 0 then Entry test_mm_fn
         else if user_strcmp nm ''test_proceses'' = 0 then Entry test_processes_fn
         else if user_strcmp nm ''test_synchro'' = 0 then Entry test_sync_fn
         else if user_strcmp nm ''test_no_synchro'' = 0 then Entry test_no_synchro_fn
         else if user_strcmp nm ''test_priority'' = 0 then Entry test_prio_fn
         else Addr 0)"

section \<open>Pipelines\<close>

text \<open>The arguments of a process in a pipeline: a copy of each, \<open>NULL\<close> where there is no memory for it.\<close>

fun copy_pipe_args :: "string list \<Rightarrow> ptr list io" where
  "copy_pipe_args [] = ret_io []"
| "copy_pipe_args (arg # args) =
     (let len = user_strlen arg + 1
      in bind_io (malloc len) (\<lambda>p.
         then_io (when_io (p \<noteq> NULL)
           (case user_strncpy (replicate (unat len) NUL) arg len of
              None \<Rightarrow> stuck_io
            | Some buf \<Rightarrow> put_obj p (Str (c_string buf))))
         (bind_io (copy_pipe_args args) (\<lambda>ps. ret_io (p # ps)))))"

definition pipe_argv :: "string list \<Rightarrow> ptr io" where
  "pipe_argv args =
     (if 1 < length args then
        bind_io (malloc (of_nat (length args) * 8)) (\<lambda>v.
        if v = NULL then ret_io NULL
        else bind_io (copy_pipe_args (tl args)) (\<lambda>ps. then_io (put_obj v (Vec (ps @ [NULL]))) (ret_io v)))
      else ret_io NULL)"

definition free_pipe_argv :: "ptr \<Rightarrow> unit io" where
  "free_pipe_argv v =
     when_io (v \<noteq> NULL)
       (bind_io (get_vec v) (\<lambda>ps. then_io (for_io free (takeWhile (\<lambda>p. p \<noteq> NULL) ps)) (free v)))"

text \<open>Both processes of a pipeline, once their entry functions are known.\<close>

definition run_pipeline :: "nat \<Rightarrow> nat \<Rightarrow> string list \<Rightarrow> string list \<Rightarrow> u64 \<Rightarrow> int io" where
  "run_pipeline left_idx right_idx left_args right_args pid =
     bind_io (pipe_argv left_args) (\<lambda>left_argv.
     bind_io (pipe_argv right_args) (\<lambda>right_argv.
     bind_io (execute_external_command (cmd_name (shellCmds ! left_idx)) (get_process_entry_function left_idx)
                left_argv 0 0 pid) (\<lambda>left_pid.
     bind_io
       (if 0 < sint left_pid then
          bind_io (execute_external_command (cmd_name (shellCmds ! right_idx)) (get_process_entry_function right_idx)
                     right_argv 1 pid 0) (\<lambda>right_pid.
          if 0 < sint right_pid then ret_io OK
          else then_io (printf (''Error: el comando '' @ [CHR 0x27] @ ''%s'' @ [CHR 0x27] @
                          '' no puede usarse en un pipe.'' @ [CHR 0x0A]) [PStr (cmd_name (shellCmds ! right_idx))])
            (then_io (my_kill left_pid) (ret_io CMD_ERROR)))
        else printf_ret (''Error: el comando '' @ [CHR 0x27] @ ''%s'' @ [CHR 0x27] @
                '' no puede usarse en un pipe.'' @ [CHR 0x0A]) [PStr (cmd_name (shellCmds ! left_idx))] CMD_ERROR)
       (\<lambda>status.
     then_io (when_io (status = OK \<and> 0 < sint left_pid)
       (then_io my_yield (then_io (my_kill left_pid) (ret_io ()))))
     (then_io (free_pipe_argv left_argv)
     (then_io (free_pipe_argv right_argv) (ret_io status)))))))"

definition execute_pipeline :: "string \<Rightarrow> string \<Rightarrow> int io" where
  "execute_pipeline left_input right_input =
     (let left_args = fillCommandAndArgs left_input; right_args = fillCommandAndArgs right_input
      in if left_args = [] \<or> right_args = [] then
           printf_ret (''Error: formato de pipe invalido.'' @ [CHR 0x0A]) [] CMD_ERROR
         else if user_strcmp (last left_args) ''&'' = 0 \<or> user_strcmp (last right_args) ''&'' = 0 then
           printf_ret (''Error: los pipes no soportan ejecucion en background.'' @ [CHR 0x0A]) [] CMD_ERROR
         else case (find_command_index (hd left_args), find_command_index (hd right_args)) of
             (Some left_idx, Some right_idx) \<Rightarrow>
               if cmd_is_builtin (shellCmds ! left_idx) \<or> cmd_is_builtin (shellCmds ! right_idx) then
                 printf_ret (''Error: los pipes solo pueden usarse con comandos externos.'' @ [CHR 0x0A]) [] CMD_ERROR
               else bind_io user_pipe_create (\<lambda>pid.
                 if pid = 0 then printf_ret (''Error: no se pudo crear el pipe.'' @ [CHR 0x0A]) [] CMD_ERROR
                 else if get_process_entry_function left_idx = Addr 0 \<or> get_process_entry_function right_idx = Addr 0
                 then printf_ret (''Error: no se pudo obtener la funcion de entrada del proceso.'' @ [CHR 0x0A]) [] CMD_ERROR
                 else run_pipeline left_idx right_idx left_args right_args pid)
           | _ \<Rightarrow> ret_io ERROR)"

section \<open>Lines\<close>

text \<open>A line with a \<open>|\<close> is a pipeline of what is before the first one and what is after it.\<close>

definition CommandParse :: "string \<Rightarrow> int io" where
  "CommandParse commandInput =
     (let line = c_string commandInput
      in if CHR ''|'' \<in> set line then
           let left_input = takeWhile (\<lambda>c. c \<noteq> CHR ''|'') line;
               right_input = skip_while (\<lambda>c. c = CHR '' '') (tl (dropWhile (\<lambda>c. c \<noteq> CHR ''|'') line))
           in if contains_pipe_symbol right_input then
                printf_ret (''Error: solo se admite un pipe por comando.'' @ [CHR 0x0A]) [] CMD_ERROR
              else execute_pipeline left_input right_input
         else let args = fillCommandAndArgs line
           in if args = [] then ret_io ERROR
              else let is_background = (user_strcmp (last args) ''&'' = 0);
                       argv = (if is_background then butlast args else args)
                in if argv = [] then ret_io ERROR
                   else case find_command_index (hd args) of
                       None \<Rightarrow> ret_io ERROR
                     | Some i \<Rightarrow>
                         then_io (modify_io (\<lambda>e. e\<lparr>g_run_in_background := is_background\<rparr>))
                         (bind_io (run_command (cmd_function (shellCmds ! i)) argv) (\<lambda>result.
                         then_io (modify_io (\<lambda>e. e\<lparr>g_run_in_background := False\<rparr>)) (ret_io result))))"

definition to_lower :: "char \<Rightarrow> char" where
  "to_lower c =
     (if 65 \<le> (of_char c :: nat) \<and> (of_char c :: nat) \<le> 90 then char_of ((of_char c :: nat) + 32) else c)"

text \<open>The line read by \<open>readLine\<close> has no newline: the newline ends it before it is stored; the check for
  one is kept.\<close>

definition clean_line :: "string \<Rightarrow> string" where
  "clean_line buffer = map to_lower (if last buffer = CHR 0x0A then butlast buffer else buffer)"

definition WELCOME_MESSAGE :: string where
  "WELCOME_MESSAGE = ''Bienvenido a la shell del grupo 28!'' @ [CHR 0x0A]"

definition NOT_FOUND_MESSAGE :: string where
  "NOT_FOUND_MESSAGE = ''Comando no encontrado, escriba help para ver los comandos disponibles'' @ [CHR 0x0A]"

definition shell_body :: "unit \<Rightarrow> (unit + unit) io" where
  "shell_body _ =
     then_io shellPrompt
     (bind_io (readLine MAX_LINE_LENGTH) (\<lambda>buffer.
     let line = c_string buffer
     in if line = [] then ret_io (Inl ())
        else bind_io (CommandParse (clean_line line)) (\<lambda>result.
          if result = ERROR then printf_ret ''%s'' [PStr NOT_FOUND_MESSAGE] (Inl ())
          else if result = EXIT_CODE then ret_io (Inr ())
          else ret_io (Inl ()))))"

definition shellLoop :: "unit io" where
  "shellLoop = then_io (printf ''%s'' [PStr WELCOME_MESSAGE]) (while_io shell_body ())"

text \<open>\<open>main\<close> of the user image (\<open>sampleCodeModule.c\<close>).\<close>

definition main :: "int io" where
  "main = then_io shellLoop (ret_io 0)"

end
