(* ===== verification/Shell_Correct.thy ===== *)
theory Shell_Correct
  imports Shell_Loop User_Lib_Correct
begin

text \<open>
  The shell: splitting a line into words, the bounds of the line editor, which system calls the
  commands can make, and how a pipeline is wired.
\<close>

section \<open>Words\<close>

text \<open>The words of a line, separated by blanks; at most \<open>k\<close> of them, where the last one keeps the rest of
  the line.\<close>

function words :: "string \<Rightarrow> string list" where
  "words [] = []"
| "words (c # s) =
     (if c = CHR '' '' then words s
      else takeWhile (\<lambda>c. c \<noteq> CHR '' '') (c # s) # words (dropWhile (\<lambda>c. c \<noteq> CHR '' '') s))"
  by pat_completeness auto
termination
  by (relation "measure length") (auto simp: less_Suc_eq_le length_dropWhile_le)

text \<open>The limit on the number of words: the last slot takes everything that is left.\<close>

function words_upto :: "nat \<Rightarrow> string \<Rightarrow> string list" where
  "words_upto k [] = []"
| "words_upto k (c # s) =
     (if k = 0 then []
      else if c = CHR '' '' then words_upto k s
      else if k = 1 then [c # s]
      else takeWhile (\<lambda>c. c \<noteq> CHR '' '') (c # s) # words_upto (k - 1) (dropWhile (\<lambda>c. c \<noteq> CHR '' '') s))"
  by pat_completeness auto
termination
  by (relation "measure (length \<circ> snd)") (auto simp: less_Suc_eq_le length_dropWhile_le)

lemma words_upto_words: "length (words s) < k \<Longrightarrow> words_upto k s = words s"
proof (induction k s rule: words_upto.induct)
  case (1 k)
  then show ?case by simp
next
  case (2 k c s)
  then show ?case by (cases "c = CHR '' ''") (auto split: if_splits)
qed

text \<open>The strings at the recorded offsets, in the buffer that starts at offset \<open>i\<close>.\<close>

definition strings_at :: "nat \<Rightarrow> nat list \<times> string \<Rightarrow> string list" where
  "strings_at i r = map (\<lambda>a. c_string (drop (a - i) (snd r))) (fst r)"

lemma fill_offsets: "a \<in> set (fst (fill_from i b n s)) \<Longrightarrow> i \<le> a"
  by (induction i b n s arbitrary: a rule: fill_from.induct) (force split: if_splits prod.splits)+

lemma strings_at_Suc:
  assumes "\<And>a. a \<in> set as \<Longrightarrow> Suc i \<le> a"
  shows "strings_at i (as, c # buf) = strings_at (Suc i) (as, buf)"
  using assms by (force simp: strings_at_def drop_Cons' Suc_diff_le)

lemma words_upto_0 [simp]: "words_upto 0 s = []"
  by (cases s) auto

lemma fill_from_words:
  assumes "NUL \<notin> set s" and "n \<le> MAX_ARGS"
  shows "strings_at i (fill_from i b n s) =
      words_upto (MAX_ARGS - n) (if b then dropWhile (\<lambda>c. c \<noteq> CHR '' '') s else s) \<and>
    (b \<longrightarrow> c_string (snd (fill_from i b n s)) =
        (if n < MAX_ARGS then takeWhile (\<lambda>c. c \<noteq> CHR '' '') s else s))"
  using assms
proof (induction i b n s rule: fill_from.induct)
  case (1 i b n)
  then show ?case by (simp add: strings_at_def c_string_def)
next
  case (2 i b n c s)
  have nul: "c \<noteq> NUL" "NUL \<notin> set s" using 2(4) by auto
  have shift: "strings_at i (fst (fill_from (i + 1) b' n' s), d # snd (fill_from (i + 1) b' n' s)) =
      strings_at (i + 1) (fill_from (i + 1) b' n' s)" for b' n' d
    using fill_offsets [of _ "i + 1" b' n' s] by (subst strings_at_Suc) auto
  consider (full) "MAX_ARGS \<le> n" | (blank) "n < MAX_ARGS" "c = CHR '' ''"
    | (start) "n < MAX_ARGS" "c \<noteq> CHR '' ''" "\<not> b" | (inside) "n < MAX_ARGS" "c \<noteq> CHR '' ''" b
    by fastforce
  then show ?case
  proof cases
    case full
    have "c_string (c # s) = c # s" using nul by (auto simp: c_string_def intro!: takeWhile_eq_all_conv [THEN iffD2])
    then show ?thesis using full nul by (auto simp: strings_at_def)
  next
    case blank
    then have "strings_at (i + 1) (fill_from (i + 1) False n s) = words_upto (MAX_ARGS - n) s"
      using 2(1) nul by simp
    then show ?thesis using blank nul shift [of False n NUL]
      by (simp add: case_prod_beta c_string_def)
  next
    case start
    then have IH: "strings_at (i + 1) (fill_from (i + 1) True (n + 1) s) =
          words_upto (MAX_ARGS - (n + 1)) (dropWhile (\<lambda>c. c \<noteq> CHR '' '') s)"
        "c_string (snd (fill_from (i + 1) True (n + 1) s)) =
          (if n + 1 < MAX_ARGS then takeWhile (\<lambda>c. c \<noteq> CHR '' '') s else s)"
      using 2(2) nul by simp_all
    have "strings_at i (i # fst (fill_from (i + 1) True (n + 1) s), c # snd (fill_from (i + 1) True (n + 1) s)) =
        (c # c_string (snd (fill_from (i + 1) True (n + 1) s))) # strings_at (i + 1) (fill_from (i + 1) True (n + 1) s)"
      using shift [of True "n + 1" c] nul by (simp add: strings_at_def c_string_def)
    then show ?thesis using start nul IH by (auto simp: case_prod_beta)
  next
    case inside
    then have "strings_at (i + 1) (fill_from (i + 1) b n s) =
          words_upto (MAX_ARGS - n) (dropWhile (\<lambda>c. c \<noteq> CHR '' '') s)"
        "c_string (snd (fill_from (i + 1) b n s)) = takeWhile (\<lambda>c. c \<noteq> CHR '' '') s"
      using 2(3) nul by simp_all
    then show ?thesis using inside nul shift [of b n c]
      by (simp add: case_prod_beta c_string_def)
  qed
qed

lemma fill_words:
  assumes "NUL \<notin> set s"
  shows "fillCommandAndArgs s = words_upto MAX_ARGS s"
  using fill_from_words [OF assms, of 0 0 False]
  by (simp add: fillCommandAndArgs_def strings_at_def case_prod_beta)

section \<open>Calls\<close>

lemma only_putchar [only_rules]: "P (Sys_write 1 [c]) \<Longrightarrow> only P (putchar c)"
  unfolding putchar_def by (intro only_rules)

lemma only_printf [only_rules]: "(\<And>c. P (Sys_write 1 [c])) \<Longrightarrow> only P (printf fmt args)"
  unfolding printf_def print_def by (intro only_rules)

lemma only_printf_ret [only_rules]: "(\<And>c. P (Sys_write 1 [c])) \<Longrightarrow> only P (printf_ret fmt args r)"
  unfolding printf_ret_def by (intro only_rules)

lemma only_bool [only_rules]:
  "(b \<Longrightarrow> only P m) \<Longrightarrow> (\<not> b \<Longrightarrow> only P n) \<Longrightarrow> only P (case b of True \<Rightarrow> m | False \<Rightarrow> n)"
  by (cases b) auto

text \<open>The calls of the commands that work on a process given by its pid: the process is another one than
  the caller and the one the shell takes for itself, and a priority is one of the three.\<close>

definition target_ok :: "u64 \<Rightarrow> u64 \<Rightarrow> bool" where
  "target_ok own pid \<longleftrightarrow> 0 < sint pid \<and> pid \<noteq> own \<and> pid \<noteq> SHELL_PID"

definition allowed :: "u64 \<Rightarrow> ucall \<Rightarrow> bool" where
  "allowed own c =
     (case c of
        Sys_write fd s \<Rightarrow> fd = 1
      | Sys_getpid \<Rightarrow> True
      | Sys_list_processes n \<Rightarrow> True
      | Sys_kill pid \<Rightarrow> target_ok own pid
      | Sys_block pid \<Rightarrow> target_ok own pid
      | Sys_unblock pid \<Rightarrow> target_ok own pid
      | Sys_set_priority pid p \<Rightarrow> target_ok own pid \<and> p \<le> 2
      | _ \<Rightarrow> False)"

lemma allowed_simps [simp]:
  "allowed own (Sys_write 1 s)" "allowed own Sys_getpid" "allowed own (Sys_list_processes n)"
  "allowed own (Sys_kill pid) = target_ok own pid" "allowed own (Sys_block pid) = target_ok own pid"
  "allowed own (Sys_unblock pid) = target_ok own pid"
  "allowed own (Sys_set_priority pid p) = (target_ok own pid \<and> p \<le> 2)"
  by (simp_all add: allowed_def)

text \<open>What the kernel answers to the first call: for the commands below, the pid of the caller.\<close>

definition first_answer :: "uenv \<Rightarrow> u64" where
  "first_answer e = (case script e of [] \<Rightarrow> 0 | a # _ \<Rightarrow> a_ret a)"

lemma getpid_then:
  assumes "\<And>pid. only (Q pid) (f pid)" and "\<And>pid. Q pid Sys_getpid"
  shows "\<exists>cs. trace (snd (bind_io my_getpid f e)) = trace e @ cs \<and> list_all (Q (first_answer e)) cs"
proof (cases "script e")
  case Nil
  then show ?thesis using assms(2)
    by (simp add: my_getpid_def call_def bind_io_def syscall_def)
next
  case (Cons a as)
  let ?e = "e\<lparr>script := as, trace := trace e @ [Sys_getpid]\<rparr>"
  obtain cs where "trace (snd (f (a_ret a) ?e)) = trace ?e @ cs" "list_all (Q (a_ret a)) cs"
    using onlyD [OF assms(1)] by blast
  then show ?thesis using Cons assms(2)
    by (intro exI [of _ "Sys_getpid # cs"])
      (simp add: my_getpid_def call_def bind_io_def syscall_def ret_io_def first_answer_def)
qed

lemma only_kill_one: "only (allowed own) (kill_one own arg n)"
  unfolding kill_one_def my_kill_def by (intro only_rules) (auto simp: target_ok_def)

lemma only_kill_all: "only (allowed own) (kill_all own args n)"
  by (induction args arbitrary: n) (auto intro!: only_rules only_kill_one)

lemma small_priority:
  assumes "\<not> (sint (n :: cint) < 0 \<or> 2 < sint n)"
  shows "(scast n :: u64) \<le> 2"
  using assms unat_scast_32(1) [of n] by (auto simp: word_le_nat_alt)

text \<open>\<open>kill\<close>, \<open>nice\<close> and \<open>block\<close> never touch the shell.\<close>

lemma kill_spares: "\<exists>cs. trace (snd (killCmd argv e)) = trace e @ cs \<and> list_all (allowed (first_answer e)) cs"
proof (cases "length argv < 2")
  case True
  then show ?thesis unfolding killCmd_def by simp (intro onlyD only_rules, simp)
next
  case False
  have "only (allowed own) (bind_io (kill_all own (tl argv) 0) (\<lambda>error_count.
      ret_io (if error_count = length argv - 1 then CMD_ERROR else OK)))" for own
    by (intro only_rules only_kill_all)
  then show ?thesis unfolding killCmd_def if_not_P [OF False] by (intro getpid_then) auto
qed

lemma nice_spares: "\<exists>cs. trace (snd (niceCmd argv e)) = trace e @ cs \<and> list_all (allowed (first_answer e)) cs"
proof (cases "length argv \<noteq> 3 \<or> sint (pid_of (argv ! 1)) \<le> 0")
  case True
  then have "only (allowed (first_answer e)) (niceCmd argv)" unfolding niceCmd_def Let_def
    by (auto intro!: only_rules)
  then show ?thesis by (rule onlyD)
next
  case False
  then show ?thesis unfolding niceCmd_def Let_def my_nice_def
    by (auto intro!: getpid_then only_rules simp: target_ok_def small_priority)
qed

lemma block_spares: "\<exists>cs. trace (snd (blockCmd argv e)) = trace e @ cs \<and> list_all (allowed (first_answer e)) cs"
proof (cases "length argv \<noteq> 2 \<or> sint (pid_of (argv ! 1)) \<le> 0")
  case True
  then have "only (allowed (first_answer e)) (blockCmd argv)" unfolding blockCmd_def Let_def
    by (auto intro!: only_rules)
  then show ?thesis by (rule onlyD)
next
  case False
  then show ?thesis unfolding blockCmd_def Let_def list_processes_def my_block_def my_unblock_def
    by (auto intro!: getpid_then only_rules simp: target_ok_def)
qed

section \<open>Lines\<close>

lemma gives_printf_ret [gives_rules]: "Q r \<Longrightarrow> gives Q (printf_ret fmt args r)"
  unfolding printf_ret_def by (intro gives_rules)

text \<open>A line as the editor leaves it: below the bound, and without the characters it interprets.\<close>

definition edited :: "cint \<Rightarrow> string \<Rightarrow> bool" where
  "edited maxLen s \<longleftrightarrow>
     int (length s) < sint maxLen \<and> CHR 0x0A \<notin> set s \<and> CHR 0x08 \<notin> set s \<and> CHR 0x04 \<notin> set s"

lemma readLine_edited:
  assumes "0 < sint maxLen"
  shows "gives (edited maxLen) (readLine maxLen)"
  unfolding readLine_def
proof (rule gives_while [of "edited maxLen"])
  fix buf
  assume e: "edited maxLen buf"
  have del: "edited maxLen (butlast buf)" using e in_set_butlastD [of _ buf] by (auto simp: edited_def)
  have nil: "edited maxLen []" using assms by (simp add: edited_def)
  show "gives (\<lambda>r. case r of Inl st' \<Rightarrow> edited maxLen st' | Inr v \<Rightarrow> edited maxLen v) (readLine_body maxLen buf)"
    unfolding readLine_body_def
    by (intro gives_rules) (use e del nil in \<open>auto simp: edited_def\<close>)
qed (use assms in \<open>simp add: edited_def\<close>)

lemma of_char_nonzero: "c \<noteq> NUL \<Longrightarrow> (of_char c :: int) \<noteq> 0"
  using of_char_eq_iff [of c NUL, where ?'a = int] by simp

lemma strcmp_eq: "NUL \<notin> set a \<Longrightarrow> NUL \<notin> set b \<Longrightarrow> user_strcmp a b = 0 \<longleftrightarrow> a = b"
  by (induction a b rule: user_strcmp.induct) (auto simp: of_char_nonzero dest: sym)

section \<open>exit\<close>

lemmas command_defs = helpCmd_def setUserCmd_def clearCmd_def testMMCmd_def testProcesesCmd_def
  testSyncCmd_def testNoSynchroCmd_def testPriorityCmd_def sync_usage_def launch_test_def exceptionCmd_def
  mmTypeCmd_def psCmd_def loopCmd_def killCmd_def niceCmd_def blockCmd_def memCmd_def catCmd_def wcCmd_def
  filterCmd_def mvarCmd_def simple_command_def background_note_def

lemmas call_defs = my_kill_def my_block_def my_unblock_def my_getpid_def my_nice_def
  my_yield_def my_wait_def list_processes_def my_sem_open_def my_sem_close_def user_pipe_create_def
  my_create_process_def my_create_process_with_pipes_def spawn_def execute_external_command_def clearScreen_def
  start_reader_def start_writer_def start_mvar_process_def sprintf_io_def free_args_def copy_args_def
  readLine_def readLine_body_def getchar_def getchar_body_def

lemma only_get_vec [only_rules]: "only P (get_vec p)"
  by (rule only_pure) (simp add: get_vec_def split: option.split obj.split)

lemma only_byte_read [only_rules]: "only P (byte_read a)"
  unfolding byte_read_def by (auto intro!: only_rules split: list.split)

lemma only_malloc [only_rules]: "P (Sys_malloc n) \<Longrightarrow> only P (malloc n)"
  unfolding malloc_def by (intro only_rules)

lemma only_free [only_rules]: "P (Sys_free p) \<Longrightarrow> only P (free p)"
  unfolding free_def by (intro only_rules) simp_all

lemma only_put_obj [only_rules]: "only P (put_obj p v)"
  unfolding put_obj_def by (intro only_rules) simp

lemma only_copy_args_loop [only_rules]:
  "(\<And>n. P (Sys_malloc n)) \<Longrightarrow> (\<And>p. P (Sys_free p)) \<Longrightarrow> only P (copy_args_loop args ps)"
  by (induction args arbitrary: ps) (auto intro!: only_rules)

lemma only_alloc_strings [only_rules]:
  "(\<And>n. P (Sys_malloc n)) \<Longrightarrow> (\<And>p. P (Sys_free p)) \<Longrightarrow> only P (alloc_strings items ps)"
  by (induction items ps rule: alloc_strings.induct) (auto intro!: only_rules)

lemma only_kill_any [only_rules]:
  "(\<And>c. P (Sys_write 1 [c])) \<Longrightarrow> (\<And>p. P (Sys_kill p)) \<Longrightarrow> only P (kill_all own args n)"
  by (induction args arbitrary: n) (auto simp: kill_one_def my_kill_def Let_def intro!: only_rules)

lemma run_command_calls:
  assumes "f \<noteq> ExitCmd"
  shows "only (\<lambda>c. c \<noteq> Sys_shutdown) (run_command f argv)"
  using assms
  by (cases f) (simp_all, auto simp: command_defs call_defs intro!: only_rules)

lemma run_command_result:
  assumes "f \<noteq> ExitCmd"
  shows "gives (\<lambda>r. r \<noteq> EXIT_CODE) (run_command f argv)"
proof -
  have "OK \<noteq> EXIT_CODE" "CMD_ERROR \<noteq> EXIT_CODE" by (simp_all add: OK_def EXIT_CODE_def CMD_ERROR_def)
  then show ?thesis using assms
    by (cases f) (simp_all, auto simp: command_defs intro!: gives_rules split: if_splits)
qed

lemma only_copy_pipe_args [only_rules]:
  "(\<And>n. P (Sys_malloc n)) \<Longrightarrow> only P (copy_pipe_args args)"
  by (induction args) (auto simp: Let_def intro!: only_rules)

lemma pipeline_calls: "only (\<lambda>c. c \<noteq> Sys_shutdown) (execute_pipeline l r)"
proof -
  have "only (\<lambda>c. c \<noteq> Sys_shutdown) (run_pipeline i j as bs pid)" for i j as bs pid
    unfolding run_pipeline_def pipe_argv_def free_pipe_argv_def call_defs by (intro only_rules) simp_all
  then show ?thesis unfolding execute_pipeline_def call_defs Let_def
    by (auto intro!: only_rules split: prod.split option.split)
qed

lemma pipeline_result: "gives (\<lambda>r. r \<noteq> EXIT_CODE) (execute_pipeline l r)"
proof -
  have codes: "OK \<noteq> EXIT_CODE" "CMD_ERROR \<noteq> EXIT_CODE" "ERROR \<noteq> EXIT_CODE"
    by (simp_all add: OK_def EXIT_CODE_def CMD_ERROR_def ERROR_def)
  have "gives (\<lambda>r. r \<noteq> EXIT_CODE) (run_pipeline i j as bs pid)" for i j as bs pid
    unfolding run_pipeline_def
    by (intro gives_last gives_bind [of "\<lambda>r. r \<noteq> EXIT_CODE"] gives_rules) (auto simp: codes)
  then show ?thesis unfolding execute_pipeline_def Let_def using codes
    by (auto intro!: gives_rules split: prod.split option.split)
qed

lemma find_command_Some:
  assumes "find_command_index w = Some i"
  shows "i < length shellCmds" and "user_strcmp w (cmd_name (shellCmds ! i)) = 0"
  using assms by (auto simp: find_command_index_def find_Some_iff)

lemma exit_entry:
  assumes "i < length shellCmds" and "cmd_function (shellCmds ! i) = ExitCmd"
  shows "cmd_name (shellCmds ! i) = ''exit''"
proof -
  have "list_all (\<lambda>c. cmd_function c = ExitCmd \<longrightarrow> cmd_name c = ''exit'') shellCmds"
    by (simp add: shellCmds_def cmd_def)
  then show ?thesis using assms by (auto simp: list_all_length)
qed

lemma NUL_c_string: "NUL \<notin> set (c_string s)"
  by (auto simp: c_string_def dest: set_takeWhileD)

lemma exit_word:
  assumes "find_command_index w = Some i" and "NUL \<notin> set w" and "cmd_function (shellCmds ! i) = ExitCmd"
  shows "w = ''exit''"
  using find_command_Some [OF assms(1)] exit_entry [OF _ assms(3)] strcmp_eq [OF assms(2), of "''exit''"] by simp

lemma fill_no_NUL: "w \<in> set (fillCommandAndArgs s) \<Longrightarrow> NUL \<notin> set w"
  by (auto simp: fillCommandAndArgs_def NUL_c_string split: prod.splits)

text \<open>Dispatching a line is either a pipeline, an error, or one command of the table.\<close>

lemma CommandParse_cases:
  assumes "\<And>l r. Q (execute_pipeline l r)" and "\<And>fmt. Q (printf_ret fmt [] CMD_ERROR)" and "Q (ret_io ERROR)"
    and "\<And>i bg argv. find_command_index (hd (fillCommandAndArgs (c_string line))) = Some i \<Longrightarrow>
      fillCommandAndArgs (c_string line) \<noteq> [] \<Longrightarrow>
      Q (then_io (modify_io (\<lambda>e. e\<lparr>g_run_in_background := bg\<rparr>))
           (bind_io (run_command (cmd_function (shellCmds ! i)) argv) (\<lambda>result.
            then_io (modify_io (\<lambda>e. e\<lparr>g_run_in_background := False\<rparr>)) (ret_io result))))"
  shows "Q (CommandParse line)"
  using assms by (auto simp: CommandParse_def Let_def split: option.split)

lemma only_exit:
  assumes "\<And>ws. fillCommandAndArgs (c_string line) \<noteq> ''exit'' # ws"
  shows "only (\<lambda>c. c \<noteq> Sys_shutdown) (CommandParse line)" and "gives (\<lambda>r. r \<noteq> EXIT_CODE) (CommandParse line)"
proof -
  have codes: "CMD_ERROR \<noteq> EXIT_CODE" "ERROR \<noteq> EXIT_CODE"
    by (simp_all add: EXIT_CODE_def CMD_ERROR_def ERROR_def)
  have not_exit: "cmd_function (shellCmds ! i) \<noteq> ExitCmd"
    if "find_command_index (hd (fillCommandAndArgs (c_string line))) = Some i"
      "fillCommandAndArgs (c_string line) \<noteq> []" for i
    using exit_word [OF that(1)] fill_no_NUL assms that(2) by (metis list.exhaust_sel list.set_sel(1))
  show "only (\<lambda>c. c \<noteq> Sys_shutdown) (CommandParse line)"
    by (rule CommandParse_cases) (auto intro!: only_rules pipeline_calls run_command_calls dest: not_exit)
  show "gives (\<lambda>r. r \<noteq> EXIT_CODE) (CommandParse line)"
  proof (rule CommandParse_cases)
    fix i bg argv
    assume "find_command_index (hd (fillCommandAndArgs (c_string line))) = Some i"
      "fillCommandAndArgs (c_string line) \<noteq> []"
    then have "gives (\<lambda>r. r \<noteq> EXIT_CODE) (run_command (cmd_function (shellCmds ! i)) argv)"
      by (intro run_command_result not_exit)
    then show "gives (\<lambda>r. r \<noteq> EXIT_CODE) (then_io (modify_io (\<lambda>e. e\<lparr>g_run_in_background := bg\<rparr>))
        (bind_io (run_command (cmd_function (shellCmds ! i)) argv) (\<lambda>result.
         then_io (modify_io (\<lambda>e. e\<lparr>g_run_in_background := False\<rparr>)) (ret_io result))))"
      by (intro gives_then gives_bind [where R = "\<lambda>r. r \<noteq> EXIT_CODE"]) (auto intro: gives_ret)
  qed (auto intro!: gives_rules pipeline_result simp: codes)
qed

section \<open>Pipelines\<close>

definition is_create :: "ucall \<Rightarrow> bool" where
  "is_create c = (case c of Sys_create_process nm f a p g \<Rightarrow> True | _ \<Rightarrow> False)"

text \<open>\<open>creates_in S m\<close>: the process creations of \<open>m\<close>, in order, are one of the lists in \<open>S\<close>.\<close>

definition creates_in :: "ucall list set \<Rightarrow> 'a io \<Rightarrow> bool" where
  "creates_in S m \<longleftrightarrow> (\<forall>e. \<exists>cs. trace (snd (m e)) = trace e @ cs \<and> filter is_create cs \<in> S)"

lemma creates_none: "only (\<lambda>c. \<not> is_create c) m \<Longrightarrow> creates_in {[]} m"
  unfolding creates_in_def only_def by (auto simp: list_all_iff filter_empty_conv)

lemma creates_mono: "creates_in S m \<Longrightarrow> S \<subseteq> T \<Longrightarrow> creates_in T m"
  unfolding creates_in_def by blast

lemma creates_bind:
  assumes "creates_in S m" and "\<And>a. creates_in T (f a)"
  shows "creates_in (S \<union> {x @ y | x y. x \<in> S \<and> y \<in> T}) (bind_io m f)"
  unfolding creates_in_def
proof
  fix e
  obtain cs where cs: "trace (snd (m e)) = trace e @ cs" "filter is_create cs \<in> S"
    using assms(1) by (auto simp: creates_in_def)
  show "\<exists>cs. trace (snd (bind_io m f e)) = trace e @ cs \<and>
      filter is_create cs \<in> S \<union> {x @ y | x y. x \<in> S \<and> y \<in> T}"
  proof (cases "fst (m e)")
    case None
    then show ?thesis using cs by (auto simp: bind_io_def split: prod.splits)
  next
    case (Some a)
    obtain ds where "trace (snd (f a (snd (m e)))) = trace (snd (m e)) @ ds" "filter is_create ds \<in> T"
      using assms(2) [of a] unfolding creates_in_def by blast
    then show ?thesis using cs Some
      by (intro exI [of _ "cs @ ds"]) (auto simp: bind_io_def split: prod.splits)
  qed
qed

lemma creates_before:
  assumes "only (\<lambda>c. \<not> is_create c) m" and "\<And>a. creates_in T (f a)" and "[] \<in> T"
  shows "creates_in T (bind_io m f)"
  by (rule creates_mono [OF creates_bind [OF creates_none [OF assms(1)]]], rule assms(2)) (use assms(3) in auto)

lemma creates_after:
  assumes "creates_in S m" and "\<And>a. only (\<lambda>c. \<not> is_create c) (f a)"
  shows "creates_in S (bind_io m f)"
  by (rule creates_mono [OF creates_bind [OF assms(1)]], rule creates_none, rule assms(2)) auto

lemma not_create [simp]:
  "\<not> is_create (Sys_malloc n)" "\<not> is_create (Sys_free p)" "\<not> is_create (Sys_wait pid)"
  "\<not> is_create (Sys_kill pid)" "\<not> is_create Sys_yield" "\<not> is_create (Sys_write fd s)"
  "is_create (Sys_create_process nm f a p g)"
  by (simp_all add: is_create_def)

lemma creates_call: "is_create c \<Longrightarrow> creates_in {[c]} (call c)"
  unfolding creates_in_def call_def
  by (auto simp: bind_io_def syscall_def ret_io_def split: list.split)

text \<open>A process in a pipeline is created with the packed descriptor, whatever happens afterwards.\<close>

lemma external_creates:
  assumes "i \<noteq> 0 \<or> out \<noteq> 0"
  shows "creates_in {[Sys_create_process nm (Entry f) argv 1 (pack_pipes fg i out)]}
    (execute_external_command nm (Entry f) argv fg i out)"
proof -
  have "creates_in {[Sys_create_process nm (Entry f) argv 1 (pack_pipes fg i out)]}
      (my_create_process_with_pipes nm (Entry f) argv 1 fg i out)"
    unfolding my_create_process_with_pipes_def spawn_def low_address_def
    by (simp, intro creates_after creates_call only_rules) simp_all
  then show ?thesis using assms unfolding execute_external_command_def my_wait_def
    by simp (intro creates_after only_rules, auto)
qed

text \<open>The left process writes to the pipe in the background, the right one reads from it in the
  foreground, and it is created second.\<close>

definition left_create :: "string \<Rightarrow> entry \<Rightarrow> u64 \<Rightarrow> ucall \<Rightarrow> bool" where
  "left_create nm f pid c \<longleftrightarrow> (\<exists>argv. c = Sys_create_process nm (Entry f) argv 1 (pack_pipes 0 0 pid))"

definition right_create :: "string \<Rightarrow> entry \<Rightarrow> u64 \<Rightarrow> ucall \<Rightarrow> bool" where
  "right_create nm f pid c \<longleftrightarrow> (\<exists>argv. c = Sys_create_process nm (Entry f) argv 1 (pack_pipes 1 pid 0))"

lemma pipe_argv_none: "only (\<lambda>c. \<not> is_create c) (pipe_argv args)"
  unfolding pipe_argv_def by (intro only_rules) simp_all

lemma free_pipe_argv_none: "only (\<lambda>c. \<not> is_create c) (free_pipe_argv v)"
  unfolding free_pipe_argv_def by (intro only_rules) simp_all

text \<open>The part of \<open>execute_pipeline\<close> after the left process was started.\<close>

lemma right_creates:
  assumes "pid \<noteq> 0"
  shows "creates_in {[], [Sys_create_process nm (Entry g) argv 1 (pack_pipes 1 pid 0)]}
    (if 0 < sint left_pid then
       bind_io (execute_external_command nm (Entry g) argv 1 pid 0) (\<lambda>right_pid.
       if 0 < sint right_pid then ret_io OK
       else then_io (printf f1 a1) (then_io (my_kill left_pid) (ret_io CMD_ERROR)))
     else printf_ret f2 a2 CMD_ERROR)"
proof (cases "0 < sint left_pid")
  case True
  have "creates_in {[Sys_create_process nm (Entry g) argv 1 (pack_pipes 1 pid 0)]}
      (bind_io (execute_external_command nm (Entry g) argv 1 pid 0) (\<lambda>right_pid.
       if 0 < sint right_pid then ret_io OK
       else then_io (printf f1 a1) (then_io (my_kill left_pid) (ret_io CMD_ERROR))))"
    unfolding my_kill_def using assms by (intro creates_after external_creates only_rules) simp_all
  then show ?thesis using True by (auto elim: creates_mono)
next
  case False
  then show ?thesis by simp (rule creates_mono [OF creates_none], intro only_rules, auto)
qed

lemma run_pipeline_creates:
  assumes "get_process_entry_function i = Entry f" and "get_process_entry_function j = Entry g" and "pid \<noteq> 0"
  shows "creates_in ({[]} \<union> {[l] | l. left_create (cmd_name (shellCmds ! i)) f pid l} \<union>
      {[l, r] | l r. left_create (cmd_name (shellCmds ! i)) f pid l \<and> right_create (cmd_name (shellCmds ! j)) g pid r})
    (run_pipeline i j as bs pid)" (is "creates_in ?U _")
proof -
  have none: "only (\<lambda>c. \<not> is_create c) (then_io (when_io b (then_io my_yield (then_io (my_kill p) (ret_io ()))))
      (then_io (free_pipe_argv v) (then_io (free_pipe_argv w) (ret_io s))))" for b p v w and s :: int
    unfolding my_yield_def my_kill_def by (intro only_rules free_pipe_argv_none) simp_all
  show ?thesis unfolding run_pipeline_def assms(1,2)
  proof (intro creates_before [OF pipe_argv_none], goal_cases)
    case (1 left_argv right_argv)
    have "creates_in {[Sys_create_process (cmd_name (shellCmds ! i)) (Entry f) left_argv 1 (pack_pipes 0 0 pid)]}
        (execute_external_command (cmd_name (shellCmds ! i)) (Entry f) left_argv 0 0 pid)"
      using assms(3) by (intro external_creates) simp
    from creates_bind [OF this creates_after [OF right_creates [OF assms(3)] none]]
    show ?case by (rule creates_mono) (auto simp: left_create_def right_create_def)
  qed simp_all
qed

section \<open>Properties\<close>

text \<open>C31: splitting a line.  The words the parser finds in a line, by writing terminators into it and
  recording offsets, are the words between the blanks; with more than \<open>MAX_ARGS\<close> of them the last one
  keeps the rest of the line.\<close>

theorem fillCommandAndArgs_words:
  assumes "NUL \<notin> set s"
  shows "fillCommandAndArgs s = words_upto MAX_ARGS s \<and>
    (length (words s) < MAX_ARGS \<longrightarrow> fillCommandAndArgs s = words s)"
  using fill_words [OF assms] words_upto_words by simp

theorem fillCommandAndArgs_words_witness:
  "fillCommandAndArgs ''  nice 4  2 '' = [''nice'', ''4'', ''2'']"
proof -
  have "words ''  nice 4  2 '' = [''nice'', ''4'', ''2'']" by simp
  then show ?thesis using fillCommandAndArgs_words [of "''  nice 4  2 ''"] by (simp add: MAX_ARGS_def)
qed


text \<open>C36: the machine is shut down, and the shell left, only by \<open>exit\<close>: a line whose first word is not
  \<open>exit\<close> never makes the shutdown call, and never returns the exit code.\<close>

theorem only_exit_shuts_down:
  assumes "\<forall>ws. fillCommandAndArgs (c_string line) \<noteq> ''exit'' # ws"
  shows "only (\<lambda>c. c \<noteq> Sys_shutdown) (CommandParse line) \<and> gives (\<lambda>r. r \<noteq> EXIT_CODE) (CommandParse line)"
  using only_exit [of line] assms by blast

theorem only_exit_shuts_down_witness:
  "only (\<lambda>c. c \<noteq> Sys_shutdown) (CommandParse ''ps &'') \<and> gives (\<lambda>r. r \<noteq> EXIT_CODE) (CommandParse ''ps &'')"
proof -
  have "fillCommandAndArgs (c_string ''ps &'') = [''ps'', ''&'']"
    by (simp add: fillCommandAndArgs_def c_string_def MAX_ARGS_def)
  then show ?thesis using only_exit_shuts_down [of "''ps &''"] by simp
qed

text \<open>The creations of a whole pipeline command.\<close>

lemma entry_or_null: "get_process_entry_function i = Addr 0 \<or> (\<exists>f. get_process_entry_function i = Entry f)"
  by (simp add: get_process_entry_function_def Let_def)

definition pipeline_creates :: "u64 \<Rightarrow> ucall list \<Rightarrow> bool" where
  "pipeline_creates pid cs \<longleftrightarrow>
     cs = [] \<or> (\<exists>nm f l. cs = [l] \<and> left_create nm f pid l) \<or>
     (\<exists>nm f nm' g l r. cs = [l, r] \<and> left_create nm f pid l \<and> right_create nm' g pid r)"

lemma create_after_call:
  assumes "\<And>v. creates_in (T v) (f v)" and "\<And>v. [] \<in> T v" and "\<not> is_create c"
  shows "\<exists>cs. trace (snd (bind_io (call c) f e)) = trace e @ cs \<and> filter is_create cs \<in> T (first_answer e)"
proof (cases "script e")
  case Nil
  then show ?thesis using assms(2,3) by (simp add: call_def bind_io_def syscall_def)
next
  case (Cons a as)
  let ?e = "e\<lparr>script := as, trace := trace e @ [c]\<rparr>"
  obtain cs where "trace (snd (f (a_ret a) ?e)) = trace ?e @ cs" "filter is_create cs \<in> T (a_ret a)"
    using assms(1) unfolding creates_in_def by blast
  then show ?thesis using Cons assms(3)
    by (intro exI [of _ "c # cs"]) (simp add: call_def bind_io_def syscall_def ret_io_def first_answer_def)
qed

text \<open>The pipe is the one the kernel creates at the first call.\<close>

lemma execute_pipeline_creates:
  "\<exists>cs. trace (snd (execute_pipeline l r e)) = trace e @ cs \<and>
     pipeline_creates (first_answer e) (filter is_create cs)"
proof -
  have nil: "[] \<in> {cs. pipeline_creates pid cs}" for pid by (simp add: pipeline_creates_def)
  have quiet: "creates_in {cs. pipeline_creates pid cs} m" if "only (\<lambda>c. \<not> is_create c) m" for m :: "int io" and pid
    using creates_mono [OF creates_none [OF that]] nil by simp
  have msg: "creates_in {cs. pipeline_creates pid cs} (printf_ret fmt [] n)" for fmt pid and n :: int
    by (intro quiet only_rules) simp
  have run: "creates_in {cs. pipeline_creates pid cs} (run_pipeline i j as bs pid)"
    if pid: "pid \<noteq> 0" and fns: "get_process_entry_function i \<noteq> Addr 0" "get_process_entry_function j \<noteq> Addr 0"
    for i j as bs pid
  proof -
    obtain f g where "get_process_entry_function i = Entry f" "get_process_entry_function j = Entry g"
      using fns entry_or_null [of i] entry_or_null [of j] by blast
    from run_pipeline_creates [OF this pid, of as bs] show ?thesis
      by (rule creates_mono) (auto simp: pipeline_creates_def)
  qed
  have one: "\<exists>cs. trace (snd (m e)) = trace e @ cs \<and> pipeline_creates (first_answer e) (filter is_create cs)"
    if "creates_in {cs. pipeline_creates (first_answer e) cs} m" for m :: "int io"
    using that unfolding creates_in_def by simp
  have pipe: "\<exists>cs. trace (snd (bind_io user_pipe_create f e)) = trace e @ cs \<and>
      pipeline_creates (first_answer e) (filter is_create cs)"
    if "\<And>pid. creates_in {cs. pipeline_creates pid cs} (f pid)" for f :: "u64 \<Rightarrow> int io"
    using create_after_call [of "\<lambda>pid. {cs. pipeline_creates pid cs}" f Sys_pipe_create e] that nil
    by (simp add: user_pipe_create_def is_create_def)
  have err: "creates_in {cs. pipeline_creates pid cs} (ret_io n)" for pid and n :: int
    by (intro quiet only_rules)
  show ?thesis unfolding execute_pipeline_def Let_def
    by (auto intro!: one [OF msg] one [OF err] pipe msg run split: option.split)
qed

end
