(* ===== verification/Shell_Lines.thy ===== *)
theory Shell_Lines
  imports User_Filters Shell_Correct
begin

text \<open>
  The line editor of the shell computes a function of the characters typed, for every behaviour of the
  kernel, and it returns as soon as they make a line.
\<close>

section \<open>Runs of the editor\<close>

interpretation get: calling_loop getchar_body
  by (rule calling_loopI)
    (auto simp: getchar_body_def intro!: log_rules logs_mono [OF byte_read_log])

interpretation edit: calling_loop "readLine_body maxLen" for maxLen
proof (rule calling_loopI)
  show "logs j (readLine_body maxLen st) (\<lambda>r l. l \<noteq> [])" for j st
    unfolding readLine_body_def printf_ret_def
    by (intro logs_bind logs_mono [OF getchar_log], auto intro!: log_rules logs_mono [OF putchar_log]
        logs_mono [OF printf_log])
qed

lemma getchar_run:
  assumes "script e = got [c] # as"
  shows "getchar e = (Some c, e\<lparr>script := as, trace := trace e @ [Sys_read 0 1]\<rparr>)"
  unfolding getchar_def using assms
  by (subst get.while_unfold)
    (simp add: getchar_body_def bind_io_def syscall_def byte_read_def got_def num_def ret_io_def)

text \<open>The answers for the echo of one character: one for a character that is kept or a newline, three
  for one that is wiped out.\<close>

definition echoes :: "cint \<Rightarrow> string \<Rightarrow> char \<Rightarrow> nat" where
  "echoes maxLen buf c =
     (if c = CHR 0x04 then (if buf = [] then 1 else 0)
      else if c = CHR 0x0A then 1
      else if c = CHR 0x08 then (if buf \<noteq> [] then 3 else 0)
      else if int (length buf) < sint maxLen - 1 then 1 else 0)"

text \<open>The end of the loop or the next line, as in \<^const>\<open>line_of\<close>.\<close>

definition edit_step :: "cint \<Rightarrow> string \<Rightarrow> char \<Rightarrow> string + string" where
  "edit_step maxLen buf c =
     (if c = CHR 0x04 then (if buf = [] then Inr [] else Inl buf)
      else if c = CHR 0x0A then Inr buf
      else if c = CHR 0x08 then Inl (butlast buf)
      else if int (length buf) < sint maxLen - 1 then Inl (buf @ [c]) else Inl buf)"

lemma line_of_step:
  "line_of maxLen buf (c # cs) = (case edit_step maxLen buf c of Inr s \<Rightarrow> Some s | Inl buf' \<Rightarrow> line_of maxLen buf' cs)"
  by (simp add: edit_step_def)

lemma put_ret_run:
  "script e = w # as \<Longrightarrow>
   then_io (putchar c) (ret_io r) e = (Some r, e\<lparr>script := as, trace := trace e @ [Sys_write 1 [c]]\<rparr>)"
  by (simp add: then_io_def bind_io_def putchar_run ret_io_def)

lemma wipe_run:
  "script e = w1 # w2 # w3 # as \<Longrightarrow>
   then_io (putchar a) (then_io (putchar b) (then_io (putchar c) (ret_io r))) e =
     (Some r, e\<lparr>script := as, trace := trace e @ [Sys_write 1 [a], Sys_write 1 [b], Sys_write 1 [c]]\<rparr>)"
  by (simp add: then_io_def bind_io_def putchar_run ret_io_def)

lemma newline_run:
  "script e = w # as \<Longrightarrow> printf_ret [CHR 0x0A] [] r e = (Some r, e\<lparr>script := as, trace := trace e @ [Sys_write 1 [CHR 0x0A]]\<rparr>)"
  using printf_run [of "[CHR 0x0A]" "[]" "[CHR 0x0A]" 1 e "[w]" as]
  by (simp add: emit_def printf_ret_def then_io_def bind_io_def ret_io_def)

text \<open>What an iteration does after its character was read.\<close>

lemma body_after_getchar:
  assumes "script e = got [c] # as"
  shows "readLine_body maxLen buf e =
    (if c = CHR 0x04 then (if buf = [] then printf_ret [CHR 0x0A] [] (Inr []) else ret_io (Inl buf))
     else if c = CHR 0x0A then then_io (putchar (CHR 0x0A)) (ret_io (Inr buf))
     else if c = CHR 0x08 then
       (if buf \<noteq> [] then
          then_io (putchar (CHR 0x08)) (then_io (putchar (CHR '' '')) (then_io (putchar (CHR 0x08))
            (ret_io (Inl (butlast buf)))))
        else ret_io (Inl buf))
     else if int (length buf) < sint maxLen - 1 then
       then_io (putchar c) (ret_io (Inl (buf @ [c])))
     else ret_io (Inl buf)) (e\<lparr>script := as, trace := trace e @ [Sys_read 0 1]\<rparr>)"
  using getchar_run [OF assms] by (simp add: readLine_body_def bind_io_def)

lemma body_run:
  assumes "script e = got [c] # replicate (echoes maxLen buf c) (num 1) @ as"
  shows "\<exists>tr. readLine_body maxLen buf e = (Some (edit_step maxLen buf c), e\<lparr>script := as, trace := trace e @ tr\<rparr>)"
proof -
  let ?e = "e\<lparr>script := replicate (echoes maxLen buf c) (num 1) @ as, trace := trace e @ [Sys_read 0 1]\<rparr>"
  note b = body_after_getchar [OF assms, of maxLen buf]
  consider (eot) "c = CHR 0x04" | (nl) "c = CHR 0x0A" | (bs) "c = CHR 0x08"
    | (other) "c \<noteq> CHR 0x04" "c \<noteq> CHR 0x0A" "c \<noteq> CHR 0x08" by blast
  then show ?thesis
  proof cases
    case eot
    then show ?thesis using b newline_run [of ?e "num 1" as "Inr [] :: string + string"]
      by (cases "buf = []") (auto simp: echoes_def edit_step_def ret_io_def)
  next
    case nl
    then show ?thesis using b put_ret_run [of ?e "num 1" as "CHR 0x0A" "Inr buf :: string + string"]
      by (auto simp: echoes_def edit_step_def)
  next
    case bs
    then show ?thesis
      using b wipe_run [of ?e "num 1" "num 1" "num 1" as "CHR 0x08" "CHR '' ''" "CHR 0x08" "Inl (butlast buf) :: string + string"]
      by (cases "buf = []") (auto simp: echoes_def edit_step_def ret_io_def numeral_3_eq_3)
  next
    case other
    then show ?thesis using b put_ret_run [of ?e "num 1" as c "Inl (buf @ [c]) :: string + string"]
      by (cases "int (length buf) < sint maxLen - 1") (auto simp: echoes_def edit_step_def ret_io_def)
  qed
qed

lemma editor_run:
  assumes "line_of maxLen buf cs = Some s"
  shows "\<exists>as. \<forall>e rest. script e = as @ rest \<longrightarrow>
    (\<exists>tr. while_io (readLine_body maxLen) buf e = (Some s, e\<lparr>script := rest, trace := trace e @ tr\<rparr>))"
  using assms
proof (induction cs arbitrary: buf)
  case Nil
  then show ?case by simp
next
  case (Cons c cs)
  let ?echo = "replicate (echoes maxLen buf c) (num 1)"
  show ?case
  proof (cases "edit_step maxLen buf c")
    case (Inr s')
    then have "s' = s" using Cons.prems by (simp only: line_of_step) simp
    have "\<exists>tr. while_io (readLine_body maxLen) buf e = (Some s, e\<lparr>script := rest, trace := trace e @ tr\<rparr>)"
      if "script e = (got [c] # ?echo) @ rest" for e rest
      using body_run [of e c maxLen buf rest] that Inr \<open>s' = s\<close>
      by (subst edit.while_unfold) (auto simp: bind_io_def ret_io_def)
    then show ?thesis by blast
  next
    case (Inl buf')
    then have "line_of maxLen buf' cs = Some s" using Cons.prems by (simp only: line_of_step) simp
    then obtain as where as: "\<And>e rest. script e = as @ rest \<Longrightarrow>
        \<exists>tr. while_io (readLine_body maxLen) buf' e = (Some s, e\<lparr>script := rest, trace := trace e @ tr\<rparr>)"
      using Cons.IH by blast
    have "\<exists>tr. while_io (readLine_body maxLen) buf e = (Some s, e\<lparr>script := rest, trace := trace e @ tr\<rparr>)"
      if e: "script e = (got [c] # ?echo @ as) @ rest" for e rest
    proof -
      obtain tr where tr: "readLine_body maxLen buf e =
          (Some (Inl buf'), e\<lparr>script := as @ rest, trace := trace e @ tr\<rparr>)"
        using body_run [of e c maxLen buf "as @ rest"] e Inl by auto
      obtain tr' where "while_io (readLine_body maxLen) buf' (e\<lparr>script := as @ rest, trace := trace e @ tr\<rparr>) =
          (Some s, e\<lparr>script := rest, trace := trace e @ tr @ tr'\<rparr>)"
        using as [of "e\<lparr>script := as @ rest, trace := trace e @ tr\<rparr>" rest] by auto
      then show ?thesis using tr by (subst edit.while_unfold) (auto simp: bind_io_def)
    qed
    then show ?thesis by blast
  qed
qed

section \<open>Property\<close>



end
