(* ===== verification/User_Tests_Correct.thy ===== *)
theory User_Tests_Correct
  imports User_Tests Loader_Correct
begin

text \<open>
  The stress test of the allocator is exact: after the blocks were filled, the check succeeds if and
  only if no two of the blocks that \<open>malloc\<close> handed out overlap.
\<close>

lemma user_memset_block:
  "n \<le> 2 ^ 64 \<Longrightarrow> user_memset_loop dst c n m = (\<lambda>a. if in_block a dst n then c else m a)"
proof (induction n arbitrary: m)
  case 0
  then show ?case by (simp add: in_block_def)
next
  case (Suc n)
  then show ?case by (auto simp: in_block_Suc fun_eq_iff)
qed

lemma memcheck_block:
  assumes "n \<le> 2 ^ 64"
  shows "memcheck_loop m p v n \<longleftrightarrow> (\<forall>a. in_block a p n \<longrightarrow> m a = v)"
proof -
  have loop: "memcheck_loop m p v n \<longleftrightarrow> (\<forall>k < n. m (p + of_nat k) = v)" for p n
  proof (induction n arbitrary: p)
    case 0
    then show ?case by simp
  next
    case (Suc n)
    then show ?case by (auto simp: less_Suc_eq_0_disj ac_simps)
  qed
  have "(\<forall>k < n. m (p + of_nat k) = v) \<longleftrightarrow> (\<forall>a. in_block a p n \<longrightarrow> m a = v)"
  proof (intro iffI allI impI)
    fix a
    assume all: "\<forall>k < n. m (p + of_nat k) = v" and "in_block a p n"
    then show "m a = v" using spec [OF all, of "unat (a - p)"] by (simp add: in_block_def)
  next
    fix k
    assume "\<forall>a. in_block a p n \<longrightarrow> m a = v" and "k < n"
    then show "m (p + of_nat k) = v" using in_block_offset [of k n p] assms by blast
  qed
  then show ?thesis using loop by simp
qed

section \<open>The blocks of a round\<close>

definition within :: "(ptr \<times> u32) list \<Rightarrow> nat \<Rightarrow> ptr \<Rightarrow> bool" where
  "within reqs i a \<longleftrightarrow> in_block a (fst (reqs ! i)) (unat (snd (reqs ! i)))"

text \<open>The memory after the first \<open>n\<close> blocks were filled.\<close>

fun filled :: "(ptr \<times> u32) list \<Rightarrow> nat \<Rightarrow> (ptr \<Rightarrow> u8) \<Rightarrow> ptr \<Rightarrow> u8" where
  "filled reqs 0 m = m"
| "filled reqs (Suc n) m = (\<lambda>a. if within reqs n a then of_nat n else filled reqs n m a)"

lemma for_io_snoc: "for_io f (xs @ [x]) = then_io (for_io f xs) (f x)"
proof (induction xs)
  case Nil
  have "then_io (f x) (ret_io ()) e = then_io (ret_io ()) (f x) e" for e
    by (auto simp: then_io_def bind_io_def ret_io_def split: prod.split option.split)
  then show ?case by (simp add: fun_eq_iff)
next
  case (Cons y ys)
  have "then_io a (then_io b c) = then_io (then_io a b) c" for a b c :: "unit io"
    by (rule ext) (auto simp: then_io_def bind_io_def split: prod.split option.split)
  then show ?case using Cons by simp
qed

lemma unat_u32_64: "unat (w :: u32) \<le> 2 ^ 64"
  using unsigned_less [of w, where ?'a = nat] by simp

lemma narrow_tag: "(ucast (of_nat n :: u32) :: u8) = of_nat n"
  by (rule unsigned_word_eqI [where ?'a = nat]) (simp add: unsigned_ucast_eq unsigned_of_nat)

lemma wide_size: "unat (ucast (w :: u32) :: u64) = unat w"
  using unsigned_less [of w, where ?'a = nat] by (simp add: unsigned_ucast_eq take_bit_nat_eq_self)

lemma set_blocks_filled:
  assumes "\<forall>r \<in> set reqs. fst r \<noteq> 0"
  shows "set_blocks reqs e = (Some (), e\<lparr>ubytes := filled reqs (length reqs) (ubytes e)\<rparr>)"
proof -
  have "for_io (\<lambda>i. let (address, sz) = reqs ! i in when_io (address \<noteq> NULL) (user_memset address (of_nat i) (ucast sz)))
      [0..<n] e = (Some (), e\<lparr>ubytes := filled reqs n (ubytes e)\<rparr>)" if "n \<le> length reqs" for n
    using that
  proof (induction n)
    case 0
    then show ?case by (simp add: ret_io_def)
  next
    case (Suc n)
    obtain address sz where r: "reqs ! n = (address, sz)" by (cases "reqs ! n")
    then have "address \<noteq> 0" using assms Suc.prems nth_mem [of n reqs] by force
    then show ?case using Suc r unat_u32_64 [of sz]
      by (simp add: for_io_snoc then_io_def bind_io_def when_io_def user_memset_def modify_io_def
        user_memset_block narrow_tag wide_size within_def fun_eq_iff)
  qed
  then show ?thesis by (simp add: set_blocks_def)
qed

text \<open>A filled address holds the number of the last block it belongs to.\<close>

lemma filled_last:
  assumes "within reqs j a" and "j < n"
  shows "\<exists>k. j \<le> k \<and> k < n \<and> within reqs k a \<and> filled reqs n m a = of_nat k"
  using assms(2)
proof (induction n)
  case 0
  then show ?case by simp
next
  case (Suc n)
  show ?case
  proof (cases "within reqs n a")
    case True
    then show ?thesis using Suc.prems by (intro exI [of _ n]) simp
  next
    case False
    then have "j < n" using Suc.prems assms(1) by (auto simp: less_Suc_eq)
    then show ?thesis using Suc.IH False by auto
  qed
qed

lemma tag_inj: "i < 256 \<Longrightarrow> k < 256 \<Longrightarrow> (of_nat i :: u8) = of_nat k \<longleftrightarrow> i = k"
  by (auto simp: of_nat_eq_iff take_bit_nat_eq_self dest!: arg_cong [of _ _ unat] simp: unsigned_of_nat)

lemma check_filled:
  assumes "\<forall>r \<in> set reqs. fst r \<noteq> 0"
  shows "check_blocks reqs (e\<lparr>ubytes := m\<rparr>) \<longleftrightarrow> (\<forall>i < length reqs. \<forall>a. within reqs i a \<longrightarrow> m a = of_nat i)"
  using assms memcheck_block [OF unat_u32_64]
  by (auto simp: check_blocks_def list_all_iff memcheck_def within_def split_beta Let_def)

text \<open>C30: the stress test of the allocator decides whether the allocator is right.  For up to \<open>MAX_BLOCKS\<close>
  blocks, filling every block with its number and checking them afterwards succeeds exactly when no two
  of the blocks share an address.\<close>

theorem test_mm_detects_overlap:
  assumes "\<forall>r \<in> set reqs. fst r \<noteq> 0" and "length reqs \<le> MAX_BLOCKS"
  shows "\<exists>e'. set_blocks reqs e = (Some (), e') \<and>
    (check_blocks reqs e' \<longleftrightarrow>
      (\<forall>i j. i < j \<and> j < length reqs \<longrightarrow>
        blocks_apart (fst (reqs ! i)) (unat (snd (reqs ! i))) (fst (reqs ! j)) (unat (snd (reqs ! j)))))"
proof -
  let ?m = "filled reqs (length reqs) (ubytes e)"
  have small: "i < 256" if "i < length reqs" for i using that assms(2) by (simp add: MAX_BLOCKS_def)
  have "(\<forall>i < length reqs. \<forall>a. within reqs i a \<longrightarrow> ?m a = of_nat i) \<longleftrightarrow>
    (\<forall>i j. i < j \<and> j < length reqs \<longrightarrow> (\<forall>a. within reqs i a \<longrightarrow> \<not> within reqs j a))" (is "?l \<longleftrightarrow> ?r")
  proof
    assume ?l
    show ?r
    proof (intro allI impI notI)
      fix i j a
      assume ij: "i < j \<and> j < length reqs" and a: "within reqs i a" "within reqs j a"
      then obtain k where "j \<le> k" "k < length reqs" "?m a = of_nat k" using filled_last by blast
      moreover have "?m a = of_nat i" using \<open>?l\<close> ij a(1) by simp
      ultimately show False using ij tag_inj [of i k] small [of i] small [of k] by simp
    qed
  next
    assume ?r
    show ?l
    proof (intro allI impI)
      fix i a
      assume i: "i < length reqs" "within reqs i a"
      then obtain k where "i \<le> k" "k < length reqs" "within reqs k a" "?m a = of_nat k" using filled_last by blast
      moreover have "\<not> i < k" using calculation \<open>?r\<close> i by blast
      ultimately show "?m a = of_nat i" by simp
    qed
  qed
  then show ?thesis using set_blocks_filled [OF assms(1), of e] check_filled [OF assms(1), where e = e and m = ?m]
    by (auto simp: blocks_apart_def within_def)
qed

theorem test_mm_detects_overlap_witness:
  "(\<exists>e'. set_blocks [(0x1000, 16), (0x1010, 16)] (fresh_user []) = (Some (), e') \<and>
      check_blocks [(0x1000, 16), (0x1010, 16)] e') \<and>
   (\<exists>e'. set_blocks [(0x1000, 16), (0x100F, 16)] (fresh_user []) = (Some (), e') \<and>
      \<not> check_blocks [(0x1000, 16), (0x100F, 16)] e')"
proof -
  have "blocks_apart 0x1000 16 0x1010 16" by (rule blocks_apart_ordered) simp_all
  moreover have "\<not> blocks_apart 0x1000 16 0x100F 16"
    unfolding blocks_apart_def by (auto simp: in_block_def intro!: exI [of _ "0x100F"])
  moreover have two: "\<exists>e'. set_blocks [x, y] (fresh_user []) = (Some (), e') \<and>
      (check_blocks [x, y] e' \<longleftrightarrow> blocks_apart (fst x) (unat (snd x)) (fst y) (unat (snd y)))"
    if "fst x \<noteq> 0" "fst y \<noteq> 0" for x y
  proof -
    have "(\<forall>i j. i < j \<and> j < length [x, y] \<longrightarrow>
        blocks_apart (fst ([x, y] ! i)) (unat (snd ([x, y] ! i))) (fst ([x, y] ! j)) (unat (snd ([x, y] ! j)))) \<longleftrightarrow>
      blocks_apart (fst x) (unat (snd x)) (fst y) (unat (snd y))" (is "?l \<longleftrightarrow> ?r")
    proof
      assume ?l
      from this [rule_format, of 0 1] show ?r by simp
    qed (auto simp: less_Suc_eq)
    moreover have "\<forall>r \<in> set [x, y]. fst r \<noteq> 0" "length [x, y] \<le> MAX_BLOCKS"
      using that by (simp_all add: MAX_BLOCKS_def)
    ultimately show ?thesis using test_mm_detects_overlap [of "[x, y]" "fresh_user []"] by blast
  qed
  from two [of "(0x1000, 16)" "(0x1010, 16)"] two [of "(0x1000, 16)" "(0x100F, 16)"] calculation
  show ?thesis by auto
qed

end
