(* ===== verification/Mvar_Correct.thy ===== *)
theory Mvar_Correct
  imports Process_Entries Shell_Commands User_Lib_Correct
begin

text \<open>
  Numbers travel as decimal strings: the shell prints them into argument buffers with \<open>sprintf\<close>, the
  processes it starts read them back.
\<close>

lemma store_string_append:
  "i + length s \<le> length buf \<Longrightarrow> store_string buf i s = Some (take i buf @ s @ drop (i + length s) buf)"
proof (induction s arbitrary: i buf)
  case Nil
  then show ?case by simp
next
  case (Cons c s)
  then have "store_string (buf[i := c]) (i + 1) s =
      Some (take (i + 1) (buf[i := c]) @ s @ drop (i + 1 + length s) (buf[i := c]))"
    by (intro Cons.IH) simp
  moreover have "take (i + 1) (buf[i := c]) = take i buf @ [c]" using Cons.prems
    by (simp add: take_Suc_conv_app_nth)
  moreover have "drop (i + 1 + length s) (buf[i := c]) = drop (i + length (c # s)) buf"
    by simp
  ultimately show ?case using Cons.prems by (simp add: store_at_def)
qed

lemma sprintf_str_out:
  assumes "sprintf_out fmt args = Some (s, n)" and "length s < cap" and "NUL \<notin> set s"
  shows "sprintf_str cap fmt args = Some s"
proof -
  have "store_string (replicate cap NUL) 0 (s @ [NUL]) = Some (s @ NUL # replicate (cap - Suc (length s)) NUL)"
    using assms(2) store_string_append [of 0 "s @ [NUL]" "replicate cap NUL"] by simp
  moreover have "c_string (s @ NUL # t) = s" for t
    using assms(3) unfolding c_string_def by (induction s) auto
  ultimately show ?thesis using assms(1) by (simp add: sprintf_str_def sprintf_def)
qed

lemma digits_no_NUL: "list_all is_digit s \<Longrightarrow> NUL \<notin> set s"
  by (auto simp: list_all_iff is_digit_def)

lemma parse_digit:
  assumes "is_digit c"
  shows "(scast (of_char c :: u8) :: u64) - 48 = of_nat (digit_value c)"
proof -
  have k: "48 \<le> (of_char c :: nat)" "(of_char c :: nat) \<le> 57" using assms by (auto simp: is_digit_def)
  define d where "d = (of_char c :: nat) - 48"
  have "(of_char c :: u8) = of_nat (48 + d)"
    using k of_nat_of_char [of c, where ?'a = u8] by (simp add: d_def)
  moreover have "d < 10" using k by (simp add: d_def)
  then have "(scast (of_nat (48 + d) :: u8) :: u64) - 48 = of_nat d"
    by (simp add: less_Suc_eq numeral_eq_Suc) auto
  ultimately show ?thesis by (simp add: digit_value_def d_def)
qed

lemma parse_u64_digits:
  assumes "list_all is_digit s"
  shows "parse_u64 s = dec 0 s"
proof -
  have "c_string s = s" using digits_no_NUL [OF assms] by (auto simp: c_string_def)
  moreover have "foldl (\<lambda>n c. n * 10 + (scast (of_char c :: u8) - 48)) a s = dec a s" for a :: u64
    using assms by (induction s arbitrary: a) (simp_all add: dec_def parse_digit)
  ultimately show ?thesis by (simp add: parse_u64_def)
qed

text \<open>C34: numbers survive the argument strings.  A pipe id printed by the shell with \<open>sprintf("%llu")\<close> fits
  its 32-byte buffer and is read back by the process as the same 64-bit number; an \<open>int\<close> printed with
  \<open>%d\<close> fits 12 bytes and \<open>atoi\<close> gives it back, for every value; \<open>printf\<close> puts the same characters on the
  screen, except for the least \<open>int\<close>, of which it prints only the sign.\<close>

theorem decimal_round_trip:
  "(\<exists>s. sprintf_str 32 ''%llu'' [PLong v] = Some s \<and> parse_u64 s = v \<and>
      printf_out ''%llu'' [PLong v] = Some (s, of_nat (length s))) \<and>
   (\<exists>s. sprintf_str 12 ''%d'' [PInt n] = Some s \<and> atoi s = n \<and>
      printf_out ''%d'' [PInt n] = (if n = 0x80000000 then Some (''-'', 1) else Some (s, of_nat (length s))))"
proof (intro conjI)
  have "length (unsigned_str (unat v)) \<le> Suc 19"
    using unat_64_lt [of v] by (intro length_unsigned_str) simp
  then have "sprintf_str 32 ''%llu'' [PLong v] = Some (unsigned_str (unat v))"
    by (intro sprintf_str_out [OF sprintf_llu]) (auto simp: digits_no_NUL)
  moreover have "parse_u64 (unsigned_str (unat v)) = v"
    by (simp add: parse_u64_digits dec_unsigned_str)
  ultimately show "\<exists>s. sprintf_str 32 ''%llu'' [PLong v] = Some s \<and> parse_u64 s = v \<and>
      printf_out ''%llu'' [PLong v] = Some (s, of_nat (length s))"
    unfolding printf_llu sprintf_llu by (intro exI [of _ "unsigned_str (unat v)"] conjI) auto
next
  let ?s = "if sint n < 0 then CHR ''-'' # unsigned_str (nat (- sint n)) else unsigned_str (nat (sint n))"
  have "NUL \<notin> set ?s" by (auto simp: digits_no_NUL)
  then have "sprintf_str 12 ''%d'' [PInt n] = Some ?s"
    using sprintf_d [of n] length_int_str [of n] by (intro sprintf_str_out) (auto simp: Let_def)
  moreover have "printf_out ''%d'' [PInt n] = Some (?s, of_nat (length ?s))" if "n \<noteq> 0x80000000"
    using print_int_str [OF that] by (simp add: emit_def)
  moreover have "printf_out ''%d'' [PInt 0x80000000] = Some (''-'', 1)"
    by (simp add: print_int_def digit_buffer_def emit_def digits_rev.simps)
  ultimately show "\<exists>s. sprintf_str 12 ''%d'' [PInt n] = Some s \<and> atoi s = n \<and>
      printf_out ''%d'' [PInt n] = (if n = 0x80000000 then Some (''-'', 1) else Some (s, of_nat (length s)))"
    using atoi_int_str [of n] by (intro exI [of _ ?s]) simp
qed

end
