(* ===== verification/Shell_Pipeline.thy ===== *)
theory Shell_Pipeline
  imports Shell_Correct User_Log
begin

text \<open>
  A pipeline command that returns \<open>OK\<close> has created exactly two processes, the left one on the writing
  and the right one on the reading side of the pipe it created first.
\<close>

section \<open>A pipeline that succeeds\<close>

lemma logs_get_vec [log_rules]: "(\<And>v. Q v []) \<Longrightarrow> logs j (get_vec p) Q"
  by (rule logsI) (auto simp: get_vec_def split: option.splits obj.splits)

lemma logs_modify [log_rules]:
  "(\<And>e. script (f e) = script e \<and> trace (f e) = trace e \<and> junk (f e) = junk e) \<Longrightarrow> Q () [] \<Longrightarrow> logs j (modify_io f) Q"
  by (rule logsI) (auto simp: modify_io_def)

lemma logs_when [log_rules]: "(b \<Longrightarrow> logs j m Q) \<Longrightarrow> (\<not> b \<Longrightarrow> Q () []) \<Longrightarrow> logs j (when_io b m) Q"
  unfolding when_io_def by (intro log_rules)

text \<open>Every call of a run is in its log.\<close>

lemma logs_only:
  assumes "logs j m (\<lambda>_ _. True)" and "only P m"
  shows "logs j m (\<lambda>_ l. list_all P (map fst l))"
proof (rule logsI)
  fix e r e'
  assume r: "m e = (Some r, e')" and j: "junk e = j"
  obtain cs where cs: "trace e' = trace e @ cs" "list_all P cs" using onlyD [OF assms(2), of e] r by auto
  show "junk e' = j \<and> (\<exists>l. script e = map snd l @ script e' \<and> trace e' = trace e @ map fst l \<and> list_all P (map fst l))"
    by (rule logsE [OF assms(1) r j]) (use cs in auto)
qed

definition creations :: "log \<Rightarrow> ucall list" where
  "creations l = filter is_create (map fst l)"

lemma creations_append [simp]: "creations (l @ l') = creations l @ creations l'" "creations [] = []"
  by (simp_all add: creations_def)

lemma no_creations:
  assumes "logs j m (\<lambda>_ _. True)" and "only (\<lambda>c. \<not> is_create c) m"
  shows "logs j m (\<lambda>_ l. creations l = [])"
  by (rule logs_mono [OF logs_only [OF assms]]) (auto simp: creations_def list_all_iff filter_empty_conv)

lemma logs_free [log_rules]: "logs j (free p) (\<lambda>_ _. True)"
  unfolding free_def call_def by (intro log_rules) auto

lemma logs_for_any: "(\<And>x. logs j (f x) (\<lambda>_ _. True)) \<Longrightarrow> logs j (for_io f xs) (\<lambda>_ _. True)"
  by (rule logs_mono [OF logs_for [where R = "\<lambda>_ _. True"]]) auto

lemma logs_copy: "logs j (copy_pipe_args args) (\<lambda>_ _. True)"
proof (induction args)
  case Nil
  then show ?case by (simp add: logs_ret)
next
  case (Cons a args)
  show ?case unfolding copy_pipe_args.simps Let_def malloc_def call_def put_obj_def
    by (intro log_rules logs_mono [OF Cons]) auto
qed

lemma pipe_argv_quiet: "logs j (pipe_argv args) (\<lambda>_ l. creations l = [])"
  by (rule no_creations [OF _ pipe_argv_none])
    (unfold pipe_argv_def malloc_def call_def put_obj_def, intro log_rules logs_mono [OF logs_copy], auto)

lemma free_pipe_argv_quiet: "logs j (free_pipe_argv v) (\<lambda>_ l. creations l = [])"
  by (rule no_creations [OF _ free_pipe_argv_none])
    (unfold free_pipe_argv_def, intro log_rules logs_mono [OF logs_for_any] logs_mono [OF logs_free], auto intro: log_rules)

lemma external_logs:
  assumes "i \<noteq> 0 \<or> out \<noteq> 0"
  shows "logs j (execute_external_command nm (Entry f) argv fg i out)
    (\<lambda>_ l. creations l = [Sys_create_process nm (Entry f) argv 1 (pack_pipes fg i out)])"
  using assms
  unfolding execute_external_command_def my_create_process_with_pipes_def spawn_def low_address_def my_wait_def call_def
  by (auto intro!: log_rules simp: creations_def is_create_def)

lemma printf_quiet: "logs j (printf fmt args) (\<lambda>_ l. creations l = [])"
  by (rule no_creations [OF logs_mono [OF printf_log]]) (auto intro!: only_rules)

lemma call_quiet: "\<not> is_create c \<Longrightarrow> logs j (call c) (\<lambda>_ l. creations l = [])"
  unfolding call_def by (intro log_rules) (auto simp: creations_def)

text \<open>The two creations of a pipeline that returns \<open>OK\<close>.\<close>

definition connected :: "u64 \<Rightarrow> ucall list \<Rightarrow> bool" where
  "connected pid cs \<longleftrightarrow>
     (\<exists>nm f nm' g l r. cs = [l, r] \<and> left_create nm f pid l \<and> right_create nm' g pid r)"

lemma CMD_not_OK: "CMD_ERROR \<noteq> OK" "ERROR \<noteq> OK"
  by (simp_all add: CMD_ERROR_def OK_def ERROR_def)

lemma run_pipeline_ok:
  assumes "get_process_entry_function i = Entry f" and "get_process_entry_function k = Entry g" and "pid \<noteq> 0"
  shows "logs j (run_pipeline i k as bs pid) (\<lambda>r l. r = OK \<longrightarrow> connected pid (creations l))"
  unfolding run_pipeline_def assms(1,2) printf_ret_def my_kill_def my_yield_def
  by (intro logs_bind logs_then logs_if logs_when logs_ret logs_mono [OF pipe_argv_quiet] logs_mono [OF free_pipe_argv_quiet]
      logs_mono [OF external_logs] logs_mono [OF printf_quiet] logs_mono [OF call_quiet])
    (use assms(3) in \<open>auto simp: CMD_not_OK connected_def left_create_def right_create_def\<close>)

lemma execute_pipeline_ok_log:
  "logs j (execute_pipeline left right)
     (\<lambda>r l. r = OK \<longrightarrow> (\<exists>a l'. l = (Sys_pipe_create, a) # l' \<and> connected (a_ret a) (creations l')))"
proof -
  have fin: "logs j (printf_ret fmt [] CMD_ERROR) (\<lambda>r l. r = OK \<longrightarrow> P r l)" for fmt P
    unfolding printf_ret_def by (intro logs_then logs_mono [OF printf_quiet] logs_ret) (simp add: CMD_not_OK)
  have run: "logs j (run_pipeline i k as bs (a_ret a))
      (\<lambda>r l. r = OK \<longrightarrow> connected (a_ret a) (creations l))"
    if fns: "get_process_entry_function i \<noteq> Addr 0" "get_process_entry_function k \<noteq> Addr 0" and "a_ret a \<noteq> 0" for i k as bs a
  proof -
    obtain f g where "get_process_entry_function i = Entry f" "get_process_entry_function k = Entry g"
      using fns entry_or_null [of i] entry_or_null [of k] by blast
    from run_pipeline_ok [OF this \<open>a_ret a \<noteq> 0\<close>] show ?thesis .
  qed
  show ?thesis unfolding execute_pipeline_def Let_def user_pipe_create_def call_def
    by (auto intro!: logs_if fin logs_bind logs_syscall logs_ret run simp: CMD_not_OK split: option.split)
qed

lemma execute_pipeline_ok:
  assumes "execute_pipeline left right e = (Some OK, e')"
  shows "\<exists>cs. trace e' = trace e @ cs \<and> connected (first_answer e) (filter is_create cs)"
proof (rule logsE [OF execute_pipeline_ok_log assms refl])
  fix l
  assume l: "script e = map snd l @ script e'" "trace e' = trace e @ map fst l"
    and "OK = OK \<longrightarrow> (\<exists>a l'. l = (Sys_pipe_create, a) # l' \<and> connected (a_ret a) (creations l'))"
  then obtain a l' where "l = (Sys_pipe_create, a) # l'" "connected (a_ret a) (creations l')" by auto
  then show ?thesis using l
    by (intro exI [of _ "map fst l"]) (simp add: first_answer_def creations_def is_create_def)
qed

end
