(* ===== verification/User_Kernel.thy ===== *)
theory User_Kernel
  imports Shell_Pipeline Syscalls
begin

text \<open>
  Where the user image and the kernel meet: the register in which the library packs the foreground flag
  and the pipe ids is decoded by the kernel's \<open>syscall_create_process\<close>, so that the two processes of a
  pipeline are connected by the pipe the shell has created.
\<close>

lemma low_16: "(w :: u64) < 0x10000 \<Longrightarrow> take_bit 16 w = w"
  by (rule unsigned_word_eqI [where ?'a = nat])
    (simp add: unsigned_take_bit_eq take_bit_nat_eq_self word_less_nat_alt)

lemma bit_low_16: "(w :: u64) < 0x10000 \<Longrightarrow> bit w n \<Longrightarrow> n < 16"
  using low_16 [of w] by (metis bit_take_bit_iff)

text \<open>The packed register, for a flag \<open>b\<close> and ids below \<open>2 ^ 16\<close>, at least one of them not zero.\<close>

lemma unpack_pack:
  assumes "i < 0x10000" and "out < 0x10000" and "i \<noteq> 0 \<or> out \<noteq> 0"
  shows "unpack_foreground_and_pipes (pack_pipes (if b then 1 else 0) i out) = (if b then 1 else 0, i, out)"
proof -
  have m: "(0xFFFF :: u64) = mask 16" by (simp add: mask_eq_exp_minus_1)
  have fg: "(scast (if b then 1 else 0 :: cint) AND 1 :: u64) = (if b then 1 else 0)" by simp
  define p where "p = pack_pipes (if b then 1 else 0) i out"
  have p: "p = i OR push_bit 16 out OR push_bit 32 (if b then 1 else 0) OR push_bit 33 1"
    using assms(3) low_16 [OF assms(1)] low_16 [OF assms(2)]
    unfolding p_def pack_pipes_def fg m by (simp add: take_bit_eq_mask [symmetric] Let_def or.assoc)
  have out: "n < 32" if "bit out (n - 16)" "16 \<le> n" for n
    using bit_low_16 [OF assms(2) that(1)] that(2) by simp
  have bits: "bit p n \<longleftrightarrow> bit i n \<or> 16 \<le> n \<and> n < 32 \<and> bit out (n - 16) \<or> n = 32 \<and> b \<or> n = 33" for n
    unfolding p bit_or_iff bit_push_bit_iff using out [of n] by (auto simp: bit_1_iff)
  have "p AND 0xFFFF = i" "drop_bit 16 p AND 0xFFFF = out"
    unfolding m by (rule bit_eqI; use bits bit_low_16 [OF assms(1)] bit_low_16 [OF assms(2)] in \<open>force simp: bit_simps\<close>)+
  moreover have "drop_bit 32 p AND 1 = (if b then 1 else 0)"
    by (rule bit_eqI) (use bits in \<open>auto simp: bit_simps bit_1_iff dest: bit_low_16 [OF assms(1)]\<close>)
  moreover have "\<not> p \<le> 1"
  proof
    assume "p \<le> 1"
    then have "unat p = unat (0 :: u64) \<or> unat p = unat (1 :: u64)" by (auto simp: word_le_nat_alt)
    then have "p = 0 \<or> p = 1" using unsigned_word_eqI [of p 0, where ?'a = nat] unsigned_word_eqI [of p 1, where ?'a = nat] by blast
    then show False using bits [of 33] by (auto simp: bit_1_iff)
  qed
  ultimately show ?thesis unfolding p_def [symmetric]
    by (simp add: unpack_foreground_and_pipes_def int_of_reg_def)
qed
text \<open>What the kernel reads out of the register of a creation: foreground, standard input, standard
  output.\<close>

definition decoded :: "ucall \<Rightarrow> int \<times> u64 \<times> u64" where
  "decoded c = (case c of Sys_create_process nm f a p g \<Rightarrow> unpack_foreground_and_pipes g | _ \<Rightarrow> (0, 0, 0))"

lemma decoded_sides:
  assumes "pid < 0x10000" and "pid \<noteq> 0"
  shows "left_create nm f pid c \<Longrightarrow> decoded c = (0, 0, pid)" and "right_create nm f pid c \<Longrightarrow> decoded c = (1, pid, 0)"
  using assms unpack_pack [of 0 pid False] unpack_pack [of pid 0 True]
  by (auto simp: left_create_def right_create_def decoded_def)



end
