(* ===== verification/Named_Sems.thy ===== *)
theory Named_Sems
  imports Shell_Correct
begin

text \<open>
  The table of named semaphores of the user library is a finite map from names to the kernel's
  identifiers: opening a new name adds to it, closing a name removes it, waiting and posting use it.
  The table is shared by all processes of the user image.
\<close>

text \<open>Eight entries; a used one points to its name on the heap; names and pointers are distinct.\<close>

definition name_at :: "uenv \<Rightarrow> nat \<Rightarrow> string option" where
  "name_at e i =
     (if user_sem_names e ! i = NULL then None
      else case heap e (user_sem_names e ! i) of Some (Str s) \<Rightarrow> Some s | _ \<Rightarrow> None)"

definition sem_table_ok :: "uenv \<Rightarrow> bool" where
  "sem_table_ok e \<longleftrightarrow>
     length (user_sem_names e) = MAX_USER_SEMS \<and> length (user_sem_ids e) = MAX_USER_SEMS \<and>
     (\<forall>i < MAX_USER_SEMS. user_sem_names e ! i \<noteq> NULL \<longrightarrow> (\<exists>s. name_at e i = Some s \<and> NUL \<notin> set s)) \<and>
     (\<forall>i < MAX_USER_SEMS. \<forall>k < MAX_USER_SEMS. name_at e i = name_at e k \<longrightarrow> name_at e i \<noteq> None \<longrightarrow> i = k) \<and>
     (\<forall>i < MAX_USER_SEMS. \<forall>k < MAX_USER_SEMS.
        user_sem_names e ! i = user_sem_names e ! k \<longrightarrow> user_sem_names e ! i \<noteq> NULL \<longrightarrow> i = k)"

definition sem_map :: "uenv \<Rightarrow> string \<Rightarrow> u64 option" where
  "sem_map e nm = map_option (\<lambda>i. user_sem_ids e ! i) (find_sem_index (Some nm) e)"

lemma sem_name_is_iff:
  assumes "sem_table_ok e" and "i < MAX_USER_SEMS" and "NUL \<notin> set nm"
  shows "sem_name_is nm e i \<longleftrightarrow> name_at e i = Some nm"
proof (cases "user_sem_names e ! i = NULL")
  case True
  then show ?thesis by (simp add: sem_name_is_def name_at_def)
next
  case False
  then obtain s where s: "name_at e i = Some s" "NUL \<notin> set s" using assms(1,2) by (auto simp: sem_table_ok_def)
  then have "heap e (user_sem_names e ! i) = Some (Str s)"
    using False by (auto simp: name_at_def split: option.splits obj.splits)
  then show ?thesis using False s strcmp_eq [OF s(2) assms(3)] by (auto simp: sem_name_is_def)
qed

lemma find_sem_iff:
  assumes "sem_table_ok e" and "NUL \<notin> set nm"
  shows "find_sem_index (Some nm) e = Some i \<longleftrightarrow> i < MAX_USER_SEMS \<and> name_at e i = Some nm"
proof -
  have "find_sem_index (Some nm) e = Some i \<longleftrightarrow>
      i < MAX_USER_SEMS \<and> sem_name_is nm e i \<and> (\<forall>k < i. \<not> sem_name_is nm e k)"
    by (auto simp: find_sem_index_def find_Some_iff)
  also have "\<dots> \<longleftrightarrow> i < MAX_USER_SEMS \<and> name_at e i = Some nm"
  proof -
    have "name_at e k \<noteq> Some nm" if "name_at e i = Some nm" "k < i" "i < MAX_USER_SEMS" for k
      using assms(1) that unfolding sem_table_ok_def by (metis less_trans option.distinct(1) less_irrefl)
    then show ?thesis using sem_name_is_iff [OF assms(1) _ assms(2)] by (metis less_trans)
  qed
  finally show ?thesis .
qed

lemma sem_map_iff:
  assumes "sem_table_ok e" and "NUL \<notin> set nm"
  shows "sem_map e nm = Some sid \<longleftrightarrow> (\<exists>i < MAX_USER_SEMS. name_at e i = Some nm \<and> user_sem_ids e ! i = sid)"
  using find_sem_iff [OF assms] by (auto simp: sem_map_def)

lemma sem_map_ext:
  assumes "sem_table_ok e" and "NUL \<notin> set nm" and "\<And>sid. (\<exists>i < MAX_USER_SEMS. name_at e i = Some nm \<and> user_sem_ids e ! i = sid) \<longleftrightarrow> m = Some sid"
  shows "sem_map e nm = m"
  using sem_map_iff [OF assms(1,2)] assms(3) by (cases m; cases "sem_map e nm") auto

section \<open>Changing the table\<close>

definition agrees :: "(string \<Rightarrow> u64 option) \<Rightarrow> (string \<Rightarrow> u64 option) \<Rightarrow> bool" where
  "agrees f g \<longleftrightarrow> (\<forall>nm. NUL \<notin> set nm \<longrightarrow> f nm = g nm)"

lemma table_insert:
  assumes ok: "sem_table_ok e" and p: "p \<noteq> NULL" "heap e p = None" and j: "j < MAX_USER_SEMS" "user_sem_names e ! j = NULL"
    and nm: "NUL \<notin> set nm" "sem_map e nm = None"
    and e': "heap e' = (heap e)(p \<mapsto> Str nm)" "user_sem_names e' = (user_sem_names e)[j := p]"
      "user_sem_ids e' = (user_sem_ids e)[j := sid]"
  shows "sem_table_ok e'" and "agrees (sem_map e') ((sem_map e)(nm \<mapsto> sid))"
proof -
  have len: "length (user_sem_names e) = MAX_USER_SEMS" "length (user_sem_ids e) = MAX_USER_SEMS"
    using ok by (auto simp: sem_table_ok_def)
  have other: "user_sem_names e ! i \<noteq> p" if "i < MAX_USER_SEMS" for i
    using ok that p by (auto simp: sem_table_ok_def name_at_def split: option.splits if_splits)
  have at: "name_at e' i = (if i = j then Some nm else name_at e i)" if "i < MAX_USER_SEMS" for i
    using that other [OF that] p j len by (auto simp: name_at_def e' nth_list_update)
  have fresh: "name_at e i \<noteq> Some nm" if "i < MAX_USER_SEMS" for i
    using sem_map_iff [OF ok nm(1)] nm(2) that by auto
  have free: "name_at e j = None" using j by (simp add: name_at_def)
  show ok': "sem_table_ok e'" unfolding sem_table_ok_def
  proof (intro conjI allI impI)
    fix i assume i: "i < MAX_USER_SEMS" "user_sem_names e' ! i \<noteq> NULL"
    then show "\<exists>s. name_at e' i = Some s \<and> NUL \<notin> set s"
      using at [OF i(1)] nm(1) ok len j(1) by (cases "i = j") (auto simp: sem_table_ok_def e')
  next
    fix i k assume "i < MAX_USER_SEMS" "k < MAX_USER_SEMS" "name_at e' i = name_at e' k" "name_at e' i \<noteq> None"
    then show "i = k" using at [of i] at [of k] fresh [of i] fresh [of k] ok
      by (auto simp: sem_table_ok_def split: if_splits)
  next
    fix i k assume "i < MAX_USER_SEMS" "k < MAX_USER_SEMS" "user_sem_names e' ! i = user_sem_names e' ! k" "user_sem_names e' ! i \<noteq> NULL"
    then show "i = k" using other [of i] other [of k] ok len j(1)
      by (cases "i = j"; cases "k = j") (auto simp: sem_table_ok_def e')
  qed (simp_all add: e' len)
  show "agrees (sem_map e') ((sem_map e)(nm \<mapsto> sid))" unfolding agrees_def
  proof (intro allI impI)
    fix x assume x: "NUL \<notin> set x"
    have keep: "i \<noteq> j" if "name_at e i = Some x" for i using that free by auto
    have "name_at e' i = Some x \<and> user_sem_ids e' ! i = v \<longleftrightarrow>
        (if x = nm then i = j \<and> sid = v else name_at e i = Some x \<and> user_sem_ids e ! i = v)"
      if "i < MAX_USER_SEMS" for i v
      using at [OF that] fresh [OF that] keep [of i] that len by (cases "i = j") (auto simp: e')
    then have "(\<exists>i < MAX_USER_SEMS. name_at e' i = Some x \<and> user_sem_ids e' ! i = v) \<longleftrightarrow>
        (if x = nm then v = sid else \<exists>i < MAX_USER_SEMS. name_at e i = Some x \<and> user_sem_ids e ! i = v)" for v
      using j(1) by (auto cong: conj_cong)
    then show "sem_map e' x = ((sem_map e)(nm \<mapsto> sid)) x"
      by (intro sem_map_ext [OF ok' x]) (auto simp: sem_map_iff [OF ok x])
  qed
qed

lemma table_remove:
  assumes ok: "sem_table_ok e" and i: "i < MAX_USER_SEMS" "name_at e i = Some nm" and nm: "NUL \<notin> set nm"
    and e': "heap e' = (heap e)(user_sem_names e ! i := None)" "user_sem_names e' = (user_sem_names e)[i := NULL]"
      "user_sem_ids e' = (user_sem_ids e)[i := 0]"
  shows "sem_table_ok e'" and "agrees (sem_map e') ((sem_map e)(nm := None))"
proof -
  have len: "length (user_sem_names e) = MAX_USER_SEMS" "length (user_sem_ids e) = MAX_USER_SEMS"
    using ok by (auto simp: sem_table_ok_def)
  have nn: "user_sem_names e ! i \<noteq> NULL" using i(2) by (auto simp: name_at_def)
  have other: "user_sem_names e ! k \<noteq> user_sem_names e ! i" if "k < MAX_USER_SEMS" "k \<noteq> i" for k
    using ok that i(1) nn unfolding sem_table_ok_def by metis
  have at: "name_at e' k = (if k = i then None else name_at e k)" if "k < MAX_USER_SEMS" for k
    using that other [OF that] i(1) len by (auto simp: name_at_def e')
  show ok': "sem_table_ok e'" unfolding sem_table_ok_def
  proof (intro conjI allI impI)
    fix k assume "k < MAX_USER_SEMS" "user_sem_names e' ! k \<noteq> NULL"
    then show "\<exists>s. name_at e' k = Some s \<and> NUL \<notin> set s"
      using at [of k] ok len by (cases "k = i") (auto simp: sem_table_ok_def e')
  next
    fix k l assume "k < MAX_USER_SEMS" "l < MAX_USER_SEMS" "name_at e' k = name_at e' l" "name_at e' k \<noteq> None"
    then show "k = l" using at [of k] at [of l] ok by (auto simp: sem_table_ok_def split: if_splits)
  next
    fix k l assume "k < MAX_USER_SEMS" "l < MAX_USER_SEMS" "user_sem_names e' ! k = user_sem_names e' ! l" "user_sem_names e' ! k \<noteq> NULL"
    then show "k = l" using ok len i(1)
      by (cases "k = i"; cases "l = i") (auto simp: sem_table_ok_def e')
  qed (simp_all add: e' len)
  have uniq: "k = i" if "k < MAX_USER_SEMS" "name_at e k = Some nm" for k
    using ok that i unfolding sem_table_ok_def by (metis option.distinct(1))
  show "agrees (sem_map e') ((sem_map e)(nm := None))" unfolding agrees_def
  proof (intro allI impI)
    fix x assume x: "NUL \<notin> set x"
    have keep: "k \<noteq> i" if "name_at e k = Some x" "x \<noteq> nm" for k using that i(2) by auto
    have "(\<exists>k < MAX_USER_SEMS. name_at e' k = Some x \<and> user_sem_ids e' ! k = v) \<longleftrightarrow>
        x \<noteq> nm \<and> (\<exists>k < MAX_USER_SEMS. name_at e k = Some x \<and> user_sem_ids e ! k = v)" for v
      using at keep uniq len by (auto simp: e' split: if_splits) (metis nth_list_update_neq)
    then show "sem_map e' x = ((sem_map e)(nm := None)) x"
      by (intro sem_map_ext [OF ok' x]) (auto simp: sem_map_iff [OF ok x])
  qed
qed

section \<open>Property\<close>

lemma c_string_id: "NUL \<notin> set s \<Longrightarrow> c_string s = s"
  by (auto simp: c_string_def)



end
