(* ===== verification/Buddy_Tiling.thy ===== *)
theory Buddy_Tiling
  imports Kernel_Prelude
begin

text \<open>
  The geometry of the buddy system.  The managed region is a row of units of the smallest block size.
  The pair \<open>(i, l)\<close> is the block of level \<open>l\<close> that covers the \<open>2 ^ l\<close> units from \<open>i * 2 ^ l\<close> on; its
  buddy is \<open>(sibling i, l)\<close>, and together they are \<open>(i div 2, Suc l)\<close>.  A tiling is a set of blocks that
  covers every unit once.
\<close>

section \<open>Blocks\<close>

type_synonym dyad = "nat \<times> nat"

definition units :: "dyad \<Rightarrow> nat set" where
  "units b = {u. u div 2 ^ snd b = fst b}"

definition start :: "dyad \<Rightarrow> nat" where
  "start b = fst b * 2 ^ snd b"

definition sibling :: "nat \<Rightarrow> nat" where
  "sibling i = i XOR 1"

lemma mem_units [simp]: "u \<in> units (i, l) \<longleftrightarrow> u div 2 ^ l = i"
  by (simp add: units_def)

lemma div_pow_eq: "u div 2 ^ l = i \<longleftrightarrow> i * 2 ^ l \<le> u \<and> u < Suc i * 2 ^ l" for u :: nat
proof
  assume "u div 2 ^ l = i"
  then show "i * 2 ^ l \<le> u \<and> u < Suc i * 2 ^ l"
    using div_times_less_eq_dividend [of u "2 ^ l"] dividend_less_div_times [of "2 ^ l" u] by auto
next
  assume "i * 2 ^ l \<le> u \<and> u < Suc i * 2 ^ l"
  then show "u div 2 ^ l = i" by (intro div_nat_eqI) (simp_all only: mult.commute)
qed

lemma units_interval: "units (i, l) = {i * 2 ^ l..<Suc i * 2 ^ l}"
  unfolding set_eq_iff mem_units div_pow_eq atLeastLessThan_iff by (rule allI) (rule refl)

lemma last_unit: "Suc i * 2 ^ l - 1 \<in> units (i, l)"
proof -
  have "0 < (2 :: nat) ^ l" by simp
  then have "i * 2 ^ l \<le> Suc i * 2 ^ l - 1 \<and> Suc i * 2 ^ l - 1 < Suc i * 2 ^ l"
    unfolding mult_Suc by linarith
  then show ?thesis unfolding units_interval by simp
qed

lemma card_units: "card (units (i, l)) = 2 ^ l" and finite_units [simp]: "finite (units b)"
  by (simp add: units_interval) (cases b, simp add: units_interval)

lemma start_div [simp]: "start (i, l) div 2 ^ l = i"
  by (simp add: start_def)

lemma start_units: "start b \<in> units b"
  by (cases b) (simp add: start_def)

lemma sibling_eq: "sibling i = (if even i then Suc i else i - 1)"
  using xor_one_eq [of i] by (simp add: sibling_def)

lemma sibling_div [simp]: "sibling i div 2 = i div 2"
  by (auto simp: sibling_eq elim!: oddE)

lemma sibling_neq [simp]: "sibling i \<noteq> i"
  by (auto simp: sibling_eq elim!: oddE)

lemma sibling_sibling [simp]: "sibling (sibling i) = i"
  by (auto simp: sibling_eq elim!: oddE)

lemma siblings: "{(i, l), (sibling i, l)} = {(2 * (i div 2), l), (Suc (2 * (i div 2)), l)}"
  by (cases "even i") (auto simp: sibling_eq elim!: evenE oddE)

lemma div_up: "l < k \<Longrightarrow> w div 2 ^ k = w div 2 ^ l div 2 div 2 ^ (k - Suc l)" for w :: nat
  by (simp add: div_mult2_eq [symmetric] power_add [symmetric] mult.assoc flip: power_Suc)

lemma units_nested:
  assumes "u \<in> units (i, l)" and "u \<in> units (j, k)" and "k \<le> l"
  shows "units (j, k) \<subseteq> units (i, l)"
proof
  fix v assume v: "v \<in> units (j, k)"
  have "w div 2 ^ l = w div 2 ^ k div 2 ^ (l - k)" for w :: nat
    using assms(3) by (simp add: div_mult2_eq [symmetric] power_add [symmetric])
  with assms v show "v \<in> units (i, l)" by simp
qed

lemma units_Suc: "units (i, Suc l) = units (2 * i, l) \<union> units (Suc (2 * i), l)"
proof -
  have "u div 2 ^ Suc l = i \<longleftrightarrow> u div 2 ^ l = 2 * i \<or> u div 2 ^ l = Suc (2 * i)" for u
    unfolding power_Suc2 div_mult2_eq by (auto simp: div_nat_eqI) presburger?
  then show ?thesis by auto
qed

lemma units_disjoint_halves: "units (2 * i, l) \<inter> units (Suc (2 * i), l) = {}"
  by auto

section \<open>Tilings\<close>

definition tiling :: "nat \<Rightarrow> dyad set \<Rightarrow> bool" where
  "tiling N T \<longleftrightarrow> \<Union> (units ` T) = {..<N} \<and> (\<forall>b \<in> T. \<forall>c \<in> T. units b \<inter> units c \<noteq> {} \<longrightarrow> b = c)"

lemma tiling_same: "tiling N T \<Longrightarrow> b \<in> T \<Longrightarrow> c \<in> T \<Longrightarrow> u \<in> units b \<Longrightarrow> u \<in> units c \<Longrightarrow> b = c"
  by (auto simp: tiling_def)

lemma tiling_cover:
  assumes "tiling N T" and "u < N"
  obtains j k where "(j, k) \<in> T" and "u \<in> units (j, k)"
proof -
  from assms have "u \<in> \<Union> (units ` T)" by (simp add: tiling_def)
  with that show thesis by fastforce
qed

lemma tiling_range: "tiling N T \<Longrightarrow> (i, l) \<in> T \<Longrightarrow> Suc i * 2 ^ l \<le> N"
proof -
  assume t: "tiling N T" "(i, l) \<in> T"
  then have "units (i, l) \<subseteq> {..<N}" by (auto simp: tiling_def)
  moreover have "Suc i * 2 ^ l - 1 \<in> units (i, l)" by (rule last_unit)
  ultimately have "Suc i * 2 ^ l - 1 < N" by blast
  then show "Suc i * 2 ^ l \<le> N" by linarith
qed

lemma tiling_start_inj: "tiling N T \<Longrightarrow> inj_on start T"
  using start_units by (intro inj_onI) (metis tiling_same)

lemma tiling_start_less: "tiling N T \<Longrightarrow> b \<in> T \<Longrightarrow> start b < N"
  using start_units [of b] by (auto simp: tiling_def)

lemma tiling_finite: "tiling N T \<Longrightarrow> finite T"
  by (rule inj_on_finite [of start _ "{..<N}"]) (auto intro: tiling_start_inj tiling_start_less)

lemma tiling_sum: "tiling N T \<Longrightarrow> (\<Sum>b \<in> T. 2 ^ snd b) = N"
proof -
  assume t: "tiling N T"
  then have "card (\<Union> (units ` T)) = (\<Sum>b \<in> T. card (units b))"
    by (intro card_UN_disjoint) (auto simp: tiling_finite tiling_def)
  also have "\<dots> = (\<Sum>b \<in> T. 2 ^ snd b)" by (rule sum.cong) (auto simp: card_units)
  finally show ?thesis using t by (simp add: tiling_def)
qed

lemma tiling_apart:
  assumes "tiling N T" "(i, l) \<in> T" "(j, k) \<in> T" "(i, l) \<noteq> (j, k)"
  shows "Suc i * 2 ^ l \<le> start (j, k) \<or> Suc j * 2 ^ k \<le> start (i, l)"
proof (rule ccontr)
  assume "\<not> ?thesis"
  then have "max (start (i, l)) (start (j, k)) \<in> units (i, l) \<inter> units (j, k)"
    unfolding units_interval by (auto simp: start_def max_def)
  with assms tiling_same [OF assms(1-3)] show False by blast
qed

text \<open>Some blocks may be replaced by others that cover the same units.\<close>

lemma tiling_replace:
  assumes t: "tiling N T" and B: "B \<subseteq> T" and C: "\<Union> (units ` C) = \<Union> (units ` B)"
    and d: "\<And>b c. b \<in> C \<Longrightarrow> c \<in> C \<Longrightarrow> units b \<inter> units c \<noteq> {} \<Longrightarrow> b = c"
  shows "tiling N (T - B \<union> C)"
  unfolding tiling_def
proof (intro conjI ballI impI)
  have "\<Union> (units ` (T - B \<union> C)) = \<Union> (units ` (T - B \<union> B))" by (simp only: image_Un Union_Un_distrib C)
  also have "\<dots> = {..<N}" using t B by (simp add: Un_absorb2 tiling_def)
  finally show "\<Union> (units ` (T - B \<union> C)) = {..<N}" .
  have out: False if "b \<in> T - B" "c \<in> C" "u \<in> units b" "u \<in> units c" for b c u
  proof -
    from that C obtain b' where "b' \<in> B" "u \<in> units b'" by blast
    with tiling_same [OF t, of b b' u] that B show False by blast
  qed
  fix b c assume bc: "b \<in> T - B \<union> C" "c \<in> T - B \<union> C" "units b \<inter> units c \<noteq> {}"
  then obtain u where u: "u \<in> units b" "u \<in> units c" by blast
  from bc(1,2) consider "b \<in> T" "c \<in> T" | "b \<in> C" "c \<in> C" | "b \<in> T - B" "c \<in> C" | "b \<in> C" "c \<in> T - B" by blast
  then show "b = c"
  proof cases
    case 1 then show ?thesis using tiling_same [OF t _ _ u] by blast
  next
    case 2 then show ?thesis using d bc(3) by blast
  qed (use out u in blast)+
qed

lemma tiling_split:
  assumes "tiling N T" and "(i, Suc l) \<in> T"
  shows "tiling N (T - {(i, Suc l)} \<union> {(2 * i, l), (Suc (2 * i), l)})"
  using assms units_disjoint_halves [of i l] by (intro tiling_replace) (auto simp: units_Suc)

lemma halves_notin:
  assumes t: "tiling N T" and b: "(i, Suc l) \<in> T"
  shows "(2 * i, l) \<notin> T" and "(Suc (2 * i), l) \<notin> T"
proof -
  have s: "start (2 * i, l) \<in> units (i, Suc l)" "start (Suc (2 * i), l) \<in> units (i, Suc l)"
    using start_units [of "(2 * i, l)"] start_units [of "(Suc (2 * i), l)"] units_Suc [of i l] by auto
  show "(2 * i, l) \<notin> T" using tiling_same [OF t _ b start_units s(1)] by auto
  show "(Suc (2 * i), l) \<notin> T" using tiling_same [OF t _ b start_units s(2)] by auto
qed

lemma tiling_merge:
  assumes "tiling N T" and "(2 * i, l) \<in> T" and "(Suc (2 * i), l) \<in> T"
  shows "tiling N (T - {(2 * i, l), (Suc (2 * i), l)} \<union> {(i, Suc l)})"
  using assms by (intro tiling_replace) (auto simp: units_Suc)

lemma tiling_extend:
  assumes t: "tiling c T" and "2 ^ l dvd c"
  shows "tiling (c + 2 ^ l) (insert (c div 2 ^ l, l) T)"
  unfolding tiling_def
proof (intro conjI ballI impI)
  from assms(2) have c: "c div 2 ^ l * 2 ^ l = c" by simp
  have u: "units (c div 2 ^ l, l) = {c..<c + 2 ^ l}"
    unfolding units_interval mult_Suc c by (simp only: add.commute)
  have T: "\<Union> (units ` T) = {..<c}" using t by (simp add: tiling_def)
  have "{c..<c + 2 ^ l} \<union> {..<c} = {..<c + 2 ^ l}" by auto
  then show "\<Union> (units ` insert (c div 2 ^ l, l) T) = {..<c + 2 ^ l}" by (simp only: image_insert Union_insert u T)
  have d: "units b \<inter> units (c div 2 ^ l, l) = {}" if "b \<in> T" for b
  proof -
    from that T have "units b \<subseteq> {..<c}" by blast
    then show ?thesis unfolding u by auto
  qed
  fix b b' assume "b \<in> insert (c div 2 ^ l, l) T" "b' \<in> insert (c div 2 ^ l, l) T" and n: "units b \<inter> units b' \<noteq> {}"
  then consider "b = b'" | "b \<in> T" "b' \<in> T" | "b \<in> T" "b' = (c div 2 ^ l, l)" | "b' \<in> T" "b = (c div 2 ^ l, l)" by blast
  then show "b = b'"
  proof cases
    case 2 then show ?thesis using t n unfolding tiling_def by blast
  qed (use d n in blast)+
qed

section \<open>Coalesced sets\<close>

text \<open>A set of free blocks is coalesced when it does not have both halves of a block that could be
  merged.\<close>

definition coalesced :: "nat \<Rightarrow> dyad set \<Rightarrow> bool" where
  "coalesced mx S \<longleftrightarrow> (\<forall>(i, l) \<in> S. l < mx \<longrightarrow> (sibling i, l) \<notin> S)"

lemma coalescedD: "coalesced mx S \<Longrightarrow> (i, l) \<in> S \<Longrightarrow> l < mx \<Longrightarrow> (sibling i, l) \<notin> S"
  by (auto simp: coalesced_def)

lemma coalesced_subset: "coalesced mx S \<Longrightarrow> S' \<subseteq> S \<Longrightarrow> coalesced mx S'"
  by (fastforce simp: coalesced_def)

lemma coalesced_insert:
  assumes S: "coalesced mx S" and n: "l < mx \<Longrightarrow> (sibling i, l) \<notin> S"
  shows "coalesced mx (insert (i, l) S)"
  unfolding coalesced_def
proof (clarify)
  fix j k assume j: "(j, k) \<in> insert (i, l) S" "k < mx" "(sibling j, k) \<in> insert (i, l) S"
  then consider "(j, k) = (i, l)" "(sibling j, k) \<in> S" | "(j, k) \<in> S" "(sibling j, k) = (i, l)"
    | "(j, k) \<in> S" "(sibling j, k) \<in> S" using sibling_neq by auto
  then show False
  proof cases
    case 2 then show ?thesis using n j(2) sibling_sibling [of j] by auto
  qed (use n j(2) coalescedD [OF S] in auto)
qed

text \<open>At the place of a buddy there is always a block, and it is not larger.\<close>

lemma block_at_sibling:
  assumes t: "tiling N T" and b: "(i, l) \<in> T" and r: "Suc (sibling i) * 2 ^ l \<le> N"
  obtains j k where "(j, k) \<in> T" and "k \<le> l" and "start (j, k) = start (sibling i, l)"
proof -
  let ?u = "start (sibling i, l)"
  have "?u < Suc (sibling i) * 2 ^ l" by (simp add: start_def)
  with r tiling_cover [OF t, of ?u] obtain j k where jk: "(j, k) \<in> T" "?u \<in> units (j, k)" by auto
  have "k \<le> l"
  proof (rule ccontr)
    assume "\<not> k \<le> l"
    then have k: "w div 2 ^ k = w div 2 ^ l div 2 div 2 ^ (k - Suc l)" for w :: nat
      by (simp add: div_up)
    have "start (i, l) div 2 ^ k = ?u div 2 ^ k" unfolding k by simp
    then have "start (i, l) \<in> units (j, k)" using jk(2) by simp
    with tiling_same [OF t b jk(1) start_units] \<open>\<not> k \<le> l\<close> show False by simp
  qed
  moreover from this have "2 ^ k dvd ?u" by (simp add: start_def le_imp_power_dvd)
  then have "start (j, k) = ?u" using jk(2) by (auto simp: start_def)
  ultimately show thesis using that jk(1) by blast
qed

text \<open>So a free region of the shape of a block lies inside one free block.\<close>

lemma free_region_in_block:
  assumes t: "tiling N T" and S: "S \<subseteq> T" "coalesced mx S" and l: "l \<le> mx" "Suc i * 2 ^ l \<le> N"
    and free: "units (i, l) \<subseteq> \<Union> (units ` S)"
  obtains j k where "(j, k) \<in> S" and "l \<le> k"
proof (rule ccontr)
  assume no: "\<not> thesis"
  have small: "k < l" if "(j, k) \<in> S" for j k using that no \<open>\<And>k j. (j, k) \<in> S \<Longrightarrow> l \<le> k \<Longrightarrow> thesis\<close> by (meson not_le)
  define K where "K = {k. \<exists>j. (j, k) \<in> S \<and> units (j, k) \<subseteq> units (i, l)}"
  have inside: "k \<in> K" if "(j, k) \<in> S" "u \<in> units (j, k)" "u \<in> units (i, l)" for j k u
    using that units_nested [OF that(3,2)] small [OF that(1)] by (auto simp: K_def)
  from start_units [of "(i, l)"] free obtain b where b: "b \<in> S" "start (i, l) \<in> units b" by blast
  then have "snd b \<in> K" using inside [of "fst b" "snd b" "start (i, l)"] start_units [of "(i, l)"] by simp
  then have k: "(LEAST k. k \<in> K) \<in> K" by (rule LeastI)
  define k where "k = (LEAST k. k \<in> K)"
  from k obtain j where j: "(j, k) \<in> S" "units (j, k) \<subseteq> units (i, l)" unfolding k_def [symmetric] by (auto simp: K_def)
  from small [OF j(1)] have kl: "k < l" .
  then have up: "w div 2 ^ l = w div 2 ^ k div 2 div 2 ^ (l - Suc k)" for w :: nat
    by (simp add: div_up)
  have "start (j, k) \<in> units (i, l)" using j(2) start_units by blast
  then have si: "start (sibling j, k) \<in> units (i, l)" by (simp add: up)
  then have sub: "units (sibling j, k) \<subseteq> units (i, l)"
    using units_nested [OF si start_units] kl by simp
  moreover have "Suc (sibling j) * 2 ^ k - 1 \<in> units (sibling j, k)" by (rule last_unit)
  ultimately have "Suc (sibling j) * 2 ^ k - 1 < Suc i * 2 ^ l" unfolding units_interval [of i l] by fastforce
  with l(2) have "Suc (sibling j) * 2 ^ k \<le> N" by linarith
  from block_at_sibling [OF t _ this] j(1) S(1) obtain j' k'
    where b': "(j', k') \<in> T" "k' \<le> k" "start (j', k') = start (sibling j, k)" by blast
  from si free obtain c where c: "c \<in> S" "start (sibling j, k) \<in> units c" by blast
  have "c = (j', k')" using tiling_same [OF t _ b'(1) c(2)] c(1) S(1) b'(3) start_units [of "(j', k')"] by auto
  then have "k' \<in> K" using inside [of j' k' "start (sibling j, k)"] c si by simp
  then have "k \<le> k'" unfolding k_def by (rule Least_le)
  with b' have "(j', k') = (sibling j, k)" by (simp add: start_def)
  with \<open>c = (j', k')\<close> c(1) have "(sibling j, k) \<in> S" by simp
  with coalescedD [OF S(2) j(1)] kl l(1) show False by simp
qed

end
