(* ===== verification/Buddy_Lists.thy ===== *)
theory Buddy_Lists
  imports MM_Buddy Buddy_Tiling
begin

text \<open>
  The free lists of the buddy manager as lists: \<open>lists_rep m F\<close> states that the list of level \<open>l\<close> holds
  the blocks \<open>F l\<close>, followed through \<open>next\<close>.  The operations on the lists are the corresponding
  operations on \<open>F\<close>.  The \<open>prev\<close> fields are written by the code but no result depends on them.
\<close>

section \<open>Null-terminated lists\<close>

fun nlist :: "buddy_heap \<Rightarrow> ptr \<Rightarrow> ptr list \<Rightarrow> bool" where
  "nlist h p [] \<longleftrightarrow> p = 0"
| "nlist h p (x # xs) \<longleftrightarrow> p = x \<and> x \<noteq> 0 \<and> nlist h (b_next (h x)) xs"

lemma nlist_cong:
  "nlist h p xs \<Longrightarrow> (\<And>x. x \<in> set xs \<Longrightarrow> b_next (h' x) = b_next (h x)) \<Longrightarrow> nlist h' p xs"
  by (induction xs arbitrary: p) auto

lemma nlist_nonzero: "nlist h p xs \<Longrightarrow> 0 \<notin> set xs"
  by (induction xs arbitrary: p) auto

lemma nlist_append:
  "nlist h p (ys @ x # zs) \<Longrightarrow> nlist h x (x # zs)"
  by (induction ys arbitrary: p) auto

lemma nlist_delete_hd: "nlist h p (x # zs) \<Longrightarrow> nlist h (b_next (h x)) zs"
  by simp

lemma nlist_delete:
  assumes "nlist h p (ys @ y # x # zs)" and "distinct (ys @ y # x # zs)"
    and "b_next (h' y) = b_next (h x)" and "\<And>a. a \<in> set (ys @ zs) \<Longrightarrow> b_next (h' a) = b_next (h a)"
  shows "nlist h' p (ys @ y # zs)"
  using assms
proof (induction ys arbitrary: p)
  case Nil
  then have "nlist h (b_next (h x)) zs" by simp
  then have "nlist h' (b_next (h x)) zs" by (rule nlist_cong) (use Nil in auto)
  with Nil show ?case by simp
qed auto

lemma find_cell_found:
  assumes "nlist h cur (ys @ b # zs)" and "b \<notin> set ys"
  shows "find_cell h b c cur = Some (if ys = [] then c else Next_of (last ys), b)"
  using assms
proof (induction ys arbitrary: cur c)
  case Nil
  then show ?case by (subst find_cell.simps) simp
next
  case (Cons y ys)
  then have "find_cell h b (Next_of y) (b_next (h y)) = Some (if ys = [] then Next_of y else Next_of (last ys), b)"
    by simp
  with Cons.prems show ?case by (subst find_cell.simps) auto
qed

section \<open>The lists of all levels\<close>

definition lists_rep :: "mm_buddy \<Rightarrow> (nat \<Rightarrow> ptr list) \<Rightarrow> bool" where
  "lists_rep m F \<longleftrightarrow> length (free_lists m) = MM_MAX_LEVELS \<and>
     (\<forall>l < MM_MAX_LEVELS. nlist (mem_b m) (free_lists m ! l) (F l) \<and> distinct (F l)) \<and>
     (\<forall>l < MM_MAX_LEVELS. \<forall>k < MM_MAX_LEVELS. l \<noteq> k \<longrightarrow> set (F l) \<inter> set (F k) = {})"

definition only_lists :: "mm_buddy \<Rightarrow> mm_buddy \<Rightarrow> bool" where
  "only_lists m m' \<longleftrightarrow> m' = m\<lparr>mem_b := mem_b m', free_lists := free_lists m'\<rparr>"

lemma only_lists_refl [simp]: "only_lists m m"
  by (simp add: only_lists_def)

lemma only_lists_trans: "only_lists m m' \<Longrightarrow> only_lists m' m'' \<Longrightarrow> only_lists m m''"
  by (cases m; cases m'; cases m'') (simp add: only_lists_def)

lemma only_lists_step:
  "only_lists m (upd_blk a f x) \<longleftrightarrow> only_lists m x" "only_lists m (set_free_list l p x) \<longleftrightarrow> only_lists m x"
  by (cases m; cases x; auto simp: only_lists_def upd_blk_def set_free_list_def)+

lemma only_listsD:
  assumes "only_lists m m'"
  shows "endOfKernel_b m' = endOfKernel_b m" "BASE_BLOCK_SIZE m' = BASE_BLOCK_SIZE m"
    "mm_initialized_flag_b m' = mm_initialized_flag_b m" "heap_capacity_bytes_b m' = heap_capacity_bytes_b m"
    "heap_used_bytes_b m' = heap_used_bytes_b m" "heap_allocation_count_b m' = heap_allocation_count_b m"
    "heap_free_count_b m' = heap_free_count_b m" "heap_failed_allocations_b m' = heap_failed_allocations_b m"
    "heap_base m' = heap_base m" "heap_usable_bytes m' = heap_usable_bytes m" "max_level m' = max_level m"
  using assms by (cases m; cases m'; simp add: only_lists_def)+

lemma buddy_upd_sel [simp]:
  "mem_b (upd_blk a f m) = (mem_b m)(a := f (mem_b m a))" "free_lists (upd_blk a f m) = free_lists m"
  "mem_b (set_free_list l p m) = mem_b m" "free_lists (set_free_list l p m) = (free_lists m)[l := p]"
  by (simp_all add: upd_blk_def set_free_list_def)

lemma lists_rep_nth: "lists_rep m F \<Longrightarrow> l < MM_MAX_LEVELS \<Longrightarrow> nlist (mem_b m) (free_lists m ! l) (F l)"
  and lists_rep_distinct: "lists_rep m F \<Longrightarrow> l < MM_MAX_LEVELS \<Longrightarrow> distinct (F l)"
  and lists_rep_once: "lists_rep m F \<Longrightarrow> l < MM_MAX_LEVELS \<Longrightarrow> k < MM_MAX_LEVELS \<Longrightarrow> x \<in> set (F l) \<Longrightarrow> x \<in> set (F k) \<Longrightarrow> l = k"
  and lists_rep_length: "lists_rep m F \<Longrightarrow> length (free_lists m) = MM_MAX_LEVELS"
  unfolding lists_rep_def by blast+

text \<open>One list changes, and only \<open>next\<close> fields of its own nodes or of blocks in no list.\<close>

lemma lists_rep_change:
  assumes r: "lists_rep m F" and l: "l < MM_MAX_LEVELS"
    and fl: "free_lists m' = (free_lists m)[l := p]" and n: "nlist (mem_b m') p xs" "distinct xs"
    and fresh: "\<And>k x. k < MM_MAX_LEVELS \<Longrightarrow> k \<noteq> l \<Longrightarrow> x \<in> set xs \<Longrightarrow> x \<notin> set (F k)"
    and nx: "\<And>k x. k < MM_MAX_LEVELS \<Longrightarrow> k \<noteq> l \<Longrightarrow> x \<in> set (F k) \<Longrightarrow> b_next (mem_b m' x) = b_next (mem_b m x)"
  shows "lists_rep m' (F(l := xs))"
  unfolding lists_rep_def
proof (intro conjI allI impI)
  show "length (free_lists m') = MM_MAX_LEVELS" using fl lists_rep_length [OF r] by simp
next
  fix k assume k: "k < MM_MAX_LEVELS"
  show "nlist (mem_b m') (free_lists m' ! k) ((F(l := xs)) k)"
  proof (cases "k = l")
    case False
    with k nlist_cong [OF lists_rep_nth [OF r k], of "mem_b m'"] nx [OF k False] fl show ?thesis by simp
  qed (use fl n l lists_rep_length [OF r] in simp)
  show "distinct ((F(l := xs)) k)" using n lists_rep_distinct [OF r k] by simp
next
  fix j k assume "j < MM_MAX_LEVELS" "k < MM_MAX_LEVELS" "j \<noteq> k"
  then show "set ((F(l := xs)) j) \<inter> set ((F(l := xs)) k) = {}"
    using fresh lists_rep_once [OF r, of j k] by (auto simp: fun_upd_def)
qed

section \<open>Operations on the lists\<close>

lemma push_free_rep:
  assumes r: "lists_rep m F" and b: "b \<noteq> 0" and l: "unat (b_level (blk m b)) = l" "l < MM_MAX_LEVELS"
    and fresh: "\<And>k. k < MM_MAX_LEVELS \<Longrightarrow> b \<notin> set (F k)"
  shows "lists_rep (push_free b m) (F(l := b # F l))"
    and "only_lists m (push_free b m)"
    and "b_level (blk (push_free b m) a) = b_level (blk m a)"
    and "b_is_free (blk (push_free b m) a) = (if a = b then 1 else b_is_free (blk m a))"
proof -
  let ?m = "push_free b m"
  let ?p = "free_lists m ! l"
  note n = lists_rep_nth [OF r l(2)]
  have pb: "?p \<noteq> b" using n fresh [OF l(2)] b by (cases "F l") auto
  have nx: "b_next (mem_b ?m x) = (if x = b then ?p else b_next (mem_b m x))" for x
    using pb by (simp add: push_free_def Let_def l)
  have fl: "free_lists ?m = (free_lists m)[l := b]" by (simp add: push_free_def Let_def l)
  have "nlist (mem_b ?m) ?p (F l)" by (rule nlist_cong [OF n]) (use fresh [OF l(2)] nx in auto)
  then have "nlist (mem_b ?m) b (b # F l)" using b nx by simp
  then show "lists_rep ?m (F(l := b # F l))"
    using fl l(2) fresh lists_rep_distinct [OF r l(2)] lists_rep_once [OF r l(2)] nx
    by (intro lists_rep_change [OF r]) auto
  show "b_level (blk ?m a) = b_level (blk m a)" by (simp add: push_free_def Let_def)
  show "b_is_free (blk ?m a) = (if a = b then 1 else b_is_free (blk m a))"
    using pb by (simp add: push_free_def Let_def l)
  show "only_lists m ?m" by (simp add: push_free_def Let_def only_lists_step)
qed

lemma pop_free_empty:
  assumes "lists_rep m F" and "l < MM_MAX_LEVELS" and "F l = []"
  shows "pop_free l m = (0, m)"
  using lists_rep_nth [OF assms(1,2)] assms(3) by (simp add: pop_free_def)

lemma pop_free_rep:
  assumes r: "lists_rep m F" and l: "l < MM_MAX_LEVELS" and F: "F l = b # bs"
  obtains m' where "pop_free l m = (b, m')" and "lists_rep m' (F(l := bs))" and "only_lists m m'"
    and "\<And>a. b_level (blk m' a) = b_level (blk m a)"
    and "\<And>a. b_is_free (blk m' a) = (if a = b then 0 else b_is_free (blk m a))"
proof -
  let ?m = "snd (pop_free l m)"
  let ?p = "b_next (mem_b m b)"
  have n: "nlist (mem_b m) b (b # bs)" and hd: "free_lists m ! l = b" and b: "b \<noteq> 0"
    using lists_rep_nth [OF r l] F by auto
  have len: "l < length (free_lists m)" using lists_rep_length [OF r] l by simp
  have d: "distinct (b # bs)" using lists_rep_distinct [OF r l] F by simp
  have pb: "?p \<noteq> b" using n d by (cases bs) auto
  have pop: "pop_free l m = (b, ?m)" by (simp add: pop_free_def Let_def hd b)
  have nx: "b_next (mem_b ?m x) = (if x = b then 0 else b_next (mem_b m x))" for x
    using pb by (simp add: pop_free_def Let_def hd b len)
  have fl: "free_lists ?m = (free_lists m)[l := ?p]" by (simp add: pop_free_def Let_def hd b len)
  have "nlist (mem_b ?m) ?p bs" by (rule nlist_cong [of "mem_b m"]) (use n d nx in auto)
  then have rep: "lists_rep ?m (F(l := bs))"
    using fl d lists_rep_once [OF r l] F nx by (intro lists_rep_change [OF r l]) fastforce+
  show thesis
  proof (rule that [OF pop rep])
    show "only_lists m ?m" by (simp add: pop_free_def Let_def only_lists_step hd b)
    show "b_level (blk ?m a) = b_level (blk m a)" for a by (simp add: pop_free_def Let_def hd b)
    show "b_is_free (blk ?m a) = (if a = b then 0 else b_is_free (blk m a))" for a
      using pb by (simp add: pop_free_def Let_def hd b len)
  qed
qed

lemma remove_rep:
  assumes r: "lists_rep m F" and l: "unat (b_level (blk m b)) = l" "l < MM_MAX_LEVELS" and b: "b \<in> set (F l)"
  obtains m' where "remove_from_free_list b m = Some m'" and "lists_rep m' (F(l := remove1 b (F l)))"
    and "only_lists m m'" and "\<And>a. b_level (blk m' a) = b_level (blk m a)"
    and "\<And>a. b_is_free (blk m' a) = b_is_free (blk m a)"
proof -
  define m' where "m' = the (remove_from_free_list b m)"
  let ?nx = "b_next (mem_b m b)"
  from split_list_first [OF b] obtain ys zs where F: "F l = ys @ b # zs" and ys: "b \<notin> set ys" by blast
  note n = lists_rep_nth [OF r l(2), unfolded F]
  note fc = find_cell_found [OF n ys, of List_head]
  have d: "distinct (ys @ b # zs)" using lists_rep_distinct [OF r l(2)] F by simp
  have nxb: "?nx \<noteq> b" using nlist_append [OF n] d by (cases zs) auto
  have lastb: "ys \<noteq> [] \<Longrightarrow> last ys \<noteq> b" using ys by (metis last_in_set)
  note rd = m'_def remove_from_free_list_def Let_def fc l
  have some: "remove_from_free_list b m = Some m'" by (simp add: rd)
  have nx: "b_next (mem_b m' x) = (if x = b then 0 else if ys \<noteq> [] \<and> x = last ys then ?nx else b_next (mem_b m x))" for x
  proof (cases "ys = []")
    case True
    with nxb show ?thesis by (simp add: rd)
  next
    case False
    with nxb lastb have "last ys \<noteq> b" "b \<noteq> last ys" by auto
    with nxb False show ?thesis by (cases "?nx = 0"; simp add: rd)
  qed
  have fl: "free_lists m' = (free_lists m)[l := if ys = [] then ?nx else free_lists m ! l]" by (simp add: rd)
  have "nlist (mem_b m') (if ys = [] then ?nx else free_lists m ! l) (ys @ zs)"
  proof (cases ys rule: rev_cases)
    case Nil
    then have "nlist (mem_b m) ?nx zs" using n by simp
    then have "nlist (mem_b m') ?nx zs"
    proof (rule nlist_cong)
      fix x assume "x \<in> set zs"
      with d have "x \<noteq> b" by auto
      with Nil show "b_next (mem_b m' x) = b_next (mem_b m x)" by (simp add: nx)
    qed
    with Nil show ?thesis by simp
  next
    case (snoc us y)
    have "nlist (mem_b m') (free_lists m ! l) (us @ y # zs)"
    proof (rule nlist_delete [where h = "mem_b m" and x = b])
      show "b_next (mem_b m' y) = ?nx" using d snoc by (auto simp: nx)
      show "b_next (mem_b m' a) = b_next (mem_b m a)" if "a \<in> set (us @ zs)" for a
        using d snoc that by (auto simp: nx)
    qed (use n d snoc in simp_all)
    with snoc show ?thesis by simp
  qed
  then have rep: "lists_rep m' (F(l := ys @ zs))"
    using fl d lists_rep_once [OF r l(2)] F nx by (intro lists_rep_change [OF r l(2)]) fastforce+
  have rm: "remove1 b (F l) = ys @ zs" using ys by (simp add: F remove1_append)
  show thesis
  proof (rule that [OF some, unfolded rm, OF rep])
    show "only_lists m m'" by (simp add: rd only_lists_step)
    show "b_level (blk m' a) = b_level (blk m a)" for a
      by (cases "ys = []"; cases "?nx = 0"; simp add: rd)
    show "b_is_free (blk m' a) = b_is_free (blk m a)" for a
      by (cases "ys = []"; cases "?nx = 0"; simp add: rd)
  qed
qed

end
