(* ===== verification/Buddy_Inv.thy ===== *)
theory Buddy_Inv
  imports Buddy_Lists
begin

text \<open>
  The invariant of the buddy manager.  \<open>bst m N c F S T\<close>: the first \<open>c\<close> of the \<open>N\<close> units of the heap are
  tiled by the blocks \<open>T\<close>, those of \<open>S\<close> are the free ones and the lists \<open>F\<close> hold exactly their addresses,
  and the header of every block has its level.  The operations are steps on tilings: taking a block out
  of \<open>S\<close>, putting one in, splitting, and merging with the buddy.
\<close>

section \<open>Addresses\<close>

definition baddr :: "mm_buddy \<Rightarrow> dyad \<Rightarrow> ptr" where
  "baddr m b = heap_base m + of_nat (64 * start b)"

definition geometry :: "mm_buddy \<Rightarrow> nat \<Rightarrow> bool" where
  "geometry m N \<longleftrightarrow> BASE_BLOCK_SIZE m = 64 \<and> heap_base m \<noteq> 0 \<and> unat (heap_base m) + 64 * N \<le> 2 ^ 64 \<and>
     unat (heap_usable_bytes m) div 64 = N \<and> unat (heap_usable_bytes m) \<le> 2 ^ 63 \<and> unat (max_level m) < MM_MAX_LEVELS"

lemma geometryD:
  assumes "geometry m N"
  shows "BASE_BLOCK_SIZE m = 64" "heap_base m \<noteq> 0" "unat (heap_base m) + 64 * N \<le> 2 ^ 64"
    "unat (heap_usable_bytes m) div 64 = N" "unat (heap_usable_bytes m) \<le> 2 ^ 63" "unat (max_level m) < 32" "64 * N \<le> 2 ^ 63"
proof -
  have "64 * (unat (heap_usable_bytes m) div 64) \<le> unat (heap_usable_bytes m)" by simp
  with assms show "64 * N \<le> 2 ^ 63" by (simp add: geometry_def)
qed (use assms in \<open>simp_all add: geometry_def MM_MAX_LEVELS_def\<close>)

lemma unat_baddr:
  assumes "geometry m N" and "start b < N"
  shows "unat (baddr m b) = unat (heap_base m) + 64 * start b"
proof -
  have lt: "unat (heap_base m) + 64 * start b < 2 ^ 64" using geometryD(3) [OF assms(1)] assms(2) by linarith
  then have "unat (of_nat (64 * start b) :: ptr) = 64 * start b" by (intro unat_of_nat_64) simp
  with lt show ?thesis unfolding baddr_def by (subst unat_add_lt) simp_all
qed

lemma baddr_nonzero: "geometry m N \<Longrightarrow> start b < N \<Longrightarrow> baddr m b \<noteq> 0"
  using unat_baddr [of m N b] geometryD(2) [of m N] by (auto simp: unat_eq_0)

lemma baddr_inj: "geometry m N \<Longrightarrow> start b < N \<Longrightarrow> start c < N \<Longrightarrow> baddr m b = baddr m c \<Longrightarrow> start b = start c"
  using unat_baddr [of m N b] unat_baddr [of m N c] by simp

lemma baddr_only: "only_lists m m' \<Longrightarrow> baddr m' = baddr m"
  by (simp add: fun_eq_iff baddr_def only_listsD)

lemma geometry_only: "only_lists m m' \<Longrightarrow> geometry m' N = geometry m N"
  by (simp add: geometry_def only_listsD)

lemma start_halves: "start (2 * i, l) = start (i, Suc l)" "start (Suc (2 * i), l) = start (i, Suc l) + 2 ^ l"
  by (simp_all add: start_def)

section \<open>Invariant\<close>

definition bst :: "mm_buddy \<Rightarrow> nat \<Rightarrow> nat \<Rightarrow> (nat \<Rightarrow> ptr list) \<Rightarrow> dyad set \<Rightarrow> dyad set \<Rightarrow> bool" where
  "bst m N c F S T \<longleftrightarrow> geometry m N \<and> tiling c T \<and> c \<le> N \<and> S \<subseteq> T \<and> lists_rep m F \<and>
     (\<forall>l < MM_MAX_LEVELS. set (F l) = baddr m ` {b \<in> S. snd b = l}) \<and>
     (\<forall>b \<in> T. snd b \<le> unat (max_level m) \<and> unat (b_level (blk m (baddr m b))) = snd b) \<and>
     (\<forall>b \<in> S. b_is_free (blk m (baddr m b)) = 1)"

lemma bstD:
  assumes "bst m N c F S T"
  shows "geometry m N" "tiling c T" "c \<le> N" "S \<subseteq> T" "lists_rep m F"
    "l < MM_MAX_LEVELS \<Longrightarrow> set (F l) = baddr m ` {b \<in> S. snd b = l}"
    "b \<in> T \<Longrightarrow> snd b \<le> unat (max_level m)" "b \<in> T \<Longrightarrow> unat (b_level (blk m (baddr m b))) = snd b"
    "b \<in> S \<Longrightarrow> b_is_free (blk m (baddr m b)) = 1"
  using assms by (simp_all add: bst_def)

lemma bst_level:
  assumes "bst m N c F S T" and "b \<in> T"
  shows "snd b < MM_MAX_LEVELS"
  using bstD(7) [OF assms] geometryD(6) [OF bstD(1) [OF assms(1)]] by (simp add: MM_MAX_LEVELS_def)

lemma bst_start:
  assumes "bst m N c F S T" and "b \<in> T"
  shows "start b < N"
  using tiling_start_less [OF bstD(2) [OF assms(1)] assms(2)] bstD(3) [OF assms(1)] by simp

lemma bst_inj:
  assumes "bst m N c F S T" and "b \<in> T" and "d \<in> T" and "baddr m b = baddr m d"
  shows "b = d"
proof -
  from baddr_inj [OF bstD(1) [OF assms(1)] bst_start bst_start] assms have "start b = start d" by blast
  with tiling_start_inj [OF bstD(2) [OF assms(1)]] assms(2,3) show ?thesis by (auto dest: inj_onD)
qed

lemma bst_nonzero: "bst m N c F S T \<Longrightarrow> b \<in> T \<Longrightarrow> baddr m b \<noteq> 0"
  using baddr_nonzero [OF bstD(1) bst_start] .

lemma bst_fresh:
  assumes r: "bst m N c F S T" and "b \<in> T" "b \<notin> S" and "k < MM_MAX_LEVELS"
  shows "baddr m b \<notin> set (F k)"
proof
  assume "baddr m b \<in> set (F k)"
  then obtain d where "d \<in> S" "baddr m b = baddr m d" using bstD(6) [OF r assms(4)] by auto
  with bst_inj [OF r assms(2)] bstD(4) [OF r] assms(3) show False by blast
qed

lemma bst_listed:
  assumes r: "bst m N c F S T" and b: "b \<in> S"
  shows "baddr m b \<in> set (F (snd b))"
proof -
  from b bstD(4) [OF r] have "b \<in> T" by blast
  from bstD(6) [OF r bst_level [OF r this]] b show ?thesis by blast
qed

section \<open>Steps\<close>

lemma bst_push:
  assumes r: "bst m N c F S T" and b: "b \<in> T" "b \<notin> S"
  defines "m' \<equiv> push_free (baddr m b) m"
  shows "bst m' N c (F(snd b := baddr m b # F (snd b))) (insert b S) T" and "only_lists m m'"
    and "b_is_free (blk m' a) = (if a = baddr m b then 1 else b_is_free (blk m a))"
proof -
  note d = bstD [OF r]
  note p = push_free_rep [OF d(5) bst_nonzero [OF r b(1)] d(8) [OF b(1)] bst_level [OF r b(1)] bst_fresh [OF r b], folded m'_def]
  show o: "only_lists m m'" by (rule p)
  have f: "\<And>a. b_is_free (blk m' a) = (if a = baddr m b then 1 else b_is_free (blk m a))" by (rule p)
  then show "b_is_free (blk m' a) = (if a = baddr m b then 1 else b_is_free (blk m a))" .
  show "bst m' N c (F(snd b := baddr m b # F (snd b))) (insert b S) T"
    unfolding bst_def baddr_only [OF o] geometry_only [OF o] only_listsD [OF o]
    using d b p(1,3) f by (auto simp: Collect_conv_if)
qed

text \<open>Taking a block out of its list, from the head or from the middle.\<close>

lemma bst_take:
  assumes r: "bst m N c F S T" and b: "b \<in> S" and o: "only_lists m m'" and l: "lists_rep m' (F(snd b := ps))"
    and ps: "set ps = set (F (snd b)) - {baddr m b}" and lev: "\<And>a. b_level (blk m' a) = b_level (blk m a)"
    and fr: "\<And>a. a \<noteq> baddr m b \<Longrightarrow> b_is_free (blk m' a) = b_is_free (blk m a)"
  shows "bst m' N c (F(snd b := ps)) (S - {b}) T"
proof -
  note d = bstD [OF r]
  from b d(4) have bT: "b \<in> T" by blast
  have neq: "baddr m x \<noteq> baddr m b" if "x \<in> S - {b}" for x using bst_inj [OF r _ bT] that d(4) by blast
  then have "set ps = baddr m ` {x \<in> S - {b}. snd x = snd b}" unfolding ps d(6) [OF bst_level [OF r bT]] by auto
  moreover have "{x \<in> S - {b}. snd x = k} = {x \<in> S. snd x = k}" if "k \<noteq> snd b" for k using that by auto
  ultimately have "\<forall>k < MM_MAX_LEVELS. set ((F(snd b := ps)) k) = baddr m ` {x \<in> S - {b}. snd x = k}"
    using d(6) by simp
  then show ?thesis
    unfolding bst_def baddr_only [OF o] geometry_only [OF o] only_listsD [OF o]
    using d(1-4,7-9) l lev fr neq by auto
qed

lemma bst_pop:
  assumes r: "bst m N c F S T" and b: "b \<in> S" and F: "F (snd b) = baddr m b # ps"
  obtains m' where "pop_free (snd b) m = (baddr m b, m')" and "bst m' N c (F(snd b := ps)) (S - {b}) T"
    and "only_lists m m'" and "\<And>a. b_is_free (blk m' a) = (if a = baddr m b then 0 else b_is_free (blk m a))"
proof -
  note d = bstD [OF r]
  from b d(4) have bT: "b \<in> T" by blast
  note l = bst_level [OF r bT]
  from pop_free_rep [OF d(5) l F] obtain m' where m': "pop_free (snd b) m = (baddr m b, m')"
    "lists_rep m' (F(snd b := ps))" "only_lists m m'" "\<And>a. b_level (blk m' a) = b_level (blk m a)"
    "\<And>a. b_is_free (blk m' a) = (if a = baddr m b then 0 else b_is_free (blk m a))" by blast
  have "set ps = set (F (snd b)) - {baddr m b}" using lists_rep_distinct [OF d(5) l] F by auto
  from bst_take [OF r b m'(3,2) this m'(4)] m'(5) have "bst m' N c (F(snd b := ps)) (S - {b}) T" by simp
  with m' that show thesis by blast
qed

lemma bst_remove:
  assumes r: "bst m N c F S T" and b: "b \<in> S"
  obtains m' where "remove_from_free_list (baddr m b) m = Some m'"
    and "bst m' N c (F(snd b := remove1 (baddr m b) (F (snd b)))) (S - {b}) T"
    and "only_lists m m'" and "\<And>a. b_is_free (blk m' a) = b_is_free (blk m a)"
proof -
  note d = bstD [OF r]
  from b d(4) have bT: "b \<in> T" by blast
  note l = bst_level [OF r bT]
  from remove_rep [OF d(5) d(8) [OF bT] l bst_listed [OF r b]] obtain m' where m':
    "remove_from_free_list (baddr m b) m = Some m'" "lists_rep m' (F(snd b := remove1 (baddr m b) (F (snd b))))"
    "only_lists m m'" "\<And>a. b_level (blk m' a) = b_level (blk m a)" "\<And>a. b_is_free (blk m' a) = b_is_free (blk m a)" by blast
  have "set (remove1 (baddr m b) (F (snd b))) = set (F (snd b)) - {baddr m b}"
    using lists_rep_distinct [OF d(5) l] by simp
  from bst_take [OF r b m'(3,2) this m'(4,5)] m' that show thesis by blast
qed

text \<open>Headers of blocks that are in no list may be rewritten, for another tiling.\<close>

lemma bst_relabel:
  assumes r: "bst m N c F S T" and o: "only_lists m m'" and fl: "free_lists m' = free_lists m"
    and keep: "\<And>b. b \<in> S \<Longrightarrow> blk m' (baddr m b) = blk m (baddr m b)"
    and t: "tiling c' T'" "c' \<le> N" "S \<subseteq> T'"
    and lev: "\<And>b. b \<in> T' \<Longrightarrow> snd b \<le> unat (max_level m) \<and> unat (b_level (blk m' (baddr m b))) = snd b"
  shows "bst m' N c' F S T'"
proof -
  note d = bstD [OF r]
  have "lists_rep m' F" unfolding lists_rep_def fl
  proof (intro conjI allI impI)
    fix l assume l: "l < MM_MAX_LEVELS"
    show "nlist (mem_b m') (free_lists m ! l) (F l)"
      by (rule nlist_cong [OF lists_rep_nth [OF d(5) l]]) (use keep d(6) [OF l] in auto)
  qed (use d(5) in \<open>simp_all add: lists_rep_def\<close>)
  then show ?thesis
    unfolding bst_def baddr_only [OF o] geometry_only [OF o] only_listsD [OF o]
    using d(1,6,9) t lev keep by auto
qed

section \<open>Splitting\<close>

lemma pow2_level: "l < 32 \<Longrightarrow> pow2_u64 (of_nat l) = of_nat (2 ^ l)"
proof -
  assume "l < 32"
  then have "unat (of_nat l :: u8) = l" by (simp add: unsigned_of_nat take_bit_nat_eq_self)
  then show ?thesis by (simp add: pow2_u64_def push_bit_eq_mult)
qed

lemma half_size:
  assumes "l < 31"
  shows "drop_bit 1 (pow2_u64 (of_nat (Suc l)) * 64) = of_nat (64 * 2 ^ l)"
proof -
  have "(2 :: nat) ^ l < 2 ^ 31" using assms by (intro power_strict_increasing) auto
  then have u: "unat (of_nat (64 * 2 ^ Suc l) :: u64) = 64 * 2 ^ Suc l" by (intro unat_of_nat_64) simp
  have sz: "pow2_u64 (of_nat (Suc l)) * 64 = (of_nat (64 * 2 ^ Suc l) :: u64)"
    using assms pow2_level [of "Suc l"] by (simp add: mult.commute)
  have "unat (drop_bit 1 (pow2_u64 (of_nat (Suc l)) * 64)) = 64 * 2 ^ l"
    unfolding sz unat_drop_bit_eq u by (simp add: drop_bit_eq_div)
  then have "of_nat (unat (drop_bit 1 (pow2_u64 (of_nat (Suc l)) * 64 :: u64))) = (of_nat (64 * 2 ^ l) :: u64)" by (simp only:)
  then show ?thesis by (simp only: of_nat_unat ucast_id)
qed

lemma push_free_commute:
  assumes "b \<noteq> p" and "free_lists m ! unat (b_level (blk m p)) \<noteq> b"
  shows "upd_blk b f (push_free p m) = push_free p (upd_blk b f m)"
  using assms by (auto simp: push_free_def Let_def upd_blk_def set_free_list_def fun_upd_twist)

lemma bst_split_once:
  assumes r: "bst m N N F S T" and b: "(i, Suc l) \<in> T" "(i, Suc l) \<notin> S"
  defines "m' \<equiv> split_once l (baddr m (i, Suc l)) m"
  defines "T' \<equiv> T - {(i, Suc l)} \<union> {(2 * i, l), (Suc (2 * i), l)}"
  shows "bst m' N N (F(l := baddr m (2 * i, l) # baddr m (Suc (2 * i), l) # F l))
      (insert (2 * i, l) (insert (Suc (2 * i), l) S)) T'"
    and "only_lists m m'" and "T' - insert (2 * i, l) (insert (Suc (2 * i), l) S) = T - S - {(i, Suc l)}"
    and "\<And>x. x \<in> T - S - {(i, Suc l)} \<Longrightarrow> b_is_free (blk m' (baddr m x)) = b_is_free (blk m (baddr m x))"
proof -
  note d = bstD [OF r]
  note g = geometryD [OF d(1)]
  let ?b = "baddr m (2 * i, l)" and ?c = "baddr m (Suc (2 * i), l)"
  let ?f = "\<lambda>k :: buddy_block. k\<lparr>b_level := of_nat l, b_is_free := 1, b_next := NULL, b_prev := NULL\<rparr>"
  have T': "tiling N T'" unfolding T'_def by (rule tiling_split [OF d(2) b(1)])
  have l: "l < 31" using bst_level [OF r b(1)] by (simp add: MM_MAX_LEVELS_def)
  then have l8: "unat (of_nat l :: u8) = l" by (simp add: unsigned_of_nat take_bit_nat_eq_self)
  have lm: "Suc l \<le> unat (max_level m)" using d(7) [OF b(1)] by simp
  have half: "(2 * i, l) \<in> T'" "(Suc (2 * i), l) \<in> T'" by (simp_all add: T'_def)
  have notT: "(2 * i, l) \<notin> T" "(Suc (2 * i), l) \<notin> T"
    by (rule halves_notin [OF d(2) b(1)])+
  have inT': "x = y" if "x \<in> T'" "y \<in> T'" "baddr m x = baddr m y" for x y
    using inj_onD [OF tiling_start_inj [OF T'] baddr_inj [OF d(1) tiling_start_less tiling_start_less]] T' that by blast
  have S: "S \<subseteq> T'" using d(4) b(2) by (auto simp: T'_def)
  have bb: "baddr m (i, Suc l) = ?b" by (simp add: baddr_def start_halves)
  have cc: "?b + drop_bit 1 (pow2_u64 (of_nat (Suc l)) * BASE_BLOCK_SIZE m) = ?c"
    unfolding g(1) half_size [OF l] unfolding baddr_def start_halves distrib_left of_nat_add by (simp only: add.assoc)
  have neq: "?b \<noteq> ?c" using inT' [OF half] by auto
  define m1 where "m1 = upd_blk ?b ?f (upd_blk ?c ?f m)"
  have o1: "only_lists m m1" by (simp add: m1_def only_lists_step)
  have r1: "bst m1 N N F S T'"
  proof (rule bst_relabel [OF r o1])
    fix x assume x: "x \<in> S"
    with S d(4) have "x \<in> T'" "x \<in> T" by auto
    with notT inT' [OF this(1)] half have "baddr m x \<noteq> ?b" "baddr m x \<noteq> ?c" by metis+
    then show "blk m1 (baddr m x) = blk m (baddr m x)" by (simp add: m1_def)
  next
    fix x assume x: "x \<in> T'"
    then consider "x = (2 * i, l)" | "x = (Suc (2 * i), l)" | "x \<in> T" "baddr m x \<noteq> ?b" "baddr m x \<noteq> ?c"
      using inT' [OF x half(1)] inT' [OF x half(2)] unfolding T'_def by blast
    then show "snd x \<le> unat (max_level m) \<and> unat (b_level (blk m1 (baddr m x))) = snd x"
      by cases (use lm neq l8 d(7,8) in \<open>auto simp: m1_def\<close>)
  qed (use T' S in \<open>simp_all add: m1_def\<close>)
  have cS: "(Suc (2 * i), l) \<notin> S" "(2 * i, l) \<notin> S" using d(4) notT by auto
  define m2 where "m2 = push_free ?c m1"
  note p2 = bst_push [OF r1 half(2) cS(1), unfolded baddr_only [OF o1], folded m2_def]
  have o2: "only_lists m m2" using o1 p2(2) by (rule only_lists_trans)
  note p3 = bst_push [OF p2(1) half(1), unfolded baddr_only [OF o2]]
  have "free_lists (upd_blk ?c ?f m) ! unat (b_level (blk (upd_blk ?c ?f m) ?c)) \<noteq> ?b"
  proof -
    have "free_lists m ! l \<noteq> ?b"
      using lists_rep_nth [OF d(5), of l] bst_fresh [OF r b, of l] bst_nonzero [OF r b(1)] l bb
      by (cases "F l") (auto simp: MM_MAX_LEVELS_def)
    then show ?thesis using l8 by simp
  qed
  from push_free_commute [OF neq this, of ?f] have m': "m' = push_free ?b m2"
    unfolding m'_def split_once_def Let_def bb cc m2_def m1_def by simp
  show "bst m' N N (F(l := ?b # ?c # F l)) (insert (2 * i, l) (insert (Suc (2 * i), l) S)) T'"
    using p3(1) cS neq unfolding m' by (simp add: insert_commute)
  show "only_lists m m'" unfolding m' using o2 p3(2) cS by (auto intro: only_lists_trans)
  show "T' - insert (2 * i, l) (insert (Suc (2 * i), l) S) = T - S - {(i, Suc l)}"
    using notT by (auto simp: T'_def)
  fix x assume x: "x \<in> T - S - {(i, Suc l)}"
  then have "x \<in> T" "x \<in> T'" by (auto simp: T'_def)
  with notT inT' [OF this(2)] half have "baddr m x \<noteq> ?b" "baddr m x \<noteq> ?c" by metis+
  then show "b_is_free (blk m' (baddr m x)) = b_is_free (blk m (baddr m x))"
    unfolding m' using p3(3) p2(3) cS by (simp add: m1_def)
qed

lemma bst_head:
  assumes r: "bst m N c F S T" and "l < MM_MAX_LEVELS" and "F l \<noteq> []"
  obtains i ps where "(i, l) \<in> S" and "F l = baddr m (i, l) # ps"
proof -
  from assms(3) obtain p ps where F: "F l = p # ps" by (cases "F l") auto
  then have "p \<in> baddr m ` {b \<in> S. snd b = l}" using bstD(6) [OF r assms(2)] by auto
  then obtain i where "(i, l) \<in> S" "p = baddr m (i, l)" by auto
  with F that show thesis by blast
qed

text \<open>\<open>split_down\<close> from a free block of level \<open>l\<close> takes its first part of level \<open>k\<close>; what else comes off is free
  and has no free buddy.\<close>

definition taken :: "mm_buddy \<Rightarrow> nat \<Rightarrow> dyad set \<Rightarrow> dyad set \<Rightarrow> dyad \<Rightarrow> mm_buddy \<Rightarrow> bool" where
  "taken m N S T b m' \<longleftrightarrow> (\<exists>F' S' T'. bst m' N N F' S' T' \<and> only_lists m m' \<and> coalesced (unat (max_level m)) S' \<and>
     T' - S' = insert b (T - S) \<and> b \<notin> T - S \<and> b_is_free (blk m' (baddr m b)) = 0 \<and>
     (\<forall>x \<in> T - S. b_is_free (blk m' (baddr m x)) = b_is_free (blk m (baddr m x))))"

lemma taken_pop:
  assumes r: "bst m N N F S T" and b: "b \<in> S" "F (snd b) = baddr m b # ps"
    and c: "coalesced (unat (max_level m)) (S - {b})"
  obtains m' where "pop_free (snd b) m = (baddr m b, m')" and "taken m N S T b m'"
proof -
  from bst_pop [where F = F, OF r b] obtain m' where m': "pop_free (snd b) m = (baddr m b, m')"
    "bst m' N N (F(snd b := ps)) (S - {b}) T" "only_lists m m'"
    "\<And>a. b_is_free (blk m' a) = (if a = baddr m b then 0 else b_is_free (blk m a))" by blast
  have bT: "b \<in> T" using b bstD(4) [OF r] by blast
  have "baddr m x \<noteq> baddr m b" if "x \<in> T - S" for x using bst_inj [OF r _ bT] that b by blast
  moreover have "T - (S - {b}) = insert b (T - S)" using b bT by blast
  ultimately have "taken m N S T b m'" unfolding taken_def using m' c b by (intro exI conjI) (assumption | simp)+
  with m'(1) that show thesis by blast
qed

lemma bst_split_down:
  assumes "bst m N N F S T" and "(i, l) \<in> S" and "F l = baddr m (i, l) # ps" and "k \<le> l"
    and "coalesced (unat (max_level m)) (S - {(i, l)})"
  shows "\<exists>m'. split_down l k m = (baddr m (i * 2 ^ (l - k), k), m') \<and> taken m N S T (i * 2 ^ (l - k), k) m'"
  using assms
proof (induction l arbitrary: m F S T i ps)
  case 0
  then show ?case using taken_pop [where F = F, OF 0(1,2)] by (metis (no_types) diff_self_eq_0 le_zero_eq mult.right_neutral power_0 snd_conv split_down.simps(1))
next
  case (Suc l)
  show ?case
  proof (cases "k = Suc l")
    case True
    with taken_pop [where F = F, OF Suc.prems(1,2)] Suc.prems(3,5) show ?thesis by (metis (no_types) diff_self_eq_0 mult.right_neutral power_0 snd_conv split_down.simps(2) less_irrefl_nat)
  next
    case False
    with Suc.prems(4) have k: "k < Suc l" "k \<le> l" by auto
    let ?b = "(i, Suc l)"
    from bst_pop [where F = F, OF Suc.prems(1,2)] Suc.prems(3) obtain m1 where m1: "pop_free (Suc l) m = (baddr m ?b, m1)"
      "bst m1 N N (F(Suc l := ps)) (S - {?b}) T" "only_lists m m1"
      "\<And>a. b_is_free (blk m1 a) = (if a = baddr m ?b then 0 else b_is_free (blk m a))" by auto
    have bT: "?b \<in> T" using Suc.prems(2) bstD(4) [OF Suc.prems(1)] by blast
    define m2 where "m2 = split_once l (baddr m ?b) m1"
    note sp = bst_split_once [OF m1(2) bT, unfolded baddr_only [OF m1(3)], folded m2_def]
    define S2 where "S2 = insert (2 * i, l) (insert (Suc (2 * i), l) (S - {?b}))"
    define T2 where "T2 = T - {?b} \<union> {(2 * i, l), (Suc (2 * i), l)}"
    have o2: "only_lists m m2" using m1(3) sp(2) by (auto intro: only_lists_trans)
    have TS: "T2 - S2 = T - S" using sp(3) Suc.prems(2) unfolding S2_def T2_def by auto
    have "(2 * i, l) \<notin> S - {?b}" "(Suc (2 * i), l) \<notin> S - {?b}"
      using halves_notin [OF bstD(2) [OF Suc.prems(1)] bT] bstD(4) [OF Suc.prems(1)] by blast+
    then have "coalesced (unat (max_level m)) (insert (Suc (2 * i), l) (S - {?b}))"
      using Suc.prems(5) by (intro coalesced_insert) (auto simp: sibling_eq)
    then have c2: "coalesced (unat (max_level m2)) (S2 - {(2 * i, l)})"
      unfolding only_listsD [OF o2] S2_def by (rule coalesced_subset) auto
    have r2: "bst m2 N N ((F(Suc l := ps))(l := baddr m2 (2 * i, l) # baddr m2 (Suc (2 * i), l) # (F(Suc l := ps)) l)) S2 T2"
      using sp(1) unfolding S2_def T2_def baddr_only [OF o2] by simp
    from Suc.IH [OF r2, of "2 * i"] k c2 obtain m' where m': "split_down l k m2 = (baddr m2 (2 * i * 2 ^ (l - k), k), m')"
      "taken m2 N S2 T2 (2 * i * 2 ^ (l - k), k) m'" by (auto simp: S2_def)
    have e: "2 * i * 2 ^ (l - k) = i * 2 ^ (Suc l - k)" using k by (simp add: Suc_diff_le)
    have "baddr m x \<noteq> baddr m ?b" if "x \<in> T - S" for x using bst_inj [OF Suc.prems(1) _ bT] that Suc.prems(2) by blast
    then have fr: "b_is_free (blk m2 (baddr m x)) = b_is_free (blk m (baddr m x))" if "x \<in> T - S" for x
      using sp(4) [of x] m1(4) that Suc.prems(2) by auto
    from m'(2) [unfolded taken_def e TS baddr_only [OF o2] only_listsD [OF o2]] fr only_lists_trans [OF o2]
    have "taken m N S T (i * 2 ^ (Suc l - k), k) m'" unfolding taken_def by (metis (no_types, lifting))
    moreover have "split_down (Suc l) k m = (baddr m (i * 2 ^ (Suc l - k), k), m')"
      using k(1) m1(1) m'(1) bst_nonzero [OF Suc.prems(1) bT] unfolding e baddr_only [OF o2] by (simp add: m2_def)
    ultimately show ?thesis by blast
  qed
qed

end
