(* ===== verification/Buddy_Coalesce.thy ===== *)
theory Buddy_Coalesce
  imports Buddy_Inv
begin

text \<open>
  Freeing: the address that \<open>find_buddy\<close> computes with exclusive or is that of the sibling, and the loop of
  \<open>coalesce\<close> merges until the block has no free sibling.
\<close>

section \<open>The buddy of a block\<close>

lemma xor_shifted:
  "(of_nat (i * 2 ^ n) :: u64) XOR of_nat (2 ^ n) = of_nat (sibling i * 2 ^ n)"
proof -
  have shift: "(of_nat (j * 2 ^ n) :: u64) = push_bit n (of_nat j)" for j by (simp add: push_bit_eq_mult)
  have "(of_nat i :: u64) XOR 1 = of_nat (sibling i)" unfolding sibling_def by (simp add: of_nat_xor_eq)
  moreover have "(of_nat (2 ^ n) :: u64) = push_bit n 1" by (simp add: push_bit_eq_mult)
  ultimately show ?thesis unfolding shift by (simp only: push_bit_xor [symmetric])
qed

lemma find_buddy_sibling:
  assumes r: "bst m N N F S T" and b: "(i, l) \<in> T"
  shows "find_buddy (baddr m (i, l)) m = (if Suc (sibling i) * 2 ^ l \<le> N then baddr m (sibling i, l) else 0)"
proof -
  note d = bstD [OF r]
  note g = geometryD [OF d(1)]
  let ?U = "unat (heap_usable_bytes m)"
  have l: "l < 32" using bst_level [OF r b] by (simp add: MM_MAX_LEVELS_def)
  have lev: "b_level (blk m (baddr m (i, l))) = of_nat l" using d(8) [OF b] by (metis of_nat_unat snd_conv ucast_id)
  have sz: "pow2_u64 (b_level (blk m (baddr m (i, l)))) * BASE_BLOCK_SIZE m = of_nat (2 ^ (l + 6))"
    unfolding lev g(1) pow2_level [OF l] by (simp add: power_add)
  have off: "baddr m (j, l) - heap_base m = of_nat (j * 2 ^ (l + 6))" for j
    by (simp add: baddr_def start_def power_add ac_simps)
  have bo: "(baddr m (i, l) - heap_base m) XOR of_nat (2 ^ (l + 6)) = of_nat (sibling i * 2 ^ (l + 6))"
    unfolding off by (rule xor_shifted)
  have range: "Suc i * 2 ^ (l + 6) \<le> 2 ^ 63" using tiling_range [OF d(2) b] g(7) by (simp add: power_add)
  have "Suc (sibling i) \<le> Suc i + 1" by (auto simp: sibling_eq)
  then have "Suc (sibling i) * 2 ^ (l + 6) \<le> (Suc i + 1) * 2 ^ (l + 6)" by (rule mult_le_mono1)
  also have "\<dots> = Suc i * 2 ^ (l + 6) + 2 ^ (l + 6)" by (simp only: distrib_right mult_1)
  also have "\<dots> < 2 ^ 64"
  proof -
    have "(2 :: nat) ^ (l + 6) < 2 ^ 38" using l by (intro power_strict_increasing) auto
    with range show ?thesis by simp
  qed
  finally have "unat (of_nat (sibling i * 2 ^ (l + 6)) + of_nat (2 ^ (l + 6)) :: u64) = Suc (sibling i) * 2 ^ (l + 6)"
    unfolding of_nat_add [symmetric] by (subst unat_of_nat_64) (simp_all add: add.commute)
  then have "of_nat (sibling i * 2 ^ (l + 6)) + of_nat (2 ^ (l + 6)) > heap_usable_bytes m \<longleftrightarrow> Suc (sibling i) * 2 ^ (l + 6) > ?U"
    by (simp add: word_less_nat_alt)
  moreover have "Suc (sibling i) * 2 ^ (l + 6) > ?U \<longleftrightarrow> \<not> Suc (sibling i) * 2 ^ l \<le> N"
  proof -
    define y where "y = Suc (sibling i) * 2 ^ l"
    have e: "Suc (sibling i) * 2 ^ (l + 6) = y * 64" by (simp add: y_def power_add algebra_simps)
    have "y \<le> ?U div 64 \<longleftrightarrow> y * 64 \<le> ?U" by (rule less_eq_div_iff_mult_less_eq) simp
    then show ?thesis using g(4) unfolding e y_def [symmetric] by auto
  qed
  moreover have "heap_base m + of_nat (sibling i * 2 ^ (l + 6)) = baddr m (sibling i, l)"
    unfolding off [symmetric] by simp
  ultimately show ?thesis unfolding find_buddy_def Let_def sz bo by simp
qed

section \<open>Merging\<close>

text \<open>One round of the loop: the free sibling leaves its list and the two become one block.\<close>

lemma bst_merge:
  assumes r: "bst m N N F S T" and h: "(i, l) \<in> T" "(i, l) \<notin> S" and s: "(sibling i, l) \<in> S"
    and lm: "l < unat (max_level m)"
  obtains m1 m2 F' where "remove_from_free_list (baddr m (sibling i, l)) m = Some m1"
    and "m2 = upd_blk (baddr m (i div 2, Suc l)) (\<lambda>k. k\<lparr>b_level := b_level k + 1, b_is_free := 1\<rparr>) m1"
    and "(if baddr m (sibling i, l) < baddr m (i, l) then baddr m (sibling i, l) else baddr m (i, l)) =
      baddr m (i div 2, Suc l)" and "only_lists m m2"
    and "bst m2 N N F' (S - {(sibling i, l)}) (T - {(i, l), (sibling i, l)} \<union> {(i div 2, Suc l)})"
    and "\<forall>x \<in> T - S - {(i, l)}. b_is_free (blk m2 (baddr m x)) = b_is_free (blk m (baddr m x))"
    and "\<forall>a. b_is_free (blk m a) = 1 \<longrightarrow> b_is_free (blk m2 a) = 1"
proof -
  note d = bstD [OF r]
  let ?q = "(i div 2, Suc l)" and ?s = "(sibling i, l)" and ?h = "(i, l)"
  let ?T = "T - {?h, ?s} \<union> {?q}"
  have sT: "?s \<in> T" using s d(4) by blast
  have hs: "{?h, ?s} = {(2 * (i div 2), l), (Suc (2 * (i div 2)), l)}" by (rule siblings)
  have "(2 * (i div 2), l) \<in> {?h, ?s}" "(Suc (2 * (i div 2)), l) \<in> {?h, ?s}" unfolding hs by simp_all
  then have halves: "(2 * (i div 2), l) \<in> T" "(Suc (2 * (i div 2)), l) \<in> T" using h(1) sT by (metis insertE singletonD)+
  have T: "tiling N ?T" unfolding hs by (rule tiling_merge [OF d(2) halves])
  define b' where "b' = (if baddr m ?s < baddr m ?h then baddr m ?s else baddr m ?h)"
  have b': "b' = baddr m ?q"
  proof (cases "even i")
    case True
    then have q: "start ?q = start ?h" "start ?h < start ?s" by (auto simp: start_def sibling_eq elim!: evenE)
    then have "baddr m ?h < baddr m ?s"
      using unat_baddr [OF d(1) bst_start [OF r h(1)]] unat_baddr [OF d(1) bst_start [OF r sT]] by (simp add: word_less_nat_alt)
    with q show ?thesis by (auto simp: b'_def baddr_def)
  next
    case False
    then have q: "start ?q = start ?s" "start ?s < start ?h" by (auto simp: start_def sibling_eq elim!: oddE)
    then have "baddr m ?s < baddr m ?h"
      using unat_baddr [OF d(1) bst_start [OF r h(1)]] unat_baddr [OF d(1) bst_start [OF r sT]] by (simp add: word_less_nat_alt)
    with q show ?thesis by (auto simp: b'_def baddr_def)
  qed
  have b'_in: "b' = baddr m ?h \<or> b' = baddr m ?s" by (simp add: b'_def)
  from bst_remove [OF r s] obtain m1 where m1: "remove_from_free_list (baddr m ?s) m = Some m1"
    "bst m1 N N (F(l := remove1 (baddr m ?s) (F l))) (S - {?s}) T" "only_lists m m1"
    "\<And>a. b_is_free (blk m1 a) = b_is_free (blk m a)" by auto
  define m2 where "m2 = upd_blk b' (\<lambda>k. k\<lparr>b_level := b_level k + 1, b_is_free := 1\<rparr>) m1"
  have o2: "only_lists m m2" using m1(3) by (simp add: m2_def only_lists_step)
  have other: "baddr m x \<noteq> b'" if "x \<in> T - {?h, ?s}" for x
    using that b'_in bst_inj [OF r _ h(1), of x] bst_inj [OF r _ sT, of x] by blast
  have lev: "unat (b_level (blk m1 b')) = l"
    using b'_in bstD(8) [OF m1(2) h(1)] bstD(8) [OF m1(2) sT] by (auto simp: baddr_only [OF m1(3)])
  have "l < 32" using bst_level [OF r h(1)] by (simp add: MM_MAX_LEVELS_def)
  with lev have lev': "unat (b_level (blk m1 b') + 1) = Suc l" by (simp add: unat_add_lt)
  have r2: "bst m2 N N (F(l := remove1 (baddr m ?s) (F l))) (S - {?s}) ?T"
  proof (rule bst_relabel [OF m1(2)], unfold baddr_only [OF m1(3)] only_listsD [OF m1(3)])
    fix x assume "x \<in> S - {?s}"
    with other [of x] h(2) d(4) show "blk m2 (baddr m x) = blk m1 (baddr m x)" by (auto simp: m2_def)
  next
    fix x assume x: "x \<in> ?T"
    show "snd x \<le> unat (max_level m) \<and> unat (b_level (blk m2 (baddr m x))) = snd x"
    proof (cases "x = ?q")
      case True
      with lev' b' lm show ?thesis by (simp add: m2_def)
    next
      case False
      with x have "x \<in> T - {?h, ?s}" by blast
      with other [OF this] d(7) bstD(8) [OF m1(2), of x] show ?thesis by (simp add: m2_def baddr_only [OF m1(3)])
    qed
  qed (use T d(4) h in \<open>auto simp: m2_def only_lists_step\<close>)
  have "\<forall>x \<in> T - S - {?h}. b_is_free (blk m2 (baddr m x)) = b_is_free (blk m (baddr m x))"
  proof
    fix x assume "x \<in> T - S - {?h}"
    with other [of x] s m1(4) show "b_is_free (blk m2 (baddr m x)) = b_is_free (blk m (baddr m x))" by (auto simp: m2_def)
  qed
  moreover have "\<forall>a. b_is_free (blk m a) = 1 \<longrightarrow> b_is_free (blk m2 a) = 1" using m1(4) by (simp add: m2_def)
  ultimately show thesis by (rule that [OF m1(1) m2_def [unfolded b'] b' [unfolded b'_def] o2 r2])
qed

lemma bst_coalesce_loop:
  assumes "bst m N N F S T" and "(i, l) \<in> T" and "(i, l) \<notin> S" and "coalesced (unat (max_level m)) S"
    and "\<forall>x \<in> T - S - {(i, l)}. b_is_free (blk m (baddr m x)) = 0"
  shows "\<exists>j k m' F' S' T'. coalesce_loop (baddr m (i, l)) m = Some (baddr m (j, k), m') \<and> only_lists m m' \<and>
    bst m' N N F' S' T' \<and> (j, k) \<in> T' \<and> (j, k) \<notin> S' \<and> T' - S' - {(j, k)} = T - S - {(i, l)} \<and>
    coalesced (unat (max_level m)) S' \<and> (k < unat (max_level m) \<longrightarrow> (sibling j, k) \<notin> S') \<and>
    (\<forall>x \<in> T - S - {(i, l)}. b_is_free (blk m' (baddr m x)) = 0) \<and>
    (\<forall>a. b_is_free (blk m a) = 1 \<longrightarrow> b_is_free (blk m' a) = 1)"
  using assms
proof (induction "unat (max_level m) - l" arbitrary: i l m F S T rule: less_induct)
  case (less l m i F S T)
  note d = bstD [OF less.prems(1)]
  let ?h = "(i, l)" and ?s = "(sibling i, l)" and ?A = "T - S - {(i, l)}"
  have lev: "unat (b_level (blk m (baddr m ?h))) = l" using d(8) [OF less.prems(2)] by simp
  have stop: ?case if "coalesce_loop (baddr m ?h) m = Some (baddr m ?h, m)" "l < unat (max_level m) \<longrightarrow> ?s \<notin> S"
    using that less.prems only_lists_refl by blast
  show ?case
  proof (cases "l < unat (max_level m) \<and> ?s \<in> S")
    case False
    have "coalesce_loop (baddr m ?h) m = Some (baddr m ?h, m)"
    proof (cases "l < unat (max_level m) \<and> Suc (sibling i) * 2 ^ l \<le> N")
      case True
      with False have s: "?s \<notin> S" by simp
      from block_at_sibling [OF d(2) less.prems(2)] True obtain j k
        where jk: "(j, k) \<in> T" "k \<le> l" "start (j, k) = start ?s" by blast
      have a: "baddr m (j, k) = baddr m ?s" using jk(3) by (simp add: baddr_def)
      have "b_is_free (blk m (baddr m ?s)) = 0 \<or> b_level (blk m (baddr m ?s)) \<noteq> b_level (blk m (baddr m ?h))"
      proof (cases "k = l")
        case kl: True
        with jk(3) have "(j, k) = ?s" by (simp add: start_def)
        with jk(1) s have "?s \<in> ?A" by simp
        with less.prems(5) show ?thesis by blast
      next
        case False
        with d(8) [OF jk(1)] a lev show ?thesis by auto
      qed
      with True lev find_buddy_sibling [OF less.prems(1,2)] show ?thesis
        by (subst coalesce_loop.simps) (simp add: Let_def)
    next
      case False
      show ?thesis
      proof (cases "l < unat (max_level m)")
        case True
        with False find_buddy_sibling [OF less.prems(1,2)] have "find_buddy (baddr m ?h) m = 0" by simp
        then show ?thesis by (subst coalesce_loop.simps) (simp add: Let_def)
      next
        case False
        with lev show ?thesis by (subst coalesce_loop.simps) (simp add: word_less_nat_alt)
      qed
    qed
    then show ?thesis by (rule stop) (use False in blast)
  next
    case True
    then have lm: "l < unat (max_level m)" and s: "?s \<in> S" by auto
    have sT: "?s \<in> T" using s d(4) by blast
    obtain m1 m2 F' where m: "remove_from_free_list (baddr m ?s) m = Some m1"
      "m2 = upd_blk (baddr m (i div 2, Suc l)) (\<lambda>k. k\<lparr>b_level := b_level k + 1, b_is_free := 1\<rparr>) m1"
      "(if baddr m ?s < baddr m ?h then baddr m ?s else baddr m ?h) = baddr m (i div 2, Suc l)" "only_lists m m2"
      "bst m2 N N F' (S - {?s}) (T - {?h, ?s} \<union> {(i div 2, Suc l)})"
      "\<forall>x \<in> ?A. b_is_free (blk m2 (baddr m x)) = b_is_free (blk m (baddr m x))"
      "\<forall>a. b_is_free (blk m a) = 1 \<longrightarrow> b_is_free (blk m2 a) = 1"
      by (rule bst_merge [OF less.prems(1-3) s lm], rule that)
    let ?S = "S - {?s}" and ?T = "T - {?h, ?s} \<union> {(i div 2, Suc l)}"
    have "Suc (sibling i) * 2 ^ l \<le> N" by (rule tiling_range [OF d(2) sT])
    then have fb: "find_buddy (baddr m ?h) m = baddr m ?s" using find_buddy_sibling [OF less.prems(1,2)] by simp
    have "b_level (blk m (baddr m ?s)) = b_level (blk m (baddr m ?h))" using d(8) [OF sT] lev by (simp add: word_unat_eq_iff)
    then have step: "coalesce_loop (baddr m ?h) m = coalesce_loop (baddr m (i div 2, Suc l)) m2"
      using lm lev fb d(9) [OF s] bst_nonzero [OF less.prems(1) sT] m(1,2,3)
      by (subst coalesce_loop.simps) (simp add: Let_def word_less_nat_alt)
    have q: "(i div 2, Suc l) \<notin> T"
    proof
      assume "(i div 2, Suc l) \<in> T"
      note n = halves_notin [OF d(2) this]
      have "(i, l) \<in> {(2 * (i div 2), l), (Suc (2 * (i div 2)), l)}" unfolding siblings [symmetric] by simp
      with n less.prems(2) show False by (metis insertE singletonD)
    qed
    then have A: "?T - ?S - {(i div 2, Suc l)} = ?A" using s by blast
    have "(i div 2, Suc l) \<notin> ?S" using q d(4) by blast
    note ih = less.hyps [of m2 "Suc l", OF _ m(5) _ this, unfolded only_listsD [OF m(4)] baddr_only [OF m(4)] A]
    have "\<exists>j k m' F' S' T'. coalesce_loop (baddr m (i div 2, Suc l)) m2 = Some (baddr m (j, k), m') \<and> only_lists m2 m' \<and>
      bst m' N N F' S' T' \<and> (j, k) \<in> T' \<and> (j, k) \<notin> S' \<and> T' - S' - {(j, k)} = ?A \<and>
      coalesced (unat (max_level m)) S' \<and> (k < unat (max_level m) \<longrightarrow> (sibling j, k) \<notin> S') \<and>
      (\<forall>x \<in> ?A. b_is_free (blk m' (baddr m x)) = 0) \<and>
      (\<forall>a. b_is_free (blk m2 a) = 1 \<longrightarrow> b_is_free (blk m' a) = 1)"
    proof (rule ih)
      show "unat (max_level m) - Suc l < unat (max_level m) - l" using lm by simp
      show "coalesced (unat (max_level m)) (S - {?s})" by (rule coalesced_subset [OF less.prems(4)]) blast
    qed (use m(6) less.prems(5) in simp_all)
    then obtain j k m' F' S' T' where e: "coalesce_loop (baddr m (i div 2, Suc l)) m2 = Some (baddr m (j, k), m')"
      "only_lists m2 m'" "bst m' N N F' S' T'" "(j, k) \<in> T'" "(j, k) \<notin> S'" "T' - S' - {(j, k)} = ?A"
      "coalesced (unat (max_level m)) S'" "k < unat (max_level m) \<longrightarrow> (sibling j, k) \<notin> S'"
      "\<forall>x \<in> ?A. b_is_free (blk m' (baddr m x)) = 0" "\<forall>a. b_is_free (blk m2 a) = 1 \<longrightarrow> b_is_free (blk m' a) = 1" by (elim exE conjE) (rule that)
    have "\<forall>a. b_is_free (blk m a) = 1 \<longrightarrow> b_is_free (blk m' a) = 1" using m(7) e(10) by blast
    with only_lists_trans [OF m(4) e(2)] step e show ?thesis by (intro exI conjI) auto
  qed
qed

lemma bst_coalesce:
  assumes r: "bst m N N F S T" and b: "(i, l) \<in> T" "(i, l) \<notin> S" and c: "coalesced (unat (max_level m)) S"
    and z: "\<forall>x \<in> T - S - {(i, l)}. b_is_free (blk m (baddr m x)) = 0"
  obtains m' F' S' T' where "coalesce (baddr m (i, l)) m = Some m'" and "only_lists m m'" and "bst m' N N F' S' T'"
    and "coalesced (unat (max_level m)) S'" and "T' - S' = T - S - {(i, l)}"
    and "\<forall>x \<in> T - S - {(i, l)}. b_is_free (blk m' (baddr m x)) = 0"
    and "\<forall>a. b_is_free (blk m a) = 1 \<longrightarrow> b_is_free (blk m' a) = 1"
proof -
  obtain j k m1 F1 S1 T1 where l:
    "coalesce_loop (baddr m (i, l)) m = Some (baddr m (j, k), m1)" "only_lists m m1" "bst m1 N N F1 S1 T1"
    "(j, k) \<in> T1" "(j, k) \<notin> S1" "T1 - S1 - {(j, k)} = T - S - {(i, l)}" "coalesced (unat (max_level m)) S1"
    "k < unat (max_level m) \<longrightarrow> (sibling j, k) \<notin> S1" "\<forall>x \<in> T - S - {(i, l)}. b_is_free (blk m1 (baddr m x)) = 0"
    "\<forall>a. b_is_free (blk m a) = 1 \<longrightarrow> b_is_free (blk m1 a) = 1"
    by (atomize_elim, rule bst_coalesce_loop [OF r b c z])
  note p = bst_push [OF l(3-5), unfolded baddr_only [OF l(2)]]
  show thesis
  proof (rule that)
    show "coalesce (baddr m (i, l)) m = Some (push_free (baddr m (j, k)) m1)" by (simp add: coalesce_def l(1))
    show "only_lists m (push_free (baddr m (j, k)) m1)" using l(2) p(2) by (rule only_lists_trans)
    show "coalesced (unat (max_level m)) (insert (j, k) S1)" by (rule coalesced_insert [OF l(7)]) (use l(8) in blast)
    show "T1 - insert (j, k) S1 = T - S - {(i, l)}" using l(6) by blast
    show "\<forall>a. b_is_free (blk m a) = 1 \<longrightarrow> b_is_free (blk (push_free (baddr m (j, k)) m1) a) = 1"
      using l(10) by (simp add: p(3))
    show "\<forall>x \<in> T - S - {(i, l)}. b_is_free (blk (push_free (baddr m (j, k)) m1) (baddr m x)) = 0"
    proof
    fix x assume x: "x \<in> T - S - {(i, l)}"
    then have "x \<in> T1 - S1 - {(j, k)}" unfolding l(6) .
    then have "baddr m x \<noteq> baddr m (j, k)" using bst_inj [OF l(3) _ l(4), of x] by (auto simp: baddr_only [OF l(2)])
    with l(9) x show "b_is_free (blk (push_free (baddr m (j, k)) m1) (baddr m x)) = 0" by (simp add: p(3))
    qed
  qed (rule p(1))
qed

end
