(* ===== verification/Buddy_Alloc.thy ===== *)
theory Buddy_Alloc
  imports Buddy_Coalesce MM_Spec
begin

text \<open>
  Allocation and release of the buddy manager against the set of live regions: \<open>buddy_rep lo hi m L\<close>
  relates a state to the regions it has handed out.
\<close>

section \<open>Orders\<close>

definition order_ok :: "nat \<Rightarrow> nat \<Rightarrow> nat \<Rightarrow> bool" where
  "order_ok tot k ord \<longleftrightarrow> k \<le> ord \<and> ord \<le> 31 \<and> (ord = 31 \<or> tot \<le> 64 * 2 ^ ord) \<and>
     (\<forall>j. k \<le> j \<and> j < ord \<longrightarrow> 64 * 2 ^ j < tot)"

lemma order_ok_Suc: "order_ok tot (Suc k) ord \<Longrightarrow> 64 * 2 ^ k < tot \<Longrightarrow> order_ok tot k ord"
  unfolding order_ok_def by (metis Suc_leD le_antisym not_less_eq_eq)

lemma order_ok_stop: "k \<le> 31 \<Longrightarrow> tot \<le> 64 * 2 ^ k \<or> k = 31 \<Longrightarrow> order_ok tot k k"
  by (auto simp: order_ok_def)

lemma order_loop_spec: "k \<le> 31 \<Longrightarrow> order_ok (unat tot) k (order_loop tot (of_nat (64 * 2 ^ k)) k)"
proof (induction "31 - k" arbitrary: k)
  case 0
  then have k: "k = 31" by simp
  have "order_loop tot (of_nat (64 * 2 ^ k)) k = k" unfolding k by (subst order_loop.simps) (simp add: MM_MAX_LEVELS_def)
  with k show ?case by (simp only: order_ok_stop order.refl simp_thms)
next
  case (Suc n)
  then have k: "k < 31" by simp
  define b :: u64 where "b = of_nat (64 * 2 ^ k)"
  define c :: u64 where "c = of_nat (64 * 2 ^ Suc k)"
  have "(2 :: nat) ^ k < 2 ^ 31" using k by (intro power_strict_increasing) auto
  then have u: "unat b = 64 * 2 ^ k" unfolding b_def by (intro unat_of_nat_64) simp
  have sh: "push_bit 1 b = c" by (simp add: push_bit_eq_mult b_def c_def)
  have step: "order_loop tot b k = (if 64 * 2 ^ k < unat tot then order_loop tot c (Suc k) else k)"
    using k by (subst order_loop.simps, unfold sh) (simp add: word_less_nat_alt u MM_MAX_LEVELS_def)
  have n: "n = 31 - Suc k" "Suc k \<le> 31" using Suc.hyps(2) k by simp_all
  note ih = Suc.hyps(1) [OF n, folded c_def]
  show ?case
  proof (cases "64 * 2 ^ k < unat tot")
    case True
    with order_ok_Suc [OF ih] step show ?thesis by (simp add: b_def)
  next
    case False
    with order_ok_stop [of k "unat tot"] step k show ?thesis by (simp add: b_def)
  qed
qed

lemma order_for_spec:
  assumes "BASE_BLOCK_SIZE m = 64"
  shows "order_for x m \<le> 31" and "unat x \<le> 64 * 2 ^ 31 \<Longrightarrow> unat x \<le> 64 * 2 ^ order_for x m"
    and "\<And>j. j < order_for x m \<Longrightarrow> 64 * 2 ^ j < unat x"
proof -
  define tot :: u64 where "tot = (if x < 64 then 64 else x)"
  have t: "unat x \<le> unat tot" "unat tot \<le> max 64 (unat x)" by (auto simp: tot_def word_less_nat_alt)
  have sp: "order_ok (unat tot) 0 (order_for x m)"
    using order_loop_spec [of 0 tot] unfolding order_for_def assms Let_def tot_def [symmetric] by simp
  then show "order_for x m \<le> 31" by (simp add: order_ok_def)
  show "unat x \<le> 64 * 2 ^ order_for x m" if "unat x \<le> 64 * 2 ^ 31"
  proof -
    have "unat tot \<le> 64 * 2 ^ 31" using t(2) that by simp
    moreover from sp have "order_for x m = 31 \<or> unat tot \<le> 64 * 2 ^ order_for x m" by (simp add: order_ok_def)
    ultimately show ?thesis using t(1) by auto
  qed
  show "64 * 2 ^ j < unat x" if "j < order_for x m" for j
  proof -
    have "64 * 2 ^ j < unat tot" using sp that by (simp add: order_ok_def)
    moreover have "64 * 1 \<le> 64 * (2 :: nat) ^ j" by (intro mult_le_mono2) simp
    ultimately show ?thesis using t(2) by linarith
  qed
qed

definition buddy_order :: "u64 \<Rightarrow> mm_buddy \<Rightarrow> nat" where
  "buddy_order sz m = order_for (align_up_u64 sz MIN_ALIGN + HDR_SIZE) m"

lemma HDR_SIZE_32: "HDR_SIZE = 32" and MIN_ALIGN_16: "MIN_ALIGN = 16"
  by (simp_all add: HDR_SIZE_def MIN_ALIGN_def align_up_u64_def)

lemma unat_request:
  assumes "unat sz + 32 \<le> 2 ^ 37"
  shows "unat (align_up_u64 sz MIN_ALIGN + HDR_SIZE) = (unat sz + 15) div 16 * 16 + 32"
proof -
  have "unat (15 + sz) = unat sz + 15" using assms by (subst unat_add_lt) simp_all
  then have a: "unat (align_up_u64 sz 16) = (unat sz + 15) div 16 * 16" by (simp add: align_up_u64_def unat_and_not_15)
  have "(unat sz + 15) div 16 * 16 \<le> unat sz + 15" by simp
  with assms have "(unat sz + 15) div 16 * 16 + 32 < 2 ^ 64" by simp
  with a show ?thesis unfolding MIN_ALIGN_16 HDR_SIZE_32 by (subst unat_add_lt) simp_all
qed

lemma round_16: "(n + 15) div 16 * 16 \<le> 16 * q \<longleftrightarrow> n \<le> 16 * q" for n q :: nat
proof -
  have "(n + 15) div 16 \<le> q \<longleftrightarrow> n + 15 < Suc q * 16" unfolding less_Suc_eq_le [symmetric]
    by (rule div_less_iff_less_mult) simp
  then show ?thesis by auto
qed

lemma buddy_order_spec:
  assumes "BASE_BLOCK_SIZE m = 64" and "unat sz + 32 \<le> 2 ^ 37"
  shows "buddy_order sz m \<le> 31" and "k \<le> 31 \<Longrightarrow> buddy_order sz m \<le> k \<longleftrightarrow> unat sz + 32 \<le> 64 * 2 ^ k"
proof -
  let ?x = "align_up_u64 sz MIN_ALIGN + HDR_SIZE"
  note o = order_for_spec [OF assms(1), where x = ?x, folded buddy_order_def]
  have x: "unat ?x \<le> 64 * 2 ^ k \<longleftrightarrow> unat sz + 32 \<le> 64 * 2 ^ k" for k
  proof -
    have "64 * (2 :: nat) ^ k = 16 * (4 * 2 ^ k - 2) + 32" using one_le_power [of "2 :: nat" k] by linarith
    then show ?thesis using round_16 [of "unat sz" "4 * 2 ^ k - 2"] unfolding unat_request [OF assms(2)] by linarith
  qed
  show "buddy_order sz m \<le> 31" by (rule o)
  show "buddy_order sz m \<le> k \<longleftrightarrow> unat sz + 32 \<le> 64 * 2 ^ k" if "k \<le> 31"
  proof
    assume "buddy_order sz m \<le> k"
    moreover have "unat ?x \<le> 64 * 2 ^ buddy_order sz m" using x [of 31] assms(2) by (intro o(2)) simp
    moreover from calculation(1) have "(2 :: nat) ^ buddy_order sz m \<le> 2 ^ k" by (intro power_increasing) auto
    ultimately show "unat sz + 32 \<le> 64 * 2 ^ k" unfolding x [symmetric] by linarith
  next
    assume "unat sz + 32 \<le> 64 * 2 ^ k"
    with o(3) [of k] x [of k] show "buddy_order sz m \<le> k" by (meson leI not_less)
  qed
qed

section \<open>Live regions\<close>

definition payload :: "nat \<Rightarrow> nat" where
  "payload l = 64 * 2 ^ l - 32"

lemma payload_word:
  assumes "l < 32"
  shows "unat (pow2_u64 (of_nat l) * 64 - HDR_SIZE) = payload l"
proof -
  have "(2 :: nat) ^ l < 2 ^ 32" using assms by (intro power_strict_increasing) auto
  then have pw: "unat (of_nat (2 ^ l * 64) :: u64) = 2 ^ l * 64" by (intro unat_of_nat_64) simp
  moreover have "pow2_u64 (of_nat l) * 64 = (of_nat (2 ^ l * 64) :: u64)" using pow2_level [OF assms] by simp
  moreover have "32 \<le> (of_nat (2 ^ l * 64) :: u64)" unfolding word_le_nat_alt pw using one_le_power [of "2 :: nat" l] by simp
  ultimately show ?thesis by (simp add: HDR_SIZE_32 unat_sub_le payload_def mult.commute)
qed

lemma payload_size: "payload l + 32 = 64 * 2 ^ l" and payload_pos: "0 < payload l"
  unfolding payload_def using one_le_power [of "2 :: nat" l] by linarith+

definition region_of :: "nat \<Rightarrow> dyad \<Rightarrow> region" where
  "region_of lo b = (lo + 64 * start b + 32, payload (snd b))"

definition buddy_inv :: "mm_buddy \<Rightarrow> nat \<Rightarrow> (nat \<Rightarrow> ptr list) \<Rightarrow> dyad set \<Rightarrow> dyad set \<Rightarrow> bool" where
  "buddy_inv m N F S T \<longleftrightarrow> bst m N N F S T \<and> coalesced (unat (max_level m)) S \<and>
     (\<forall>x \<in> T - S. b_is_free (blk m (baddr m x)) = 0)"

definition buddy_rep :: "nat \<Rightarrow> nat \<Rightarrow> mm_buddy \<Rightarrow> region set \<Rightarrow> bool" where
  "buddy_rep lo hi m L \<longleftrightarrow> unat (heap_base m) = lo \<and> lo + unat (heap_usable_bytes m) = hi \<and> lo + 32 \<le> hi \<and>
     mm_initialized_flag_b m \<noteq> 0 \<and> unat (heap_capacity_bytes_b m) = hi - lo - 32 \<and>
     unat (heap_used_bytes_b m) = sum snd L \<and>
     (unat (max_level m) = 31 \<or> hi - lo \<le> 64 * 2 ^ unat (max_level m)) \<and>
     (\<exists>F S T. buddy_inv m ((hi - lo) div 64) F S T \<and> L = region_of lo ` (T - S))"

lemma bst_counters [simp]:
  "bst (m\<lparr>heap_used_bytes_b := u\<rparr>) N c F S T = bst m N c F S T"
  "bst (m\<lparr>heap_free_count_b := u\<rparr>) N c F S T = bst m N c F S T"
  "bst (m\<lparr>heap_capacity_bytes_b := u\<rparr>) N c F S T = bst m N c F S T"
  "bst (m\<lparr>heap_allocation_count_b := u\<rparr>) N c F S T = bst m N c F S T"
  "bst (m\<lparr>mm_initialized_flag_b := v\<rparr>) N c F S T = bst m N c F S T"
  "bst (m\<lparr>heap_failed_allocations_b := u\<rparr>) N c F S T = bst m N c F S T"
  by (simp_all add: bst_def geometry_def lists_rep_def baddr_def)

lemma baddr_counters [simp]:
  "baddr (m\<lparr>heap_used_bytes_b := u\<rparr>) = baddr m" "baddr (m\<lparr>heap_failed_allocations_b := u\<rparr>) = baddr m"
  "baddr (m\<lparr>heap_free_count_b := f\<rparr>) = baddr m"
  by (simp_all add: baddr_def fun_eq_iff)

lemma buddy_inv_counters [simp]:
  "buddy_inv (m\<lparr>heap_used_bytes_b := u\<rparr>) N F S T = buddy_inv m N F S T"
  "buddy_inv (m\<lparr>heap_failed_allocations_b := u\<rparr>) N F S T = buddy_inv m N F S T"
  by (simp_all add: buddy_inv_def)

lemma region_inj:
  assumes "tiling N T"
  shows "inj_on (region_of lo) T"
  using tiling_start_inj [OF assms] by (auto simp: inj_on_def region_of_def)

lemma region_apart:
  assumes "tiling N T" and "b \<in> T" and "c \<in> T" and "b \<noteq> c"
  shows "apart (region_of lo b) (region_of lo c)"
proof -
  obtain i l j k where bc: "b = (i, l)" "c = (j, k)" by (cases b; cases c)
  from tiling_apart [OF assms(1)] assms bc have "Suc i * 2 ^ l \<le> start (j, k) \<or> Suc j * 2 ^ k \<le> start (i, l)" by blast
  then have "64 * (start (i, l) + 2 ^ l) \<le> 64 * start (j, k) \<or> 64 * (start (j, k) + 2 ^ k) \<le> 64 * start (i, l)"
    unfolding start_def mult_Suc fst_conv snd_conv by (metis add.commute mult_le_mono2)
  then show ?thesis unfolding bc apart_def region_of_def using payload_size [of l] payload_size [of k]
    by (simp add: distrib_left) linarith
qed

lemma region_sum:
  assumes t: "tiling N T" and A: "A \<subseteq> T" "A \<noteq> {}"
  shows "sum snd (region_of lo ` A) + 32 \<le> 64 * N"
proof -
  have fin: "finite A" using tiling_finite [OF t] A(1) by (rule rev_finite_subset)
  have "sum snd (region_of lo ` A) = (\<Sum>b \<in> A. payload (snd b))"
    by (subst sum.reindex) (use region_inj [OF t] A in \<open>auto simp: region_of_def intro: inj_on_subset\<close>)
  moreover have "(\<Sum>b \<in> A. payload (snd b)) + (\<Sum>b \<in> A. 32) = (\<Sum>b \<in> A. 64 * 2 ^ snd b)"
    unfolding sum.distrib [symmetric] by (simp only: payload_size)
  moreover have "(\<Sum>b \<in> A. 64 * 2 ^ snd b) \<le> (\<Sum>b \<in> T. 64 * (2 :: nat) ^ snd b)"
    using tiling_finite [OF t] A(1) by (intro sum_mono2) auto
  moreover have "(\<Sum>b \<in> T. 64 * (2 :: nat) ^ snd b) = 64 * N" using tiling_sum [OF t] by (simp flip: sum_distrib_left)
  moreover have "1 \<le> card A" using fin A(2) by (simp add: Suc_leI card_gt_0_iff)
  ultimately show ?thesis by simp
qed

section \<open>Taking a block\<close>

text \<open>\<open>buddy_take\<close> fails exactly when no free block is large enough.\<close>

lemma buddy_take_cases:
  assumes inv: "buddy_inv m N F S T" and ord: "ord \<le> 31"
  obtains (none) "buddy_take ord m = (0, m)" and "\<And>j k. (j, k) \<in> S \<Longrightarrow> k < ord"
    | (some) i m' where "buddy_take ord m = (baddr m (i, ord), m')" and "taken m N S T (i, ord) m'"
      and "\<exists>j k. (j, k) \<in> S \<and> ord \<le> k"
proof -
  from inv have r: "bst m N N F S T" and c: "coalesced (unat (max_level m)) S" by (simp_all add: buddy_inv_def)
  note d = bstD [OF r]
  have ord': "ord < MM_MAX_LEVELS" using ord by (simp add: MM_MAX_LEVELS_def)
  have mx: "unat (max_level m) < MM_MAX_LEVELS" using geometryD(6) [OF d(1)] by (simp add: MM_MAX_LEVELS_def)
  have head: "free_lists m ! l \<noteq> 0 \<longleftrightarrow> F l \<noteq> []" if "l < MM_MAX_LEVELS" for l
    using lists_rep_nth [OF d(5) that] by (cases "F l") auto
  show thesis
  proof (cases "F ord = []")
    case False
    from bst_head [OF r ord' False] obtain i ps where i: "(i, ord) \<in> S" "F ord = baddr m (i, ord) # ps" .
    from taken_pop [where F = F, OF r i(1), of ps] i(2) coalesced_subset [OF c, of "S - {(i, ord)}"] obtain m'
      where m': "pop_free ord m = (baddr m (i, ord), m')" "taken m N S T (i, ord) m'" by auto
    have "baddr m (i, ord) \<noteq> 0" using bst_nonzero [OF r] i(1) d(4) by blast
    with m' i(1) show thesis by (intro some [of i m']) (auto simp: buddy_take_def)
  next
    case True
    note pop = pop_free_empty [OF d(5) ord' True]
    let ?ls = "[Suc ord..<Suc (unat (max_level m))]"
    show thesis
    proof (cases "find (\<lambda>l. free_lists m ! l \<noteq> 0) ?ls")
      case None
      then have "F l = []" if "Suc ord \<le> l" "l \<le> unat (max_level m)" for l
        using that head [of l] mx by (force simp: find_None_iff)
      with True have no: "F l = []" if "ord \<le> l" "l \<le> unat (max_level m)" for l
        using that by (cases "l = ord") auto
      have "k < ord" if "(j, k) \<in> S" for j k
      proof (rule ccontr)
        assume "\<not> k < ord"
        moreover have "k \<le> unat (max_level m)" using d(7) [of "(j, k)"] that d(4) by auto
        ultimately show False using no [of k] bst_listed [OF r that] by simp
      qed
      with None pop show thesis by (intro none) (auto simp: buddy_take_def)
    next
      case (Some l)
      then have l: "free_lists m ! l \<noteq> 0" "ord < l" "l \<le> unat (max_level m)"
        by (auto simp: find_Some_iff nth_append simp del: upt_Suc dest!: nth_mem)
      with mx have l32: "l < MM_MAX_LEVELS" by simp
      with l head have "F l \<noteq> []" by simp
      from bst_head [OF r l32 this] obtain i ps where i: "(i, l) \<in> S" "F l = baddr m (i, l) # ps" .
      from bst_split_down [OF r i _ coalesced_subset [OF c]] l(2) obtain m'
        where m': "split_down l ord m = (baddr m (i * 2 ^ (l - ord), ord), m')" "taken m N S T (i * 2 ^ (l - ord), ord) m'"
        by (metis Diff_subset less_imp_le)
      show thesis by (rule some [OF _ m'(2)]) (use Some pop m'(1) i(1) l(2) in \<open>auto simp: buddy_take_def intro: less_imp_le\<close>)
    qed
  qed
qed

section \<open>Allocation\<close>

lemma buddy_rep_failed: "buddy_rep lo hi (m\<lparr>heap_failed_allocations_b := f\<rparr>) L = buddy_rep lo hi m L"
  by (simp add: buddy_rep_def)

lemma taken_inv:
  assumes t: "taken m N S T b m1" and inv: "buddy_inv m N F S T"
  defines "m2 \<equiv> upd_blk (baddr m b) (b_is_free_update (\<lambda>_. 0)) m1"
  obtains F' S' T' where "buddy_inv m2 N F' S' T'" and "T' - S' = insert b (T - S)" and "b \<notin> T - S" and "only_lists m m2"
proof -
  from t obtain F' S' T' where r: "bst m1 N N F' S' T'" and o: "only_lists m m1" and c: "coalesced (unat (max_level m)) S'"
    and A: "T' - S' = insert b (T - S)" "b \<notin> T - S" and b0: "b_is_free (blk m1 (baddr m b)) = 0"
    and z: "\<forall>x \<in> T - S. b_is_free (blk m1 (baddr m x)) = b_is_free (blk m (baddr m x))"
    by (auto simp: taken_def)
  have "b_is_free_update (\<lambda>_. 0) (blk m1 (baddr m b)) = blk m1 (baddr m b)" using b0 by simp
  then have m2: "m2 = m1" by (simp add: m2_def upd_blk_def)
  have "buddy_inv m1 N F' S' T'" unfolding buddy_inv_def baddr_only [OF o] only_listsD [OF o] A
    using r c b0 z inv by (auto simp: buddy_inv_def)
  with A o show thesis by (intro that) (simp_all add: m2)
qed

lemma alloc_buddy_cases:
  assumes r: "buddy_rep lo hi m L" and inv: "buddy_inv m ((hi - lo) div 64) F S T" and L: "L = region_of lo ` (T - S)"
  obtains (zero) "sz = 0" and "mm_alloc_buddy sz m = Some (0, m)"
    | (full) m' where "sz \<noteq> 0" and "mm_alloc_buddy sz m = Some (0, m')" and "buddy_rep lo hi m' L"
      and "\<And>j k. (j, k) \<in> S \<Longrightarrow> k < buddy_order sz m"
    | (found) p m' i where "sz \<noteq> 0" and "mm_alloc_buddy sz m = Some (p, m')" and "p \<noteq> 0"
      and "unat p = fst (region_of lo (i, buddy_order sz m))" and "region_of lo (i, buddy_order sz m) \<notin> L"
      and "buddy_rep lo hi m' (insert (region_of lo (i, buddy_order sz m)) L)"
      and "lo + 64 * (Suc i * 2 ^ buddy_order sz m) \<le> hi"
      and "\<exists>j k. (j, k) \<in> S \<and> buddy_order sz m \<le> k"
proof (cases "sz = 0")
  case True
  with r show thesis by (intro zero) (simp_all add: mm_alloc_buddy_def buddy_rep_def)
next
  case False
  let ?N = "(hi - lo) div 64" and ?o = "buddy_order sz m"
  from r have f: "mm_initialized_flag_b m \<noteq> 0" and lo: "unat (heap_base m) = lo" and hi: "lo + unat (heap_usable_bytes m) = hi"
    and cap: "unat (heap_capacity_bytes_b m) = hi - lo - 32" and used: "unat (heap_used_bytes_b m) = sum snd L"
    by (simp_all add: buddy_rep_def)
  have b: "bst m ?N ?N F S T" using inv by (simp add: buddy_inv_def)
  note d = bstD [OF b]
  note g = geometryD [OF d(1)]
  have o: "?o \<le> 31" unfolding buddy_order_def by (rule order_for_spec [OF g(1)])
  show thesis
    using inv o
  proof (cases rule: buddy_take_cases)
    case none
    with False f r show thesis
      by (intro full [of "m\<lparr>heap_failed_allocations_b := heap_failed_allocations_b m + 1\<rparr>"])
        (simp_all add: mm_alloc_buddy_def buddy_fail_def Let_def buddy_rep_failed flip: buddy_order_def)
  next
    case (some i m1)
    let ?b = "(i, ?o)"
    define m2 where "m2 = upd_blk (baddr m ?b) (b_is_free_update (\<lambda>_. 0)) m1"
    obtain F' S' T' where m2: "buddy_inv m2 ?N F' S' T'" "T' - S' = insert ?b (T - S)" "?b \<notin> T - S" "only_lists m m2"
      by (rule taken_inv [OF some(2) inv, folded m2_def])
    note t' = bstD(2) [of m2 ?N ?N F' S' T']
    have t: "tiling ?N T'" and bT: "?b \<in> T'" and bm2: "bst m2 ?N ?N F' S' T'" using m2(1,2) t' by (auto simp: buddy_inv_def)
    have p: "baddr m ?b \<noteq> 0" using bst_nonzero [OF bm2 bT] by (simp add: baddr_only [OF m2(4)])
    let ?r = "region_of lo ?b"
    have rL: "?r \<notin> L"
    proof
      assume "?r \<in> L"
      then obtain c where "c \<in> T - S" "region_of lo c = ?r" unfolding L by auto
      moreover from this have "c \<in> T'" using m2(2) by blast
      ultimately show False using inj_onD [OF region_inj [OF t], of lo c ?b] bT m2(3) by auto
    qed
    have L': "insert ?r L = region_of lo ` (T' - S')" unfolding m2(2) L by simp
    have sum: "sum snd (insert ?r L) + 32 \<le> 64 * ?N" unfolding L' by (rule region_sum [OF t]) (use m2(2) in auto)
    have fin: "finite L" unfolding L using tiling_finite [OF d(2)] by simp
    have U: "64 * ?N \<le> hi - lo" by simp
    define pay where "pay = pow2_u64 (of_nat ?o) * BASE_BLOCK_SIZE m2 - HDR_SIZE"
    have pay: "unat pay = snd ?r"
      using payload_word [of ?o] o g(1) by (simp add: pay_def only_listsD [OF m2(4)] region_of_def)
    have used': "unat (heap_used_bytes_b m2 + pay) = sum snd (insert ?r L)"
    proof -
      have "sum snd (insert ?r L) = unat (heap_used_bytes_b m2) + unat pay"
        using fin rL by (simp add: used pay only_listsD [OF m2(4)])
      moreover have "(2 :: nat) ^ 63 < 2 ^ 64" by simp
      then have "sum snd (insert ?r L) < 2 ^ 64" using sum g(7) by linarith
      ultimately show ?thesis by (simp add: unat_add_lt)
    qed
    have ncap: "\<not> heap_used_bytes_b m2 + pay > heap_capacity_bytes_b m2"
      unfolding word_less_nat_alt used' only_listsD(4) [OF m2(4)] cap using sum U by linarith
    have alloc: "mm_alloc_buddy sz m = Some (baddr m ?b + 32, m2\<lparr>heap_used_bytes_b := heap_used_bytes_b m2 + pay\<rparr>)"
      using False f some(1) p ncap
      by (simp add: mm_alloc_buddy_def Let_def m2_def [symmetric] pay_def [symmetric] HDR_SIZE_32 [symmetric] flip: buddy_order_def)
    have sN: "start ?b < ?N" by (rule tiling_start_less [OF t bT])
    have tr: "Suc i * 2 ^ ?o \<le> ?N" by (rule tiling_range [OF t bT])
    have ad: "unat (baddr m ?b + 32) = fst ?r"
    proof -
      have "unat (baddr m ?b) = lo + 64 * start ?b" using unat_baddr [OF d(1) sN] lo by simp
      moreover from this have "unat (baddr m ?b) + 32 < 2 ^ 64" using sN g(3) lo by linarith
      ultimately show ?thesis by (subst unat_add_lt) (simp_all add: region_of_def)
    qed
    have rep: "buddy_rep lo hi (m2\<lparr>heap_used_bytes_b := heap_used_bytes_b m2 + pay\<rparr>) (insert ?r L)"
      using r m2(1) L' used' unfolding buddy_rep_def by (auto simp: only_listsD [OF m2(4)] simp del: sum.insert)
    have nz: "baddr m ?b + 32 \<noteq> 0" using ad by (auto simp: region_of_def unat_eq_0)
    have fit: "lo + 64 * (Suc i * 2 ^ ?o) \<le> hi" using tr U hi by linarith
    show thesis by (rule found [OF False alloc nz ad rL rep fit]) (rule some(3))
  qed
qed

lemma buddy_rep_inv:
  assumes "buddy_rep lo hi m L"
  obtains F S T where "buddy_inv m ((hi - lo) div 64) F S T" and "L = region_of lo ` (T - S)"
  using assms by (auto simp: buddy_rep_def)

end
