(* ===== verification/Buddy_Init.thy ===== *)
theory Buddy_Init
  imports Buddy_Alloc
begin

text \<open>
  Initialisation of the buddy manager: the greedy loop of \<open>mm_init\<close> ends, tiles the region with free
  blocks aligned to their size, and leaves no two that could be merged.
\<close>

lemma level_down_spec:
  assumes "mx \<le> 31" and "64 \<le> unat rem"
  shows "level_down mx 64 rem \<le> mx \<and> 64 * 2 ^ level_down mx 64 rem \<le> unat rem \<and>
    (level_down mx 64 rem < mx \<longrightarrow> unat rem < 64 * 2 ^ Suc (level_down mx 64 rem))"
  using assms(1)
proof (induction mx)
  case 0
  with assms(2) show ?case by simp
next
  case (Suc l)
  have "(2 :: nat) ^ Suc l < 2 ^ 32" using Suc.prems by (intro power_strict_increasing) auto
  then have "unat (of_nat (2 ^ Suc l * 64) :: u64) = 2 ^ Suc l * 64" by (intro unat_of_nat_64) simp
  moreover have "pow2_u64 (of_nat (Suc l)) * 64 = (of_nat (2 ^ Suc l * 64) :: u64)" using pow2_level [of "Suc l"] Suc.prems by simp
  ultimately have u: "unat (pow2_u64 (of_nat (Suc l)) * 64) = 2 ^ Suc l * 64" by simp
  show ?case
  proof (cases "2 ^ Suc l * 64 > unat rem")
    case True
    then have "level_down (Suc l) 64 rem = level_down l 64 rem" using u by (simp add: word_less_nat_alt)
    with Suc.IH Suc.prems True show ?thesis by (cases "level_down l 64 rem = l") auto
  next
    case False
    then have "level_down (Suc l) 64 rem = Suc l" using u by (simp add: word_less_nat_alt)
    with False show ?thesis by simp
  qed
qed

text \<open>After \<open>c\<close> units: what is left is smaller than every block below the highest level, and any block
  that fits is aligned at \<open>c\<close>.\<close>

definition greedy :: "nat \<Rightarrow> nat \<Rightarrow> nat \<Rightarrow> dyad set \<Rightarrow> bool" where
  "greedy N c mx T \<longleftrightarrow> (\<forall>j \<le> mx. 2 ^ j \<le> N - c \<longrightarrow> 2 ^ j dvd c) \<and> (\<forall>(i, j) \<in> T. j < mx \<longrightarrow> N - c < 2 ^ j)"

lemma greedy_step:
  assumes g: "greedy N c mx T" and c: "coalesced mx T" and l: "l \<le> mx" "2 ^ l \<le> N - c" "l < mx \<Longrightarrow> N - c < 2 ^ Suc l"
  shows "greedy N (c + 2 ^ l) mx (insert (c div 2 ^ l, l) T)" and "coalesced mx (insert (c div 2 ^ l, l) T)"
    and "2 ^ l dvd c"
proof -
  show dv: "2 ^ l dvd c" using g l by (simp add: greedy_def)
  have old: "N - c < 2 ^ j" if "(i, j) \<in> T" "j < mx" for i j using g that by (auto simp: greedy_def)
  have "(sibling (c div 2 ^ l), l) \<notin> T" if "l < mx" using old [of _ l] that l(2) by fastforce
  then show "coalesced mx (insert (c div 2 ^ l, l) T)" by (rule coalesced_insert [OF c])
  have small: "N - (c + 2 ^ l) < 2 ^ l" if "l < mx" using l(2,3) that by simp
  have "2 ^ j dvd c + 2 ^ l" if j: "j \<le> mx" "2 ^ j \<le> N - (c + 2 ^ l)" for j
  proof -
    have "j \<le> l"
    proof (rule ccontr)
      assume "\<not> j \<le> l"
      then have "(2 :: nat) ^ l \<le> 2 ^ j" "l < mx" using j(1) by (auto intro: power_increasing)
      with small j(2) show False by linarith
    qed
    moreover have "2 ^ j dvd c" using g j by (simp add: greedy_def)
    ultimately show ?thesis by (intro dvd_add) (auto intro: le_imp_power_dvd)
  qed
  moreover have "N - (c + 2 ^ l) < 2 ^ j" if "(i, j) \<in> insert (c div 2 ^ l, l) T" "j < mx" for i j
    using that small old [of i j] by fastforce
  ultimately show "greedy N (c + 2 ^ l) mx (insert (c div 2 ^ l, l) T)" unfolding greedy_def by blast
qed

lemma init_blocks_rep:
  assumes "bst m N c F T T" and "coalesced (unat (max_level m)) T" and "greedy N c (unat (max_level m)) T"
    and "unat rem = unat (heap_usable_bytes m) - 64 * c" and "cur = heap_base m + of_nat (64 * c)"
  shows "\<exists>m' F' T'. init_blocks cur rem m = Some m' \<and> only_lists m m' \<and> bst m' N N F' T' T' \<and>
    coalesced (unat (max_level m)) T'"
  using assms
proof (induction "N - c" arbitrary: c F T m rem cur rule: less_induct)
  case less
  note d = bstD [OF less.prems(1)]
  note g = geometryD [OF d(1)]
  let ?U = "unat (heap_usable_bytes m)" and ?mx = "unat (max_level m)"
  have N: "64 * N \<le> ?U" using g(4) by auto
  have more: "64 \<le> rem \<longleftrightarrow> c < N"
  proof -
    have "64 \<le> ?U - 64 * c \<longleftrightarrow> Suc c \<le> ?U div 64" by linarith
    then show ?thesis unfolding word_le_nat_alt less.prems(4) using g(4) by (simp add: Suc_le_eq)
  qed
  show ?case
  proof (cases "c < N")
    case False
    with d(3) have "c = N" by simp
    with False more less.prems(1,2) g(1) show ?thesis by (subst init_blocks.simps) auto
  next
    case True
    define l where "l = level_down ?mx 64 rem"
    from level_down_spec [of ?mx rem] g(6) True more have l: "l \<le> ?mx" "64 * 2 ^ l \<le> unat rem"
      "l < ?mx \<longrightarrow> unat rem < 64 * 2 ^ Suc l" by (auto simp: l_def word_le_nat_alt)
    have fit: "2 ^ l \<le> N - c" using l(2) less.prems(4) g(4) by linarith
    have tight: "N - c < 2 ^ Suc l" if "l < ?mx" using l(3) that less.prems(4) N by linarith
    note gs = greedy_step [OF less.prems(3,2) l(1) fit tight]
    let ?b = "(c div 2 ^ l, l)"
    have st: "start ?b = c" using gs(3) by (simp add: start_def)
    then have cur: "cur = baddr m ?b" by (simp add: less.prems(5) baddr_def)
    define m1 where "m1 = upd_blk cur (\<lambda>k. k\<lparr>b_next := NULL, b_prev := NULL, b_level := of_nat l, b_is_free := 1\<rparr>) m"
    have o1: "only_lists m m1" by (simp add: m1_def only_lists_step)
    have old: "baddr m x \<noteq> cur" if "x \<in> T" for x
    proof
      assume "baddr m x = cur"
      then have "start x = c" using baddr_inj [OF d(1) bst_start [OF less.prems(1) that], of ?b] st True cur by simp
      with tiling_start_less [OF d(2) that] show False by simp
    qed
    have t: "tiling (c + 2 ^ l) (insert ?b T)" by (rule tiling_extend [OF d(2) gs(3)])
    have cN: "c + 2 ^ l \<le> N" using fit True by linarith
    have l8: "unat (of_nat l :: u8) = l" using l(1) g(6) by (simp add: unsigned_of_nat take_bit_nat_eq_self)
    have b1: "bst m1 N (c + 2 ^ l) F T (insert ?b T)"
    proof (rule bst_relabel [OF less.prems(1) o1 _ _ t cN])
      fix x assume "x \<in> insert ?b T"
      then show "snd x \<le> ?mx \<and> unat (b_level (blk m1 (baddr m x))) = snd x"
        using old [of x] d(7) [of x] d(8) [of x] l(1) l8 cur by (cases "x = ?b") (auto simp: m1_def)
    qed (use old in \<open>auto simp: m1_def\<close>)
    have bT: "?b \<notin> T" using old [of ?b] cur by blast
    note p = bst_push [OF b1 _ bT, unfolded baddr_only [OF o1], folded cur]
    let ?m = "push_free cur m1" and ?sz = "pow2_u64 (of_nat l) * BASE_BLOCK_SIZE m"
    have o2: "only_lists m ?m" using o1 p(2) by (auto intro: only_lists_trans)
    have sz: "?sz = of_nat (64 * 2 ^ l)" using pow2_level [of l] l(1) g(1,6) by simp
    have "64 * 2 ^ l < (2 :: nat) ^ 64" using l(2) unat_64_lt [of rem] by simp
    then have usz: "unat ?sz = 64 * 2 ^ l" unfolding sz by (rule unat_of_nat_64)
    obtain m' F' T' where m': "init_blocks (cur + ?sz) (rem - ?sz) ?m = Some m'" "only_lists ?m m'" "bst m' N N F' T' T'"
      "coalesced ?mx T'"
    proof (atomize_elim, rule less.hyps [of "c + 2 ^ l" ?m _ "insert ?b T", unfolded only_listsD [OF o2]])
      have "0 < (2 :: nat) ^ l" by simp
      then show "N - (c + 2 ^ l) < N - c" using True by linarith
      show "unat (rem - ?sz) = ?U - 64 * (c + 2 ^ l)"
        using unat_sub_le [of ?sz rem] l(2) usz less.prems(4) by (simp add: word_le_nat_alt)
      show "cur + ?sz = heap_base m + of_nat (64 * (c + 2 ^ l))"
        unfolding sz less.prems(5) distrib_left of_nat_add by (simp only: add.assoc)
    qed (use p(1) gs in simp_all)
    have "init_blocks cur rem m = init_blocks (cur + ?sz) (rem - ?sz) ?m"
      using True more g(1) by (subst init_blocks.simps) (simp add: Let_def l_def [symmetric] m1_def [symmetric])
    then have "init_blocks cur rem m = Some m'" using m'(1) by (simp only:)
    with m'(3,4) only_lists_trans [OF o2 m'(2)] show ?thesis by blast
  qed
qed

lemma double_until_base: "double_until 64 (HDR_SIZE + 16) 1 = 64"
  by code_simp

lemma free_lists_init_rep: "lists_rep (free_lists_init m) (\<lambda>_. [])"
  by (simp add: lists_rep_def free_lists_init_def)

text \<open>The region that is used: the start rounded up to 16, the size rounded down.\<close>

lemma init_buddy_rep:
  fixes heap_start :: ptr and heap_size :: u64
  defines "lo \<equiv> (unat heap_start + 15) div 16 * 16"
  defines "hi \<equiv> lo + (unat heap_size - (lo - unat heap_start)) div 16 * 16"
  assumes pos: "0 < heap_start" and room: "lo + 64 \<le> hi" and top: "hi < 2 ^ 63"
  obtains m' where "mm_init_buddy heap_start heap_size m = Some m'" and "buddy_rep lo hi m' {}"
    and "endOfKernel_b m' = endOfKernel_b m"
proof -
  let ?al = "align_up_u64 heap_start MIN_ALIGN" and ?loss = "align_up_u64 heap_start MIN_ALIGN - heap_start"
  let ?us = "(heap_size - ?loss) AND NOT (MIN_ALIGN - 1)"
  have s15: "unat heap_start + 15 < 2 ^ 64"
  proof -
    have "unat heap_start \<le> lo" unfolding lo_def by linarith
    with room top show ?thesis by simp
  qed
  then have "unat (15 + heap_start) = unat heap_start + 15" by (subst unat_add_lt) simp_all
  then have al: "unat ?al = lo" by (simp add: align_up_u64_def MIN_ALIGN_16 unat_and_not_15 lo_def)
  have le: "unat heap_start \<le> lo" unfolding lo_def by linarith
  then have loss: "unat ?loss = lo - unat heap_start" using al unat_sub_le [of heap_start ?al] by (simp add: word_le_nat_alt)
  have lt: "lo - unat heap_start < unat heap_size"
  proof (rule ccontr)
    assume "\<not> ?thesis"
    then have "hi = lo" by (simp add: hi_def)
    with room show False by simp
  qed
  then have "unat (heap_size - ?loss) = unat heap_size - (lo - unat heap_start)"
    using loss unat_sub_le [of ?loss heap_size] by (simp add: word_le_nat_alt)
  then have us: "unat ?us = hi - lo" by (simp add: MIN_ALIGN_16 unat_and_not_15 hi_def)
  have big: "48 \<le> unat heap_size" "48 \<le> unat ?us"
  proof -
    show "48 \<le> unat ?us" using us room by simp
    have "(unat heap_size - (lo - unat heap_start)) div 16 * 16 \<le> unat heap_size - (lo - unat heap_start)" by simp
    with room show "48 \<le> unat heap_size" unfolding hi_def by linarith
  qed
  have guards: "\<not> heap_size < HDR_SIZE + 16" "\<not> ?loss \<ge> heap_size" "\<not> ?us < HDR_SIZE + 16"
    using big lt loss by (simp_all add: word_less_nat_alt word_le_nat_alt HDR_SIZE_32)
  define mx where "mx = order_loop ?us 64 0"
  have "order_ok (unat ?us) 0 mx" using order_loop_spec [of 0 ?us] by (simp add: mx_def)
  then have mx: "mx \<le> 31" "mx = 31 \<or> hi - lo \<le> 64 * 2 ^ mx"
    using us by (auto simp: order_ok_def)
  then have mx8: "unat (of_nat mx :: u8) = mx" by (simp add: unsigned_of_nat take_bit_nat_eq_self)
  define m1 where "m1 = free_lists_init (m\<lparr>heap_base := ?al, heap_usable_bytes := ?us, BASE_BLOCK_SIZE := 64, max_level := of_nat mx\<rparr>)"
  have sel: "heap_base m1 = ?al" "heap_usable_bytes m1 = ?us" "BASE_BLOCK_SIZE m1 = 64" "max_level m1 = of_nat mx"
    by (simp_all add: m1_def free_lists_init_def)
  let ?N = "(hi - lo) div 64"
  have lo0: "0 < lo" using pos le by (simp add: word_less_nat_alt)
  have "64 * ?N \<le> hi - lo" by simp
  then have geo: "geometry m1 ?N" using al us mx top room lo0 mx8
    by (auto simp: geometry_def sel MM_MAX_LEVELS_def unat_eq_0)
  have "lists_rep m1 (\<lambda>_. [])" unfolding m1_def by (rule free_lists_init_rep)
  with geo have b1: "bst m1 ?N 0 (\<lambda>_. []) {} {}" by (simp add: bst_def tiling_def)
  obtain m2 F T where m2: "init_blocks ?al ?us m1 = Some m2" "only_lists m1 m2" "bst m2 ?N ?N F T T"
    "coalesced (unat (max_level m1)) T"
    by (atomize_elim, rule init_blocks_rep [OF b1]) (simp_all add: sel coalesced_def greedy_def)
  let ?m = "m2\<lparr>heap_capacity_bytes_b := ?us - HDR_SIZE, heap_used_bytes_b := 0, heap_allocation_count_b := 0,
    heap_free_count_b := 0, heap_failed_allocations_b := 0, mm_initialized_flag_b := 1\<rparr>"
  have init: "mm_init_buddy heap_start heap_size m = Some ?m"
    using guards m2(1) unfolding mm_init_buddy_def Let_def double_until_base
    by (simp add: m1_def [symmetric] mx_def [symmetric] sel)
  have "bst ?m ?N ?N F T T" using m2(3) by simp
  then have inv: "buddy_inv ?m ?N F T T" using m2(4) by (simp add: buddy_inv_def only_listsD [OF m2(2)])
  have "unat (?us - HDR_SIZE) = hi - lo - 32" using us big unat_sub_le [of HDR_SIZE ?us] by (simp add: HDR_SIZE_32 word_le_nat_alt)
  then have "buddy_rep lo hi ?m {}"
    using al us inv mx mx8 room unfolding buddy_rep_def by (auto simp: only_listsD [OF m2(2)] sel)
  moreover have "endOfKernel_b ?m = endOfKernel_b m" by (simp add: only_listsD [OF m2(2)] m1_def free_lists_init_def)
  ultimately show thesis using init that by blast
qed

end
