(* ===== verification/Buddy_Correct.thy ===== *)
theory Buddy_Correct
  imports Buddy_Init
begin

text \<open>
  The buddy manager against its contract: release, initialisation, statistics, the interpretation of
  \<open>mm_contract\<close> on the manager's own operations, and its properties.
\<close>

section \<open>Release\<close>

lemma free_buddy_rep:
  assumes r: "buddy_rep lo hi m L" and pk: "(unat p, k) \<in> L"
  obtains m' where "mm_free_buddy p m = Some m'" and "buddy_rep lo hi m' (L - {(unat p, k)})"
    and "mm_free_buddy p m' = Some m'"
proof -
  let ?N = "(hi - lo) div 64"
  from r obtain F S T where inv: "buddy_inv m ?N F S T" and L: "L = region_of lo ` (T - S)" by (auto simp: buddy_rep_def)
  from r have f: "mm_initialized_flag_b m \<noteq> 0" and lo: "unat (heap_base m) = lo"
    and used: "unat (heap_used_bytes_b m) = sum snd L" by (simp_all add: buddy_rep_def)
  have b: "bst m ?N ?N F S T" and c: "coalesced (unat (max_level m)) S" and z: "\<forall>x \<in> T - S. b_is_free (blk m (baddr m x)) = 0"
    using inv by (simp_all add: buddy_inv_def)
  note d = bstD [OF b]
  note g = geometryD [OF d(1)]
  from pk obtain i l where il: "(i, l) \<in> T" "(i, l) \<notin> S" and reg: "(unat p, k) = region_of lo (i, l)" unfolding L by auto
  let ?a = "baddr m (i, l)"
  have ua: "unat ?a = lo + 64 * start (i, l)" using unat_baddr [OF d(1) bst_start [OF b il(1)]] lo by simp
  have "unat p = unat ?a + 32" using reg ua by (simp add: region_of_def)
  moreover have "unat ?a + 32 < 2 ^ 64" using ua bst_start [OF b il(1)] g(3) lo by linarith
  ultimately have "unat p = unat (?a + 32)" by (simp add: unat_add_lt)
  then have p: "p = ?a + 32" by (simp add: word_unat_eq_iff)
  have p0: "p \<noteq> 0" using reg by (auto simp: region_of_def)
  have a0: "?a \<noteq> 0" by (rule bst_nonzero [OF b il(1)])
  have blkp: "get_block_from_ptr q = q - 32" if "q \<noteq> 0" for q using that by (simp add: get_block_from_ptr_def HDR_SIZE_32)
  define m1 where "m1 = upd_blk ?a (b_is_free_update (\<lambda>_. 1)) m"
  define pay where "pay = pow2_u64 (b_level (blk m1 ?a)) * BASE_BLOCK_SIZE m1 - HDR_SIZE"
  define u where "u = heap_used_bytes_b m1 - pay"
  define m2 where "m2 = m1\<lparr>heap_free_count_b := heap_free_count_b m1 + 1, heap_used_bytes_b := u\<rparr>"
  have o1: "only_lists m m1" by (simp add: m1_def only_lists_step)
  have l31: "l < 32" using bst_level [OF b il(1)] by (simp add: MM_MAX_LEVELS_def)
  have "b_level (blk m1 ?a) = of_nat l" using d(8) [OF il(1)] by (simp add: m1_def) (metis of_nat_unat ucast_id)
  then have pay: "unat pay = k"
    using reg payload_word [OF l31] g(1) by (simp add: pay_def only_listsD [OF o1] region_of_def)
  have fin: "finite L" unfolding L using tiling_finite [OF d(2)] by simp
  have sumL: "sum snd L = k + sum snd (L - {(unat p, k)})" using sum.remove [OF fin pk, of snd] by simp
  then have le: "pay \<le> heap_used_bytes_b m1" unfolding word_le_nat_alt pay only_listsD(5) [OF o1] used by simp
  have u: "unat u = sum snd (L - {(unat p, k)})"
    using sumL used pay unat_sub_le [OF le] by (simp add: u_def only_listsD [OF o1])
  have neq: "baddr m x \<noteq> ?a" if "x \<in> T" "x \<noteq> (i, l)" for x using bst_inj [OF b that(1) il(1)] that(2) by blast
  have b1: "bst m1 ?N ?N F S T"
  proof (rule bst_relabel [OF b o1])
    fix x assume "x \<in> S"
    with neq [of x] il(2) d(4) show "blk m1 (baddr m x) = blk m (baddr m x)" by (auto simp: m1_def)
  next
    fix x assume x: "x \<in> T"
    show "snd x \<le> unat (max_level m) \<and> unat (b_level (blk m1 (baddr m x))) = snd x"
      using d(7,8) [OF x] by (auto simp: m1_def)
  qed (use d(2,4) in \<open>simp_all add: m1_def\<close>)
  have b2: "bst m2 ?N ?N F S T" using b1 by (simp add: m2_def)
  have ba2: "baddr m2 = baddr m" by (simp add: m2_def baddr_only [OF o1])
  have mx2: "max_level m2 = max_level m" by (simp add: m2_def only_listsD [OF o1])
  have z2: "\<forall>x \<in> T - S - {(i, l)}. b_is_free (blk m2 (baddr m2 x)) = 0"
  proof
    fix x assume x: "x \<in> T - S - {(i, l)}"
    with z neq [of x] show "b_is_free (blk m2 (baddr m2 x)) = 0" unfolding ba2 by (simp add: m2_def m1_def)
  qed
  obtain m' F' S' T' where m': "coalesce (baddr m2 (i, l)) m2 = Some m'" "only_lists m2 m'" "bst m' ?N ?N F' S' T'"
    "coalesced (unat (max_level m2)) S'" "T' - S' = T - S - {(i, l)}"
    "\<forall>x \<in> T - S - {(i, l)}. b_is_free (blk m' (baddr m2 x)) = 0"
    "\<forall>a. b_is_free (blk m2 a) = 1 \<longrightarrow> b_is_free (blk m' a) = 1"
    by (rule bst_coalesce [OF b2 il _ z2]) (use c mx2 in simp, rule that)
  have free0: "b_is_free (blk m ?a) = 0" using z il by blast
  have step: "mm_free_buddy p m = Some m'"
    using f p0 a0 free0 le m'(1) blkp [OF p0] unfolding p mm_free_buddy_def
    by (simp add: Let_def m1_def [symmetric] pay_def [symmetric] u_def [symmetric] m2_def [symmetric] ba2)
  have "b_is_free (blk m' ?a) = 1" using m'(7) by (simp add: m2_def m1_def)
  then have twice: "mm_free_buddy p m' = Some m'"
    using p0 blkp [OF p0] unfolding p by (simp add: mm_free_buddy_def Let_def)
  have "inj_on (region_of lo) T" by (rule region_inj [OF d(2)])
  then have "region_of lo ` (T - S - {(i, l)}) = L - {(unat p, k)}" unfolding L reg
    using il by (subst inj_on_image_set_diff [of _ T]) auto
  then have L': "L - {(unat p, k)} = region_of lo ` (T' - S')" unfolding m'(5) by simp
  have inv': "buddy_inv m' ?N F' S' T'"
    unfolding buddy_inv_def m'(5) baddr_only [OF m'(2)] only_listsD(11) [OF m'(2)] using m'(3,4,6) by blast
  have "buddy_rep lo hi m' (L - {(unat p, k)})"
    using r inv' L' u unfolding buddy_rep_def by (auto simp: only_listsD [OF m'(2)] m2_def only_listsD [OF o1])
  with step twice show thesis by (intro that)
qed

section \<open>The contract\<close>

interpretation buddy: mm_contract "buddy_rep lo hi" mm_alloc_buddy mm_free_buddy "2 ^ 37 - 32"
proof unfold_locales
  fix s L r q assume rep: "buddy_rep lo hi s L"
  then obtain F S T where b: "bst s ((hi - lo) div 64) ((hi - lo) div 64) F S T" and L: "L = region_of lo ` (T - S)"
    by (auto simp: buddy_rep_def buddy_inv_def)
  show "apart r q" if "r \<in> L" "q \<in> L" "r \<noteq> q" using that region_apart [OF bstD(2) [OF b]] unfolding L by blast
  show "0 < snd r" if "r \<in> L"
  proof -
    from that obtain x where "r = region_of lo x" unfolding L by blast
    then have "snd r = payload (snd x)" by (simp add: region_of_def)
    then show ?thesis using payload_pos by simp
  qed
next
  fix s L n assume r: "buddy_rep lo hi s L"
  then obtain F S T where inv: "buddy_inv s ((hi - lo) div 64) F S T" "L = region_of lo ` (T - S)" by (rule buddy_rep_inv)
  show "\<exists>p s'. mm_alloc_buddy n s = Some (p, s')" by (cases rule: alloc_buddy_cases [OF r inv, where sz = n]) auto
  show "buddy_rep lo hi s' L" if "mm_alloc_buddy n s = Some (0, s')" for s'
    using that by (cases rule: alloc_buddy_cases [OF r inv, where sz = n]) (auto simp: r)
  show "\<exists>k. unat n \<le> k \<and> (unat p, k) \<notin> L \<and> buddy_rep lo hi s' (insert (unat p, k) L)"
    if "mm_alloc_buddy n s = Some (p, s')" "p \<noteq> 0" "unat n \<le> 2 ^ 37 - 32" for p s'
    using r inv
  proof (cases rule: alloc_buddy_cases [where sz = n])
    case (found p' m' i)
    from r have "BASE_BLOCK_SIZE s = 64" by (auto simp: buddy_rep_def buddy_inv_def dest: bstD(1) geometryD(1))
    moreover have "unat n + 32 \<le> 2 ^ 37" using that(3) by simp
    ultimately have "unat n + 32 \<le> 64 * 2 ^ buddy_order n s" using buddy_order_spec [of s n] by blast
    with found that show ?thesis
      by (intro exI [of _ "payload (buddy_order n s)"]) (auto simp: region_of_def payload_def)
  qed (use that in auto)
next
  fix s L k and p :: ptr assume "buddy_rep lo hi s L" "(unat p, k) \<in> L"
  then show "\<exists>s'. mm_free_buddy p s = Some s' \<and> buddy_rep lo hi s' (L - {(unat p, k)})"
    by (rule free_buddy_rep) blast
qed

section \<open>Statistics\<close>

lemma largest_in_list_rep:
  assumes "nlist (mem_b m) cur xs" and "\<And>x. x \<in> set xs \<Longrightarrow> unat (b_level (blk m x)) = l"
    and base: "BASE_BLOCK_SIZE m = 64" and l: "l < 32"
  shows "\<exists>r. largest_in_list m big cur = Some r \<and> (\<forall>n. n \<le> unat r \<longleftrightarrow> n \<le> unat big \<or> xs \<noteq> [] \<and> n \<le> payload l)"
  using assms(1,2)
proof (induction xs arbitrary: cur big)
  case Nil
  then show ?case by (subst largest_in_list.simps) simp
next
  case (Cons x xs)
  then have cur: "cur = x" "x \<noteq> 0" and nx: "nlist (mem_b m) (b_next (blk m x)) xs" by auto
  have "b_level (blk m x) = of_nat l" using Cons.prems(2) [of x] by simp (metis of_nat_unat ucast_id)
  then have pay: "unat (pow2_u64 (b_level (blk m x)) * BASE_BLOCK_SIZE m - HDR_SIZE) = payload l"
    using payload_word [OF l] base by simp
  define big' where "big' = (if pow2_u64 (b_level (blk m x)) * BASE_BLOCK_SIZE m - HDR_SIZE > big
    then pow2_u64 (b_level (blk m x)) * BASE_BLOCK_SIZE m - HDR_SIZE else big)"
  have big': "n \<le> unat big' \<longleftrightarrow> n \<le> unat big \<or> n \<le> payload l" for n
    using pay by (auto simp: big'_def word_less_nat_alt)
  from Cons.IH [OF nx, of big'] Cons.prems(2) obtain r where "largest_in_list m big' (b_next (blk m x)) = Some r"
    "\<forall>n. n \<le> unat r \<longleftrightarrow> n \<le> unat big' \<or> xs \<noteq> [] \<and> n \<le> payload l" by auto
  then show ?case using cur big' by (subst largest_in_list.simps) (auto simp: Let_def big'_def [symmetric])
qed

lemma largest_in_levels_rep:
  assumes r: "bst m N N F S T" and "\<forall>l \<in> set ls. l < 32"
  shows "\<exists>r. largest_in_levels ls m big = Some r \<and>
    (\<forall>n. n \<le> unat r \<longleftrightarrow> n \<le> unat big \<or> (\<exists>l \<in> set ls. F l \<noteq> [] \<and> n \<le> payload l))"
  using assms(2)
proof (induction ls arbitrary: big)
  case (Cons l ls)
  note d = bstD [OF r]
  have l: "l < 32" "l < MM_MAX_LEVELS" using Cons.prems by (auto simp: MM_MAX_LEVELS_def)
  have lev: "unat (b_level (blk m x)) = l" if "x \<in> set (F l)" for x
    using that d(8) d(4) unfolding d(6) [OF l(2)] by auto
  from largest_in_list_rep [OF lists_rep_nth [OF d(5) l(2)] lev geometryD(1) [OF d(1)] l(1), of big] obtain b1
    where b1: "largest_in_list m big (free_lists m ! l) = Some b1"
      "\<forall>n. n \<le> unat b1 \<longleftrightarrow> n \<le> unat big \<or> F l \<noteq> [] \<and> n \<le> payload l" by blast
  from Cons.IH [of b1] Cons.prems obtain r where "largest_in_levels ls m b1 = Some r"
    "\<forall>n. n \<le> unat r \<longleftrightarrow> n \<le> unat b1 \<or> (\<exists>l \<in> set ls. F l \<noteq> [] \<and> n \<le> payload l)" by auto
  with b1 show ?case by auto
qed simp

lemma stats_buddy:
  assumes r: "buddy_rep lo hi m L"
  obtains st where "mm_get_stats_buddy m = Some st" and "unat (total_bytes st) = hi - lo - 32"
    and "unat (used_bytes st) = sum snd L" and "unat (free_bytes st) = hi - lo - 32 - sum snd L"
    and "\<And>sz. sz \<noteq> 0 \<Longrightarrow> unat sz + 32 \<le> 2 ^ 37 \<Longrightarrow>
      fst (the (mm_alloc_buddy sz m)) \<noteq> 0 \<longleftrightarrow> unat sz \<le> unat (largest_free_block st)"
proof -
  let ?N = "(hi - lo) div 64" and ?ls = "[0..<Suc (unat (max_level m))]"
  from r obtain F S T where inv: "buddy_inv m ?N F S T" "L = region_of lo ` (T - S)" by (rule buddy_rep_inv)
  have b: "bst m ?N ?N F S T" using inv(1) by (simp add: buddy_inv_def)
  note d = bstD [OF b]
  note g = geometryD [OF d(1)]
  have "\<forall>l \<in> set ?ls. l < 32" using g(6) by auto
  from largest_in_levels_rep [OF b this, of 0] obtain big where big: "largest_in_levels ?ls m 0 = Some big"
    "\<forall>n. n \<le> unat big \<longleftrightarrow> n \<le> unat (0 :: u64) \<or> (\<exists>l \<in> set ?ls. F l \<noteq> [] \<and> n \<le> payload l)" by blast
  have F: "F l \<noteq> [] \<longleftrightarrow> (\<exists>i. (i, l) \<in> S)" if "l \<le> unat (max_level m)" for l
  proof -
    have "l < MM_MAX_LEVELS" using that g(6) by (simp add: MM_MAX_LEVELS_def)
    from d(6) [OF this] have "set (F l) = {} \<longleftrightarrow> {b \<in> S. snd b = l} = {}" by simp
    then show ?thesis by auto
  qed
  have lev: "k \<le> unat (max_level m)" if "(j, k) \<in> S" for j k using d(7) [of "(j, k)"] d(4) that by auto
  have alloc: "fst (the (mm_alloc_buddy sz m)) \<noteq> 0 \<longleftrightarrow> unat sz \<le> unat big" if sz: "sz \<noteq> 0" "unat sz + 32 \<le> 2 ^ 37" for sz
  proof -
    have "fst (the (mm_alloc_buddy sz m)) \<noteq> 0 \<longleftrightarrow> (\<exists>j k. (j, k) \<in> S \<and> buddy_order sz m \<le> k)"
      using r inv
    proof (cases rule: alloc_buddy_cases [where sz = sz])
      case (full m')
      then show ?thesis using not_le by auto
    qed (use sz in auto)
    also have "\<dots> \<longleftrightarrow> (\<exists>j k. (j, k) \<in> S \<and> unat sz \<le> payload k)"
    proof -
      have "buddy_order sz m \<le> k \<longleftrightarrow> unat sz \<le> payload k" if "(j, k) \<in> S" for j k
      proof -
        have "k \<le> 31" using lev [OF that] g(6) by linarith
        from buddy_order_spec(2) [OF g(1) sz(2) this] show ?thesis using one_le_power [of "2 :: nat" k] unfolding payload_def by linarith
      qed
      then show ?thesis by blast
    qed
    also have "\<dots> \<longleftrightarrow> unat sz \<le> unat big"
    proof -
      have "0 < unat sz" using sz(1) by (simp add: unat_gt_0)
      then have "unat sz \<le> unat big \<longleftrightarrow> (\<exists>l \<in> set ?ls. F l \<noteq> [] \<and> unat sz \<le> payload l)" using big(2) by simp
      also have "\<dots> \<longleftrightarrow> (\<exists>j k. (j, k) \<in> S \<and> unat sz \<le> payload k)" using F lev by (fastforce simp del: upt_Suc)
      finally show ?thesis by blast
    qed
    finally show ?thesis .
  qed
  have cap: "unat (heap_capacity_bytes_b m) = hi - lo - 32" and used: "unat (heap_used_bytes_b m) = sum snd L"
    using r by (simp_all add: buddy_rep_def)
  show thesis
  proof (rule that)
    show "mm_get_stats_buddy m = Some \<lparr>total_bytes = heap_capacity_bytes_b m, used_bytes = heap_used_bytes_b m,
      free_bytes = (if heap_capacity_bytes_b m > heap_used_bytes_b m then heap_capacity_bytes_b m - heap_used_bytes_b m else 0),
      largest_free_block = big, allocations = heap_allocation_count_b m, frees = heap_free_count_b m,
      failed_allocations = heap_failed_allocations_b m\<rparr>"
      using big(1) unfolding mm_get_stats_buddy_def by (simp del: upt_Suc)
  qed (use cap used alloc in \<open>auto simp: word_less_nat_alt word_le_nat_alt unat_sub_le\<close>)
qed

section \<open>Failure\<close>

text \<open>When no free block has the order of a request, every place where a block of that order could lie meets
  a live region.\<close>

lemma no_room:
  assumes r: "buddy_rep lo hi m L" and inv: "buddy_inv m ((hi - lo) div 64) F S T" and L: "L = region_of lo ` (T - S)"
    and no: "\<And>j k. (j, k) \<in> S \<Longrightarrow> k < ord" and o: "ord \<le> 31" and fit: "lo + Suc i * (64 * 2 ^ ord) \<le> hi"
  shows "\<exists>(q, k) \<in> L. \<not> apart (lo + i * (64 * 2 ^ ord), 64 * 2 ^ ord) (q - 32, k + 32)"
proof (rule ccontr)
  assume none: "\<not> ?thesis"
  let ?N = "(hi - lo) div 64"
  have b: "bst m ?N ?N F S T" and c: "coalesced (unat (max_level m)) S" using inv by (simp_all add: buddy_inv_def)
  note d = bstD [OF b]
  have "Suc i * 2 ^ ord * 64 \<le> hi - lo" using fit by (simp add: algebra_simps)
  then have N: "Suc i * 2 ^ ord \<le> ?N" by (simp add: less_eq_div_iff_mult_less_eq)
  have le: "ord \<le> unat (max_level m)"
  proof (rule ccontr)
    assume "\<not> ?thesis"
    then have "hi - lo \<le> 64 * 2 ^ unat (max_level m)" "(2 :: nat) ^ unat (max_level m) < 2 ^ ord"
      using r o by (auto simp: buddy_rep_def)
    moreover have "2 ^ ord \<le> Suc i * 2 ^ ord" by simp
    ultimately show False using \<open>Suc i * 2 ^ ord * 64 \<le> hi - lo\<close> by linarith
  qed
  have "units (i, ord) \<subseteq> \<Union> (units ` S)"
  proof
    fix u assume u: "u \<in> units (i, ord)"
    then have "u < Suc i * 2 ^ ord" unfolding units_interval by simp
    with N tiling_cover [OF d(2), of u] obtain j k where jk: "(j, k) \<in> T" "u \<in> units (j, k)" by auto
    have "(j, k) \<in> S"
    proof (rule ccontr)
      assume "(j, k) \<notin> S"
      then have "region_of lo (j, k) \<in> L" unfolding L using jk(1) by blast
      then have "(lo + 64 * start (j, k) + 32, payload k) \<in> L" by (simp add: region_of_def)
      with none have "apart (lo + i * (64 * 2 ^ ord), 64 * 2 ^ ord) (lo + 64 * start (j, k) + 32 - 32, payload k + 32)" by blast
      then have "apart (lo + i * (64 * 2 ^ ord), 64 * 2 ^ ord) (lo + 64 * start (j, k), payload k + 32)" by simp
      moreover have "i * 2 ^ ord \<le> u" "u < Suc i * 2 ^ ord" "j * 2 ^ k \<le> u" "u < Suc j * 2 ^ k"
        using u jk(2) unfolding units_interval by auto
      ultimately show False unfolding apart_def payload_size start_def fst_conv snd_conv mult_Suc by linarith
    qed
    with jk(2) show "u \<in> \<Union> (units ` S)" by blast
  qed
  from free_region_in_block [OF d(2,4) c le N this] obtain j k where "(j, k) \<in> S" "ord \<le> k" .
  with no [of j k] show False by simp
qed

section \<open>A sample heap\<close>

text \<open>A region of 700 bytes at address 4100, freshly initialised, and the same heap after one
  allocation.\<close>

definition sample_raw_b :: mm_buddy where
  "sample_raw_b = \<lparr>mem_b = (\<lambda>_. \<lparr>b_next = 0, b_prev = 0, b_level = 0, b_is_free = 0\<rparr>), endOfKernel_b = 0x100000,
     BASE_BLOCK_SIZE = 0, free_lists = [], mm_initialized_flag_b = 0, heap_capacity_bytes_b = 0, heap_used_bytes_b = 0,
     heap_allocation_count_b = 0, heap_free_count_b = 0, heap_failed_allocations_b = 0, heap_base = 0,
     heap_usable_bytes = 0, max_level = 0\<rparr>"

definition sample_b :: mm_buddy where
  "sample_b = the (mm_init_buddy 4100 700 sample_raw_b)"

definition sample_b1 :: mm_buddy where
  "sample_b1 = snd (the (mm_alloc_buddy 80 sample_b))"

lemma sample_b_rep: "buddy_rep 4112 4800 sample_b {}"
  by (rule init_buddy_rep [of 4100 700 sample_raw_b]) (simp_all add: sample_b_def)

lemma sample_b_alloc: "mm_alloc_buddy 80 sample_b = Some (4656, sample_b1)"
  "unat (heap_used_bytes_b sample_b1) = 96"
proof -
  from buddy.alloc_returns [OF sample_b_rep] obtain p m where "mm_alloc_buddy 80 sample_b = Some (p, m)" by blast
  moreover have "fst (the (mm_alloc_buddy 80 sample_b)) = 4656" by code_simp
  ultimately show "mm_alloc_buddy 80 sample_b = Some (4656, sample_b1)" by (auto simp: sample_b1_def)
  show "unat (heap_used_bytes_b sample_b1) = 96" by code_simp
qed

lemma sample_b1_rep: "buddy_rep 4112 4800 sample_b1 {(4656, 96)}"
proof -
  from buddy.alloc_gives [OF sample_b_rep sample_b_alloc(1)] obtain k where k: "buddy_rep 4112 4800 sample_b1 {(4656, k)}" by auto
  then have "unat (heap_used_bytes_b sample_b1) = k" by (simp add: buddy_rep_def)
  with k sample_b_alloc(2) show ?thesis by simp
qed

section \<open>Properties of the manager\<close>

text \<open>C5: on a well-formed heap \<open>mm_alloc\<close> of the buddy manager returns, for every request below 128 GiB.
  It returns null only when every aligned range of the request's order meets a live block, and then the live
  regions are unchanged.  Otherwise the payload lies inside the heap, holds the request, is less than
  twice as long plus 32 bytes, and is apart from every live region; it joins them.\<close>

theorem buddy_alloc_correct:
  assumes r: "buddy_rep lo hi m L" and sz: "0 < sz" "unat sz + 32 \<le> 2 ^ 37"
  shows "\<exists>p m'. mm_alloc_buddy sz m = Some (p, m') \<and>
    (if p = 0 then buddy_rep lo hi m' L \<and>
       (\<forall>i. lo + Suc i * (64 * 2 ^ buddy_order sz m) \<le> hi \<longrightarrow>
          (\<exists>(q, k) \<in> L. \<not> apart (lo + i * (64 * 2 ^ buddy_order sz m), 64 * 2 ^ buddy_order sz m) (q - 32, k + 32)))
     else \<exists>k. buddy_rep lo hi m' (insert (unat p, k) L) \<and> unat sz \<le> k \<and> k < 2 * unat sz + 32 \<and>
       lo + 32 \<le> unat p \<and> unat p + k \<le> hi \<and> (\<forall>q \<in> L. apart (unat p, k) q))"
proof -
  let ?o = "buddy_order sz m"
  from r obtain F S T where inv: "buddy_inv m ((hi - lo) div 64) F S T" "L = region_of lo ` (T - S)" by (rule buddy_rep_inv)
  then have base: "BASE_BLOCK_SIZE m = 64" by (auto simp: buddy_inv_def dest: bstD(1) geometryD(1))
  note o = buddy_order_spec [OF base sz(2)]
  show ?thesis using r inv
  proof (cases rule: alloc_buddy_cases [where sz = sz])
    case (full m')
    with no_room [OF r inv full(4) o(1)] show ?thesis by auto
  next
    case (found p m' i)
    let ?r = "region_of lo (i, ?o)"
    have p: "?r = (unat p, payload ?o)" using found(4) by (simp add: region_of_def)
    have fits: "unat sz \<le> payload ?o" using o(2) [OF o(1)] by (simp add: payload_def)
    have tight: "payload ?o < 2 * unat sz + 32"
    proof (cases ?o)
      case 0
      then show ?thesis using sz(1) by (simp add: payload_def word_gt_0 unat_gt_0)
    next
      case (Suc k)
      with o have "64 * 2 ^ k < unat sz + 32" by (metis not_le not_less_eq_eq order.refl le_SucI Suc_leD)
      then show ?thesis using payload_size [of ?o] Suc by simp
    qed
    have ap: "\<forall>q \<in> L. apart (unat p, payload ?o) q"
      using buddy.rep_apart [OF found(6)] found(5) p by (metis insertCI)
    have "unat p + payload ?o \<le> hi" using found(4,7) payload_size [of ?o] by (simp add: region_of_def start_def)
    with found fits tight ap p show ?thesis by (auto simp: region_of_def)
  qed (use sz in auto)
qed

theorem buddy_alloc_correct_witness:
  "\<exists>p m'. mm_alloc_buddy 80 sample_b1 = Some (p, m') \<and>
    (p \<noteq> 0 \<longrightarrow> (\<exists>k. buddy_rep 4112 4800 m' {(unat p, k), (4656, 96)} \<and> 80 \<le> k \<and> k < 192 \<and> apart (unat p, k) (4656, 96)))"
  using buddy_alloc_correct [OF sample_b1_rep, of 80] by (auto split: if_splits)

text \<open>C6: \<open>mm_free\<close> of a live payload returns, removes exactly that region and keeps the heap well formed and
  coalesced; freeing the same pointer again changes nothing.\<close>

theorem buddy_free_correct:
  assumes "buddy_rep lo hi m L" and "(unat p, k) \<in> L"
  shows "\<exists>m'. mm_free_buddy p m = Some m' \<and> buddy_rep lo hi m' (L - {(unat p, k)}) \<and> mm_free_buddy p m' = Some m'"
  using free_buddy_rep [OF assms] by metis

theorem buddy_free_correct_witness:
  "\<exists>m'. mm_free_buddy 4656 sample_b1 = Some m' \<and> buddy_rep 4112 4800 m' {} \<and> mm_free_buddy 4656 m' = Some m'"
  using buddy_free_correct [OF sample_b1_rep, of 4656 96] by simp



text \<open>\<open>mm_get_stats\<close> of the buddy manager returns; its byte counts are those of the live regions, and its
  largest free block decides exactly which requests succeed.\<close>

theorem buddy_stats_correct:
  assumes "buddy_rep lo hi m L"
  shows "\<exists>st. mm_get_stats_buddy m = Some st \<and> unat (total_bytes st) = hi - lo - 32 \<and>
    unat (used_bytes st) = sum snd L \<and> unat (free_bytes st) = hi - lo - 32 - sum snd L \<and>
    (\<forall>sz. sz \<noteq> 0 \<and> unat sz + 32 \<le> 2 ^ 37 \<longrightarrow>
       (fst (the (mm_alloc_buddy sz m)) \<noteq> 0 \<longleftrightarrow> unat sz \<le> unat (largest_free_block st)))"
  using stats_buddy [OF assms] by metis

end
