(* ===== verification/Kernel_MM.thy ===== *)
theory Kernel_MM
  imports Process_Life MM_Simple_Correct Buddy_Correct
begin

text \<open>
  The memory manager of the kernel is one of the two, chosen when it is built.  Both meet the contract, so
  \<open>mm_alloc\<close> and \<open>mm_free\<close> of the kernel do, whichever was chosen.
\<close>

definition mm_rep :: "nat \<Rightarrow> nat \<Rightarrow> mm \<Rightarrow> region set \<Rightarrow> bool" where
  "mm_rep lo hi m L = (case m of Mm_simple a \<Rightarrow> simple_rep lo hi a L | Mm_buddy b \<Rightarrow> buddy_rep lo hi b L)"

interpretation kmem: mm_contract "mm_rep lo hi" mm_alloc mm_free "2 ^ 37 - 32"
proof unfold_locales
  fix s L r q assume "mm_rep lo hi s L" "r \<in> L" "q \<in> L" "r \<noteq> q"
  then show "apart r q" by (cases s) (auto simp: mm_rep_def intro: simple.rep_apart buddy.rep_apart)
next
  fix s L r assume "mm_rep lo hi s L" "r \<in> L"
  then show "0 < snd r" by (cases s) (auto simp: mm_rep_def intro: simple.rep_nonempty buddy.rep_nonempty)
next
  fix s L n assume r: "mm_rep lo hi s L"
  show "\<exists>p s'. mm_alloc n s = Some (p, s')"
    using r simple.alloc_returns [of lo hi _ L n] buddy.alloc_returns [of lo hi _ L n]
    by (cases s) (fastforce simp: mm_rep_def mm_alloc_def)+
  show "mm_rep lo hi s' L" if "mm_alloc n s = Some (0, s')" for s'
    using r that simple.alloc_fails [of lo hi _ L n] buddy.alloc_fails [of lo hi _ L n]
    by (cases s) (auto simp: mm_rep_def mm_alloc_def)
  show "\<exists>k. unat n \<le> k \<and> (unat p, k) \<notin> L \<and> mm_rep lo hi s' (insert (unat p, k) L)"
    if "mm_alloc n s = Some (p, s')" "p \<noteq> 0" "unat n \<le> 2 ^ 37 - 32" for p s'
  proof (cases s)
    case (Mm_simple a)
    with that obtain a' where "mm_alloc_simple n a = Some (p, a')" "s' = Mm_simple a'" by (auto simp: mm_alloc_def)
    with simple.alloc_gives [of lo hi a L n p a'] r that Mm_simple show ?thesis by (auto simp: mm_rep_def)
  next
    case (Mm_buddy b)
    with that obtain b' where "mm_alloc_buddy n b = Some (p, b')" "s' = Mm_buddy b'" by (auto simp: mm_alloc_def)
    with buddy.alloc_gives [of lo hi b L n p b'] r that Mm_buddy show ?thesis by (auto simp: mm_rep_def)
  qed
next
  fix s L k and p :: ptr assume "mm_rep lo hi s L" "(unat p, k) \<in> L"
  then show "\<exists>s'. mm_free p s = Some s' \<and> mm_rep lo hi s' (L - {(unat p, k)})"
    using simple.free_takes [of lo hi _ L p k] buddy.free_takes [of lo hi _ L p k]
    by (cases s) (fastforce simp: mm_rep_def mm_free_def)+
qed

section \<open>The default region\<close>

text \<open>The kernel image ends below the limit of the heap with room to spare, and the static sentinel of the
  first-fit manager lies in the image.\<close>

definition image_end :: "mm \<Rightarrow> ptr" where
  "image_end m = (case m of Mm_simple a \<Rightarrow> endOfKernel_s a | Mm_buddy b \<Rightarrow> endOfKernel_b b)"

definition image_ok :: "mm \<Rightarrow> bool" where
  "image_ok m \<longleftrightarrow> unat (image_end m) \<le> 0x1FFF0000 \<and>
     (case m of Mm_simple a \<Rightarrow> 0 < free_list_sentinel a \<and> free_list_sentinel a \<le> endOfKernel_s a | Mm_buddy b \<Rightarrow> True)"

definition heap_start_of :: "mm \<Rightarrow> nat" where
  "heap_start_of m = (unat (image_end m) + 0x8000 + 15) div 16 * 16"

lemma heap_start_bounds:
  assumes "image_ok m"
  shows "0x8000 \<le> heap_start_of m" "heap_start_of m + 64 \<le> 0x20000000" "16 dvd heap_start_of m"
    "unat (image_end m) < heap_start_of m"
proof -
  have "unat (image_end m) \<le> 0x1FFF0000" using assms by (simp add: image_ok_def)
  then show "0x8000 \<le> heap_start_of m" "heap_start_of m + 64 \<le> 0x20000000" "unat (image_end m) < heap_start_of m"
    unfolding heap_start_of_def by linarith+
  show "16 dvd heap_start_of m" by (simp add: heap_start_of_def)
qed

lemma default_start:
  fixes e :: ptr
  assumes "unat e \<le> 0x1FFF0000"
  shows "unat ((e + 0x8000 + 16 - 1) AND NOT (16 - 1)) = (unat e + 0x8000 + 15) div 16 * 16"
proof -
  have "unat (e + 0x8000 + 15) = unat e + 0x8000 + 15" using assms by (simp add: unat_add_lt)
  then show ?thesis using unat_and_not_15 [of "e + 0x8000 + 15"] by (simp add: algebra_simps)
qed

lemma default_region_round:
  assumes "16 dvd lo" and "lo \<le> 0x20000000"
  shows "(lo + 15) div 16 * 16 = lo" "(0x20000000 - lo) div 16 * 16 = 0x20000000 - (lo :: nat)"
  using assms by (auto elim!: dvdE)

lemma default_heap:
  assumes ok: "image_ok m"
  obtains m' where "mm_init_default m = Some m'" and "mm_rep (heap_start_of m) 0x20000000 m' {}"
proof -
  let ?lo = "heap_start_of m"
  note h = heap_start_bounds [OF ok]
  define st :: ptr where "st = of_nat ?lo"
  have ust: "unat st = ?lo" unfolding st_def by (rule unat_of_nat_64) (use h(2) in simp)
  have st0: "0 < st" "\<not> 0x20000000 \<le> st" using ust h(1,2) by (simp_all add: word_less_nat_alt word_le_nat_alt)
  have sz: "unat (0x20000000 - st) = 0x20000000 - ?lo"
    using unat_sub_le [of st "0x20000000"] ust h(2) by (simp add: word_le_nat_alt)
  then have sz0: "0 < 0x20000000 - st" using h(2) by (simp add: word_less_nat_alt)
  note rd = default_region_round [OF h(3)]
  have end_le: "unat (image_end m) \<le> 0x1FFF0000" using ok by (simp add: image_ok_def)
  have aligned: "(image_end m + 0x8000 + 16 - 1) AND NOT (16 - 1) = st"
    using default_start [OF end_le] ust by (simp add: word_unat_eq_iff heap_start_of_def)
  show thesis
  proof (cases m)
    case (Mm_simple a)
    then have e: "image_end m = endOfKernel_s a" by (simp add: image_end_def)
    have "mm_init_default_simple a = mm_init_simple st (0x20000000 - st) a"
      using aligned st0 sz0 unfolding e by (simp add: mm_init_default_simple_def mm_default_region_simple_def Let_def mm_simple_consts align_up_def)
    moreover have "simple_rep ?lo 0x20000000 (mm_init_simple st (0x20000000 - st) a) {}"
      using init_simple_rep [of st "0x20000000 - st" a] st0 h ok e Mm_simple rd sz ust
      by (force simp: image_ok_def word_le_nat_alt word_less_nat_alt)
    ultimately show thesis using Mm_simple
      by (intro that [of "Mm_simple (mm_init_simple st (0x20000000 - st) a)"]) (simp_all add: mm_init_default_def mm_rep_def)
  next
    case (Mm_buddy b)
    then have e: "image_end m = endOfKernel_b b" by (simp add: image_end_def)
    have d: "mm_init_default_buddy b = mm_init_buddy st (0x20000000 - st) b"
      using aligned st0 sz0 unfolding e
      by (auto simp: mm_init_default_buddy_def mm_default_region_buddy_def Let_def MM_DEFAULT_HEAP_LIMIT_def MIN_ALIGN_16 align_up_u64_def)
    obtain b' where "mm_init_buddy st (0x20000000 - st) b = Some b'" "buddy_rep ?lo 0x20000000 b' {}"
      by (rule init_buddy_rep [of st "0x20000000 - st" b]) (use st0 h rd sz ust in auto)
    with d Mm_buddy show thesis by (intro that [of "Mm_buddy b'"]) (simp_all add: mm_init_default_def mm_rep_def)
  qed
qed

text \<open>C4: whichever memory manager the kernel is built with, the default region makes a well-formed empty heap,
  and from then on, whatever sequence of requests a client issues, freeing only what it holds: every request
  returns, and the regions it holds at the end, each as long as it asked for, are pairwise apart.\<close>

theorem mm_client_apart:
  assumes "image_ok m" and "list_all (within_limit (2 ^ 37 - 32)) rs"
  shows "\<exists>m0 held m'. mm_init_default m = Some m0 \<and> mm_rep (heap_start_of m) 0x20000000 m0 {} \<and>
    mm_client mm_alloc mm_free rs [] m0 = Some (held, m') \<and>
    (\<forall>i j. i < j \<and> j < length held \<longrightarrow>
      apart (unat (fst (held ! i)), unat (snd (held ! i))) (unat (fst (held ! j)), unat (snd (held ! j))))"
proof -
  from default_heap [OF assms(1)] obtain m0 where "mm_init_default m = Some m0" "mm_rep (heap_start_of m) 0x20000000 m0 {}" .
  with kmem.client_apart [OF _ assms(2)] show ?thesis by metis
qed

theorem mm_client_apart_witness:
  "(\<exists>m0 held m'. mm_init_default (Mm_simple sample_raw) = Some m0 \<and>
      mm_client mm_alloc mm_free [Req_alloc 100, Req_alloc 200, Req_free 1, Req_alloc 50] [] m0 = Some (held, m')) \<and>
   (\<exists>m0 held m'. mm_init_default (Mm_buddy sample_raw_b) = Some m0 \<and>
      mm_client mm_alloc mm_free [Req_alloc 100, Req_alloc 200, Req_free 1, Req_alloc 50] [] m0 = Some (held, m'))"
proof -
  let ?rs = "[Req_alloc 100, Req_alloc 200, Req_free 1, Req_alloc 50]"
  have "image_ok (Mm_simple sample_raw)" "image_ok (Mm_buddy sample_raw_b)"
    by (simp_all add: image_ok_def image_end_def sample_raw_def sample_raw_b_def)
  moreover have "list_all (within_limit (2 ^ 37 - 32)) ?rs" by (simp add: within_limit_def)
  ultimately show ?thesis using mm_client_apart [of _ ?rs] by metis
qed

end
