(* ===== verification/Process_Correct.thy ===== *)
theory Process_Correct
  imports Kernel_MM Kernel_Sample
begin

text \<open>
  Creation and destruction of processes on top of the memory manager: a new process gets a control block
  and a stack of its own, its first frame lies in that stack, a failure gives back what was taken, and
  destroying a process returns its memory.
\<close>

section \<open>Stack frames\<close>

lemma small_multiple:
  assumes "Suc i < 2 ^ 32"
  shows "unat (8 * of_nat (Suc i) :: u64) = 8 * Suc i" "8 * of_nat (Suc i) \<noteq> (0 :: u64)"
proof -
  have "unat (of_nat (8 * Suc i) :: u64) = 8 * Suc i" by (rule unat_of_nat_64) (use assms in simp)
  then show u: "unat (8 * of_nat (Suc i) :: u64) = 8 * Suc i" by (simp only: of_nat_mult of_nat_numeral)
  show "8 * of_nat (Suc i) \<noteq> (0 :: u64)"
  proof
    assume "8 * of_nat (Suc i) = (0 :: u64)"
    with u show False by (simp only: unat_0) simp
  qed
qed

lemma self_diff: "(a :: u64) = a - b \<Longrightarrow> b = 0"
proof -
  assume "a = a - b"
  then have "a + b = a" by (metis diff_add_cancel)
  then show "b = 0" by simp
qed

lemma push_words_fst: "fst (push_words ws rsp mem) = rsp - 8 * of_nat (length ws)"
  by (induction ws arbitrary: rsp mem) (simp_all add: diff_diff_eq distrib_left)

lemma push_words_other:
  "(\<And>i. i < length ws \<Longrightarrow> a \<noteq> rsp - 8 * of_nat (Suc i)) \<Longrightarrow> snd (push_words ws rsp mem) a = mem a"
proof (induction ws arbitrary: rsp mem)
  case (Cons w ws)
  have "a \<noteq> rsp - 8 - 8 * of_nat (Suc i)" if "i < length ws" for i
    using Cons.prems [of "Suc i"] that by (simp add: algebra_simps)
  from Cons.IH [OF this] Cons.prems [of 0] show ?case by simp
qed simp

lemma push_words_nth:
  "length ws < 2 ^ 32 \<Longrightarrow> i < length ws \<Longrightarrow> snd (push_words ws rsp mem) (rsp - 8 * of_nat (Suc i)) = ws ! i"
proof (induction ws arbitrary: i rsp mem)
  case (Cons w ws)
  show ?case
  proof (cases i)
    case 0
    have "rsp - 8 \<noteq> rsp - 8 - 8 * of_nat (Suc j)" if "j < length ws" for j
    proof
      assume "rsp - 8 = rsp - 8 - 8 * of_nat (Suc j)"
      then have "8 * of_nat (Suc j) = (0 :: u64)" by (rule self_diff)
      with small_multiple(2) [of j] that Cons.prems show False by simp
    qed
    from push_words_other [OF this] show ?thesis using 0 by simp
  next
    case (Suc j)
    have "rsp - 8 * of_nat (Suc i) = rsp - 8 - 8 * of_nat (Suc j)" using Suc by (simp add: algebra_simps)
    moreover have "snd (push_words ws (rsp - 8) (mem(rsp - 8 := w))) (rsp - 8 - 8 * of_nat (Suc j)) = ws ! j"
      by (rule Cons.IH) (use Cons.prems Suc in simp_all)
    ultimately show ?thesis using Suc by (simp only: push_words.simps nth_Cons_Suc)
  qed
qed simp

text \<open>Reading upwards from the final stack pointer gives the words in reverse.\<close>

lemma push_words_frame:
  assumes "length ws < 2 ^ 32" and "push_words ws tp mem = (rsp, mem')"
  shows "map (\<lambda>i. mem' (rsp + 8 * of_nat i)) [0..<length ws] = rev ws"
proof (rule nth_equalityI)
  fix i assume "i < length (map (\<lambda>i. mem' (rsp + 8 * of_nat i)) [0..<length ws])"
  then have i: "i < length ws" by simp
  let ?j = "length ws - Suc i"
  have "Suc ?j = length ws - i" using i by simp
  then have "of_nat (length ws) = (of_nat (Suc ?j) + of_nat i :: u64)" using i by (simp flip: of_nat_add)
  moreover have "rsp = tp - 8 * of_nat (length ws)" using push_words_fst [of ws tp mem] assms(2) by simp
  ultimately have "rsp + 8 * of_nat i = tp - 8 * of_nat (Suc ?j)" by (simp only:) (simp add: algebra_simps)
  then have "mem' (rsp + 8 * of_nat i) = ws ! ?j"
    using push_words_nth [OF assms(1), of ?j tp mem] assms(2) i by (simp only: snd_conv)
  then show "map (\<lambda>i. mem' (rsp + 8 * of_nat i)) [0..<length ws] ! i = rev ws ! i" using i by (simp add: rev_nth)
qed simp

section \<open>Memory of the kernel\<close>

definition live_at :: "region set \<Rightarrow> ptr \<Rightarrow> bool" where
  "live_at L p \<longleftrightarrow> (\<exists>k. (unat p, k) \<in> L)"

lemma mm_rep_end:
  assumes "mm_rep lo hi m L" and "(a, k) \<in> L"
  shows "a + k \<le> hi"
proof (cases m)
  case (Mm_simple h)
  with assms obtain bs fs where "heap_rep (mem_s h) (free_list_sentinel h) lo hi bs fs" "L = live (mem_s h) bs"
    by (auto simp: mm_rep_def simple_rep_def)
  with assms(2) live_bounds(2) show ?thesis by (auto simp: heap_rep_def)
next
  case (Mm_buddy h)
  with assms(1) have r: "buddy_rep lo hi h L" by (simp add: mm_rep_def)
  from buddy_rep_inv [OF this] obtain F S T where inv: "buddy_inv h ((hi - lo) div 64) F S T"
    and L: "L = region_of lo ` (T - S)" .
  from L assms(2) obtain i l where b: "(i, l) \<in> T" and ak: "a = lo + 64 * start (i, l) + 32" "k = payload l"
    by (auto simp: region_of_def)
  have "Suc i * 2 ^ l \<le> (hi - lo) div 64" by (rule tiling_range [OF _ b]) (use inv in \<open>simp add: buddy_inv_def bst_def\<close>)
  then have "64 * (i * 2 ^ l) + 64 * 2 ^ l \<le> hi - lo" by simp
  moreover have "lo + 32 \<le> hi" using r by (simp add: buddy_rep_def)
  ultimately show ?thesis unfolding ak using payload_size [of l] by (simp add: start_def)
qed

lemma kalloc_cases:
  assumes r: "mm_rep lo hi (kmm s) L" and n: "unat n \<le> 2 ^ 37 - 32"
  obtains (full) m where "kalloc n s = Some (NULL, s\<lparr>kmm := m\<rparr>)" and "mm_rep lo hi m L"
    | (given) p k m where "p \<noteq> NULL" and "kalloc n s = Some (p, s\<lparr>kmm := m\<rparr>)" and "unat n \<le> k"
      and "\<not> live_at L p" and "mm_rep lo hi m (insert (unat p, k) L)"
proof -
  from kmem.alloc_returns [OF r] obtain p m where a: "mm_alloc n (kmm s) = Some (p, m)" by blast
  then have ka: "kalloc n s = Some (p, s\<lparr>kmm := m\<rparr>)" by (simp add: kalloc_def)
  show thesis
  proof (cases "p = NULL")
    case True
    with full ka a kmem.alloc_fails [OF r] show thesis by blast
  next
    case False
    from kmem.alloc_gives [OF r a False n] obtain k where k: "unat n \<le> k" "(unat p, k) \<notin> L"
      "mm_rep lo hi m (insert (unat p, k) L)" by blast
    have "\<not> live_at L p"
    proof
      assume "live_at L p"
      then obtain k' where k': "(unat p, k') \<in> L" by (auto simp: live_at_def)
      have "apart (unat p, k) (unat p, k')" by (rule kmem.rep_apart [OF k(3)]) (use k(2) k' in auto)
      then show False using kmem.rep_nonempty [OF k(3), of "(unat p, k)"] kmem.rep_nonempty [OF k(3), of "(unat p, k')"] k'
        by (auto simp: apart_def)
    qed
    with given False ka k show thesis by blast
  qed
qed

lemma kfree_live:
  assumes "mm_rep lo hi (kmm s) L" and "(unat p, k) \<in> L"
  obtains m where "kfree p s = Some (s\<lparr>kmm := m\<rparr>)" and "mm_rep lo hi m (L - {(unat p, k)})"
  using kmem.free_takes [OF assms] by (auto simp: kfree_def)

section \<open>Descriptors\<close>

definition terminal_fds :: "'a sched_scheme \<Rightarrow> ptr \<Rightarrow> bool" where
  "terminal_fds s p \<longleftrightarrow> (\<forall>i < MAX_FDS. fd_type (fd s p i) = FD_TYPE_TERMINAL)"

lemma set_fd_same: "set_fd p i (fd s p i) s = s"
  by (simp add: set_fd_def upd_proc_def upd_at_def)

lemma inherit_fds_terminal:
  assumes "\<And>i. i \<in> set is \<Longrightarrow> fd_type (fd s parent i) = FD_TYPE_TERMINAL \<and> fd s p i = terminal_fd"
  shows "inherit_fds is parent p 0 0 s = Some s"
  using assms
proof (induction "is")
  case (Cons i "is")
  have "inherit_fd parent p i s = Some (set_fd p i (fd s p i) s)"
    using Cons.prems [of i] by (simp add: inherit_fd_def terminal_fd_def)
  then have "inherit_fd parent p i s = Some s" by (simp only: set_fd_same)
  with Cons show ?case by simp
qed simp

lemma close_fds_terminal:
  "(\<And>i. i \<in> set is \<Longrightarrow> fd_type (fd s p i) = FD_TYPE_TERMINAL) \<Longrightarrow> close_fds is p s = Some s"
  by (induction "is") (simp_all add: close_fd_def)

section \<open>The new process\<close>

definition fresh_pcb :: "string option \<Rightarrow> ptr \<Rightarrow> ptr \<Rightarrow> ptr \<Rightarrow> ptr \<Rightarrow> int \<Rightarrow> u64 \<Rightarrow> ptr \<Rightarrow> process_control_block" where
  "fresh_pcb nm entry arg parent sib fg pid stk = zero_pcb
     \<lparr>p_pid := pid, p_name := copy_name nm, p_state := PROCESS_STATE_READY, p_priority := PROCESS_PRIORITY_DEFAULT,
      p_base_priority := PROCESS_PRIORITY_DEFAULT, p_rsp := ((stk + PROCESS_KERNEL_STACK_SIZE) AND NOT 15) - 160,
      p_rbp := stk + PROCESS_KERNEL_STACK_SIZE, p_kernel_stack_base := stk,
      p_kernel_stack_top := stk + PROCESS_KERNEL_STACK_SIZE, p_entry_point := entry, p_entry_arg := arg,
      p_is_foreground := fg, p_parent := parent, p_next_sibling := sib\<rparr>"

text \<open>What becoming the first child of \<open>parent\<close> does to the control blocks of the others.\<close>

definition adopted :: "ptr \<Rightarrow> ptr \<Rightarrow> pheap \<Rightarrow> pheap" where
  "adopted parent p h q =
     (if parent = NULL then h q
      else (h q)\<lparr>p_first_child := (if q = parent then p else p_first_child (h q)),
                 p_prev_sibling := (if q = p_first_child (h parent) \<and> q \<noteq> NULL then p else p_prev_sibling (h q))\<rparr>)"

definition parent_ok :: "'a sched_scheme \<Rightarrow> region set \<Rightarrow> ptr \<Rightarrow> bool" where
  "parent_ok s L parent \<longleftrightarrow> parent = NULL \<or> live_at L parent \<and> terminal_fds s parent \<and>
     (p_first_child (proc s parent) = NULL \<or> live_at L (p_first_child (proc s parent)))"

definition first_child_of :: "'a sched_scheme \<Rightarrow> ptr \<Rightarrow> ptr" where
  "first_child_of s parent = (if parent = NULL then NULL else p_first_child (proc s parent))"

lemma link_child_at:
  assumes "parent \<noteq> NULL" and "p \<noteq> parent" and "p \<noteq> p_first_child (proc s parent)"
  shows "proc (link_child parent p s) p = (proc s p)\<lparr>p_parent := parent, p_next_sibling := p_first_child (proc s parent)\<rparr>"
    and "q \<noteq> p \<Longrightarrow> proc (link_child parent p s) q = adopted parent p (procs s) q"
    and "link_child parent p s = s\<lparr>procs := procs (link_child parent p s)\<rparr>"
  using assms by (auto simp: link_child_def Let_def adopted_def upd_proc_def)

lemma first_frame_length: "length (first_frame ps tp entry arg) = 20"
  by (simp add: first_frame_def)

lemma create_given:
  assumes "entry \<noteq> NULL" and p: "p \<noteq> NULL" and stk: "stk \<noteq> NULL"
    and a1: "kalloc sizeof_process s = Some (p, s\<lparr>kmm := m1\<rparr>)"
    and a2: "kalloc PROCESS_KERNEL_STACK_SIZE (upd_proc p (\<lambda>_. zero_pcb) (s\<lparr>kmm := m1\<rparr>)) =
      Some (stk, (upd_proc p (\<lambda>_. zero_pcb) (s\<lparr>kmm := m1\<rparr>))\<lparr>kmm := m2\<rparr>)"
    and par: "parent_ok s L parent" "\<not> live_at L p"
  obtains s' where "process_create nm entry arg parent fg 0 0 s = Some (p, s')"
    and "kmm s' = m2" and "next_pid s' = next_pid s + 1"
    and "proc s' p = fresh_pcb nm entry arg parent (first_child_of s parent) fg (next_pid s) stk"
    and "\<And>q. q \<noteq> p \<Longrightarrow> proc s' q = adopted parent p (procs s) q"
    and "push_words (first_frame (process_start s) (stk + PROCESS_KERNEL_STACK_SIZE) entry arg)
           ((stk + PROCESS_KERNEL_STACK_SIZE) AND NOT 15) (stack_mem s) = (p_rsp (proc s' p), stack_mem s')"
proof -
  have par': "parent = NULL \<or> p \<noteq> parent \<and> terminal_fds s parent \<and> p \<noteq> p_first_child (proc s parent)"
    using par p by (auto simp: parent_ok_def)
  define b where "b = (fresh_pcb nm entry arg NULL NULL fg (next_pid s) stk)\<lparr>p_rsp := 0, p_rbp := 0, p_state := PROCESS_STATE_NEW\<rparr>"
  define t where "t = s\<lparr>procs := (procs s)(p := b), next_pid := next_pid s + 1, kmm := m2\<rparr>"
  define u where "u = (if parent \<noteq> NULL then link_child parent p t else t)"
  have inh: "(if parent \<noteq> NULL then inherit_fds [0..<MAX_FDS] parent p 0 0 t else Some t) = Some t"
    using par' by (auto intro!: inherit_fds_terminal simp: t_def b_def fresh_pcb_def zero_pcb_def terminal_fds_def)
  have t: "proc t p = b" "\<And>q. q \<noteq> p \<Longrightarrow> proc t q = proc s q" by (simp_all add: t_def)
  have u: "proc u p = b\<lparr>p_parent := parent, p_next_sibling := first_child_of s parent\<rparr> \<and>
    (\<forall>q. q \<noteq> p \<longrightarrow> proc u q = adopted parent p (procs s) q) \<and> u = t\<lparr>procs := procs u\<rparr>"
  proof (cases "parent = NULL")
    case True
    then show ?thesis using t by (simp add: u_def first_child_of_def b_def fresh_pcb_def adopted_def zero_pcb_def)
  next
    case False
    with par' have "p \<noteq> parent" "p \<noteq> p_first_child (proc t parent)" using t(2) [of parent] by metis+
    note l = link_child_at [OF False this]
    have pt: "proc t parent = proc s parent" using t(2) \<open>p \<noteq> parent\<close> by metis
    have "adopted parent p (procs t) q = adopted parent p (procs s) q" if "q \<noteq> p" for q
      using t(2) [OF that] pt by (simp only: adopted_def)
    moreover have "u = link_child parent p t" using False by (simp add: u_def)
    ultimately show ?thesis using l(1,2) l(3) [symmetric] t(1) pt False by (simp add: first_child_of_def)
  qed
  define f where "f = push_words (first_frame (process_start s) (stk + PROCESS_KERNEL_STACK_SIZE) entry arg)
    ((stk + PROCESS_KERNEL_STACK_SIZE) AND NOT 15) (stack_mem s)"
  define s' where "s' = upd_proc p (\<lambda>b. b\<lparr>p_rsp := fst f, p_rbp := p_kernel_stack_top b, p_state := PROCESS_STATE_READY\<rparr>)
    (u\<lparr>stack_mem := snd f\<rparr>)"
  have "(upd_proc p (\<lambda>b. b\<lparr>p_kernel_stack_base := stk, p_kernel_stack_top := stk + PROCESS_KERNEL_STACK_SIZE,
              p_user_stack_base := NULL, p_user_stack_top := NULL, p_pid := next_pid s,
              p_entry_point := entry, p_entry_arg := arg, p_state := PROCESS_STATE_NEW,
              p_is_foreground := fg, p_priority := PROCESS_PRIORITY_DEFAULT,
              p_base_priority := PROCESS_PRIORITY_DEFAULT, p_wait_ticks := 0, p_name := copy_name nm,
              p_parent := NULL, p_first_child := NULL, p_next_sibling := NULL, p_prev_sibling := NULL,
              p_queue_next := NULL, p_queue_prev := NULL, p_fds := replicate MAX_FDS terminal_fd\<rparr>)
              ((upd_proc p (\<lambda>_. zero_pcb) (s\<lparr>kmm := m1\<rparr>))\<lparr>kmm := m2\<rparr>))\<lparr>next_pid := next_pid s + 1\<rparr> = t"
    by (simp add: t_def upd_proc_def upd_at_def b_def fresh_pcb_def zero_pcb_def)
  note blk = this
  have top: "p_kernel_stack_top (proc u p) = stk + PROCESS_KERNEL_STACK_SIZE" "p_entry_point (proc u p) = entry"
    "p_entry_arg (proc u p) = arg" using u by (simp_all add: b_def fresh_pcb_def)
  have us: "process_start u = process_start s" "stack_mem u = stack_mem s" "kmm u = m2" "next_pid u = next_pid s + 1"
    by (subst u [THEN conjunct2, THEN conjunct2], simp add: t_def)+
  have ctx: "setup_process_context (stk + PROCESS_KERNEL_STACK_SIZE) entry arg u = (fst f, u\<lparr>stack_mem := snd f\<rparr>)"
    by (simp add: setup_process_context_def us f_def split_beta)
  have "process_create nm entry arg parent fg 0 0 s = Some (p, s')"
    by (cases "parent = NULL") (use assms(1) p stk inh top ctx in
        \<open>simp_all add: process_create_def a1 a2 Let_def blk [simplified Let_def] attach_std_def s'_def u_def\<close>)
  moreover have r: "fst f = ((stk + PROCESS_KERNEL_STACK_SIZE) AND NOT 15) - 160"
    by (simp add: f_def push_words_fst first_frame_length)
  moreover have sel: "kmm s' = m2" "next_pid s' = next_pid s + 1" "stack_mem s' = snd f" "\<And>q. q \<noteq> p \<Longrightarrow> proc s' q = proc u q"
    using us(3,4) by (simp_all add: s'_def upd_proc_def)
  moreover have new: "proc s' p = fresh_pcb nm entry arg parent (first_child_of s parent) fg (next_pid s) stk"
    using u r by (simp add: s'_def b_def fresh_pcb_def zero_pcb_def)
  moreover have "f = (p_rsp (proc s' p), stack_mem s')"
    unfolding new sel(3) using r by (simp add: fresh_pcb_def prod_eq_iff)
  moreover have "proc s' q = adopted parent p (procs s) q" if "q \<noteq> p" for q
    using sel(4) [OF that] u that by (simp only:) blast
  ultimately show thesis by (intro that [of s']) (simp_all only: f_def)
qed

text \<open>The first frame lies in the stack, whatever the alignment of the stack.\<close>

lemma stack_words:
  fixes stk :: ptr
  assumes "unat stk + 16384 < 2 ^ 64" and "i < 20"
  defines "tp \<equiv> (stk + PROCESS_KERNEL_STACK_SIZE) AND NOT 15"
  shows "unat (tp - 8 * of_nat (Suc i)) = unat tp - 8 * Suc i" "unat stk + 16369 \<le> unat tp" "unat tp \<le> unat stk + 16384"
proof -
  have "unat (stk + 16384) = unat stk + 16384" using assms(1) by (subst unat_add_lt) simp_all
  then have tp: "unat tp = (unat stk + 16384) div 16 * 16"
    using unat_and_not_15 [of "stk + 16384"] by (simp add: tp_def PROCESS_KERNEL_STACK_SIZE_def)
  then show b: "unat stk + 16369 \<le> unat tp" "unat tp \<le> unat stk + 16384" by linarith+
  have u: "unat (8 * of_nat (Suc i) :: u64) = 8 * Suc i" by (rule small_multiple(1)) (use assms(2) in simp)
  show "unat (tp - 8 * of_nat (Suc i)) = unat tp - 8 * Suc i"
    by (subst unat_sub_le) (use u b assms(2) in \<open>simp_all only: word_le_nat_alt, simp\<close>)
qed

lemma frame_in_stack:
  assumes "unat stk + 16384 < 2 ^ 64"
    and f: "push_words (first_frame ps tp entry arg) ((stk + PROCESS_KERNEL_STACK_SIZE) AND NOT 15) mem = (rsp, mem')"
  shows "map (\<lambda>i. mem' (rsp + 8 * of_nat i)) [0..<20] = rev (first_frame ps tp entry arg)"
    and "unat stk \<le> unat rsp" and "unat rsp + 160 \<le> unat stk + 16384"
    and "unat a < unat stk \<or> unat stk + 16384 \<le> unat a \<Longrightarrow> mem' a = mem a"
proof -
  note w = stack_words [OF assms(1)]
  show "map (\<lambda>i. mem' (rsp + 8 * of_nat i)) [0..<20] = rev (first_frame ps tp entry arg)"
    using push_words_frame [OF _ f] by (simp add: first_frame_length)
  have "rsp = ((stk + PROCESS_KERNEL_STACK_SIZE) AND NOT 15) - 8 * of_nat (Suc 19)"
    using push_words_fst [of "first_frame ps tp entry arg" "(stk + PROCESS_KERNEL_STACK_SIZE) AND NOT 15" mem] f
    by (simp add: first_frame_length)
  then show "unat stk \<le> unat rsp" "unat rsp + 160 \<le> unat stk + 16384"
    using w [of 19] by (simp_all only:) simp_all
  assume a: "unat a < unat stk \<or> unat stk + 16384 \<le> unat a"
  have "snd (push_words (first_frame ps tp entry arg) ((stk + PROCESS_KERNEL_STACK_SIZE) AND NOT 15) mem) a = mem a"
  proof (rule push_words_other)
    fix i assume "i < length (first_frame ps tp entry arg)"
    then have i: "i < 20" by (simp add: first_frame_length)
    show "a \<noteq> ((stk + PROCESS_KERNEL_STACK_SIZE) AND NOT 15) - 8 * of_nat (Suc i)"
    proof
      assume e: "a = ((stk + PROCESS_KERNEL_STACK_SIZE) AND NOT 15) - 8 * of_nat (Suc i)"
      define t where "t = unat ((stk + PROCESS_KERNEL_STACK_SIZE) AND NOT 15)"
      have "unat a = t - 8 * Suc i" unfolding e t_def by (rule w(1) [OF i])
      moreover have "unat stk + 16369 \<le> t" "t \<le> unat stk + 16384" unfolding t_def by (rule w(2,3) [OF i])+
      moreover have "8 \<le> 8 * Suc i" "8 * Suc i \<le> 160" using i by simp_all
      ultimately have "unat stk \<le> unat a \<and> unat a < unat stk + 16384" by linarith
      with a show False by simp
    qed
  qed
  then show "mem' a = mem a" by (simp only: f snd_conv)
qed

section \<open>Creation and destruction\<close>

lemma create_cases:
  assumes r: "mm_rep lo hi (kmm s) L" and e: "entry \<noteq> NULL" and par: "parent_ok s L parent"
  obtains (failed) s' where "process_create nm entry arg parent fg 0 0 s = Some (NULL, s')"
      and "mm_rep lo hi (kmm s') L" and "next_pid s' = next_pid s" and "\<And>q. live_at L q \<Longrightarrow> proc s' q = proc s q"
    | (created) p stk k n s' where "p \<noteq> NULL" and "stk \<noteq> NULL" and "480 \<le> k" and "16384 \<le> n"
      and "process_create nm entry arg parent fg 0 0 s = Some (p, s')"
      and "\<not> live_at L p" and "\<not> live_at (insert (unat p, k) L) stk"
      and "mm_rep lo hi (kmm s') (insert (unat stk, n) (insert (unat p, k) L))" and "next_pid s' = next_pid s + 1"
      and "proc s' p = fresh_pcb nm entry arg parent (first_child_of s parent) fg (next_pid s) stk"
      and "\<And>q. q \<noteq> p \<Longrightarrow> proc s' q = adopted parent p (procs s) q"
      and "push_words (first_frame (process_start s) (stk + PROCESS_KERNEL_STACK_SIZE) entry arg)
             ((stk + PROCESS_KERNEL_STACK_SIZE) AND NOT 15) (stack_mem s) = (p_rsp (proc s' p), stack_mem s')"
proof -
  have "unat sizeof_process \<le> 2 ^ 37 - 32" by (simp add: sizeof_process_def)
  from r this show thesis
  proof (cases rule: kalloc_cases)
    case (full m)
    then show thesis using e by (intro failed [of "s\<lparr>kmm := m\<rparr>"]) (simp_all add: process_create_def)
  next
    case g: (given p k m1)
    let ?s = "upd_proc p (\<lambda>_. zero_pcb) (s\<lparr>kmm := m1\<rparr>)"
    have "mm_rep lo hi (kmm ?s) (insert (unat p, k) L)" "unat PROCESS_KERNEL_STACK_SIZE \<le> 2 ^ 37 - 32"
      using g(5) by (simp_all add: upd_proc_def PROCESS_KERNEL_STACK_SIZE_def)
    then show thesis
    proof (cases rule: kalloc_cases)
      case (full m2)
      have "mm_rep lo hi (kmm (?s\<lparr>kmm := m2\<rparr>)) (insert (unat p, k) L)" using full(2) by simp
      then obtain m3 where f: "kfree p (?s\<lparr>kmm := m2\<rparr>) = Some (?s\<lparr>kmm := m2\<rparr>\<lparr>kmm := m3\<rparr>)"
        "mm_rep lo hi m3 (insert (unat p, k) L - {(unat p, k)})" by (rule kfree_live) (rule insertI1)
      have "insert (unat p, k) L - {(unat p, k)} = L" using g(4) by (auto simp: live_at_def)
      with f full g e show thesis
        by (intro failed [of "?s\<lparr>kmm := m2\<rparr>\<lparr>kmm := m3\<rparr>"]) (auto simp: process_create_def Let_def)
    next
      case h: (given stk n m2)
      obtain s' where c: "process_create nm entry arg parent fg 0 0 s = Some (p, s')" "kmm s' = m2" "next_pid s' = next_pid s + 1"
        "proc s' p = fresh_pcb nm entry arg parent (first_child_of s parent) fg (next_pid s) stk"
        "\<And>q. q \<noteq> p \<Longrightarrow> proc s' q = adopted parent p (procs s) q"
        "push_words (first_frame (process_start s) (stk + PROCESS_KERNEL_STACK_SIZE) entry arg)
           ((stk + PROCESS_KERNEL_STACK_SIZE) AND NOT 15) (stack_mem s) = (p_rsp (proc s' p), stack_mem s')"
        by (rule create_given [where nm = nm and arg = arg and fg = fg, OF e g(1) h(1) g(2) h(2) par g(4)], rule that)
      show thesis
        by (rule created [OF g(1) h(1) _ _ c(1) g(4) h(4) _ c(3-6)])
          (use g(3) h(3,5) c(2) in \<open>simp_all add: sizeof_process_def PROCESS_KERNEL_STACK_SIZE_def\<close>)
    qed
  qed
qed

lemma unlink_new:
  assumes p: "p \<noteq> NULL" "parent = NULL \<or> p \<noteq> parent \<and> p \<noteq> p_first_child (procs s parent)"
    and new: "proc s1 p = fresh_pcb nm entry arg parent (first_child_of s parent) fg pid stk"
    and others: "\<And>q. q \<noteq> p \<Longrightarrow> proc s1 q = adopted parent p (procs s) q"
    and prev: "first_child_of s parent \<noteq> NULL \<longrightarrow> p_prev_sibling (proc s (first_child_of s parent)) = NULL"
  shows "q \<noteq> p \<Longrightarrow> proc (unlink_child p s1) q = proc s q"
    and "p_kernel_stack_base (proc (unlink_child p s1) p) = stk" "p_user_stack_base (proc (unlink_child p s1) p) = NULL"
proof -
  have b: "p_parent (proc s1 p) = parent" "p_prev_sibling (proc s1 p) = NULL" "p_next_sibling (proc s1 p) = first_child_of s parent"
    "p_kernel_stack_base (proc s1 p) = stk" "p_user_stack_base (proc s1 p) = NULL"
    by (simp_all add: new fresh_pcb_def zero_pcb_def)
  show "p_kernel_stack_base (proc (unlink_child p s1) p) = stk" "p_user_stack_base (proc (unlink_child p s1) p) = NULL"
    using p b by (auto simp: unlink_child_def Let_def)
  show "proc (unlink_child p s1) q = proc s q" if q: "q \<noteq> p"
  proof (cases "parent = NULL")
    case True
    then show ?thesis using b(1) others [OF q] by (simp add: unlink_child_def adopted_def)
  next
    case False
    with p(2) have np: "parent \<noteq> p" "first_child_of s parent \<noteq> p" by (auto simp: first_child_of_def)
    have fc: "p_first_child (proc s1 parent) = p" using others [OF np(1)] False by (simp add: adopted_def)
    let ?fc = "first_child_of s parent"
    define t where "t = upd_proc parent (p_first_child_update (\<lambda>_. ?fc)) s1"
    have t: "proc t p = proc s1 p" "proc t q = (if q = parent then (proc s1 q)\<lparr>p_first_child := ?fc\<rparr> else proc s1 q)"
      using np(1) by (auto simp: t_def)
    have "unlink_child p s1 = upd_proc p (\<lambda>b. b\<lparr>p_parent := NULL, p_next_sibling := NULL, p_prev_sibling := NULL\<rparr>)
        (if ?fc \<noteq> NULL then upd_proc ?fc (p_prev_sibling_update (\<lambda>_. NULL)) t else t)"
      using False by (simp add: unlink_child_def b fc t(1) flip: t_def)
    then have "proc (unlink_child p s1) q =
      (if q = ?fc \<and> q \<noteq> NULL then (proc t q)\<lparr>p_prev_sibling := NULL\<rparr> else proc t q)"
      using q by simp
    also have "\<dots> = proc s q"
      using False prev others [OF q] t(2) by (auto simp: adopted_def first_child_of_def)
    finally show ?thesis .
  qed
qed

section \<open>A sample state\<close>

definition boot_kernel :: kernel where
  "boot_kernel = sample_kernel\<lparr>kmm := the (mm_init_default (Mm_simple sample_raw))\<rparr>"

lemma boot_kernel_rep: "mm_rep 0x108000 0x20000000 (kmm boot_kernel) {}"
proof -
  have ok: "image_ok (Mm_simple sample_raw)" and st: "heap_start_of (Mm_simple sample_raw) = 0x108000"
    by (simp_all add: image_ok_def image_end_def sample_raw_def heap_start_of_def)
  from default_heap [OF ok] obtain m where "mm_init_default (Mm_simple sample_raw) = Some m"
    "mm_rep (heap_start_of (Mm_simple sample_raw)) 0x20000000 m {}" .
  then show ?thesis unfolding st by (simp add: boot_kernel_def)
qed

lemma boot_parent_ok: "parent_ok boot_kernel {} NULL"
  by (simp add: parent_ok_def)

lemma boot_create: "map_option fst (process_create (Some ''sh'') 0x400000 0 NULL 1 0 0 boot_kernel) = Some 0x108028"
  by code_simp





end
