(* ===== verification/Bmfs.thy ===== *)
theory Bmfs
  imports Kernel_Prelude
begin

text \<open>
  The host tool that makes the disk image of the system and manages the files on it
  (\<open>Bootloader/BMFS/bmfs.c\<close>).  A disk is the contents of a host file: the directory of 64 entries of 64
  bytes lies at 4 KiB, file data in blocks of 2 MiB.  The state holds the files of the host, the open
  disk, the buffers of the program and what it has printed.  \<open>Directory\<close> is kept as its 64 entries; it is
  encoded when it is written and decoded when it is read, and a \<open>strcpy\<close> into it works on the bytes.  The
  result \<open>None\<close> of an operation is undefined behaviour of the C code (a null pointer handed to \<open>strcmp\<close>, an
  \<open>int\<close> counter that overflows).
\<close>

section \<open>Numbers and strings\<close>

definition NL :: string where "NL = [CHR 0x0A]"
definition QUOTE :: string where "QUOTE = [CHR 0x27]"

definition isdigit :: "char \<Rightarrow> bool" where
  "isdigit c \<longleftrightarrow> 48 \<le> (of_char c :: nat) \<and> (of_char c :: nat) \<le> 57"

definition char_digit :: "char \<Rightarrow> nat" where
  "char_digit c = of_char c - 48"

definition toupper :: "char \<Rightarrow> char" where
  "toupper c = (if 97 \<le> (of_char c :: nat) \<and> (of_char c :: nat) \<le> 122 then char_of ((of_char c :: nat) - 32) else c)"

definition strcasecmp_eq :: "string \<Rightarrow> string \<Rightarrow> bool" where
  "strcasecmp_eq a b \<longleftrightarrow> map toupper a = map toupper b"

fun decimal :: "nat \<Rightarrow> string" where
  "decimal n = (if n < 10 then [char_of (48 + n)] else decimal (n div 10) @ [char_of (48 + n mod 10)])"

declare decimal.simps [simp del]

definition signed_decimal :: "int \<Rightarrow> string" where
  "signed_decimal i = (if i < 0 then CHR ''-'' # decimal (nat (- i)) else decimal (nat i))"

definition pad_left :: "nat \<Rightarrow> string \<Rightarrow> string" where
  "pad_left n s = replicate (n - length s) CHR '' '' @ s"

definition pad_right :: "nat \<Rightarrow> string \<Rightarrow> string" where
  "pad_right n s = s @ replicate (n - length s) CHR '' ''"

text \<open>\<open>atoi\<close> is \<open>strtol\<close>, which stays within a \<open>long\<close>, converted to \<open>int\<close>.\<close>

definition is_space :: "char \<Rightarrow> bool" where
  "is_space c \<longleftrightarrow> c = CHR '' '' \<or> 9 \<le> (of_char c :: nat) \<and> (of_char c :: nat) \<le> 13"

definition leading_number :: "string \<Rightarrow> int" where
  "leading_number s = foldl (\<lambda>n c. n * 10 + int (char_digit c)) 0 (takeWhile isdigit s)"

definition host_atoi :: "string \<Rightarrow> cint" where
  "host_atoi s =
     (let t = dropWhile is_space s;
          v = (case t of [] \<Rightarrow> 0
               | c # r \<Rightarrow> if c = CHR ''-'' then - leading_number r
                          else if c = CHR ''+'' then leading_number r else leading_number t)
      in word_of_int (max (- (2 ^ 63)) (min (2 ^ 63 - 1) v)))"

section \<open>Directory entries\<close>

record BMFSEntry =
  FileName :: "u8 list"
  StartingBlock :: u64
  ReservedBlocks :: u64
  FileSize :: u64
  Unused :: u64

definition rd64 :: "u8 list \<Rightarrow> u64" where
  "rd64 bs = foldr (\<lambda>b w. ucast b + 256 * w) bs 0"

definition encode_entry :: "BMFSEntry \<Rightarrow> u8 list" where
  "encode_entry e = FileName e @ le_bytes 8 (StartingBlock e) @ le_bytes 8 (ReservedBlocks e) @ le_bytes 8 (FileSize e) @ le_bytes 8 (Unused e)"

definition decode_entry :: "u8 list \<Rightarrow> BMFSEntry" where
  "decode_entry bs = \<lparr>FileName = take 32 bs, StartingBlock = rd64 (take 8 (drop 32 bs)),
     ReservedBlocks = rd64 (take 8 (drop 40 bs)), FileSize = rd64 (take 8 (drop 48 bs)), Unused = rd64 (take 8 (drop 56 bs))\<rparr>"

definition DIR_ENTRIES :: nat where "DIR_ENTRIES = 64"

definition encode_dir :: "BMFSEntry list \<Rightarrow> u8 list" where
  "encode_dir dir = concat (map encode_entry dir)"

definition decode_dir :: "u8 list \<Rightarrow> BMFSEntry list" where
  "decode_dir bs = map (\<lambda>i. decode_entry (take 64 (drop (64 * i) bs))) [0..<DIR_ENTRIES]"

definition zero_entry :: BMFSEntry where
  "zero_entry = \<lparr>FileName = replicate 32 0, StartingBlock = 0, ReservedBlocks = 0, FileSize = 0, Unused = 0\<rparr>"

text \<open>The first byte of the name marks the end of the directory (0) and an unused entry (1).  The C string
  that starts at the name may run on into the numbers.\<close>

definition tag :: "BMFSEntry \<Rightarrow> u8" where
  "tag e = FileName e ! 0"

definition entry_name :: "BMFSEntry \<Rightarrow> string" where
  "entry_name e = map char_of_byte (takeWhile (\<lambda>b. b \<noteq> 0) (encode_entry e))"

section \<open>Files\<close>

record stream =
  s_data :: "u8 list"
  s_pos :: nat
  s_err :: bool

definition overwrite :: "nat \<Rightarrow> u8 list \<Rightarrow> u8 list \<Rightarrow> u8 list" where
  "overwrite p bs xs =
     (if bs = [] then xs else take p xs @ replicate (p - length xs) 0 @ bs @ drop (p + length bs) xs)"

text \<open>\<open>host\<close> gives the files of the host, \<open>writable\<close> the names that can be opened for writing and \<open>file_limit\<close>
  the length beyond which a write fails; \<open>malloc_ok\<close> is the answer of \<open>malloc\<close> and \<open>stdin_line\<close> what is typed.\<close>

record bmfs =
  host :: "string \<Rightarrow> u8 list option"
  writable :: "string \<Rightarrow> bool"
  file_limit :: nat
  malloc_ok :: bool
  stdin_line :: string
  disk :: "stream option"
  diskname :: string
  disksize :: u32
  Directory :: "BMFSEntry list"
  DiskInfo :: "u8 list"
  out :: string

definition BLOCK_BYTES :: u64 where "BLOCK_BYTES = 2097152"

definition say :: "string \<Rightarrow> bmfs \<Rightarrow> bmfs" where
  "say msg s = s\<lparr>out := out s @ msg\<rparr>"

definition disk_seek :: "nat \<Rightarrow> bmfs \<Rightarrow> bmfs" where
  "disk_seek p s = s\<lparr>disk := map_option (s_pos_update (\<lambda>_. p)) (disk s)\<rparr>"

text \<open>An offset is a \<open>long\<close>; seeking to a negative one fails and leaves the position.\<close>

definition disk_seek_block :: "u64 \<Rightarrow> bmfs \<Rightarrow> bmfs" where
  "disk_seek_block b s =
     (let off = b * BLOCK_BYTES in if off < 2 ^ 63 then disk_seek (unat off) s else s)"

definition disk_rewind :: "bmfs \<Rightarrow> bmfs" where
  "disk_rewind s = s\<lparr>disk := map_option (\<lambda>d. d\<lparr>s_pos := 0, s_err := False\<rparr>) (disk s)\<rparr>"

definition disk_read :: "nat \<Rightarrow> bmfs \<Rightarrow> u8 list \<times> bmfs" where
  "disk_read n s =
     (case disk s of None \<Rightarrow> ([], s)
      | Some d \<Rightarrow> let bs = take n (drop (s_pos d) (s_data d))
                  in (bs, s\<lparr>disk := Some (d\<lparr>s_pos := s_pos d + length bs\<rparr>)\<rparr>))"

text \<open>\<open>getc\<close> gives -1 at the end of the disk, which \<open>putc\<close> writes as 255.\<close>

definition disk_getc :: "nat \<Rightarrow> bmfs \<Rightarrow> u8 list \<times> bmfs" where
  "disk_getc n s = (let (bs, s1) = disk_read n s in (bs @ replicate (n - length bs) 255, s1))"

definition disk_write :: "u8 list \<Rightarrow> bmfs \<Rightarrow> bool \<times> bmfs" where
  "disk_write bs s =
     (case disk s of None \<Rightarrow> (False, s)
      | Some d \<Rightarrow>
          if s_pos d + length bs \<le> file_limit s
          then (True, s\<lparr>disk := Some (d\<lparr>s_data := overwrite (s_pos d) bs (s_data d), s_pos := s_pos d + length bs\<rparr>)\<rparr>)
          else (False, s\<lparr>disk := Some (d\<lparr>s_err := True\<rparr>)\<rparr>))"

fun disk_putc :: "u8 list \<Rightarrow> bmfs \<Rightarrow> bmfs" where
  "disk_putc [] s = s"
| "disk_putc (b # bs) s = disk_putc bs (snd (disk_write [b] s))"

definition disk_close :: "bmfs \<Rightarrow> bmfs" where
  "disk_close s =
     (case disk s of None \<Rightarrow> s
      | Some d \<Rightarrow> s\<lparr>host := (host s)(diskname s \<mapsto> s_data d), disk := None\<rparr>)"

definition quoted :: "string \<Rightarrow> string" where
  "quoted f = QUOTE @ f @ QUOTE"

section \<open>Directory operations\<close>

fun findfile_from :: "string option \<Rightarrow> BMFSEntry list \<Rightarrow> nat \<Rightarrow> (nat \<times> BMFSEntry) option option" where
  "findfile_from name [] i = Some None"
| "findfile_from name (e # es) i =
     (if tag e = 0 then Some None
      else if tag e = 1 then findfile_from name es (Suc i)
      else case name of
             None \<Rightarrow> None
           | Some f \<Rightarrow> if f = entry_name e then Some (Some (i, e)) else findfile_from name es (Suc i))"

definition findfile :: "string option \<Rightarrow> bmfs \<Rightarrow> (nat \<times> BMFSEntry) option option" where
  "findfile name s = findfile_from name (Directory s) 0"

definition list_row :: "BMFSEntry \<Rightarrow> string" where
  "list_row e = pad_right 32 (entry_name e) @ '' '' @ pad_left 20 (signed_decimal (sint (FileSize e))) @ '' '' @
     pad_left 20 (signed_decimal (sint (ReservedBlocks e * 2))) @ NL"

fun list_rows :: "BMFSEntry list \<Rightarrow> string" where
  "list_rows [] = []"
| "list_rows (e # es) =
     (if tag e = 0 then [] else if tag e = 1 then list_rows es else list_row e @ list_rows es)"

definition bmfs_list :: "bmfs \<Rightarrow> bmfs" where
  "bmfs_list s =
     say (diskname s @ NL @ ''Disk Size: '' @ signed_decimal (sint (disksize s)) @ '' MiB'' @ NL @
          ''Name                            |            Size (B)|      Reserved (MiB)'' @ NL @
          ''=========================================================================='' @ NL @
          list_rows (Directory s)) s"

definition fs_tag :: "u8 list" where
  "fs_tag = map byte_of_char ''BMFS''"

definition flush_directory :: "bmfs \<Rightarrow> bmfs" where
  "flush_directory s = snd (disk_write (encode_dir (Directory s)) (disk_seek 4096 s))"

definition bmfs_format :: "bmfs \<Rightarrow> bmfs" where
  "bmfs_format s =
     (let s1 = s\<lparr>DiskInfo := fs_tag @ replicate 508 0, Directory := replicate DIR_ENTRIES zero_entry\<rparr>;
          s2 = snd (disk_write (DiskInfo s1) (disk_seek 1024 s1))
      in say (''Format complete.'' @ NL) (flush_directory s2))"

section \<open>Creation\<close>

text \<open>One pass over the directory: the number of entries before the end mark (0 when there is none) and
  the first entry that can be used.\<close>

fun scan_dir :: "BMFSEntry list \<Rightarrow> nat \<Rightarrow> nat option \<Rightarrow> nat \<times> nat option" where
  "scan_dir [] i ff = (0, ff)"
| "scan_dir (e # es) i ff =
     (if tag e = 0 then (i, if ff = None then Some i else ff)
      else scan_dir es (Suc i) (if tag e = 1 \<and> ff = None then Some i else ff))"

definition StartingBlockCmp :: "BMFSEntry \<Rightarrow> BMFSEntry \<Rightarrow> int" where
  "StartingBlockCmp ea eb =
     (if tag ea = 1 then 1 else if tag eb = 1 then - 1
      else sint (ucast (StartingBlock ea - StartingBlock eb) :: cint))"

text \<open>\<open>qsort\<close> as an insertion sort; an element goes before those that it does not exceed.\<close>

fun sort_insert :: "('a \<Rightarrow> 'a \<Rightarrow> int) \<Rightarrow> 'a \<Rightarrow> 'a list \<Rightarrow> 'a list" where
  "sort_insert cmp x [] = [x]"
| "sort_insert cmp x (y # ys) = (if cmp x y \<le> 0 then x # y # ys else y # sort_insert cmp x ys)"

definition qsort :: "('a \<Rightarrow> 'a \<Rightarrow> int) \<Rightarrow> 'a list \<Rightarrow> 'a list" where
  "qsort cmp xs = foldr (sort_insert cmp) xs []"

text \<open>The search for a gap between the sorted entries; 0 when there is none.\<close>

fun find_gap :: "u64 \<Rightarrow> u64 \<Rightarrow> BMFSEntry list \<Rightarrow> u64 \<Rightarrow> u64" where
  "find_gap num_blocks blocks_requested [] prev_file_end =
     (if num_blocks - 1 - prev_file_end \<ge> blocks_requested then prev_file_end else 0)"
| "find_gap num_blocks blocks_requested (e # es) prev_file_end =
     (let this_file_start = (if tag e = 1 then num_blocks - 1 else StartingBlock e)
      in if this_file_start - prev_file_end \<ge> blocks_requested then prev_file_end
         else find_gap num_blocks blocks_requested es (StartingBlock e + ReservedBlocks e))"

definition strcpy_name :: "string \<Rightarrow> nat \<Rightarrow> BMFSEntry list \<Rightarrow> BMFSEntry list" where
  "strcpy_name f i dir = decode_dir (overwrite (64 * i) (map byte_of_char f @ [0]) (encode_dir dir))"

definition set_tag :: "u8 \<Rightarrow> BMFSEntry \<Rightarrow> BMFSEntry" where
  "set_tag b e = e\<lparr>FileName := (FileName e)[0 := b]\<rparr>"

definition add_record :: "string \<Rightarrow> u64 \<Rightarrow> u64 \<Rightarrow> nat \<Rightarrow> nat \<Rightarrow> BMFSEntry list \<Rightarrow> BMFSEntry list" where
  "add_record f new_file_start blocks_requested first_free num_used dir =
     (let dir1 = strcpy_name f first_free
            (dir[first_free := (dir ! first_free)
               \<lparr>StartingBlock := new_file_start, ReservedBlocks := blocks_requested, FileSize := 0\<rparr>])
      in if first_free = num_used \<and> num_used + 1 < DIR_ENTRIES
         then dir1[num_used + 1 := set_tag 0 (dir1 ! (num_used + 1))] else dir1)"

definition bmfs_create :: "string \<Rightarrow> u64 \<Rightarrow> bmfs \<Rightarrow> bmfs option" where
  "bmfs_create f maxsize0 s = do {
     let maxsize = (if maxsize0 mod 2 \<noteq> 0 then maxsize0 + 1 else maxsize0);
     found \<leftarrow> findfile (Some f) s;
     if found \<noteq> None then Some (say (''Error: File already exists.'' @ NL) s)
     else
       let blocks_requested = maxsize div 2;
           num_blocks = ucast (disksize s div 2);
           s1 = say (''Creating new file...'' @ NL) s;
           (num_used, first_free) = scan_dir (Directory s1) 0 None
       in case first_free of
            None \<Rightarrow> Some (say (''Cannot create file: no free directory entries.'' @ NL) s1)
          | Some slot \<Rightarrow>
              let sorted_dir = qsort StartingBlockCmp (take num_used (Directory s1));
                  new_file_start = find_gap num_blocks blocks_requested sorted_dir 1
              in if new_file_start = 0
                 then Some (say (''Cannot create file of size '' @ signed_decimal (sint maxsize) @ '' MiB.'' @ NL) s1)
                 else Some (say (''Complete'' @ NL) (flush_directory
                        (s1\<lparr>Directory := add_record f new_file_start blocks_requested slot num_used (Directory s1)\<rparr>)))
   }"

section \<open>Reading, writing and deleting\<close>

definition reading_msg :: "string \<Rightarrow> string" where
  "reading_msg f = ''Reading '' @ quoted f @ '' from BMFS to local file... ''"

definition writing_msg :: "string \<Rightarrow> string" where
  "writing_msg f = ''Writing local file '' @ quoted f @ '' to BMFS... ''"

definition deleting_msg :: "string \<Rightarrow> string" where
  "deleting_msg f = ''Deleting file '' @ quoted f @ '' from BMFS... ''"

definition bmfs_read :: "string option \<Rightarrow> bmfs \<Rightarrow> bmfs option" where
  "bmfs_read f s = do {
     found \<leftarrow> findfile f s;
     case found of
       None \<Rightarrow> Some (say (''Error: File not found in BMFS.'' @ NL) s)
     | Some (slot, e) \<Rightarrow>
         let s1 = say (reading_msg (the f)) s
         in if \<not> writable s (entry_name e)
            then Some (say (''Error: Could not open local file '' @ quoted (entry_name e) @ NL) s1)
            else if 2 ^ 31 \<le> FileSize e then None
            else
              let (bytes, s2) = disk_getc (unat (FileSize e)) (disk_seek_block (StartingBlock e) s1)
              in Some (say (''Complete'' @ NL) (s2\<lparr>host := (host s2)(entry_name e \<mapsto> bytes)\<rparr>))
   }"

definition bmfs_write :: "string option \<Rightarrow> bmfs \<Rightarrow> bmfs option" where
  "bmfs_write f s = do {
     found \<leftarrow> findfile f s;
     case found of
       None \<Rightarrow> Some (say (''Error: File not found in BMFS. A file entry must first be created.'' @ NL) s)
     | Some (slot, e) \<Rightarrow>
         let s1 = say (writing_msg (the f)) s
         in case host s1 (the f) of
              None \<Rightarrow> Some (say (''Error: Could not open local file '' @ quoted (entry_name e) @ NL) s1)
            | Some bytes \<Rightarrow>
                let tempfilesize = of_nat (length bytes)
                in if ReservedBlocks e * BLOCK_BYTES < tempfilesize
                   then Some (say (''Not enough reserved space in BMFS.'' @ NL) s1)
                   else if 2 ^ 31 \<le> tempfilesize then None
                   else
                     let s2 = disk_putc bytes (disk_seek_block (StartingBlock e) s1);
                         s3 = s2\<lparr>Directory := (Directory s2)[slot := (Directory s2 ! slot)\<lparr>FileSize := tempfilesize\<rparr>]\<rparr>
                     in Some (say (''Complete'' @ NL) (flush_directory s3))
   }"

definition bmfs_delete :: "string option \<Rightarrow> bmfs \<Rightarrow> bmfs option" where
  "bmfs_delete f s = do {
     found \<leftarrow> findfile f s;
     case found of
       None \<Rightarrow> Some (say (''Error: File not found in BMFS.'' @ NL) s)
     | Some (slot, e) \<Rightarrow>
         let s1 = say (deleting_msg (the f)) s;
             s2 = s1\<lparr>Directory := (Directory s1)[slot := set_tag 1 (Directory s1 ! slot)]\<rparr>
         in Some (say (''Complete'' @ NL) (flush_directory s2))
   }"

section \<open>Initialisation\<close>

definition minimumDiskSize :: u64 where "minimumDiskSize = 6 * 1024 * 1024"

definition unit_factor :: "char \<Rightarrow> nat option" where
  "unit_factor ch =
     (let c = toupper ch
      in if c = CHR ''K'' then Some 1 else if c = CHR ''M'' then Some 2 else if c = CHR ''G'' then Some 3
         else if c = CHR ''T'' then Some 4 else if c = CHR ''P'' then Some 5 else None)"

definition too_large :: string where "too_large = ''Error: Disk size is too large'' @ NL"

definition invalid_size :: "string \<Rightarrow> string" where
  "invalid_size sz = ''Error: Invalid disk size string: '' @ quoted sz @ NL"

text \<open>The characters of the size: what is printed, and the number with its unit unless there was an error.\<close>

fun size_loop :: "string \<Rightarrow> string \<Rightarrow> nat \<Rightarrow> u64 \<Rightarrow> nat \<Rightarrow> string \<times> (u64 \<times> nat) option" where
  "size_loop sz [] i diskSize factor = ([], Some (diskSize, factor))"
| "size_loop sz (ch # rest) i diskSize factor =
     (if isdigit ch
      then let n = of_nat (char_digit ch)
           in if diskSize * 10 > diskSize then size_loop sz rest (Suc i) (diskSize * 10 + n) factor
              else if diskSize = 0 then size_loop sz rest (Suc i) (diskSize + n) factor
              else (too_large, None)
      else if i = 0 then (''Error: A numeric disk size must be specified'' @ NL, None)
      else case unit_factor ch of
             None \<Rightarrow> (invalid_size sz, None)
           | Some f \<Rightarrow> if rest \<noteq> [] then (invalid_size sz, None) else size_loop sz rest (Suc i) diskSize f)"

text \<open>The multiplications by 1024; the loop goes on after an error.\<close>

fun scale_size :: "nat \<Rightarrow> u64 \<Rightarrow> string \<times> u64 \<times> bool" where
  "scale_size 0 diskSize = ([], diskSize, True)"
| "scale_size (Suc factor) diskSize =
     (if diskSize * 1024 > diskSize then scale_size factor (diskSize * 1024)
      else let (msg, d, ok) = scale_size factor diskSize in (too_large @ msg, d, False))"

definition parse_disk_size :: "string \<Rightarrow> string \<times> u64 option" where
  "parse_disk_size sz =
     (case size_loop sz sz 0 0 0 of
        (msg, None) \<Rightarrow> (msg, None)
      | (msg, Some (d0, factor)) \<Rightarrow>
          let (msg1, d, ok) = (if d0 > 0 \<and> factor > 0 then scale_size factor d0 else ([], d0, True))
          in if \<not> ok then (msg @ msg1, None)
             else if d < minimumDiskSize
             then (msg @ msg1 @ ''Error: Disk size must be at least '' @ decimal (unat minimumDiskSize) @ '' bytes ('' @
                   decimal (unat (minimumDiskSize div (1024 * 1024))) @ ''MiB)'' @ NL, None)
             else (msg @ msg1, Some d))"

text \<open>A stage runs only when the ones before it went well.\<close>

definition and_then :: "bool \<times> bmfs \<Rightarrow> (bmfs \<Rightarrow> bool \<times> bmfs) \<Rightarrow> bool \<times> bmfs" where
  "and_then r f = (if fst r then f (snd r) else r)"

definition open_input :: "string \<Rightarrow> string option \<Rightarrow> bmfs \<Rightarrow> bool \<times> bmfs" where
  "open_input kind name s =
     (case name of None \<Rightarrow> (True, s)
      | Some f \<Rightarrow> if host s f \<noteq> None then (True, s)
                  else (False, say (''Error: Unable to open '' @ kind @ '' file '' @ quoted f @ NL) s))"

definition allocate_buffer :: "bmfs \<Rightarrow> bool \<times> bmfs" where
  "allocate_buffer s =
     (if malloc_ok s then (True, s) else (False, say (''Error: Failed to allocate buffer'' @ NL) s))"

definition open_disk_image :: "string \<Rightarrow> bmfs \<Rightarrow> bool \<times> bmfs" where
  "open_disk_image dn s =
     (if writable s dn
      then (True, s\<lparr>host := (host s)(dn \<mapsto> []), disk := Some \<lparr>s_data = [], s_pos = 0, s_err = False\<rparr>\<rparr>)
      else (False, say (''Error: Unable to open disk '' @ quoted dn @ NL) (s\<lparr>disk := None\<rparr>)))"

definition BUFFER_BYTES :: nat where "BUFFER_BYTES = 50 * 1024"

definition write_failed :: "string \<Rightarrow> string" where
  "write_failed dn = ''Error: Failed to write disk '' @ quoted dn @ NL"

definition formatting :: "nat \<Rightarrow> nat \<Rightarrow> string \<Rightarrow> string" where
  "formatting w size_bytes rest = ''Formatting disk: '' @ decimal w @ '' of '' @ decimal size_bytes @ '' bytes ('' @ rest"

definition progress_msg :: "(nat \<Rightarrow> nat \<Rightarrow> string) \<Rightarrow> nat \<Rightarrow> nat \<Rightarrow> string" where
  "progress_msg pct w n = formatting w n (pct w n @ ''%)...'' @ [CHR 0x0D])"

definition filled_msg :: "nat \<Rightarrow> nat \<Rightarrow> string" where
  "filled_msg w n = formatting w n (''100%)'' @ replicate 9 CHR '' '' @ NL)"

text \<open>Filling the disk with zeros; \<open>pct\<close> prints the percentage, a rounded floating-point number.\<close>

function fill_zeros :: "(nat \<Rightarrow> nat \<Rightarrow> string) \<Rightarrow> string \<Rightarrow> nat \<Rightarrow> nat \<Rightarrow> bmfs \<Rightarrow> bool \<times> bmfs" where
  "fill_zeros pct dn size_bytes w s =
     (if w < size_bytes
      then let s1 = say (progress_msg pct w size_bytes) s;
               chunk = min BUFFER_BYTES (size_bytes - w);
               (ok, s2) = disk_write (replicate chunk 0) s1
           in if ok then fill_zeros pct dn size_bytes (w + chunk) s2 else (False, say (write_failed dn) s2)
      else (True, say (filled_msg w size_bytes) s))"
  by pat_completeness auto
termination
  by (relation "measure (\<lambda>(_, _, size_bytes, w, _). size_bytes - w)") (auto simp: BUFFER_BYTES_def)

declare fill_zeros.simps [simp del]

definition write_mbr :: "string \<Rightarrow> string option \<Rightarrow> bmfs \<Rightarrow> bool \<times> bmfs" where
  "write_mbr dn mbr s =
     (case mbr of None \<Rightarrow> (True, s)
      | Some f \<Rightarrow>
          let s1 = disk_seek 0 (say (''Writing master boot record.'' @ NL) s); bs = the (host s f)
          in if 512 \<le> length bs
             then let (ok, s2) = disk_write (take 512 bs) s1 in (ok, if ok then s2 else say (write_failed dn) s2)
             else (False, say (''Error: Failed to read file '' @ quoted f @ NL) s1))"

text \<open>Copying a file to the disk goes on after a write that failed; at its end the error flag of the disk is
  taken for one of the file.\<close>

function copy_to_disk :: "string \<Rightarrow> string \<Rightarrow> u8 list \<Rightarrow> bmfs \<Rightarrow> bool \<times> bmfs" where
  "copy_to_disk dn f src s =
     (let chunk = take BUFFER_BYTES src
      in if chunk \<noteq> []
         then let (ok, s1) = disk_write chunk s
              in copy_to_disk dn f (drop BUFFER_BYTES src) (if ok then s1 else say (write_failed dn) s1)
         else if (case disk s of None \<Rightarrow> False | Some d \<Rightarrow> s_err d)
         then (False, say (''Error: Failed to read file '' @ quoted f @ NL) s)
         else (True, s))"
  by pat_completeness auto
termination
  by (relation "measure (\<lambda>(_, _, src, _). length src)") (auto simp: BUFFER_BYTES_def)

declare copy_to_disk.simps [simp del]

definition write_boot :: "string \<Rightarrow> string option \<Rightarrow> string option \<Rightarrow> bmfs \<Rightarrow> bool \<times> bmfs" where
  "write_boot dn boot kern s =
     (case boot of None \<Rightarrow> (True, s)
      | Some f \<Rightarrow>
          copy_to_disk dn f (the (host s f))
            (disk_seek 8192 (say (''Writing '' @ (if kern = None then ''system'' else ''boot loader'') @ '' file.'' @ NL) s)))"

definition write_kernel :: "string \<Rightarrow> string option \<Rightarrow> bmfs \<Rightarrow> bool \<times> bmfs" where
  "write_kernel dn kern s =
     (case kern of None \<Rightarrow> (True, s)
      | Some f \<Rightarrow> copy_to_disk dn f (the (host s f)) (say (''Writing kernel.'' @ NL) s))"

definition bmfs_initialize ::
  "(nat \<Rightarrow> nat \<Rightarrow> string) \<Rightarrow> string \<Rightarrow> string \<Rightarrow> string option \<Rightarrow> string option \<Rightarrow> string option \<Rightarrow> bmfs \<Rightarrow> int \<times> bmfs" where
  "bmfs_initialize pct dn sz mbr boot kern s =
     (let (msg, size) = parse_disk_size sz;
          r0 = (size \<noteq> None, say msg s);
          size_bytes = (case size of None \<Rightarrow> 0 | Some d \<Rightarrow> unat d);
          r1 = and_then r0 (open_input ''MBR'' mbr);
          r2 = and_then r1 (open_input (if kern = None then ''system'' else ''boot loader'') boot);
          r3 = and_then r2 (open_input ''kernel'' kern);
          r4 = and_then r3 allocate_buffer;
          r5 = and_then r4 (open_disk_image dn);
          r6 = and_then r5 (fill_zeros pct dn size_bytes 0);
          r7 = and_then r6 (\<lambda>s. (True, bmfs_format (disk_rewind s)));
          r8 = and_then r7 (write_mbr dn mbr);
          r9 = and_then r8 (write_boot dn boot kern);
          (ok, s1) = and_then r9 (write_kernel dn kern);
          s2 = disk_close s1
      in if ok then (0, say (''Disk initialization complete.'' @ NL) s2) else (1, s2))"

section \<open>Program\<close>

definition nth_arg :: "string list \<Rightarrow> nat \<Rightarrow> string option" where
  "nth_arg argv i = (if i < length argv then Some (argv ! i) else None)"

definition bmfs_usage :: "string \<Rightarrow> string" where
  "bmfs_usage prog =
     ''BareMetal File System Utility v1.0 (2013 04 10)'' @ NL @
     ''Written by Ian Seyler @ Return Infinity (ian.seyler@returninfinity.com)'' @ NL @ NL @
     ''Usage: '' @ prog @ '' disk function file'' @ NL @ ''Disk: the name of the disk file'' @ NL @
     ''Function: list, read, write, create, delete, format, initialize'' @ NL @ ''File: (if applicable)'' @ NL"

text \<open>Opening the disk reads its size, the information sector and the directory.\<close>

definition load_disk :: "u8 list \<Rightarrow> bmfs \<Rightarrow> bmfs" where
  "load_disk bs s0 =
     (let s = s0\<lparr>disk := Some \<lparr>s_data = bs, s_pos = 0, s_err = False\<rparr>, disksize := of_nat (length bs div 1048576)\<rparr>;
          (info, s1) = disk_read 512 (disk_seek 1024 s);
          (dir, s2) = disk_read 4096 (disk_seek 4096 s1)
      in disk_rewind (s2\<lparr>DiskInfo := overwrite 0 info (DiskInfo s2),
                         Directory := decode_dir (overwrite 0 dir (encode_dir (Directory s2)))\<rparr>))"

definition is_bmfs :: "bmfs \<Rightarrow> bool" where
  "is_bmfs s \<longleftrightarrow> strcasecmp_eq (map char_of_byte (takeWhile (\<lambda>b. b \<noteq> 0) (DiskInfo s))) ''BMFS''"

text \<open>The size asked for on the console goes through an \<open>unsigned int\<close>, the one of the command line does not.\<close>

definition create_command :: "string list \<Rightarrow> bmfs \<Rightarrow> bmfs option" where
  "create_command argv s =
     (case nth_arg argv 3 of
        None \<Rightarrow> Some (say (''Error: File name not specified.'' @ NL) s)
      | Some f \<Rightarrow>
          case nth_arg argv 4 of
            Some a \<Rightarrow>
              let fsize = host_atoi a
              in if sint fsize \<ge> 1 then bmfs_create f (scast fsize) s
                 else Some (say (''Error: Invalid file size.'' @ NL) s)
          | None \<Rightarrow>
              let s1 = say ''Maximum file size in MiB: '' s; fsize = host_atoi (take 31 (stdin_line s1))
              in if fsize \<ge> 1 then bmfs_create f (ucast fsize) s1
                 else Some (say (''Error: Invalid file size.'' @ NL) s1))"

definition format_command :: "string list \<Rightarrow> bmfs \<Rightarrow> bmfs" where
  "format_command argv s =
     (case nth_arg argv 3 of
        Some a \<Rightarrow> if strcasecmp_eq a ''/FORCE'' then bmfs_format s else say (''Format aborted!'' @ NL) s
      | None \<Rightarrow> say (''Format aborted!'' @ NL) s)"

definition run_bmfs_command :: "string list \<Rightarrow> bmfs \<Rightarrow> bmfs option" where
  "run_bmfs_command argv s =
     (let cmd = argv ! 2; f = nth_arg argv 3
      in if strcasecmp_eq ''list'' cmd then Some (bmfs_list s)
         else if strcasecmp_eq ''format'' cmd then Some (format_command argv s)
         else if strcasecmp_eq ''create'' cmd then create_command argv s
         else if strcasecmp_eq ''read'' cmd then bmfs_read f s
         else if strcasecmp_eq ''write'' cmd then bmfs_write f s
         else if strcasecmp_eq ''delete'' cmd then bmfs_delete f s
         else Some (say (''Unknown command'' @ NL) s))"

definition bmfs_main :: "(nat \<Rightarrow> nat \<Rightarrow> string) \<Rightarrow> string list \<Rightarrow> bmfs \<Rightarrow> (int \<times> bmfs) option" where
  "bmfs_main pct argv s =
     (if length argv < 3 then Some (0, say (bmfs_usage (argv ! 0)) s)
      else
        let s1 = s\<lparr>diskname := argv ! 1\<rparr>; cmd = argv ! 2
        in if strcasecmp_eq ''initialize'' cmd
           then case nth_arg argv 3 of
                  Some sz \<Rightarrow> Some (bmfs_initialize pct (argv ! 1) sz (nth_arg argv 4) (nth_arg argv 5) (nth_arg argv 6) s1)
                | None \<Rightarrow> Some (1, say (''Usage: '' @ argv ! 0 @ '' disk '' @ cmd @ '' size [mbr_file] [bootloader_file] [kernel_file]'' @ NL) s1)
           else case (if writable s1 (argv ! 1) then host s1 (argv ! 1) else None) of
                  None \<Rightarrow> Some (0, say (''Error: Unable to open disk '' @ quoted (argv ! 1) @ NL) s1)
                | Some bs \<Rightarrow>
                    let s2 = load_disk bs s1
                    in if is_bmfs s2 then map_option (\<lambda>s3. (0, disk_close s3)) (run_bmfs_command argv s2)
                       else if strcasecmp_eq ''format'' cmd then Some (0, disk_close (bmfs_format s2))
                       else Some (0, disk_close (say
                              (''Error: Not a valid BMFS drive (Disk is not BMFS formatted).'' @ NL) s2)))"

end
