(* ===== verification/Bmfs_Dir.thy ===== *)
theory Bmfs_Dir
  imports Bmfs MM_Spec "HOL-Library.Multiset"
begin

text \<open>
  The directory of the disk tool: what is written to the disk is read back, copying a name that fits
  changes only the name, the search for a file is a search by name among the live entries, sorting gives the
  entries by their first block, and the search for a gap finds one exactly when there is one.
\<close>

section \<open>Bytes\<close>

lemma le_bytes_Suc: "le_bytes (Suc n) w = ucast w # le_bytes n (drop_bit 8 w)"
proof -
  have "[0..<Suc n] = 0 # map Suc [0..<n]" by (simp add: upt_conv_Cons map_Suc_upt)
  then show ?thesis by (simp add: le_bytes_def add.commute)
qed

lemma le_bytes_0: "le_bytes 0 w = []" and length_le_bytes [simp]: "length (le_bytes n w) = n"
  by (simp_all add: le_bytes_def)

lemma rd_le_bytes: "rd64 (le_bytes n w) = take_bit (8 * n) w"
proof (induction n arbitrary: w)
  case (Suc n)
  have "rd64 (le_bytes (Suc n) w) = take_bit 8 w + push_bit 8 (take_bit (8 * n) (drop_bit 8 w))"
    using Suc.IH [of "drop_bit 8 w"]
    by (simp add: rd64_def le_bytes_Suc push_bit_eq_mult unsigned_ucast_eq)
  also have "take_bit (8 * n) (drop_bit 8 w) = drop_bit 8 (take_bit (8 * Suc n) w)"
    by (simp add: drop_bit_take_bit)
  also have "take_bit 8 w = take_bit 8 (take_bit (8 * Suc n) w)" by simp
  also have "take_bit 8 (take_bit (8 * Suc n) w) + push_bit 8 (drop_bit 8 (take_bit (8 * Suc n) w)) = take_bit (8 * Suc n) w"
    by (metis add.commute bits_ident)
  finally show ?case .
qed (simp add: rd64_def le_bytes_0)

lemma rd64_le_bytes [simp]: "rd64 (le_bytes 8 w) = w"
  by (simp add: rd_le_bytes take_bit_word_eq_self)

lemma char_byte [simp]: "char_of_byte (byte_of_char c) = c"
proof -
  have "(of_char c :: nat) < 256" by simp
  then show ?thesis by (simp add: char_of_byte_def byte_of_char_def unsigned_of_nat take_bit_nat_eq_self)
qed

lemma byte_of_char_0: "byte_of_char c = 0 \<longleftrightarrow> c = NUL"
proof
  assume "byte_of_char c = 0"
  then have "c = char_of_byte 0" by (metis char_byte)
  then show "c = NUL" by (simp add: char_of_byte_def char_of_def)
qed (simp add: byte_of_char_def)

section \<open>Shape\<close>

definition dir_shape :: "BMFSEntry list \<Rightarrow> bool" where
  "dir_shape dir \<longleftrightarrow> length dir = DIR_ENTRIES \<and> (\<forall>e \<in> set dir. length (FileName e) = 32)"

lemma length_encode [simp]: "length (FileName e) = 32 \<Longrightarrow> length (encode_entry e) = 64"
  by (simp add: encode_entry_def)

lemma decode_encode [simp]: "length (FileName e) = 32 \<Longrightarrow> decode_entry (encode_entry e) = e"
  by (simp add: decode_entry_def encode_entry_def)

lemma chunk_take:
  assumes "\<And>xs. xs \<in> set xss \<Longrightarrow> length xs = k" and "i < length xss"
  shows "take k (drop (k * i) (concat xss)) = xss ! i"
  using assms
proof (induction xss arbitrary: i)
  case (Cons xs xss)
  then show ?case by (cases i) simp_all
qed simp

lemma chunk_length: "(\<And>xs. xs \<in> set xss \<Longrightarrow> length xs = k) \<Longrightarrow> length (concat xss) = k * length xss"
  by (induction xss) simp_all

lemma overwrite_inside:
  "p + length bs \<le> length xs \<Longrightarrow> overwrite p bs xs = take p xs @ bs @ drop (p + length bs) xs"
  by (simp add: overwrite_def)

lemma length_overwrite: "p + length bs \<le> length xs \<Longrightarrow> length (overwrite p bs xs) = length xs"
  by (simp add: overwrite_inside)

lemma length_overwrite_ge: "length xs \<le> length (overwrite p bs xs)"
  by (auto simp: overwrite_def min_def)

lemma chunk_overwrite:
  assumes "\<And>xs. xs \<in> set xss \<Longrightarrow> length xs = k" and "i < length xss" and "length bs \<le> k"
  shows "overwrite (k * i) bs (concat xss) = concat (xss[i := overwrite 0 bs (xss ! i)])"
  using assms
proof (induction xss arbitrary: i)
  case (Cons xs xss)
  note len = chunk_length [of xss k]
  show ?case
  proof (cases i)
    case 0
    then show ?thesis using Cons.prems by (simp add: overwrite_def)
  next
    case (Suc j)
    have "overwrite (k * j) bs (concat xss) = concat (xss[j := overwrite 0 bs (xss ! j)])"
      by (rule Cons.IH) (use Cons.prems Suc in auto)
    then show ?thesis using Cons.prems Suc by (auto simp: overwrite_def)
  qed
qed simp

lemma dir_shape_chunks:
  assumes "dir_shape dir"
  shows "\<And>xs. xs \<in> set (map encode_entry dir) \<Longrightarrow> length xs = 64" "length (encode_dir dir) = 4096"
proof -
  show l: "\<And>xs. xs \<in> set (map encode_entry dir) \<Longrightarrow> length xs = 64" using assms by (auto simp: dir_shape_def)
  show "length (encode_dir dir) = 4096"
    using chunk_length [of "map encode_entry dir" 64, OF l] assms by (simp add: encode_dir_def dir_shape_def DIR_ENTRIES_def)
qed

lemma decode_chunks:
  assumes "length xss = DIR_ENTRIES" and "\<And>xs. xs \<in> set xss \<Longrightarrow> length xs = 64"
  shows "decode_dir (concat xss) = map decode_entry xss"
  using assms chunk_take [of xss 64] by (intro nth_equalityI) (simp_all add: decode_dir_def)

lemma decode_encode_dir [simp]:
  assumes "dir_shape dir"
  shows "decode_dir (encode_dir dir) = dir"
proof -
  have "decode_dir (encode_dir dir) = map decode_entry (map encode_entry dir)"
    unfolding encode_dir_def by (rule decode_chunks) (use assms dir_shape_chunks in \<open>auto simp: dir_shape_def\<close>)
  also have "\<dots> = dir" using assms by (auto simp: dir_shape_def intro: map_idI)
  finally show ?thesis .
qed

lemma dir_shape_update: "dir_shape dir \<Longrightarrow> length (FileName e) = 32 \<Longrightarrow> dir_shape (dir[i := e])"
  using set_update_subset_insert [of dir i e] by (auto simp: dir_shape_def)

lemma decode_dir_shape: "4096 \<le> length bs \<Longrightarrow> dir_shape (decode_dir bs)"
  by (auto simp: dir_shape_def decode_dir_def decode_entry_def DIR_ENTRIES_def)

lemma strcpy_name_shape: "dir_shape dir \<Longrightarrow> dir_shape (strcpy_name f i dir)"
  unfolding strcpy_name_def
  by (rule decode_dir_shape) (metis dir_shape_chunks(2) length_overwrite_ge)

text \<open>A name of less than 32 characters.\<close>

definition named :: "string \<Rightarrow> BMFSEntry \<Rightarrow> BMFSEntry" where
  "named f e = e\<lparr>FileName := map byte_of_char f @ 0 # drop (Suc (length f)) (FileName e)\<rparr>"

lemma strcpy_name_short:
  assumes "dir_shape dir" and "i < DIR_ENTRIES" and "length f < 32"
  shows "strcpy_name f i dir = dir[i := named f (dir ! i)]"
proof -
  let ?xss = "map encode_entry dir" and ?bs = "map byte_of_char f @ [0]"
  have i: "i < length dir" and n: "length (FileName (dir ! i)) = 32" using assms by (auto simp: dir_shape_def)
  have "strcpy_name f i dir = decode_dir (concat (?xss[i := overwrite 0 ?bs (?xss ! i)]))"
    unfolding strcpy_name_def encode_dir_def
    by (subst chunk_overwrite) (use assms dir_shape_chunks i in auto)
  also have "overwrite 0 ?bs (?xss ! i) = encode_entry (named f (dir ! i))"
    using n i assms(3) by (simp add: overwrite_def encode_entry_def named_def)
  also have "?xss[i := encode_entry (named f (dir ! i))] = map encode_entry (dir[i := named f (dir ! i)])"
    by (simp add: map_update)
  also have "decode_dir (concat (map encode_entry (dir[i := named f (dir ! i)]))) = dir[i := named f (dir ! i)]"
    using decode_encode_dir [OF dir_shape_update [OF assms(1), of "named f (dir ! i)" i]] assms(3) n
    by (simp add: encode_dir_def named_def)
  finally show ?thesis .
qed

definition valid_name :: "string \<Rightarrow> bool" where
  "valid_name f \<longleftrightarrow> f \<noteq> [] \<and> length f < 32 \<and> NUL \<notin> set f \<and> hd f \<noteq> CHR 0x01"

lemma named_tag:
  assumes "valid_name f"
  shows "tag (named f e) = byte_of_char (hd f)" "tag (named f e) \<noteq> 0" "tag (named f e) \<noteq> 1"
proof -
  show t: "tag (named f e) = byte_of_char (hd f)" using assms by (cases f) (auto simp: valid_name_def tag_def named_def)
  show "tag (named f e) \<noteq> 0" using assms by (auto simp: t byte_of_char_0 valid_name_def dest: hd_in_set)
  have "byte_of_char (CHR 0x01) = 1" by (simp add: byte_of_char_def)
  then show "tag (named f e) \<noteq> 1" using assms by (metis t char_byte valid_name_def)
qed

lemma named_name:
  assumes "valid_name f"
  shows "entry_name (named f e) = f"
proof -
  have "takeWhile (\<lambda>b. b \<noteq> 0) (map byte_of_char f @ 0 # xs) = map byte_of_char f" for xs
    using assms by (subst takeWhile_append2) (auto simp: valid_name_def byte_of_char_0)
  then show ?thesis by (simp add: entry_name_def named_def encode_entry_def comp_def)
qed

section \<open>Live entries\<close>

definition used :: "BMFSEntry list \<Rightarrow> BMFSEntry list" where
  "used dir = takeWhile (\<lambda>e. tag e \<noteq> 0) dir"

definition live_entries :: "BMFSEntry list \<Rightarrow> BMFSEntry list" where
  "live_entries dir = filter (\<lambda>e. tag e \<noteq> 1) (used dir)"

lemma findfile_from_find:
  "findfile_from (Some f) es i =
     Some (map_option (\<lambda>j. (i + j, es ! j)) (List.find (\<lambda>j. tag (es ! j) \<noteq> 1 \<and> entry_name (es ! j) = f) [0..<length (used es)]))"
proof (induction es arbitrary: i)
  case (Cons e es)
  have l: "used (e # es) = (if tag e = 0 then [] else e # used es)" by (simp add: used_def)
  have "[0..<Suc n] = 0 # map Suc [0..<n]" for n by (simp add: upt_conv_Cons map_Suc_upt)
  moreover have "List.find P (map Suc xs) = map_option Suc (List.find (\<lambda>j. P (Suc j)) xs)" for P xs
    by (induction xs) auto
  ultimately show ?case using Cons.IH [of "Suc i"] by (auto simp: l option.map_comp comp_def)
qed (simp add: used_def)

lemma findfile_Some:
  assumes "findfile (Some f) s = Some (Some (i, e))"
  shows "i < length (used (Directory s))" "e = Directory s ! i" "tag e \<noteq> 0" "tag e \<noteq> 1" "entry_name e = f"
    "e \<in> set (live_entries (Directory s))"
proof -
  show i: "i < length (used (Directory s))" and e: "e = Directory s ! i" and t: "tag e \<noteq> 1" and n: "entry_name e = f"
    using assms by (auto simp: findfile_def findfile_from_find find_Some_iff)
  have "used (Directory s) ! i = e" using i e takeWhile_nth by (simp add: used_def)
  then have u: "e \<in> set (used (Directory s))" using i nth_mem by fastforce
  then show "tag e \<noteq> 0" by (auto simp: used_def dest: set_takeWhileD)
  show "e \<in> set (live_entries (Directory s))" using u t by (simp add: live_entries_def)
qed

lemma findfile_None:
  "findfile (Some f) s = Some None \<longleftrightarrow> (\<forall>e \<in> set (live_entries (Directory s)). entry_name e \<noteq> f)"
proof -
  have u: "used (Directory s) ! j = Directory s ! j" if "j < length (used (Directory s))" for j
    using that takeWhile_nth by (simp add: used_def)
  show ?thesis
    by (auto simp: findfile_def findfile_from_find find_None_iff live_entries_def in_set_conv_nth u)
qed

lemma findfile_returns: "\<exists>r. findfile (Some f) s = Some r"
  by (simp add: findfile_def findfile_from_find)

lemma scan_dir_end:
  assumes "length (used dir) < length dir" and "\<And>e. e \<in> set (used dir) \<Longrightarrow> tag e \<noteq> 1"
  shows "scan_dir dir i None = (i + length (used dir), Some (i + length (used dir)))"
  using assms
proof (induction dir arbitrary: i)
  case (Cons e es)
  then show ?case by (auto simp: used_def split: if_splits)
qed (simp add: used_def)

section \<open>Sorting\<close>

lemma mset_sort_insert [simp]: "mset (sort_insert cmp x xs) = add_mset x (mset xs)"
  by (induction xs) auto

lemma mset_qsort [simp]: "mset (qsort cmp xs) = mset xs"
  by (induction xs) (simp_all add: qsort_def)

lemma set_qsort [simp]: "set (qsort cmp xs) = set xs"
  by (metis mset_qsort set_mset_mset)

lemma qsort_sorted:
  fixes key :: "'a \<Rightarrow> nat"
  assumes "\<And>x y. x \<in> set xs \<Longrightarrow> y \<in> set xs \<Longrightarrow> cmp x y \<le> 0 \<longleftrightarrow> key x \<le> key y"
  shows "sorted (map key (qsort cmp xs))"
proof -
  have ins: "sorted (map key (sort_insert cmp x ys))"
    if "sorted (map key ys)" "x \<in> set xs" "set ys \<subseteq> set xs" for x ys
    using that
  proof (induction ys)
    case (Cons y ys)
    have "set (sort_insert cmp x ys) = insert x (set ys)" by (metis mset_sort_insert set_mset_add_mset_insert set_mset_mset)
    then show ?case using Cons assms [of x y] by auto
  qed simp
  have "sorted (map key (foldr (sort_insert cmp) ys []))" if "set ys \<subseteq> set xs" for ys
    using that
  proof (induction ys)
    case (Cons y ys)
    have "set (foldr (sort_insert cmp) ys []) = set ys" using set_qsort [of cmp ys] by (simp add: qsort_def)
    with Cons ins show ?case by simp
  qed simp
  then show ?thesis by (simp add: qsort_def)
qed

lemma StartingBlockCmp_le:
  assumes "tag x \<noteq> 1" "tag y \<noteq> 1" and "unat (StartingBlock x) < 2 ^ 31" "unat (StartingBlock y) < 2 ^ 31"
  shows "StartingBlockCmp x y \<le> 0 \<longleftrightarrow> unat (StartingBlock x) \<le> unat (StartingBlock y)"
proof -
  define a where "a = int (unat (StartingBlock x))"
  define b where "b = int (unat (StartingBlock y))"
  have "unat (StartingBlock x) < 2147483648" "unat (StartingBlock y) < 2147483648" using assms(3,4) by simp_all
  then have ab: "0 \<le> a" "a < 2147483648" "0 \<le> b" "b < 2147483648" unfolding a_def b_def by linarith+
  have "StartingBlock x = word_of_int a" "StartingBlock y = word_of_int b" by (simp_all add: a_def b_def)
  then have "StartingBlockCmp x y = sint (ucast (word_of_int (a - b) :: u64) :: cint)"
    using assms(1,2) by (simp add: StartingBlockCmp_def)
  also have "(ucast (word_of_int d :: u64) :: cint) = word_of_int d" for d
    by (rule bit_word_eqI) (simp add: bit_ucast_iff bit_word_of_int_iff)
  also have "sint (word_of_int (a - b) :: cint) = a - b"
  proof -
    have "sint (word_of_int d :: cint) = d" if "- 2147483648 \<le> d" "d < 2147483648" for d
      using that by (simp add: signed_of_int signed_take_bit_int_eq_self)
    with ab show ?thesis by (simp del: of_int_diff)
  qed
  finally show ?thesis unfolding a_def b_def by linarith
qed

section \<open>Gaps\<close>

text \<open>The blocks reserved for a file; a disk of \<open>n\<close> blocks has its files in the blocks from 1 to \<open>n - 2\<close>.\<close>

definition blocks :: "BMFSEntry \<Rightarrow> region" where
  "blocks e = (unat (StartingBlock e), unat (ReservedBlocks e))"

definition inside :: "nat \<Rightarrow> BMFSEntry \<Rightarrow> bool" where
  "inside n e \<longleftrightarrow> 1 \<le> fst (blocks e) \<and> 1 \<le> snd (blocks e) \<and> fst (blocks e) + snd (blocks e) \<le> n - 1"

definition disjoint_files :: "BMFSEntry list \<Rightarrow> bool" where
  "disjoint_files es \<longleftrightarrow> sorted_wrt (\<lambda>e e'. apart (blocks e) (blocks e')) es"

lemma disjoint_files_mset:
  assumes "disjoint_files es" and "mset es' = mset es"
  shows "disjoint_files es'"
proof -
  let ?P = "\<lambda>e e'. apart (blocks e) (blocks e')"
  have count: "disjoint_files es \<longleftrightarrow> (\<forall>e. e \<in># mset es \<longrightarrow> (\<forall>e'. e' \<in># mset es - {#e#} \<longrightarrow> ?P e e'))" for es
  proof (induction es)
    case (Cons x xs)
    then show ?case by (auto simp: disjoint_files_def apart_sym)
  qed (simp add: disjoint_files_def)
  show ?thesis using assms by (simp only: count set_mset_mset [symmetric])
qed

definition gap_found :: "u64 \<Rightarrow> u64 \<Rightarrow> BMFSEntry list \<Rightarrow> nat \<Rightarrow> u64 \<Rightarrow> bool" where
  "gap_found nb req es lo g \<longleftrightarrow>
     (if g = 0 then \<forall>x. lo \<le> x \<and> x + unat req \<le> unat nb - 1 \<longrightarrow> (\<exists>e \<in> set es. \<not> apart (x, unat req) (blocks e))
      else lo \<le> unat g \<and> unat g + unat req \<le> unat nb - 1 \<and> (\<forall>e \<in> set es. apart (unat g, unat req) (blocks e)))"

lemma find_gap_sorted:
  assumes "sorted (map (\<lambda>e. fst (blocks e)) es)" and "disjoint_files es"
    and "\<And>e. e \<in> set es \<Longrightarrow> tag e \<noteq> 1 \<and> inside (unat nb) e \<and> unat prev \<le> fst (blocks e)"
    and "0 < req" and "0 < prev" and "unat prev \<le> unat nb - 1" and "0 < nb"
  shows "gap_found nb req es (unat prev) (find_gap nb req es prev)"
  using assms
proof (induction es arbitrary: prev)
  case Nil
  have "unat (nb - 1) = unat nb - 1" using Nil(7) by (simp add: unat_minus_one)
  then have "unat (nb - 1 - prev) = unat nb - 1 - unat prev" using Nil(6) by (subst unat_sub_le) (simp_all add: word_le_nat_alt)
  then show ?case using Nil(5,6) by (auto simp: gap_found_def word_le_nat_alt)
next
  case (Cons e es)
  let ?st = "unat (StartingBlock e)" and ?en = "unat (StartingBlock e) + unat (ReservedBlocks e)"
  have e: "tag e \<noteq> 1" "1 \<le> ?st" "1 \<le> unat (ReservedBlocks e)" "?en \<le> unat nb - 1" "unat prev \<le> ?st"
    using Cons.prems(3) [of e] by (auto simp: inside_def blocks_def)
  have le: "?st \<le> fst (blocks e')" if "e' \<in> set es" for e' using Cons.prems(1) that by (auto simp: blocks_def)
  have gap: "unat (StartingBlock e - prev) = ?st - unat prev" using e(5) by (subst unat_sub_le) (simp_all add: word_le_nat_alt)
  show ?case
  proof (cases "req \<le> StartingBlock e - prev")
    case True
    then have "unat prev + unat req \<le> ?st" using gap e(5) by (simp add: word_le_nat_alt)
    moreover have "find_gap nb req (e # es) prev = prev" using True e(1) by simp
    ultimately show ?thesis using Cons.prems(5) e(4) le by (force simp: gap_found_def apart_def blocks_def)
  next
    case False
    let ?p = "StartingBlock e + ReservedBlocks e"
    have p: "unat ?p = ?en" using e(4) unat_64_lt [of nb] by (intro unat_add_lt) simp
    have "unat ?p \<le> fst (blocks e')" if "e' \<in> set es" for e'
      using Cons.prems(2) Cons.prems(3) [of e'] le [OF that] that p
      by (auto simp: disjoint_files_def apart_def inside_def blocks_def)
    then have ih: "gap_found nb req es (unat ?p) (find_gap nb req es ?p)"
      by (intro Cons.IH) (use Cons.prems p e in \<open>auto simp: disjoint_files_def word_gt_0 unat_eq_zero\<close>)
    have short: "?st - unat prev < unat req" using False gap by (simp add: word_le_nat_alt)
    have "\<not> apart (x, unat req) (blocks e)" if "unat prev \<le> x" "\<not> unat ?p \<le> x" for x
      using that short e p by (simp add: apart_def blocks_def)
    moreover have "find_gap nb req (e # es) prev = find_gap nb req es ?p" using False e(1) by simp
    ultimately show ?thesis using ih p e(5) by (auto simp: gap_found_def apart_def blocks_def split: if_splits)
  qed
qed

end
