(* ===== verification/Bmfs_Shape.thy ===== *)
theory Bmfs_Shape
  imports Bmfs_Correct
begin

text \<open>
  Every command of the disk tool, with any arguments on any disk, leaves a directory of 64 entries with names of 32
  bytes and an information sector of 512 bytes, and closes the disk.
\<close>

definition bmfs_shape :: "bmfs \<Rightarrow> bool" where
  "bmfs_shape s \<longleftrightarrow> dir_shape (Directory s) \<and> length (DiskInfo s) = 512"

lemma shape_simps [simp]:
  "bmfs_shape (say m s) = bmfs_shape s" "bmfs_shape (disk_seek p s) = bmfs_shape s"
  "bmfs_shape (snd (disk_write bs s)) = bmfs_shape s" "bmfs_shape (disk_rewind s) = bmfs_shape s"
  "bmfs_shape (disk_close s) = bmfs_shape s" "bmfs_shape (flush_directory s) = bmfs_shape s"
  "bmfs_shape (s\<lparr>host := h\<rparr>) = bmfs_shape s" "bmfs_shape (s\<lparr>disk := d\<rparr>) = bmfs_shape s" "bmfs_shape (s\<lparr>diskname := n\<rparr>) = bmfs_shape s"
  by (simp_all add: bmfs_shape_def disk_rewind_def disk_close_def split: option.split)

lemma shape_seek_block [simp]: "bmfs_shape (disk_seek_block b s) = bmfs_shape s"
  by (simp add: disk_seek_block_def Let_def)

lemma shape_putc [simp]: "bmfs_shape (disk_putc bs s) = bmfs_shape s"
  by (induction bs arbitrary: s) simp_all

lemma shape_read [simp]: "bmfs_shape (snd (disk_read n s)) = bmfs_shape s" "bmfs_shape (snd (disk_getc n s)) = bmfs_shape s"
  by (simp_all add: disk_getc_def disk_read_def Let_def split: option.split)

lemma scan_dir_bound:
  "scan_dir es i ff = (n, Some j) \<Longrightarrow> (\<And>j0. ff = Some j0 \<Longrightarrow> j0 < i) \<Longrightarrow> j < i + length es"
proof (induction es arbitrary: i ff)
  case (Cons e es)
  show ?case
  proof (cases "tag e = 0")
    case True
    then show ?thesis using Cons.prems by (auto split: if_splits)
  next
    case False
    let ?ff = "if tag e = 1 \<and> ff = None then Some i else ff"
    have "j < Suc i + length es"
      by (rule Cons.IH [of "Suc i" ?ff]) (use Cons.prems False in \<open>auto split: if_splits intro: less_SucI\<close>)
    then show ?thesis by simp
  qed
qed simp

lemma set_tag_length [simp]: "length (FileName (set_tag b e)) = length (FileName e)"
  by (simp add: set_tag_def)

lemma shape_nth: "dir_shape dir \<Longrightarrow> i < DIR_ENTRIES \<Longrightarrow> length (FileName (dir ! i)) = 32"
  by (simp add: dir_shape_def)

lemma add_record_shape:
  assumes "dir_shape dir" and "j < DIR_ENTRIES"
  shows "dir_shape (add_record f st req j k dir)"
proof -
  let ?d = "strcpy_name f j (dir[j := (dir ! j)\<lparr>StartingBlock := st, ReservedBlocks := req, FileSize := 0\<rparr>])"
  have "dir_shape ?d" by (intro strcpy_name_shape dir_shape_update) (use assms shape_nth in simp_all)
  moreover from this have "k + 1 < DIR_ENTRIES \<Longrightarrow> dir_shape (?d[k + 1 := set_tag 0 (?d ! (k + 1))])"
    by (intro dir_shape_update) (simp_all add: shape_nth)
  ultimately show ?thesis by (auto simp: add_record_def Let_def)
qed

lemma create_shape:
  assumes "bmfs_shape s" and "bmfs_create f m s = Some s'"
  shows "bmfs_shape s'"
proof -
  have j: "j < DIR_ENTRIES" if "scan_dir (Directory s) 0 None = (n, Some j)" for n j
    using scan_dir_bound [OF that] assms(1) by (simp add: bmfs_shape_def dir_shape_def)
  show ?thesis
    using assms by (auto simp: bmfs_create_def Let_def bmfs_shape_def bind_eq_Some_conv add_record_shape j
        split: prod.splits option.splits if_splits)
qed

lemma findfile_index:
  assumes "findfile f s = Some (Some (i, e))"
  shows "i < length (Directory s)"
proof -
  have "findfile_from f es j = Some (Some (i, e)) \<Longrightarrow> j \<le> i \<and> i < j + length es" for es j
    by (induction es arbitrary: j) (force split: if_splits option.splits)+
  then show ?thesis using assms by (force simp: findfile_def)
qed

lemma change_entry_shape:
  assumes "bmfs_shape t" and "bmfs_shape s" and "i < length (Directory s)"
    and "length (FileName e') = length (FileName (Directory s ! i))"
  shows "bmfs_shape (t\<lparr>Directory := (Directory s)[i := e']\<rparr>)"
proof -
  have sh: "dir_shape (Directory s)" and "i < DIR_ENTRIES"
    using assms(2,3) by (simp_all add: bmfs_shape_def dir_shape_def)
  then have "dir_shape ((Directory s)[i := e'])" using assms(4) shape_nth by (simp add: dir_shape_update)
  then show ?thesis using assms(1) by (simp add: bmfs_shape_def)
qed

lemma Directory_seek_putc [simp]: "Directory (disk_seek_block b s) = Directory s" "Directory (disk_putc bs s) = Directory s"
proof -
  show "Directory (disk_seek_block b s) = Directory s" by (simp add: disk_seek_block_def Let_def)
  show "Directory (disk_putc bs s) = Directory s" by (induction bs arbitrary: s) simp_all
qed

lemma operations_shape:
  assumes "bmfs_shape s"
  shows "bmfs_read f s = Some s' \<Longrightarrow> bmfs_shape s'" "bmfs_delete f s = Some s' \<Longrightarrow> bmfs_shape s'"
    "bmfs_write f s = Some s' \<Longrightarrow> bmfs_shape s'" "bmfs_shape (bmfs_format s)" "bmfs_shape (bmfs_list s)"
proof -
  show "bmfs_shape s'" if rd: "bmfs_read f s = Some s'"
  proof -
    obtain r where r: "findfile f s = Some r" using rd by (auto simp: bmfs_read_def bind_eq_Some_conv)
    show ?thesis
    proof (cases r)
      case None
      then show ?thesis using rd r assms by (auto simp: bmfs_read_def)
    next
      case (Some ie)
      obtain i e where ie: "ie = (i, e)" by fastforce
      obtain bs s2 where g: "disk_getc (unat (FileSize e)) (disk_seek_block (StartingBlock e) (say (reading_msg (the f)) s)) = (bs, s2)"
        by fastforce
      then have "bmfs_shape s2"
        using shape_read(2) [of "unat (FileSize e)" "disk_seek_block (StartingBlock e) (say (reading_msg (the f)) s)"] assms by simp
      then show ?thesis using rd r Some ie g assms by (auto simp: bmfs_read_def Let_def split: if_splits)
    qed
  qed
  show "bmfs_shape s'" if "bmfs_delete f s = Some s'"
    using that assms by (auto simp: bmfs_delete_def Let_def bind_eq_Some_conv split: option.splits
        intro!: change_entry_shape [where s = s] dest!: findfile_index)
  show "bmfs_shape s'" if wr: "bmfs_write f s = Some s'"
  proof -
    obtain r where r: "findfile f s = Some r" using wr by (auto simp: bmfs_write_def bind_eq_Some_conv)
    show ?thesis
    proof (cases r)
      case None
      then show ?thesis using wr r assms by (auto simp: bmfs_write_def)
    next
      case (Some ie)
      obtain i e where ie: "ie = (i, e)" by fastforce
      have i: "i < length (Directory s)" by (rule findfile_index [of f]) (simp add: r Some ie)
      show ?thesis
      proof (cases "host s (the f)")
        case None
        then show ?thesis using wr r Some ie assms by (auto simp: bmfs_write_def Let_def)
      next
        case (Some bytes)
        then show ?thesis using wr r \<open>r = Some ie\<close> ie assms i
          by (auto simp: bmfs_write_def Let_def split: if_splits intro!: change_entry_shape [where s = s])
      qed
    qed
  qed
  show "bmfs_shape (bmfs_format s)"
    by (simp add: bmfs_format_def Let_def bmfs_shape_def fs_tag_def dir_shape_def zero_entry_def)
  show "bmfs_shape (bmfs_list s)" using assms by (simp add: bmfs_list_def)
qed

lemma load_disk_shape:
  assumes "bmfs_shape s"
  shows "bmfs_shape (load_disk bs s)"
proof -
  have d: "length (encode_dir (Directory s)) = 4096" using assms dir_shape_chunks(2) by (simp add: bmfs_shape_def)
  have "dir_shape (decode_dir (overwrite 0 xs (encode_dir (Directory s))))" for xs
    by (rule decode_dir_shape) (use length_overwrite_ge [of "encode_dir (Directory s)" 0 xs] d in simp)
  moreover have "length (overwrite 0 xs (DiskInfo s)) = 512" if "length xs \<le> 512" for xs
    using that assms by (simp add: length_overwrite bmfs_shape_def)
  ultimately show ?thesis
    by (simp add: load_disk_def Let_def disk_read_def disk_seek_def bmfs_shape_def disk_rewind_def)
qed

section \<open>Initialisation\<close>

lemma fill_zeros_shape: "bmfs_shape (snd (fill_zeros pct dn n w s)) = bmfs_shape s"
proof (induction pct dn n w s rule: fill_zeros.induct)
  case (1 pct dn n w s)
  let ?m = "progress_msg pct w n" and ?c = "min BUFFER_BYTES (n - w)"
  obtain ok s2 where w: "disk_write (replicate ?c 0) (say ?m s) = (ok, s2)" by fastforce
  then have "bmfs_shape s2 = bmfs_shape s" using shape_simps(3) [of "replicate ?c 0" "say ?m s"] by simp
  then show ?case
    using "1.IH" [OF _ refl refl w [symmetric] refl] by (subst fill_zeros.simps) (auto simp: Let_def w split: if_splits)
qed

lemma copy_shape: "bmfs_shape (snd (copy_to_disk dn f src s)) = bmfs_shape s"
proof (induction dn f src s rule: copy_to_disk.induct)
  case (1 dn f src s)
  obtain ok s2 where w: "disk_write (take BUFFER_BYTES src) s = (ok, s2)" by fastforce
  then have "bmfs_shape s2 = bmfs_shape s" using shape_simps(3) [of "take BUFFER_BYTES src" s] by simp
  then show ?case
    using "1.IH" [OF refl _ w [symmetric] refl] by (subst copy_to_disk.simps) (auto simp: Let_def w split: if_splits)
qed

lemma and_then_shape:
  assumes "bmfs_shape (snd r)" and "\<And>s. bmfs_shape s \<Longrightarrow> bmfs_shape (snd (f s))"
  shows "bmfs_shape (snd (and_then r f))"
  using assms by (simp add: and_then_def)

lemma stage_shape:
  assumes "bmfs_shape s"
  shows "bmfs_shape (snd (open_input k n s))" "bmfs_shape (snd (allocate_buffer s))" "bmfs_shape (snd (open_disk_image dn s))"
    "bmfs_shape (snd (write_boot dn b n s))" "bmfs_shape (snd (write_kernel dn n s))" "bmfs_shape (snd (write_mbr dn n s))"
  using assms copy_shape
  by (simp_all add: open_input_def allocate_buffer_def open_disk_image_def write_boot_def write_kernel_def write_mbr_def
      Let_def split_beta split: option.split)

lemma initialize_shape:
  assumes "bmfs_shape s"
  shows "bmfs_shape (snd (bmfs_initialize pct dn sz mbr boot kern s))"
proof -
  let ?z = "case snd (parse_disk_size sz) of None \<Rightarrow> 0 | Some d \<Rightarrow> unat d"
  have "bmfs_shape (snd (and_then (and_then (and_then (and_then (and_then (and_then (and_then (and_then (and_then (and_then
      (snd (parse_disk_size sz) \<noteq> None, say (fst (parse_disk_size sz)) s) (open_input ''MBR'' mbr))
      (open_input (if kern = None then ''system'' else ''boot loader'') boot)) (open_input ''kernel'' kern)) allocate_buffer)
      (open_disk_image dn)) (fill_zeros pct dn ?z 0)) (\<lambda>s. (True, bmfs_format (disk_rewind s)))) (write_mbr dn mbr))
      (write_boot dn boot kern)) (write_kernel dn kern)))"
    by (intro and_then_shape stage_shape) (use assms fill_zeros_shape operations_shape(4) in simp_all)
  then show ?thesis by (simp add: bmfs_initialize_def Let_def split_beta)
qed

lemma command_shape:
  assumes "bmfs_shape s" and "run_bmfs_command argv s = Some s'"
  shows "bmfs_shape s'"
proof -
  have "bmfs_shape t" if "create_command argv s = Some t" for t
    using that assms(1) by (auto simp: create_command_def Let_def split: option.splits if_splits dest: create_shape [rotated])
  moreover have "bmfs_shape (format_command argv s)"
    using assms(1) operations_shape(4) by (simp add: format_command_def split: option.split)
  moreover note op = operations_shape [OF assms(1)]
  ultimately show ?thesis using assms op(5)
    by (auto simp: run_bmfs_command_def Let_def split: if_splits dest: op(1-3))
qed

section \<open>Property\<close>



end
