(* ===== verification/Bmfs_Flaws.thy ===== *)
theory Bmfs_Flaws
  imports Bmfs_Correct
begin

text \<open>
  Runs of the disk tool in which creating a file damages others.  After a file was deleted, the search for a gap goes
  on behind the blocks of the deleted entry; and a directory without an end mark is taken to be empty.
\<close>

section \<open>Evaluating commands\<close>

definition padded :: "BMFSEntry list \<Rightarrow> BMFSEntry list" where
  "padded es = es @ replicate (DIR_ENTRIES - length es) zero_entry"

lemma tag_zero [simp]: "tag zero_entry = 0" "set_tag 0 zero_entry = zero_entry" "length (FileName zero_entry) = 32"
  by (simp_all add: tag_def zero_entry_def set_tag_def numeral_eq_Suc)

lemma zeros_end [simp]:
  "findfile_from f (replicate n zero_entry) i = Some None"
  "0 < n \<Longrightarrow> scan_dir (replicate n zero_entry) i ff = (i, if ff = None then Some i else ff)"
  by (cases n, simp_all)+

lemma padded_shape:
  assumes "length es \<le> DIR_ENTRIES" and "\<And>e. e \<in> set es \<Longrightarrow> length (FileName e) = 32"
  shows "dir_shape (padded es)"
  using assms by (auto simp: padded_def dir_shape_def)

lemma create_eval:
  assumes "Directory s = dir" and "disksize s = 16" and "findfile_from (Some f) dir 0 = Some None"
    and "scan_dir dir 0 None = (k, Some j)" and "m mod 2 = 0" and "m div 2 = req"
    and "find_gap 8 req (qsort StartingBlockCmp (take k dir)) 1 = g" and "g \<noteq> 0"
  shows "\<exists>s'. bmfs_create f m s = Some s' \<and> Directory s' = add_record f g req j k dir \<and> disksize s' = 16"
  using assms by (simp add: bmfs_create_def findfile_def Let_def)

lemma delete_eval:
  assumes "Directory s = dir" and "disksize s = 16" and "findfile_from (Some f) dir 0 = Some (Some (i, e))"
  shows "\<exists>s'. bmfs_delete (Some f) s = Some s' \<and> Directory s' = dir[i := set_tag 1 (dir ! i)] \<and> disksize s' = 16"
  using assms by (simp add: bmfs_delete_def findfile_def Let_def)

lemma add_record_append:
  assumes "Suc (length es) < DIR_ENTRIES" and "\<And>e. e \<in> set es \<Longrightarrow> length (FileName e) = 32" and "valid_name f"
  shows "add_record f g req (length es) (length es) (padded es) = padded (es @ [new_entry f g req zero_entry])"
proof -
  let ?k = "length es" and ?z = "zero_entry\<lparr>StartingBlock := g, ReservedBlocks := req, FileSize := 0\<rparr>"
  obtain n where n: "DIR_ENTRIES - ?k = Suc (Suc n)" using assms(1) by (metis Suc_diff_Suc Suc_lessD)
  then have p: "padded es = es @ zero_entry # zero_entry # replicate n zero_entry" by (simp add: padded_def)
  have sh: "dir_shape ((padded es)[?k := ?z])"
    by (intro dir_shape_update padded_shape) (use assms in simp_all)
  have "strcpy_name f ?k ((padded es)[?k := ?z]) = (padded es)[?k := new_entry f g req zero_entry]"
    using strcpy_name_short [OF sh, of ?k f] assms by (simp add: p new_entry_def valid_name_def)
  then have "add_record f g req ?k ?k (padded es) = es @ new_entry f g req zero_entry # zero_entry # replicate n zero_entry"
    using assms(1) by (simp add: add_record_def p nth_append list_update_append)
  also have "DIR_ENTRIES - Suc ?k = Suc n" using n by simp
  then have "es @ new_entry f g req zero_entry # zero_entry # replicate n zero_entry = padded (es @ [new_entry f g req zero_entry])"
    by (simp add: padded_def)
  finally show ?thesis .
qed

lemma add_record_reuse:
  assumes "length es < DIR_ENTRIES" and "\<And>e. e \<in> set es \<Longrightarrow> length (FileName e) = 32" and "valid_name f"
    and "j < length es" and "j \<noteq> k"
  shows "add_record f g req j k (padded es) = padded (es[j := new_entry f g req (es ! j)])"
proof -
  let ?z = "(es ! j)\<lparr>StartingBlock := g, ReservedBlocks := req, FileSize := 0\<rparr>"
  have nth: "padded es ! j = es ! j" "(padded es)[j := x] = padded (es[j := x])" for x
    using assms(4) by (simp_all add: padded_def nth_append list_update_append)
  have sh: "dir_shape (padded (es[j := ?z]))"
    unfolding nth(2) [symmetric] by (intro dir_shape_update padded_shape) (use assms in simp_all)
  have "strcpy_name f j (padded (es[j := ?z])) = padded (es[j := new_entry f g req (es ! j)])"
    using strcpy_name_short [OF sh, of j f] assms by (simp add: padded_def nth_append list_update_append new_entry_def valid_name_def)
  then show ?thesis using assms(5) by (simp add: add_record_def nth)
qed

lemma new_entry_fields [simp]:
  "StartingBlock (new_entry f g req e) = g" "ReservedBlocks (new_entry f g req e) = req"
  "StartingBlock (set_tag b e) = StartingBlock e" "ReservedBlocks (set_tag b e) = ReservedBlocks e"
  by (simp_all add: new_entry_def named_def set_tag_def)

lemma set_tag_1: "length (FileName e) = 32 \<Longrightarrow> tag (set_tag 1 e) = 1" "length (FileName (set_tag b e)) = length (FileName e)"
  by (simp_all add: tag_def set_tag_def)

lemma new_entry_reuse: "valid_name f \<Longrightarrow> length (FileName e) = 32 \<Longrightarrow> tag (new_entry f g req e) \<noteq> 0"
  unfolding new_entry_def by (rule named_tag(2))

lemma scan_full: "(\<And>e. e \<in> set es \<Longrightarrow> tag e \<noteq> 0) \<Longrightarrow> scan_dir es i (Some j) = (0, Some j)"
  by (induction es arbitrary: i) auto

section \<open>The files of the run\<close>

definition file_a :: BMFSEntry where "file_a = new_entry ''a'' 1 1 zero_entry"
definition file_b :: BMFSEntry where "file_b = new_entry ''b'' 2 5 zero_entry"
definition file_c :: BMFSEntry where "file_c = new_entry ''c'' 2 2 (set_tag 1 file_a)"

lemma run_lengths:
  "length (FileName file_a) = 32" "length (FileName file_b) = 32" "length (FileName (set_tag 1 file_a)) = 32"
  using new_entry_zero(1) [OF name_a(1)] new_entry_zero(1) [OF name_a(2)] by (simp_all add: file_a_def file_b_def set_tag_1)

lemma run_tags:
  "tag file_a \<noteq> 0" "tag file_a \<noteq> 1" "tag file_b \<noteq> 0" "tag file_b \<noteq> 1" "tag file_c \<noteq> 0" "tag file_c \<noteq> 1"
  "tag (set_tag 1 file_a) = 1"
  using new_entry_sel(2) [OF name_a(1)] new_entry_sel(2) [OF name_a(2)] new_entry_sel(2) [OF name_a(3)]
    new_entry_zero(2) [OF name_a(1)] new_entry_zero(2) [OF name_a(2)] new_entry_reuse [OF name_a(3) run_lengths(3)]
    set_tag_1(1) [OF run_lengths(1)]
  unfolding file_a_def file_b_def file_c_def by blast+

lemma run_names: "entry_name file_a = ''a''" "entry_name file_b = ''b''" "entry_name file_c = ''c''"
  unfolding file_a_def file_b_def file_c_def
  by (rule new_entry_sel(1) [OF name_a(1)] new_entry_sel(1) [OF name_a(2)] new_entry_sel(1) [OF name_a(3)])+

lemma run_blocks:
  "StartingBlock file_a = 1" "ReservedBlocks file_a = 1" "StartingBlock file_b = 2" "ReservedBlocks file_b = 5"
  "StartingBlock file_c = 2" "ReservedBlocks file_c = 2"
  by (simp_all add: file_a_def file_b_def file_c_def)

lemmas run_files = run_tags run_names run_blocks

lemma create_a:
  "\<exists>s. bmfs_create ''a'' 2 (open_disk []) = Some s \<and> Directory s = padded [file_a] \<and> disksize s = 16"
proof -
  have d: "Directory (open_disk []) = padded []" "disksize (open_disk []) = 16" by (simp_all add: open_disk_def padded_def)
  have "scan_dir (padded []) 0 None = (0, Some 0)" by (simp add: padded_def DIR_ENTRIES_def)
  then have "\<exists>s. bmfs_create ''a'' 2 (open_disk []) = Some s \<and> Directory s = add_record ''a'' 1 1 0 0 (padded []) \<and> disksize s = 16"
    by (intro create_eval d) (simp_all add: padded_def qsort_def)
  moreover have "add_record ''a'' 1 1 0 0 (padded []) = padded [file_a]"
    using add_record_append [of "[]" "''a''" 1 1] name_a by (simp add: file_a_def DIR_ENTRIES_def)
  ultimately show ?thesis by simp
qed

lemma create_b:
  assumes d: "Directory s = padded [file_a]" "disksize s = 16"
  shows "\<exists>s'. bmfs_create ''b'' 10 s = Some s' \<and> Directory s' = padded [file_a, file_b] \<and> disksize s' = 16"
proof -
  have "scan_dir (padded [file_a]) 0 None = (1, Some 1)" using run_tags by (simp add: padded_def DIR_ENTRIES_def)
  then have "\<exists>s'. bmfs_create ''b'' 10 s = Some s' \<and> Directory s' = add_record ''b'' 2 5 1 1 (padded [file_a]) \<and> disksize s' = 16"
    by (intro create_eval d) (use run_files in \<open>simp_all add: padded_def qsort_def\<close>)
  moreover have "add_record ''b'' 2 5 1 1 (padded [file_a]) = padded [file_a, file_b]"
    using add_record_append [of "[file_a]" "''b''" 2 5] name_a run_lengths by (simp add: file_b_def DIR_ENTRIES_def)
  ultimately show ?thesis by simp
qed

lemma delete_a:
  assumes d: "Directory s = padded [file_a, file_b]" "disksize s = 16"
  shows "\<exists>s'. bmfs_delete (Some ''a'') s = Some s' \<and> Directory s' = padded [set_tag 1 file_a, file_b] \<and> disksize s' = 16"
proof -
  have "findfile_from (Some ''a'') (padded [file_a, file_b]) 0 = Some (Some (0, file_a))"
    using run_files by (simp add: padded_def)
  from delete_eval [OF d this] show ?thesis by (simp add: padded_def)
qed

lemma create_c:
  assumes d: "Directory s = padded [set_tag 1 file_a, file_b]" "disksize s = 16"
  shows "\<exists>s'. bmfs_create ''c'' 4 s = Some s' \<and> Directory s' = padded [file_c, file_b]"
proof -
  have "scan_dir (padded [set_tag 1 file_a, file_b]) 0 None = (2, Some 0)" using run_tags by (simp add: padded_def DIR_ENTRIES_def)
  then have "\<exists>s'. bmfs_create ''c'' 4 s = Some s' \<and> Directory s' = add_record ''c'' 2 2 0 2 (padded [set_tag 1 file_a, file_b]) \<and> disksize s' = 16"
    by (intro create_eval d) (use run_files in \<open>simp_all add: padded_def qsort_def StartingBlockCmp_def word_le_nat_alt\<close>)
  moreover have "add_record ''c'' 2 2 0 2 (padded [set_tag 1 file_a, file_b]) = padded [file_c, file_b]"
    using add_record_reuse [of "[set_tag 1 file_a, file_b]" "''c''" 0 2 2 2] name_a run_lengths by (auto simp: file_c_def DIR_ENTRIES_def)
  ultimately show ?thesis by auto
qed

lemma after_delete_ok: "dir_ok 8 (padded [set_tag 1 file_a, file_b])"
proof -
  have "live_entries (padded [set_tag 1 file_a, file_b]) = [file_b]"
    using run_tags by (simp add: live_entries_def used_def padded_def takeWhile_replicate)
  moreover have "0 \<in> set (FileName file_b)" unfolding file_b_def by (rule new_entry_sel(5) [OF name_a(2)])
  ultimately show ?thesis using padded_shape [of "[set_tag 1 file_a, file_b]"] run_lengths run_blocks
    by (auto simp: dir_ok_def disjoint_files_def inside_def blocks_def DIR_ENTRIES_def)
qed

section \<open>Properties\<close>

text \<open>C40: on an empty formatted disk of 16 megabytes, creating a file of 2 megabytes and one of 10, deleting the first
  and creating one of 4 megabytes all succeed, and the blocks of the last file belong to the second one too.\<close>

theorem create_after_delete_overlaps:
  "\<exists>s1 s2 s3 s4 i b j c. bmfs_create ''a'' 2 (open_disk []) = Some s1 \<and> bmfs_create ''b'' 10 s1 = Some s2 \<and>
     bmfs_delete (Some ''a'') s2 = Some s3 \<and> dir_ok 8 (Directory s3) \<and> bmfs_create ''c'' 4 s3 = Some s4 \<and>
     findfile (Some ''b'') s4 = Some (Some (i, b)) \<and> findfile (Some ''c'') s4 = Some (Some (j, c)) \<and>
     \<not> apart (blocks b) (blocks c)"
proof -
  from create_a obtain s1 where s1: "bmfs_create ''a'' 2 (open_disk []) = Some s1" "Directory s1 = padded [file_a]" "disksize s1 = 16"
    by blast
  from create_b [OF s1(2,3)] obtain s2 where s2: "bmfs_create ''b'' 10 s1 = Some s2" "Directory s2 = padded [file_a, file_b]" "disksize s2 = 16"
    by blast
  from delete_a [OF s2(2,3)] obtain s3 where s3: "bmfs_delete (Some ''a'') s2 = Some s3" "Directory s3 = padded [set_tag 1 file_a, file_b]"
    "disksize s3 = 16" by blast
  from create_c [OF s3(2,3)] obtain s4 where s4: "bmfs_create ''c'' 4 s3 = Some s4" "Directory s4 = padded [file_c, file_b]" by blast
  have "findfile (Some ''b'') s4 = Some (Some (1, file_b))" "findfile (Some ''c'') s4 = Some (Some (0, file_c))"
    "\<not> apart (blocks file_b) (blocks file_c)"
    using run_files by (simp_all add: findfile_def s4(2) padded_def apart_def blocks_def)
  moreover have "dir_ok 8 (Directory s3)" unfolding s3(2) by (rule after_delete_ok)
  ultimately show ?thesis using s1(1) s2(1) s3(1) s4(1) by blast
qed

text \<open>When all 64 entries are in use or deleted, no entry has the end mark and the directory counts as empty: creating a
  file in place of a deleted first entry takes block 1, whoever has it, and marks the second entry as the end.  Every
  other file is gone.\<close>

theorem full_directory_loses_files:
  assumes sh: "dir_shape (Directory s)" and full: "\<forall>e \<in> set (Directory s). tag e \<noteq> 0" and del: "tag (Directory s ! 0) = 1"
    and f: "valid_name f" and new: "\<forall>e \<in> set (live_entries (Directory s)). entry_name e \<noteq> f"
    and disk: "disksize s = 16" and m: "m = 2"
  shows "\<exists>s' e. bmfs_create f m s = Some s' \<and> live_entries (Directory s') = [e] \<and> entry_name e = f \<and> blocks e = (1, 1)"
proof -
  let ?dir = "Directory s"
  have len: "length ?dir = 64" using sh by (simp add: dir_shape_def DIR_ENTRIES_def)
  then obtain x xs where x: "?dir = x # xs" by (cases ?dir) auto
  let ?e = "new_entry f 1 1 x"
  have "scan_dir ?dir 0 None = (0, Some 0)" using full del scan_full [of xs "Suc 0" 0] by (simp add: x)
  moreover have "findfile_from (Some f) ?dir 0 = Some None" using new findfile_None [of f s] by (simp add: findfile_def)
  ultimately have "\<exists>s'. bmfs_create f m s = Some s' \<and> Directory s' = add_record f 1 1 0 0 ?dir \<and> disksize s' = 16"
    by (intro create_eval disk) (simp_all add: m qsort_def)
  then obtain s' where s': "bmfs_create f m s = Some s'" "Directory s' = add_record f 1 1 0 0 ?dir" by blast
  have x32: "length (FileName x) = 32" and sh': "dir_shape (?dir[0 := x\<lparr>StartingBlock := 1, ReservedBlocks := 1, FileSize := 0\<rparr>])"
    using sh by (auto simp: x dir_shape_def)
  from x obtain y ys where y: "xs = y # ys" using len by (cases xs) auto
  have y32: "length (FileName y) = 32" using sh by (simp add: x y dir_shape_def)
  have "Directory s' = ?e # set_tag 0 y # ys"
    using s'(2) strcpy_name_short [OF sh', of 0 f] f
    by (simp add: add_record_def x y DIR_ENTRIES_def new_entry_def valid_name_def)
  moreover have "tag (set_tag 0 y) = 0" using y32 by (simp add: tag_def set_tag_def)
  moreover have "tag ?e \<noteq> 0" by (rule new_entry_reuse [OF f x32])
  ultimately have "live_entries (Directory s') = [?e]"
    using new_entry_sel(2) [OF f] by (simp add: live_entries_def used_def)
  with s'(1) new_entry_sel(1,4) [OF f, of 1 1 x] show ?thesis by auto
qed

end
