(* ===== verification/Bmfs_Size.thy ===== *)
theory Bmfs_Size
  imports Bmfs
begin

text \<open>
  The size given to \<open>initialize\<close>: it is read exactly when it fits 64 bits, but the test for overflow lets some sizes
  through that do not.
\<close>

definition number :: "nat \<Rightarrow> string \<Rightarrow> nat" where
  "number n ds = foldl (\<lambda>n c. n * 10 + char_digit c) n ds"

lemma number_ge: "n \<le> number n ds"
proof (induction ds arbitrary: n)
  case (Cons c ds)
  have "n \<le> n * 10 + char_digit c" by simp
  also have "\<dots> \<le> number n (c # ds)" using Cons.IH by (simp add: number_def)
  finally show ?case .
qed (simp add: number_def)

lemma times_small:
  fixes d :: u64
  assumes "unat d * k < 2 ^ 64" and "1 < k"
  shows "unat (d * of_nat k) = unat d * k" "d * of_nat k > d \<longleftrightarrow> d \<noteq> 0"
proof -
  have "unat (d * of_nat k) = (unat d * (k mod 2 ^ 64)) mod 2 ^ 64" by (simp add: unat_word_ariths unsigned_of_nat take_bit_eq_mod)
  also have "\<dots> = (unat d * k) mod 2 ^ 64" by (simp add: mod_mult_right_eq)
  finally show u: "unat (d * of_nat k) = unat d * k" using assms(1) by simp
  have "unat d < unat d * k \<longleftrightarrow> unat d \<noteq> 0" using assms(2) by simp
  then show "d * of_nat k > d \<longleftrightarrow> d \<noteq> 0" unfolding word_less_nat_alt u by (simp add: unat_eq_zero)
qed

lemma size_loop_digits:
  assumes "list_all isdigit ds" and "number (unat d) ds < 2 ^ 64"
  shows "size_loop sz (ds @ rest) i d f = size_loop sz rest (i + length ds) (of_nat (number (unat d) ds)) f"
  using assms
proof (induction ds arbitrary: i d)
  case (Cons c ds)
  let ?n = "unat d * 10 + char_digit c"
  have lt: "?n < 2 ^ 64" using number_ge [of ?n ds] Cons.prems(2) by (simp add: number_def)
  then have g: "unat (d * 10) = unat d * 10" "d * 10 > d \<longleftrightarrow> d \<noteq> 0" using times_small [of d 10] by simp_all
  have "d * 10 + of_nat (char_digit c) = of_nat ?n" by simp
  moreover have "unat (of_nat ?n :: u64) = ?n" by (rule unat_of_nat_64 [OF lt])
  ultimately have n: "unat (d * 10 + of_nat (char_digit c)) = ?n" by simp
  have "size_loop sz ((c # ds) @ rest) i d f = size_loop sz (ds @ rest) (Suc i) (d * 10 + of_nat (char_digit c)) f"
    using Cons.prems(1) g(2) by (cases "d = 0") simp_all
  also have "\<dots> = size_loop sz rest (Suc i + length ds) (of_nat (number ?n ds)) f"
    using Cons.IH [of "d * 10 + of_nat (char_digit c)" "Suc i"] Cons.prems by (simp add: n number_def)
  finally show ?case by (simp add: number_def)
qed (simp add: number_def)

lemma scale_size_fits:
  assumes "d \<noteq> 0" and "unat d * 1024 ^ k < 2 ^ 64"
  shows "scale_size k d = ([], of_nat (unat d * 1024 ^ k), True)"
  using assms
proof (induction k arbitrary: d)
  case (Suc k)
  have "unat d * 1024 \<le> unat d * 1024 ^ Suc k" by simp
  then have "unat d * 1024 < 2 ^ 64" using Suc.prems(2) by linarith
  then have g: "unat (d * 1024) = unat d * 1024" "d * 1024 > d \<longleftrightarrow> d \<noteq> 0" using times_small [of d 1024] by simp_all
  moreover from g(1) Suc.prems(1) have "d * 1024 \<noteq> 0" by (metis mult_eq_0_iff unat_eq_zero zero_neq_numeral)
  ultimately show ?case using Suc.IH [of "d * 1024"] Suc.prems by (simp add: mult.assoc)
qed simp

text \<open>Digits followed by at most one unit give the number they say, when it fits and is at least six megabytes.\<close>

theorem parse_disk_size_correct:
  assumes ds: "list_all isdigit ds" "ds \<noteq> []"
    and u: "u = [] \<and> k = 0 \<or> (\<exists>c. u = [c] \<and> \<not> isdigit c \<and> unit_factor c = Some k)"
    and fits: "number 0 ds * 1024 ^ k < 2 ^ 64" and big: "6291456 \<le> number 0 ds * 1024 ^ k"
  shows "parse_disk_size (ds @ u) = ([], Some (of_nat (number 0 ds * 1024 ^ k)))"
proof -
  let ?v = "number 0 ds" and ?sz = "ds @ u"
  have "?v * 1 \<le> ?v * 1024 ^ k" by (intro mult_le_mono2 one_le_power) simp
  then have v: "?v < 2 ^ 64" using fits by linarith
  have uv: "unat (of_nat ?v :: u64) = ?v" by (rule unat_of_nat_64 [OF v])
  have "0 < ?v" using big by (cases "?v") simp_all
  then have nz: "(of_nat ?v :: u64) \<noteq> 0" using uv by (metis unat_0 less_irrefl)
  have "size_loop ?sz ?sz 0 0 0 = size_loop ?sz u (length ds) (of_nat ?v) 0"
    using size_loop_digits [of ds 0 ?sz u 0 0] ds(1) v by simp
  also have "\<dots> = ([], Some (of_nat ?v, k))" using u ds(2) by auto
  finally have l: "size_loop ?sz ?sz 0 0 0 = ([], Some (of_nat ?v, k))" .
  have "scale_size k (of_nat ?v) = ([], of_nat (?v * 1024 ^ k), True)"
    using scale_size_fits [OF nz, of k] fits by (simp add: uv)
  moreover have "\<not> (of_nat (?v * 1024 ^ k) :: u64) < minimumDiskSize"
    using big unat_of_nat_64 [OF fits] by (simp add: minimumDiskSize_def word_less_nat_alt)
  ultimately show ?thesis using nz by (cases "k = 0") (simp_all add: parse_disk_size_def l word_gt_0)
qed

lemma size_overflow_accepted: "parse_disk_size ''30000000000000000000'' = ([], Some 11553255926290448384)"
  by code_simp

end
